(* ===== verification/Prelude.thy ===== *)
theory Prelude
  imports Main "HOL-Library.Word"
begin

text \<open>
  Shared vocabulary of the development: the machine integers of the Go code, the result
  type that carries Go's error returns and panics, a small weakest-precondition calculus
  for it, and big-endian byte strings.
\<close>

section \<open>Machine integers\<close>

type_synonym byte = "8 word"
type_synonym bytes = "8 word list"
type_synonym u16 = "16 word"
type_synonym u64 = "64 word"
type_synonym u256 = "256 word"

text \<open>
  Signed Go integers are modelled by \<^typ>\<open>int\<close>; where the source performs an unguarded
  addition or a conversion, the wrap-around to the width is written out.
\<close>

definition int32 :: "int \<Rightarrow> int" where
  "int32 x = (x + 2 ^ 31) mod 2 ^ 32 - 2 ^ 31"

definition int64 :: "int \<Rightarrow> int" where
  "int64 x = (x + 2 ^ 63) mod 2 ^ 64 - 2 ^ 63"

text \<open>Go's integer division truncates towards zero.\<close>

definition go_quot :: "int \<Rightarrow> int \<Rightarrow> int" where
  "go_quot a b = sgn a * sgn b * (\<bar>a\<bar> div \<bar>b\<bar>)"

text \<open>\<open>bits.Add64\<close> and \<open>bits.Sub64\<close> of the standard library.\<close>

definition Add64 :: "u64 \<Rightarrow> u64 \<Rightarrow> u64 \<Rightarrow> u64 \<times> u64" where
  "Add64 x y carry =
     (x + y + carry, if 2 ^ 64 \<le> unat x + unat y + unat carry then 1 else 0)"

definition Sub64 :: "u64 \<Rightarrow> u64 \<Rightarrow> u64 \<Rightarrow> u64 \<times> u64" where
  "Sub64 x y borrow =
     (x - y - borrow, if unat x < unat y + unat borrow then 1 else 0)"

section \<open>Errors, panics and results\<close>

text \<open>
  The error constants of \<open>lfvm/errors.go\<close> and \<open>sfvm/errors.go\<close>. \<open>GoPanic\<close> is not
  an error value of the code: it stands for a run-time panic (index out of range), which
  the interpreters must never raise.
\<close>

datatype error =
    errOverflow
  | errInvalidOpCode
  | errInvalidRevision
  | errInvalidJump
  | errOutOfGas
  | errStaticContextViolation
  | errStackLimitsViolation
  | errInitCodeTooLarge
  | errMaxMemoryExpansionSize
  | errStackUnderflow
  | errStackOverflow
  | errCodeSizeExceeded
  | GoPanic

text \<open>
  A Go function that mutates a state of type \<open>'c\<close> and returns a value or an error: the
  state is kept on the error path as well, since the effects made before an error stay
  visible to the caller.
\<close>

type_synonym ('c, 'a) res = "(error + 'a) \<times> 'c"

definition ret :: "'a \<Rightarrow> 'c \<Rightarrow> ('c, 'a) res" where
  "ret a c = (Inr a, c)"

definition fail :: "error \<Rightarrow> 'c \<Rightarrow> ('c, 'a) res" where
  "fail e c = (Inl e, c)"

definition bind :: "('c, 'a) res \<Rightarrow> ('a \<Rightarrow> 'c \<Rightarrow> ('c, 'b) res) \<Rightarrow> ('c, 'b) res" where
  "bind r f = (case r of (Inl e, c) \<Rightarrow> (Inl e, c) | (Inr a, c) \<Rightarrow> f a c)"

text \<open>What is assigned even if the call on the right-hand side returns an error.\<close>

definition on_error :: "('c \<Rightarrow> 'c) \<Rightarrow> ('c, 'a) res \<Rightarrow> ('c, 'a) res" where
  "on_error g r = (case r of (Inl e, c) \<Rightarrow> (Inl e, g c) | (Inr a, c) \<Rightarrow> (Inr a, c))"

text \<open>The outcome of a Go call that may panic.\<close>

datatype 'a go = Panic | Ret 'a

fun go_bind :: "'a go \<Rightarrow> ('a \<Rightarrow> 'b go) \<Rightarrow> 'b go" where
  "go_bind Panic f = Panic"
| "go_bind (Ret a) f = f a"

text \<open>
  \<open>wp r E Q\<close>: the result \<open>r\<close> satisfies \<open>Q\<close> if it is a value and \<open>E\<close> if it
  is an error.
\<close>

definition wp ::
  "('c, 'a) res \<Rightarrow> (error \<Rightarrow> 'c \<Rightarrow> bool) \<Rightarrow> ('a \<Rightarrow> 'c \<Rightarrow> bool) \<Rightarrow> bool" where
  "wp r E Q = (case r of (Inl e, c) \<Rightarrow> E e c | (Inr a, c) \<Rightarrow> Q a c)"

named_theorems wp_simps \<open>equations that push wp through the result operations\<close>
named_theorems op_defs \<open>definitions of the shared EVM operations\<close>

section \<open>Big-endian byte strings\<close>

fun be_nat :: "nat \<Rightarrow> nat \<Rightarrow> bytes" where
  "be_nat 0 k = []"
| "be_nat (Suc n) k = be_nat n (k div 256) @ [word_of_nat (k mod 256)]"

definition nat_of_be :: "bytes \<Rightarrow> nat" where
  "nat_of_be bs = foldl (\<lambda>a b. a * 256 + unat b) 0 bs"

definition be_bytes :: "nat \<Rightarrow> 'a::len word \<Rightarrow> bytes" where
  "be_bytes n w = be_nat n (unat w)"

definition of_be_bytes :: "bytes \<Rightarrow> 'a::len word" where
  "of_be_bytes bs = word_of_nat (nat_of_be bs)"

text \<open>Go's \<open>copy(dst[off:], src)\<close> for a source that fits.\<close>

definition overwrite :: "nat \<Rightarrow> 'a list \<Rightarrow> 'a list \<Rightarrow> 'a list" where
  "overwrite off src dst = take off dst @ src @ drop (off + length src) dst"

section \<open>Lemmas on machine integers\<close>

lemma int32_id [simp]: "- 2147483648 \<le> x \<Longrightarrow> x < 2147483648 \<Longrightarrow> int32 x = x"
  by (simp add: int32_def)

lemma int64_id [simp]:
  "- 9223372036854775808 \<le> x \<Longrightarrow> x < 9223372036854775808 \<Longrightarrow> int64 x = x"
  by (simp add: int64_def)

lemma go_quot_nonneg [simp]: "0 \<le> a \<Longrightarrow> 0 < b \<Longrightarrow> go_quot a b = a div b"
  by (cases "a = 0") (auto simp: go_quot_def sgn_if)

lemma unat_lt_pow: "unat (w :: 'a::len word) < 2 ^ LENGTH('a)"
  by (rule unsigned_less)

lemma unat_u64_bound [simp]: "unat (w :: u64) < 18446744073709551616"
  using unat_lt_pow [of w] by simp

lemma unat_u256_bound:
  "unat (w :: u256)
     < 115792089237316195423570985008687907853269984665640564039457584007913129639936"
  using unat_lt_pow [of w] by simp

lemma unat_byte_bound [simp]: "unat (b :: byte) < 256"
  using unat_lt_pow [of b] by simp

section \<open>Lemmas on results\<close>

lemma wp_ret [wp_simps]: "wp (ret a c) E Q = Q a c"
  by (simp add: wp_def ret_def)

lemma wp_fail [wp_simps]: "wp (fail e c) E Q = E e c"
  by (simp add: wp_def fail_def)

lemma wp_bind [wp_simps]: "wp (bind r f) E Q = wp r E (\<lambda>a c. wp (f a c) E Q)"
  by (cases r) (auto simp: wp_def bind_def split: sum.splits)

lemma wp_on_error [wp_simps]: "wp (on_error g r) E Q = wp r (\<lambda>e c. E e (g c)) Q"
  by (cases r) (auto simp: wp_def on_error_def split: sum.splits)

lemma wp_if [wp_simps]:
  "wp (if b then r else s) E Q = ((b \<longrightarrow> wp r E Q) \<and> (\<not> b \<longrightarrow> wp s E Q))"
  by simp

lemma wp_let [wp_simps]: "wp (Let x f) E Q = wp (f x) E Q"
  by simp

lemma wp_conseq:
  "wp r E' Q' \<Longrightarrow> (\<And>e c. E' e c \<Longrightarrow> E e c) \<Longrightarrow> (\<And>a c. Q' a c \<Longrightarrow> Q a c) \<Longrightarrow> wp r E Q"
  by (auto simp: wp_def split: sum.splits prod.splits)

lemma wp_value: "wp r E Q \<Longrightarrow> r = (Inr a, c) \<Longrightarrow> Q a c"
  by (simp add: wp_def)

lemma wp_error: "wp r E Q \<Longrightarrow> r = (Inl e, c) \<Longrightarrow> E e c"
  by (simp add: wp_def)

lemma on_error_simps [simp]: "on_error g (ret a c) = ret a c" "on_error g (fail e c) = fail e (g c)"
  by (simp_all add: on_error_def ret_def fail_def)

lemma bind_ret [simp]: "bind (ret a c) f = f a c"
  by (simp add: bind_def ret_def)

lemma bind_fail [simp]: "bind (fail e c) f = fail e c"
  by (simp add: bind_def fail_def)

lemma bind_assoc: "bind (bind r f) g = bind r (\<lambda>a c. bind (f a c) g)"
  by (cases r) (auto simp: bind_def split: sum.splits)

lemma ret_neq_fail [simp]: "ret a c \<noteq> fail e d" "fail e d \<noteq> ret a c"
  by (simp_all add: ret_def fail_def)

lemma ret_inject [simp]: "ret a c = ret b d \<longleftrightarrow> a = b \<and> c = d"
  by (simp add: ret_def)

lemma fail_inject [simp]: "fail e c = fail f d \<longleftrightarrow> e = f \<and> c = d"
  by (simp add: fail_def)

section \<open>Lemmas on byte strings\<close>

lemma length_be_nat [simp]: "length (be_nat n k) = n"
  by (induction n k rule: be_nat.induct) auto

lemma length_be_bytes [simp]: "length (be_bytes n w) = n"
  by (simp add: be_bytes_def)

lemma nat_of_be_Nil [simp]: "nat_of_be [] = 0"
  by (simp add: nat_of_be_def)

lemma nat_of_be_snoc [simp]: "nat_of_be (bs @ [b]) = nat_of_be bs * 256 + unat b"
  by (simp add: nat_of_be_def)

lemma nat_of_be_bound: "nat_of_be bs < 256 ^ length bs"
proof (induction bs rule: rev_induct)
  case (snoc b bs)
  have "nat_of_be bs * 256 + unat b < (nat_of_be bs + 1) * 256" by simp
  also have "\<dots> \<le> 256 ^ length bs * 256" using snoc by (intro mult_right_mono) auto
  finally show ?case by (simp add: mult.commute)
qed simp

lemma nat_of_be_be_nat [simp]: "nat_of_be (be_nat n k) = k mod 256 ^ n"
proof (induction n k rule: be_nat.induct)
  case (2 n k)
  have "unat (word_of_nat (k mod 256) :: byte) = k mod 256"
    by (simp add: unat_of_nat)
  with 2 show ?case by (simp add: mod_mult2_eq mult.commute)
qed simp

lemma be_nat_nat_of_be: "be_nat (length bs) (nat_of_be bs) = bs"
proof (induction bs rule: rev_induct)
  case (snoc b bs)
  have "(nat_of_be bs * 256 + unat b) div 256 = nat_of_be bs" by simp
  moreover have "(nat_of_be bs * 256 + unat b) mod 256 = unat b" by simp
  ultimately show ?case using snoc by simp
qed simp

lemma nat_of_be_append: "nat_of_be (xs @ ys) = nat_of_be xs * 256 ^ length ys + nat_of_be ys"
proof (induction ys rule: rev_induct)
  case (snoc y ys)
  show ?case using snoc unfolding append_assoc [symmetric]
    by (simp add: algebra_simps del: append_assoc)
qed simp

lemma nat_of_be_replicate_0 [simp]: "nat_of_be (replicate n 0) = 0"
proof (induction n)
  case (Suc n)
  then show ?case
    by (simp add: nat_of_be_def flip: replicate_append_same)
qed simp

text \<open>A word of \<open>8 * n\<close> bits and its big-endian bytes determine each other.\<close>

lemma of_be_bytes_be_bytes:
  assumes "LENGTH('a) = 8 * n"
  shows "of_be_bytes (be_bytes n (w :: 'a::len word)) = w"
proof -
  have "(256 :: nat) ^ n = 2 ^ LENGTH('a)" by (simp add: assms power_mult)
  then have "unat w mod 256 ^ n = unat w" using unat_lt_pow [of w] by simp
  then show ?thesis by (simp add: of_be_bytes_def be_bytes_def)
qed

lemma unat_of_be_bytes:
  assumes "8 * length bs \<le> LENGTH('a)"
  shows "unat (of_be_bytes bs :: 'a::len word) = nat_of_be bs"
proof -
  have "(256 :: nat) ^ length bs = 2 ^ (8 * length bs)" by (simp add: power_mult)
  also have "\<dots> \<le> 2 ^ LENGTH('a)" using assms by (intro power_increasing) auto
  finally have "nat_of_be bs < 2 ^ LENGTH('a)" using nat_of_be_bound [of bs] by simp
  then show ?thesis by (simp add: of_be_bytes_def unat_of_nat)
qed

lemma be_bytes_of_be_bytes:
  assumes "length bs = n" and "8 * n \<le> LENGTH('a)"
  shows "be_bytes n (of_be_bytes bs :: 'a::len word) = bs"
  using assms by (simp add: be_bytes_def unat_of_be_bytes be_nat_nat_of_be flip: assms(1))

lemma of_be_bytes32 [simp]: "of_be_bytes (be_bytes 32 w) = (w :: u256)"
  by (rule of_be_bytes_be_bytes) simp

lemma be_bytes32 [simp]: "length bs = 32 \<Longrightarrow> be_bytes 32 (of_be_bytes bs :: u256) = bs"
  by (rule be_bytes_of_be_bytes) auto

lemma length_overwrite [simp]:
  "off + length src \<le> length dst \<Longrightarrow> length (overwrite off src dst) = length dst"
  by (simp add: overwrite_def)

lemma read_overwrite [simp]:
  "off + length src \<le> length dst
   \<Longrightarrow> take (length src) (drop off (overwrite off src dst)) = src"
  by (simp add: overwrite_def)

lemma overwrite_Nil [simp]: "overwrite off [] dst = dst"
  by (simp add: overwrite_def)

lemma nth_overwrite:
  assumes "off + length src \<le> length dst" and "i < length dst"
  shows "overwrite off src dst ! i =
    (if off \<le> i \<and> i < off + length src then src ! (i - off) else dst ! i)"
  using assms by (auto simp: overwrite_def nth_append)

end
