(* ===== verification/Tosca_Types.thy ===== *)
theory Tosca_Types
  imports Prelude
begin

text \<open>
  The package \<open>go/tosca\<close>: revisions, storage statuses, call kinds, the parameter and
  result structs of the interpreter interface, the byte-array arithmetic of
  \<open>tosca.Value\<close>, its text encoding, \<open>GetStorageStatus\<close> and \<open>SizeInWords\<close>.
\<close>

section \<open>Fixed-size byte arrays\<close>

text \<open>
  \<open>Address\<close> is a 20-byte array, \<open>Key\<close>, \<open>Word\<close>, \<open>Value\<close> and \<open>Hash\<close> are
  32-byte arrays. Outside the byte-level functions of \<open>types.go\<close> they are identified
  with the words they encode in big-endian order.
\<close>

type_synonym Address = "160 word"
type_synonym Key = u256
type_synonym Word = u256
type_synonym Value = u256
type_synonym Hash = u256
type_synonym Gas = int

section \<open>Revisions\<close>

text \<open>\<open>type Revision int\<close>: any integer is a revision, the known ones are named.\<close>

datatype Revision = Revision int

fun rev_num :: "Revision \<Rightarrow> int" where
  "rev_num (Revision n) = n"

instantiation Revision :: linorder
begin

definition less_eq_Revision :: "Revision \<Rightarrow> Revision \<Rightarrow> bool" where
  "less_eq_Revision r s = (rev_num r \<le> rev_num s)"

definition less_Revision :: "Revision \<Rightarrow> Revision \<Rightarrow> bool" where
  "less_Revision r s = (rev_num r < rev_num s)"

instance
proof
  fix x y z :: Revision
  show "(x < y) = (x \<le> y \<and> \<not> y \<le> x)" by (auto simp: less_eq_Revision_def less_Revision_def)
  show "x \<le> x" by (simp add: less_eq_Revision_def)
  show "x \<le> y \<Longrightarrow> y \<le> z \<Longrightarrow> x \<le> z" by (auto simp: less_eq_Revision_def)
  show "x \<le> y \<Longrightarrow> y \<le> x \<Longrightarrow> x = y" by (cases x; cases y) (auto simp: less_eq_Revision_def)
  show "x \<le> y \<or> y \<le> x" by (auto simp: less_eq_Revision_def)
qed

end

abbreviation R07_Istanbul :: Revision where "R07_Istanbul \<equiv> Revision 0"
abbreviation R09_Berlin :: Revision where "R09_Berlin \<equiv> Revision 1"
abbreviation R10_London :: Revision where "R10_London \<equiv> Revision 2"
abbreviation R11_Paris :: Revision where "R11_Paris \<equiv> Revision 3"
abbreviation R12_Shanghai :: Revision where "R12_Shanghai \<equiv> Revision 4"
abbreviation R13_Cancun :: Revision where "R13_Cancun \<equiv> Revision 5"
abbreviation R14_Prague :: Revision where "R14_Prague \<equiv> Revision 6"
abbreviation R15_Osaka :: Revision where "R15_Osaka \<equiv> Revision 7"

section \<open>Interface structs\<close>

datatype StorageStatus =
    StorageAssigned
  | StorageAdded
  | StorageDeleted
  | StorageModified
  | StorageDeletedAdded
  | StorageModifiedDeleted
  | StorageDeletedRestored
  | StorageAddedDeleted
  | StorageModifiedRestored

datatype AccessStatus = ColdAccess | WarmAccess

datatype CallKind = Call | DelegateCall | StaticCall | CallCode | Create | Create2

record Log =
  log_Address :: Address
  log_Topics :: "Hash list"
  log_Data :: bytes

record CallParameters =
  cp_Sender :: Address
  cp_Recipient :: Address
  cp_Value :: Value
  cp_Input :: bytes
  cp_Gas :: Gas
  cp_Salt :: Hash
  cp_CodeAddress :: Address

record CallResult =
  cr_Output :: bytes
  cr_GasLeft :: Gas
  cr_GasRefund :: Gas
  cr_CreatedAddress :: Address
  cr_Success :: bool

record Result =
  res_Success :: bool
  res_Output :: bytes
  res_GasLeft :: Gas
  res_GasRefund :: Gas

record BlockParameters =
  ChainID :: Word
  BlockNumber :: int
  Timestamp :: int
  Coinbase :: Address
  GasLimit :: Gas
  PrevRandao :: Hash
  BaseFee :: Value
  BlobBaseFee :: Value
  revision :: Revision

record TransactionParameters =
  Origin :: Address
  GasPrice :: Value
  BlobHashes :: "Hash list"

text \<open>
  \<open>tosca.Parameters\<close>. Its field \<open>Context\<close>, the run context the interpreter calls
  back, is an argument of the model's operations instead (theory \<open>Evm_Context\<close>).
\<close>

record Parameters =
  BlockParams :: BlockParameters
  TransactionParams :: TransactionParameters
  Kind :: CallKind
  Static :: bool
  Depth :: int
  Gas :: Gas
  Recipient :: Address
  Sender :: Address
  Input :: bytes
  Value :: Value
  CodeHash :: "Hash option"
  Code :: bytes

section \<open>Storage status and word sizes (utils.go)\<close>

definition GetStorageStatus :: "Word \<Rightarrow> Word \<Rightarrow> Word \<Rightarrow> StorageStatus" where
  "GetStorageStatus original current new =
     (if current = new then StorageAssigned
      else if original = 0 \<and> current = 0 \<and> new \<noteq> 0 then StorageAdded
      else if original \<noteq> 0 \<and> current = original \<and> new = 0 then StorageDeleted
      else if original \<noteq> 0 \<and> current = original \<and> new \<noteq> 0 \<and> new \<noteq> original
        then StorageModified
      else if original \<noteq> 0 \<and> current = 0 \<and> new \<noteq> original \<and> new \<noteq> 0
        then StorageDeletedAdded
      else if original \<noteq> 0 \<and> current \<noteq> original \<and> current \<noteq> 0 \<and> new = 0
        then StorageModifiedDeleted
      else if original \<noteq> 0 \<and> current = 0 \<and> new = original then StorageDeletedRestored
      else if original = 0 \<and> current \<noteq> 0 \<and> new = 0 then StorageAddedDeleted
      else if original \<noteq> 0 \<and> current \<noteq> original \<and> current \<noteq> 0 \<and> new = original
        then StorageModifiedRestored
      else StorageAssigned)"

definition SizeInWords :: "u64 \<Rightarrow> u64" where
  "SizeInWords sz =
     (if - 1 - 31 < sz then (- 1) div 32 + 1 else (sz + 31) div 32)"

section \<open>Arithmetic on 32-byte values (types.go)\<close>

definition getInternalUint64 :: "bytes \<Rightarrow> nat \<Rightarrow> u64" where
  "getInternalUint64 v index = of_be_bytes (take 8 (drop (24 - index * 8) v))"

definition Value_Add :: "bytes \<Rightarrow> bytes \<Rightarrow> bytes" where
  "Value_Add a b =
     (let (r0, c0) = Add64 (getInternalUint64 a 0) (getInternalUint64 b 0) 0;
          (r1, c1) = Add64 (getInternalUint64 a 1) (getInternalUint64 b 1) c0;
          (r2, c2) = Add64 (getInternalUint64 a 2) (getInternalUint64 b 2) c1;
          (r3, _) = Add64 (getInternalUint64 a 3) (getInternalUint64 b 3) c2
      in be_bytes 8 r3 @ be_bytes 8 r2 @ be_bytes 8 r1 @ be_bytes 8 r0)"

definition Value_Sub :: "bytes \<Rightarrow> bytes \<Rightarrow> bytes" where
  "Value_Sub a b =
     (let (r0, c0) = Sub64 (getInternalUint64 a 0) (getInternalUint64 b 0) 0;
          (r1, c1) = Sub64 (getInternalUint64 a 1) (getInternalUint64 b 1) c0;
          (r2, c2) = Sub64 (getInternalUint64 a 2) (getInternalUint64 b 2) c1;
          (r3, _) = Sub64 (getInternalUint64 a 3) (getInternalUint64 b 3) c2
      in be_bytes 8 r3 @ be_bytes 8 r2 @ be_bytes 8 r1 @ be_bytes 8 r0)"

text \<open>\<open>bytes.Compare\<close> of the standard library.\<close>

fun bytes_Compare :: "bytes \<Rightarrow> bytes \<Rightarrow> int" where
  "bytes_Compare [] [] = 0"
| "bytes_Compare [] (_ # _) = - 1"
| "bytes_Compare (_ # _) [] = 1"
| "bytes_Compare (x # xs) (y # ys) =
     (if x < y then - 1 else if y < x then 1 else bytes_Compare xs ys)"

definition Value_Cmp :: "bytes \<Rightarrow> bytes \<Rightarrow> int" where
  "Value_Cmp v w = bytes_Compare v w"

definition Value_Min :: "bytes \<Rightarrow> bytes \<Rightarrow> bytes" where
  "Value_Min a b = (if Value_Cmp a b < 0 then a else b)"

text \<open>\<open>NewValue\<close> panics on more than four arguments.\<close>

definition NewValue :: "u64 list \<Rightarrow> bytes go" where
  "NewValue args =
     (if 4 < length args then Panic
      else Ret (replicate ((4 - length args) * 8) 0 @ concat (map (be_bytes 8) args)))"

section \<open>Text encoding of byte arrays (types.go)\<close>

datatype text_error = MissingPrefix | InvalidHex | WrongLength

definition hex_digit :: "nat \<Rightarrow> char" where
  "hex_digit k = char_of (if k < 10 then 48 + k else 87 + k)"

definition bytesToText :: "bytes \<Rightarrow> string" where
  "bytesToText data =
     ''0x'' @ concat (map (\<lambda>b. [hex_digit (unat b div 16), hex_digit (unat b mod 16)]) data)"

text \<open>\<open>hex.DecodeString\<close> of the standard library, which accepts both letter cases.\<close>

definition fromHexChar :: "char \<Rightarrow> nat option" where
  "fromHexChar c =
     (let n = of_char c :: nat in
      if 48 \<le> n \<and> n \<le> 57 then Some (n - 48)
      else if 97 \<le> n \<and> n \<le> 102 then Some (n - 87)
      else if 65 \<le> n \<and> n \<le> 70 then Some (n - 55)
      else None)"

fun hex_DecodeString :: "string \<Rightarrow> bytes option" where
  "hex_DecodeString [] = Some []"
| "hex_DecodeString [_] = None"
| "hex_DecodeString (c # d # s) =
     (case (fromHexChar c, fromHexChar d) of
        (Some h, Some l) \<Rightarrow>
          (case hex_DecodeString s of
             None \<Rightarrow> None
           | Some bs \<Rightarrow> Some (word_of_nat (16 * h + l) # bs))
      | _ \<Rightarrow> None)"

text \<open>\<open>trg\<close> is the target array, of which only the length matters.\<close>

definition textToBytes :: "nat \<Rightarrow> string \<Rightarrow> text_error + bytes" where
  "textToBytes trg data =
     (if take 2 data \<noteq> ''0x'' then Inl MissingPrefix
      else (case hex_DecodeString (drop 2 data) of
              None \<Rightarrow> Inl InvalidHex
            | Some bs \<Rightarrow> if length bs \<noteq> trg then Inl WrongLength else Inr bs))"

section \<open>Names of call kinds (types.go)\<close>

fun CallKind_String :: "CallKind \<Rightarrow> string" where
  "CallKind_String Call = ''call''"
| "CallKind_String StaticCall = ''static_call''"
| "CallKind_String DelegateCall = ''delegate_call''"
| "CallKind_String CallCode = ''call_code''"
| "CallKind_String Create = ''create''"
| "CallKind_String Create2 = ''create2''"

text \<open>
  The switch of \<open>CallKind.UnmarshalJSON\<close>, applied to the JSON string after
  \<open>strings.ToLower\<close> (on ASCII letters).
\<close>

definition toLower :: "string \<Rightarrow> string" where
  "toLower s = map (\<lambda>c. let n = of_char c :: nat in
     if 65 \<le> n \<and> n \<le> 90 then char_of (n + 32) else c) s"

definition CallKind_Unmarshal :: "string \<Rightarrow> CallKind option" where
  "CallKind_Unmarshal kind =
     (let k = toLower kind in
      if k = ''call'' then Some Call
      else if k = ''static_call'' then Some StaticCall
      else if k = ''delegate_call'' then Some DelegateCall
      else if k = ''call_code'' then Some CallCode
      else if k = ''create'' then Some Create
      else if k = ''create2'' then Some Create2
      else None)"

section \<open>Lemmas\<close>

lemma Revision_le [simp]: "Revision a \<le> Revision b \<longleftrightarrow> a \<le> b"
  by (simp add: less_eq_Revision_def)

lemma Revision_less [simp]: "Revision a < Revision b \<longleftrightarrow> a < b"
  by (simp add: less_Revision_def)

lemma unat_SizeInWords: "unat (SizeInWords sz) = (unat sz + 31) div 32"
proof (cases "- 1 - 31 < sz")
  case True
  then have "18446744073709551584 < unat sz"
    by (simp add: word_less_nat_alt)
  then have "(unat sz + 31) div 32 = 576460752303423488"
    using unat_u64_bound [of sz] by linarith
  moreover have "unat ((- 1 :: u64) div 32 + 1) = 576460752303423488" by simp
  ultimately show ?thesis using True by (simp add: SizeInWords_def)
next
  case False
  then have "unat sz \<le> 18446744073709551584"
    by (simp add: word_less_nat_alt not_less)
  then have "unat (sz + 31) = unat sz + 31"
    by (simp add: unat_word_ariths)
  with False show ?thesis by (simp add: SizeInWords_def unat_div)
qed

lemma fromHexChar_hex_digit [simp]: "k < 16 \<Longrightarrow> fromHexChar (hex_digit k) = Some k"
  by (auto simp: fromHexChar_def hex_digit_def Let_def)

lemma hex_DecodeString_encode:
  "hex_DecodeString (concat (map (\<lambda>b. [hex_digit (unat b div 16), hex_digit (unat b mod 16)]) data))
     = Some data"
proof (induction data)
  case (Cons b data)
  have "unat b div 16 < 16" using unat_byte_bound [of b] by linarith
  moreover have "16 * (unat b div 16) + unat b mod 16 = unat b" by simp
  ultimately show ?case using Cons by simp
qed simp

lemma nat_of_be_limbs:
  assumes "length v = 32"
  shows "nat_of_be v = unat (getInternalUint64 v 3) * 2 ^ 192
    + unat (getInternalUint64 v 2) * 2 ^ 128 + unat (getInternalUint64 v 1) * 2 ^ 64
    + unat (getInternalUint64 v 0)"
proof -
  have limb: "unat (getInternalUint64 v i) = nat_of_be (take 8 (drop (24 - i * 8) v))"
    for i by (simp add: getInternalUint64_def unat_of_be_bytes)
  have split: "drop n v = take 8 (drop n v) @ drop (8 + n) v" for n
    by (simp flip: drop_drop)
  have "v = take 8 v @ take 8 (drop 8 v) @ take 8 (drop 16 v) @ take 8 (drop 24 v)"
    using split [of 0] split [of 8] split [of 16] split [of 24] assms by simp
  then have "nat_of_be v =
    nat_of_be (take 8 v @ take 8 (drop 8 v) @ take 8 (drop 16 v) @ take 8 (drop 24 v))"
    by simp
  also have "\<dots> = nat_of_be (take 8 v) * 2 ^ 192 + nat_of_be (take 8 (drop 8 v)) * 2 ^ 128
    + nat_of_be (take 8 (drop 16 v)) * 2 ^ 64 + nat_of_be (take 8 (drop 24 v))"
    using assms by (simp add: nat_of_be_append)
  finally show ?thesis by (simp add: limb)
qed

lemma nat_of_be_join:
  "nat_of_be (be_bytes 8 (r3 :: u64) @ be_bytes 8 (r2 :: u64) @ be_bytes 8 (r1 :: u64) @ be_bytes 8 (r0 :: u64))
     = unat r3 * 2 ^ 192 + unat r2 * 2 ^ 128 + unat r1 * 2 ^ 64 + unat r0"
  by (simp add: nat_of_be_append be_bytes_def)

lemma Add64_spec:
  assumes "Add64 x y c = (r, d)" and "c = 0 \<or> c = 1"
  shows "unat r + unat d * 18446744073709551616 = unat x + unat y + unat c"
    and "d = 0 \<or> d = 1"
proof -
  define s where "s = unat x + unat y + unat c"
  have c: "unat c \<le> 1" using assms(2) by auto
  have s: "s < 2 * 18446744073709551616"
    using c unat_u64_bound [of x] unat_u64_bound [of y] unfolding s_def by linarith
  have "unat r = s mod 18446744073709551616"
    using assms(1) by (auto simp: Add64_def s_def unat_word_ariths mod_simps)
  moreover have "unat d = (if 18446744073709551616 \<le> s then 1 else 0)"
    using assms(1) by (auto simp: Add64_def s_def)
  ultimately have "unat r + unat d * 18446744073709551616 = s"
    using s by (auto simp: mod_if split: if_splits)
  then show "unat r + unat d * 18446744073709551616 = unat x + unat y + unat c"
    by (simp add: s_def)
  show "d = 0 \<or> d = 1" using assms(1) by (auto simp: Add64_def)
qed

lemma Sub64_spec:
  assumes "Sub64 x y c = (r, d)" and "c = 0 \<or> c = 1"
  shows "unat r + unat y + unat c = unat x + unat d * 18446744073709551616"
    and "d = 0 \<or> d = 1"
proof -
  define s where "s = int (unat x) - int (unat y) - int (unat c)"
  have c: "unat c \<le> 1" using assms(2) by auto
  have s: "- 18446744073709551616 \<le> s" "s < 18446744073709551616"
    using c unat_u64_bound [of x] unat_u64_bound [of y] unfolding s_def by linarith+
  have "r = x - y - c" using assms(1) by (simp add: Sub64_def)
  also have "x - y - c = word_of_int s"
    by (simp add: s_def)
  finally have "uint r = s mod 18446744073709551616"
    by (simp add: uint_word_of_int)
  then have "int (unat r) = s mod 18446744073709551616" by simp
  also have "\<dots> = (if s < 0 then s + 18446744073709551616 else s)"
  proof (cases "s < 0")
    case True
    have "s mod 18446744073709551616 = (s + 18446744073709551616) mod 18446744073709551616"
      by simp
    also have "\<dots> = s + 18446744073709551616"
      using True s by (intro mod_pos_pos_trivial) auto
    finally show ?thesis using True by simp
  next
    case False
    then show ?thesis using s by simp
  qed
  finally have "int (unat r) = (if s < 0 then s + 18446744073709551616 else s)" .
  moreover have "s < 0 \<longleftrightarrow> unat x < unat y + unat c" unfolding s_def by linarith
  then have "d = (if s < 0 then 1 else 0)"
    using assms(1) by (simp add: Sub64_def)
  ultimately have "int (unat r) = s + int (unat d) * 18446744073709551616"
    by (simp split: if_splits del: of_nat_unat)
  then show "unat r + unat y + unat c = unat x + unat d * 18446744073709551616"
    unfolding s_def by linarith
  show "d = 0 \<or> d = 1" using assms(1) by (auto simp: Sub64_def)
qed

lemma length_Value_Add [simp]: "length (Value_Add a b) = 32"
  by (simp add: Value_Add_def split: prod.splits)

lemma length_Value_Sub [simp]: "length (Value_Sub a b) = 32"
  by (simp add: Value_Sub_def split: prod.splits)

lemma nat_of_be_Value_Add:
  assumes "length a = 32" and "length b = 32"
  shows "\<exists>k. nat_of_be (Value_Add a b) + k * 2 ^ 256 = nat_of_be a + nat_of_be b"
proof -
  obtain r0 c0 where 0: "Add64 (getInternalUint64 a 0) (getInternalUint64 b 0) 0 = (r0, c0)"
    by fastforce
  obtain r1 c1 where 1: "Add64 (getInternalUint64 a 1) (getInternalUint64 b 1) c0 = (r1, c1)"
    by fastforce
  obtain r2 c2 where 2: "Add64 (getInternalUint64 a 2) (getInternalUint64 b 2) c1 = (r2, c2)"
    by fastforce
  obtain r3 c3 where 3: "Add64 (getInternalUint64 a 3) (getInternalUint64 b 3) c2 = (r3, c3)"
    by fastforce
  note s0 = Add64_spec [OF 0 disjI1 [OF refl]]
  note s1 = Add64_spec [OF 1 s0(2)]
  note s2 = Add64_spec [OF 2 s1(2)]
  note s3 = Add64_spec [OF 3 s2(2)]
  have "Value_Add a b = be_bytes 8 r3 @ be_bytes 8 r2 @ be_bytes 8 r1 @ be_bytes 8 r0"
    by (simp add: Value_Add_def 0 1 2 3 del: One_nat_def)
  then have "nat_of_be (Value_Add a b) + unat c3 * 2 ^ 256 = nat_of_be a + nat_of_be b"
    using s0(1) s1(1) s2(1) s3(1)
    unfolding nat_of_be_limbs [OF assms(1)] nat_of_be_limbs [OF assms(2)]
    by (simp only: nat_of_be_join) (simp only: power_numeral, simp)
  then show ?thesis by blast
qed

lemma nat_of_be_Value_Sub:
  assumes "length a = 32" and "length b = 32"
  shows "\<exists>k. nat_of_be (Value_Sub a b) + nat_of_be b = nat_of_be a + k * 2 ^ 256"
proof -
  obtain r0 c0 where 0: "Sub64 (getInternalUint64 a 0) (getInternalUint64 b 0) 0 = (r0, c0)"
    by fastforce
  obtain r1 c1 where 1: "Sub64 (getInternalUint64 a 1) (getInternalUint64 b 1) c0 = (r1, c1)"
    by fastforce
  obtain r2 c2 where 2: "Sub64 (getInternalUint64 a 2) (getInternalUint64 b 2) c1 = (r2, c2)"
    by fastforce
  obtain r3 c3 where 3: "Sub64 (getInternalUint64 a 3) (getInternalUint64 b 3) c2 = (r3, c3)"
    by fastforce
  note s0 = Sub64_spec [OF 0 disjI1 [OF refl]]
  note s1 = Sub64_spec [OF 1 s0(2)]
  note s2 = Sub64_spec [OF 2 s1(2)]
  note s3 = Sub64_spec [OF 3 s2(2)]
  have "Value_Sub a b = be_bytes 8 r3 @ be_bytes 8 r2 @ be_bytes 8 r1 @ be_bytes 8 r0"
    by (simp add: Value_Sub_def 0 1 2 3 del: One_nat_def)
  then have "nat_of_be (Value_Sub a b) + nat_of_be b = nat_of_be a + unat c3 * 2 ^ 256"
    using s0(1) s1(1) s2(1) s3(1)
    unfolding nat_of_be_limbs [OF assms(1)] nat_of_be_limbs [OF assms(2)]
    by (simp only: nat_of_be_join) (simp only: power_numeral, simp)
  then show ?thesis by blast
qed

lemma bytes_Compare_nat:
  "length xs = length ys \<Longrightarrow>
   bytes_Compare xs ys =
     (if nat_of_be xs < nat_of_be ys then - 1 else if nat_of_be ys < nat_of_be xs then 1 else 0)"
proof (induction xs ys rule: bytes_Compare.induct)
  case (4 x xs y ys)
  have cons: "nat_of_be (b # bs) = unat b * 256 ^ length bs + nat_of_be bs" for b bs
    using nat_of_be_append [of "[b]" bs] by (simp add: nat_of_be_def)
  have lt: "unat b * 256 ^ length bs + nat_of_be bs < unat b' * 256 ^ length bs'  + nat_of_be bs'"
    if "b < b'" "length bs = length bs'" for b b' :: byte and bs bs'
  proof -
    have "unat b + 1 \<le> unat b'" using that(1) by (simp add: word_less_nat_alt)
    then have "(unat b + 1) * 256 ^ length bs \<le> unat b' * 256 ^ length bs" by (rule mult_right_mono) simp
    then show ?thesis using nat_of_be_bound [of bs] that(2) by (simp add: algebra_simps)
  qed
  consider "x < y" | "y < x" | "x = y" by (meson less_linear)
  then show ?case
  proof cases
    case 1
    then show ?thesis using lt [of x y xs ys] 4 by (simp add: cons)
  next
    case 2
    then show ?thesis using lt [of y x ys xs] 4 by (auto simp: cons)
  next
    case 3
    then show ?thesis using 4 by (simp add: cons)
  qed
qed (simp_all add: nat_of_be_def)

section \<open>Values as 256-bit words\<close>

text \<open>
  The byte-level functions lifted to the words they denote: the form in which the
  processors use them.
\<close>

definition tosca_Add :: "Value \<Rightarrow> Value \<Rightarrow> Value" where
  "tosca_Add a b = of_be_bytes (Value_Add (be_bytes 32 a) (be_bytes 32 b))"

definition tosca_Sub :: "Value \<Rightarrow> Value \<Rightarrow> Value" where
  "tosca_Sub a b = of_be_bytes (Value_Sub (be_bytes 32 a) (be_bytes 32 b))"

definition tosca_Cmp :: "Value \<Rightarrow> Value \<Rightarrow> int" where
  "tosca_Cmp a b = Value_Cmp (be_bytes 32 a) (be_bytes 32 b)"

definition tosca_Min :: "Value \<Rightarrow> Value \<Rightarrow> Value" where
  "tosca_Min a b = of_be_bytes (Value_Min (be_bytes 32 a) (be_bytes 32 b))"

lemma nat_of_be_bytes32 [simp]: "nat_of_be (be_bytes 32 (w :: u256)) = unat w"
proof -
  have "nat_of_be (be_bytes 32 w) = unat (of_be_bytes (be_bytes 32 w) :: u256)"
    by (subst unat_of_be_bytes) auto
  then show ?thesis by simp
qed

lemma word_of_nat_wrap256: "(word_of_nat (x + k * 2 ^ 256) :: u256) = word_of_nat x"
  by (subst word_of_nat_eq_iff) (simp only: take_bit_eq_mod len_num0 len_num1 len_bit0 mod_mult_self1 mult.commute, simp)

lemma tosca_Add_eq [simp]: "tosca_Add a b = a + b"
proof -
  obtain k where
    k: "nat_of_be (Value_Add (be_bytes 32 a) (be_bytes 32 b)) + k * 2 ^ 256 = unat a + unat b"
    using nat_of_be_Value_Add [of "be_bytes 32 a" "be_bytes 32 b"] by auto
  have "a + b = word_of_nat (unat a + unat b)" by simp
  also have "\<dots> = word_of_nat (nat_of_be (Value_Add (be_bytes 32 a) (be_bytes 32 b)) + k * 2 ^ 256)"
    by (simp only: k)
  also have "\<dots> = tosca_Add a b"
    by (simp only: word_of_nat_wrap256 tosca_Add_def of_be_bytes_def)
  finally show ?thesis by simp
qed

lemma tosca_Sub_eq [simp]: "tosca_Sub a b = a - b"
proof -
  obtain k where
    k: "nat_of_be (Value_Sub (be_bytes 32 a) (be_bytes 32 b)) + unat b = unat a + k * 2 ^ 256"
    using nat_of_be_Value_Sub [of "be_bytes 32 a" "be_bytes 32 b"] by auto
  have "tosca_Sub a b + b
      = word_of_nat (nat_of_be (Value_Sub (be_bytes 32 a) (be_bytes 32 b)) + unat b)"
    by (simp add: tosca_Sub_def of_be_bytes_def)
  also have "\<dots> = a" unfolding k word_of_nat_wrap256 by simp
  finally show ?thesis by (simp add: eq_diff_eq)
qed

lemma tosca_Cmp_eq [simp]: "tosca_Cmp a b = (if a < b then - 1 else if b < a then 1 else 0)"
  by (simp add: tosca_Cmp_def Value_Cmp_def bytes_Compare_nat word_less_nat_alt)

lemma tosca_Min_eq [simp]: "tosca_Min a b = min a b"
  by (auto simp: tosca_Min_def Value_Min_def min_def simp flip: tosca_Cmp_def)

end
