(* ===== verification/Registry.thy ===== *)
theory Registry
  imports Tosca_Types
begin

text \<open>
  The registries of interpreters and processors (\<open>go/tosca/interpreter_registry.go\<close>,
  \<open>go/tosca/processor_registry.go\<close>): maps from lower-case names to factories. A factory is
  \<open>None\<close> if it is nil. The global maps are passed as arguments; their locks only make each
  operation atomic. Names are ASCII strings.
\<close>

type_synonym 'f registry = "string \<rightharpoonup> 'f"

datatype registry_error = NilFactory | AlreadyRegistered | TooManyArguments | NotFound | FactoryError

section \<open>Interpreters\<close>

text \<open>A factory gets an optional configuration and returns an interpreter or an error.\<close>

type_synonym ('c, 'i) InterpreterFactory = "'c option \<Rightarrow> registry_error + 'i"

definition GetInterpreterFactory :: "string \<Rightarrow> 'f registry \<Rightarrow> 'f option" where
  "GetInterpreterFactory name r = r (toLower name)"

definition NewInterpreter :: "string \<Rightarrow> 'c option list \<Rightarrow> ('c, 'i) InterpreterFactory registry \<Rightarrow> registry_error + 'i" where
  "NewInterpreter name config r =
     (if 1 < length config then Inl TooManyArguments
      else
        (case GetInterpreterFactory name r of
           None \<Rightarrow> Inl NotFound
         | Some factory \<Rightarrow> factory (if 0 < length config then config ! 0 else None)))"

definition GetInterpreter :: "string \<Rightarrow> ('c, 'i) InterpreterFactory registry \<Rightarrow> 'i option" where
  "GetInterpreter name r = (case NewInterpreter name [None] r of Inl _ \<Rightarrow> None | Inr i \<Rightarrow> Some i)"

definition RegisterInterpreterFactory :: "string \<Rightarrow> 'f option \<Rightarrow> 'f registry \<Rightarrow> registry_error option \<times> 'f registry" where
  "RegisterInterpreterFactory name factory r =
     (let key = toLower name in
      case factory of
        None \<Rightarrow> (Some NilFactory, r)
      | Some f \<Rightarrow> if r key \<noteq> None then (Some AlreadyRegistered, r) else (None, r(key \<mapsto> f)))"

definition MustRegisterInterpreterFactory :: "string \<Rightarrow> 'f option \<Rightarrow> 'f registry \<Rightarrow> 'f registry go" where
  "MustRegisterInterpreterFactory name factory r =
     (case RegisterInterpreterFactory name factory r of (None, r) \<Rightarrow> Ret r | (Some _, _) \<Rightarrow> Panic)"

definition RegisterInterpreter :: "string \<Rightarrow> 'i \<Rightarrow> ('c, 'i) InterpreterFactory registry \<Rightarrow> ('c, 'i) InterpreterFactory registry go" where
  "RegisterInterpreter name impl r =
     (case RegisterInterpreterFactory name (Some (\<lambda>_. Inr impl)) r of (None, r) \<Rightarrow> Ret r | (Some _, _) \<Rightarrow> Panic)"

section \<open>Processors\<close>

definition GetProcessorFactory :: "string \<Rightarrow> 'f registry \<Rightarrow> 'f option" where
  "GetProcessorFactory name r = r (toLower name)"

definition GetProcessor :: "string \<Rightarrow> 'i \<Rightarrow> ('i \<Rightarrow> 'p) registry \<Rightarrow> 'p option" where
  "GetProcessor name interpreter r =
     (case GetProcessorFactory name r of None \<Rightarrow> None | Some factory \<Rightarrow> Some (factory interpreter))"

definition RegisterProcessorFactory :: "string \<Rightarrow> 'f option \<Rightarrow> 'f registry \<Rightarrow> 'f registry go" where
  "RegisterProcessorFactory name impl r =
     (let key = toLower name in
      case impl of
        None \<Rightarrow> Panic
      | Some f \<Rightarrow> if r key \<noteq> None then Panic else Ret (r(key \<mapsto> f)))"

section \<open>Registered names stay\<close>

text \<open>
  The contract of a registry: after a registration the name is bound in every spelling, and
  what was bound before stays bound.
\<close>

locale named_registry =
  fixes register :: "string \<Rightarrow> 'f option \<Rightarrow> 'f registry \<Rightarrow> 'f registry option"
    and get :: "string \<Rightarrow> 'f registry \<Rightarrow> 'f option"
  assumes get_register: "register n f r = Some r' \<Longrightarrow> toLower m = toLower n \<Longrightarrow> get m r' = f"
    and get_other: "register n f r = Some r' \<Longrightarrow> toLower m \<noteq> toLower n \<Longrightarrow> get m r' = get m r"
    and once: "register n f r = Some r' \<Longrightarrow> f \<noteq> None \<and> get n r = None"
    and get_lower: "toLower m = toLower n \<Longrightarrow> get m r = get n r"
begin

lemma get_stays:
  assumes "register n f r = Some r'" and "get m r = Some g"
  shows "get m r' = Some g"
proof (cases "toLower m = toLower n")
  case True
  then show ?thesis using once [OF assms(1)] get_lower [OF True, of r] assms(2) by simp
next
  case False
  then show ?thesis using get_other [OF assms(1)] assms(2) by simp
qed

text \<open>A second registration under the same name, in any spelling, is refused.\<close>

lemma no_overwrite:
  assumes "register n f r = Some r'" and "toLower m = toLower n"
  shows "register m g r' = None"
proof (rule ccontr)
  assume "register m g r' \<noteq> None"
  then obtain s where "register m g r' = Some s" by auto
  then have "get m r' = None" by (simp add: once)
  then show False using get_register [OF assms] once [OF assms(1)] by simp
qed

end

definition registered :: "'f registry go \<Rightarrow> 'f registry option" where
  "registered x = (case x of Panic \<Rightarrow> None | Ret r \<Rightarrow> Some r)"

interpretation interpreters: named_registry "\<lambda>n f r. registered (MustRegisterInterpreterFactory n f r)" GetInterpreterFactory
  by unfold_locales
    (auto simp: registered_def MustRegisterInterpreterFactory_def RegisterInterpreterFactory_def GetInterpreterFactory_def Let_def
      split: option.splits if_splits)

interpretation processors: named_registry "\<lambda>n f r. registered (RegisterProcessorFactory n f r)" GetProcessorFactory
  by unfold_locales
    (auto simp: registered_def RegisterProcessorFactory_def GetProcessorFactory_def Let_def split: option.splits if_splits)

text \<open>An implementation that was registered is found under its name, without and with a configuration.\<close>

lemma registered_interpreter_found:
  assumes "RegisterInterpreter name impl r = Ret r'" and "toLower m = toLower name" and "length config \<le> 1"
  shows "NewInterpreter m config r' = Inr impl" "GetInterpreter m r' = Some impl"
proof -
  have "registered (MustRegisterInterpreterFactory name (Some (\<lambda>_. Inr impl)) r) = Some r'"
    using assms(1) by (simp add: RegisterInterpreter_def MustRegisterInterpreterFactory_def registered_def split: prod.splits option.splits)
  from interpreters.get_register [OF this assms(2)]
  have "GetInterpreterFactory m r' = Some (\<lambda>_. Inr impl)" .
  then show "NewInterpreter m config r' = Inr impl" "GetInterpreter m r' = Some impl"
    using assms(3) by (simp_all add: NewInterpreter_def GetInterpreter_def)
qed

end
