(* ===== verification/Evm_Stack.thy ===== *)
theory Evm_Stack
  imports Tosca_Types
begin

text \<open>
  The fixed-size operand stack (\<open>sfvm/stack.go\<close>, \<open>lfvm/stack.go\<close>: the two files are
  the same). The array model below keeps the array of 1024 cells, the stack pointer and the
  run-time panics of out-of-range accesses. The locale \<open>evm_stack\<close> is the contract the
  instructions rely on; it is interpreted on the array model, and on the list of live cells
  that the interpreters of this development use as their stack.
\<close>

section \<open>The array stack of stack.go\<close>

abbreviation (input) maxStackSize :: nat where "maxStackSize \<equiv> 1024"

record stack =
  stk_data :: "u256 list"
  stk_ptr :: int

text \<open>Reading and writing an array cell, with Go's bounds check.\<close>

definition cell :: "u256 list \<Rightarrow> int \<Rightarrow> u256 go" where
  "cell d i = (if 0 \<le> i \<and> i < int (length d) then Ret (d ! nat i) else Panic)"

definition stack_push :: "u256 \<Rightarrow> stack \<Rightarrow> stack go" where
  "stack_push v s =
     (case cell (stk_data s) (stk_ptr s) of
        Panic \<Rightarrow> Panic
      | Ret _ \<Rightarrow> Ret (s\<lparr>stk_data := (stk_data s)[nat (stk_ptr s) := v],
                      stk_ptr := stk_ptr s + 1\<rparr>))"

text \<open>\<open>pushUndefined\<close> returns a pointer to the new top cell: its index.\<close>

definition pushUndefined :: "stack \<Rightarrow> (nat \<times> stack) go" where
  "pushUndefined s =
     (let s' = s\<lparr>stk_ptr := stk_ptr s + 1\<rparr> in
      case cell (stk_data s') (stk_ptr s' - 1) of
        Panic \<Rightarrow> Panic
      | Ret _ \<Rightarrow> Ret (nat (stk_ptr s' - 1), s'))"

definition stack_pop :: "stack \<Rightarrow> (u256 \<times> stack) go" where
  "stack_pop s =
     (let s' = s\<lparr>stk_ptr := stk_ptr s - 1\<rparr> in
      case cell (stk_data s') (stk_ptr s') of
        Panic \<Rightarrow> Panic
      | Ret v \<Rightarrow> Ret (v, s'))"

definition stack_len :: "stack \<Rightarrow> int" where
  "stack_len s = stk_ptr s"

definition stack_peek :: "stack \<Rightarrow> u256 go" where
  "stack_peek s = cell (stk_data s) (stack_len s - 1)"

definition stack_peekN :: "nat \<Rightarrow> stack \<Rightarrow> u256 go" where
  "stack_peekN n s = cell (stk_data s) (stack_len s - int n - 1)"

definition stack_swap :: "nat \<Rightarrow> stack \<Rightarrow> stack go" where
  "stack_swap n s =
     (case (cell (stk_data s) (stack_len s - 1), cell (stk_data s) (stack_len s - int n - 1)) of
        (Ret t, Ret u) \<Rightarrow>
          Ret (s\<lparr>stk_data := (stk_data s)[nat (stack_len s - int n - 1) := t, nat (stack_len s - 1) := u]\<rparr>)
      | _ \<Rightarrow> Panic)"

definition stack_dup :: "nat \<Rightarrow> stack \<Rightarrow> stack go" where
  "stack_dup n s =
     (case (cell (stk_data s) (stk_ptr s - int n - 1), cell (stk_data s) (stk_ptr s)) of
        (Ret v, Ret _) \<Rightarrow>
          Ret (s\<lparr>stk_data := (stk_data s)[nat (stk_ptr s) := v],
                 stk_ptr := stk_ptr s + 1\<rparr>)
      | _ \<Rightarrow> Panic)"

definition stack_get :: "int \<Rightarrow> stack \<Rightarrow> u256 go" where
  "stack_get i s = cell (stk_data s) i"

text \<open>
  \<open>sync.Pool\<close>: \<open>Get\<close> hands out any previously returned stack, or a zeroed one when the
  pool is empty. The choice is the pool's; the model takes the head of the list.
\<close>

definition NewStack :: "stack list \<Rightarrow> stack \<times> stack list" where
  "NewStack pool =
     (case pool of
        [] \<Rightarrow> (\<lparr>stk_data = replicate maxStackSize 0, stk_ptr = 0\<rparr>, [])
      | s # rest \<Rightarrow> (s, rest))"

definition ReturnStack :: "stack \<Rightarrow> stack list \<Rightarrow> stack list" where
  "ReturnStack s pool = s\<lparr>stk_ptr := 0\<rparr> # pool"

text \<open>The well-formed stacks, and the live cells from the top down.\<close>

definition stack_wf :: "stack \<Rightarrow> bool" where
  "stack_wf s \<longleftrightarrow>
     length (stk_data s) = maxStackSize \<and> 0 \<le> stk_ptr s \<and> stk_ptr s \<le> int maxStackSize"

definition live :: "stack \<Rightarrow> u256 list" where
  "live s = List.rev (take (nat (stk_ptr s)) (stk_data s))"

section \<open>The list stack\<close>

definition list_push :: "u256 \<Rightarrow> u256 list \<Rightarrow> u256 list go" where
  "list_push v xs = (if length xs < maxStackSize then Ret (v # xs) else Panic)"

definition list_pop :: "u256 list \<Rightarrow> (u256 \<times> u256 list) go" where
  "list_pop xs = (case xs of [] \<Rightarrow> Panic | v # ys \<Rightarrow> Ret (v, ys))"

definition list_peekN :: "nat \<Rightarrow> u256 list \<Rightarrow> u256 go" where
  "list_peekN n xs = (if n < length xs then Ret (xs ! n) else Panic)"

definition list_swap :: "nat \<Rightarrow> u256 list \<Rightarrow> u256 list go" where
  "list_swap n xs = (if n < length xs then Ret (xs[n := xs ! 0, 0 := xs ! n]) else Panic)"

definition list_dup :: "nat \<Rightarrow> u256 list \<Rightarrow> u256 list go" where
  "list_dup n xs =
     (if n < length xs \<and> length xs < maxStackSize then Ret (xs ! n # xs) else Panic)"

section \<open>Sequences of stack operations\<close>

datatype stack_op = SPush u256 | SPop | SPeek nat | SSwap nat | SDup nat

text \<open>
  Run a sequence of operations on any implementation and collect the values read; a panic
  ends the run.
\<close>

fun run_ops ::
  "(u256 \<Rightarrow> 's \<Rightarrow> 's go) \<Rightarrow> ('s \<Rightarrow> (u256 \<times> 's) go) \<Rightarrow> (nat \<Rightarrow> 's \<Rightarrow> u256 go) \<Rightarrow>
   (nat \<Rightarrow> 's \<Rightarrow> 's go) \<Rightarrow> (nat \<Rightarrow> 's \<Rightarrow> 's go) \<Rightarrow> stack_op list \<Rightarrow> 's \<Rightarrow> u256 list go" where
  "run_ops psh pp pk sw du [] s = Ret []"
| "run_ops psh pp pk sw du (SPush v # ops) s =
     (case psh v s of Panic \<Rightarrow> Panic | Ret s' \<Rightarrow> run_ops psh pp pk sw du ops s')"
| "run_ops psh pp pk sw du (SPop # ops) s =
     (case pp s of Panic \<Rightarrow> Panic
      | Ret (v, s') \<Rightarrow>
          (case run_ops psh pp pk sw du ops s' of Panic \<Rightarrow> Panic | Ret vs \<Rightarrow> Ret (v # vs)))"
| "run_ops psh pp pk sw du (SPeek n # ops) s =
     (case pk n s of Panic \<Rightarrow> Panic
      | Ret v \<Rightarrow>
          (case run_ops psh pp pk sw du ops s of Panic \<Rightarrow> Panic | Ret vs \<Rightarrow> Ret (v # vs)))"
| "run_ops psh pp pk sw du (SSwap n # ops) s =
     (case sw n s of Panic \<Rightarrow> Panic | Ret s' \<Rightarrow> run_ops psh pp pk sw du ops s')"
| "run_ops psh pp pk sw du (SDup n # ops) s =
     (case du n s of Panic \<Rightarrow> Panic | Ret s' \<Rightarrow> run_ops psh pp pk sw du ops s')"

section \<open>The stack contract\<close>

locale evm_stack =
  fixes psh :: "u256 \<Rightarrow> 's \<Rightarrow> 's go"
    and pp :: "'s \<Rightarrow> (u256 \<times> 's) go"
    and pk :: "nat \<Rightarrow> 's \<Rightarrow> u256 go"
    and sw :: "nat \<Rightarrow> 's \<Rightarrow> 's go"
    and du :: "nat \<Rightarrow> 's \<Rightarrow> 's go"
    and abs :: "'s \<Rightarrow> u256 list"
    and inv :: "'s \<Rightarrow> bool"
  assumes psh_panic: "inv s \<Longrightarrow> psh v s = Panic \<longleftrightarrow> length (abs s) = maxStackSize"
    and psh_ret: "inv s \<Longrightarrow> psh v s = Ret s' \<Longrightarrow> inv s' \<and> abs s' = v # abs s"
    and pp_panic: "inv s \<Longrightarrow> pp s = Panic \<longleftrightarrow> abs s = []"
    and pp_ret: "inv s \<Longrightarrow> pp s = Ret (v, s') \<Longrightarrow> inv s' \<and> abs s = v # abs s'"
    and pk_eq: "inv s \<Longrightarrow> pk n s = list_peekN n (abs s)"
    and sw_panic: "inv s \<Longrightarrow> sw n s = Panic \<longleftrightarrow> length (abs s) \<le> n"
    and sw_ret: "inv s \<Longrightarrow> sw n s = Ret s' \<Longrightarrow>
      inv s' \<and> abs s' = (abs s)[n := abs s ! 0, 0 := abs s ! n]"
    and du_panic: "inv s \<Longrightarrow>
      du n s = Panic \<longleftrightarrow> length (abs s) \<le> n \<or> length (abs s) = maxStackSize"
    and du_ret: "inv s \<Longrightarrow> du n s = Ret s' \<Longrightarrow> inv s' \<and> abs s' = abs s ! n # abs s"
    and inv_bound: "inv s \<Longrightarrow> length (abs s) \<le> maxStackSize"
begin

text \<open>Each operation agrees with the list operation on the abstraction.\<close>

lemma psh_list:
  "inv s \<Longrightarrow> psh v s = Panic \<and> list_push v (abs s) = Panic \<or>
     (\<exists>s'. psh v s = Ret s' \<and> inv s' \<and> list_push v (abs s) = Ret (abs s'))"
  using inv_bound [of s] psh_panic [of s v] psh_ret [of s v]
  by (cases "psh v s") (auto simp: list_push_def)

lemma pp_list:
  "inv s \<Longrightarrow> pp s = Panic \<and> list_pop (abs s) = Panic \<or>
     (\<exists>v s'. pp s = Ret (v, s') \<and> inv s' \<and> list_pop (abs s) = Ret (v, abs s'))"
  using pp_panic [of s] pp_ret [of s]
  by (cases "pp s") (auto simp: list_pop_def)

lemma sw_list:
  "inv s \<Longrightarrow> sw n s = Panic \<and> list_swap n (abs s) = Panic \<or>
     (\<exists>s'. sw n s = Ret s' \<and> inv s' \<and> list_swap n (abs s) = Ret (abs s'))"
  using sw_panic [of s n] sw_ret [of s n]
  by (cases "sw n s") (auto simp: list_swap_def)

lemma du_list:
  "inv s \<Longrightarrow> du n s = Panic \<and> list_dup n (abs s) = Panic \<or>
     (\<exists>s'. du n s = Ret s' \<and> inv s' \<and> list_dup n (abs s) = Ret (abs s'))"
  using inv_bound [of s] du_panic [of s n] du_ret [of s n]
  by (cases "du n s") (auto simp: list_dup_def)

text \<open>Any sequence of operations reads what the list stack reads, panics included.\<close>

lemma run_ops_abs:
  "inv s \<Longrightarrow> run_ops psh pp pk sw du ops s
     = run_ops list_push list_pop list_peekN list_swap list_dup ops (abs s)"
proof (induction ops arbitrary: s)
  case (Cons op ops)
  show ?case
  proof (cases op)
    case (SPush v)
    with Cons psh_list [of s v] show ?thesis by auto
  next
    case SPop
    with Cons pp_list [of s] show ?thesis by auto
  next
    case (SPeek n)
    with Cons show ?thesis by (cases "list_peekN n (abs s)") (simp_all add: pk_eq)
  next
    case (SSwap n)
    with Cons sw_list [of s n] show ?thesis by auto
  next
    case (SDup n)
    with Cons du_list [of s n] show ?thesis by auto
  qed
qed simp

end

section \<open>Interpretation on the array stack\<close>

lemma cell_Ret: "cell d i = Ret v \<longleftrightarrow> 0 \<le> i \<and> i < int (length d) \<and> v = d ! nat i"
  by (auto simp: cell_def)

lemma cell_Panic: "cell d i = Panic \<longleftrightarrow> i < 0 \<or> int (length d) \<le> i"
  by (auto simp: cell_def)

lemma length_live: "stack_wf s \<Longrightarrow> length (live s) = nat (stk_ptr s)"
  unfolding stack_wf_def live_def by (simp, linarith)

lemma nth_live:
  assumes "stack_wf s" and "n < nat (stk_ptr s)"
  shows "live s ! n = stk_data s ! nat (stk_ptr s - int n - 1)"
proof -
  have "nat (stk_ptr s) - Suc n = nat (stk_ptr s - int n - 1)" by linarith
  moreover have "nat (stk_ptr s) \<le> length (stk_data s)"
    using assms(1) by (simp add: stack_wf_def nat_le_iff)
  ultimately show ?thesis using assms(2) by (simp add: live_def rev_nth min_def)
qed

lemma live_Cons:
  assumes "length (stk_data s) = maxStackSize" and "0 < stk_ptr s"
    and "stk_ptr s \<le> int maxStackSize"
  shows "live s = stk_data s ! nat (stk_ptr s - 1) # live (s\<lparr>stk_ptr := stk_ptr s - 1\<rparr>)"
proof -
  have eq: "nat (stk_ptr s) = Suc (nat (stk_ptr s - 1))" using assms(2) by linarith
  have "nat (stk_ptr s - 1) < length (stk_data s)" using assms by linarith
  then show ?thesis by (simp add: live_def eq take_Suc_conv_app_nth)
qed

lemma live_update_dead [simp]:
  "nat (stk_ptr s) \<le> i \<Longrightarrow> live (s\<lparr>stk_data := (stk_data s)[i := v]\<rparr>) = live s"
  by (simp add: live_def)

lemma live_swap:
  assumes "stack_wf s" and "n < nat (stk_ptr s)"
  shows "live (s\<lparr>stk_data := (stk_data s)
      [nat (stk_ptr s - int n - 1) := stk_data s ! nat (stk_ptr s - 1),
       nat (stk_ptr s - 1) := stk_data s ! nat (stk_ptr s - int n - 1)]\<rparr>)
    = (live s)[n := live s ! 0, 0 := live s ! n]" (is "live ?t = ?r")
proof (rule nth_equalityI)
  have wf: "stack_wf ?t" using assms(1) by (simp add: stack_wf_def)
  show "length (live ?t) = length ?r"
    using length_live [OF assms(1)] length_live [OF wf] by simp
  fix i assume "i < length (live ?t)"
  then have i: "i < nat (stk_ptr s)" using length_live [OF wf] by simp
  have d: "length (stk_data s) = maxStackSize" "stk_ptr s \<le> int maxStackSize"
    using assms(1) by (auto simp: stack_wf_def)
  have inj: "nat (stk_ptr s - int a - 1) = nat (stk_ptr s - int b - 1) \<longleftrightarrow> a = b"
    if "a < nat (stk_ptr s)" "b < nat (stk_ptr s)" for a b using that by linarith
  have lt: "nat (stk_ptr s - int a - 1) < length (stk_data s)" for a using d by linarith
  have "live ?t ! i = stk_data ?t ! nat (stk_ptr s - int i - 1)"
    using nth_live [OF wf, of i] i by simp
  also have "\<dots> = ?r ! i"
    using i assms length_live [OF assms(1)] lt [of 0] lt [of n] lt [of i]
      inj [of 0 n] inj [of 0 i] inj [of n i]
      nth_live [OF assms(1), of 0] nth_live [OF assms(1), of n] nth_live [OF assms(1), of i]
    by (auto simp: nth_list_update)
  finally show "live ?t ! i = ?r ! i" .
qed

interpretation arr: evm_stack stack_push stack_pop stack_peekN stack_swap stack_dup live stack_wf
proof (unfold_locales, goal_cases)
  case (1 s v)
  then show ?case
    by (auto simp: stack_push_def length_live stack_wf_def cell_def split: go.splits)
next
  case (2 s v s')
  then have s': "s' = s\<lparr>stk_data := (stk_data s)[nat (stk_ptr s) := v], stk_ptr := stk_ptr s + 1\<rparr>"
    and lt: "stk_ptr s < int maxStackSize"
    by (auto simp: stack_push_def stack_wf_def cell_Ret split: go.splits)
  from 2(1) s' lt have "stack_wf s'" by (simp add: stack_wf_def)
  moreover have "live s' = v # live s"
    using 2(1) lt by (subst live_Cons) (auto simp: s' stack_wf_def live_def)
  ultimately show ?case by simp
next
  case (3 s)
  then show ?case
    by (auto simp: stack_pop_def stack_wf_def live_def cell_def Let_def split: go.splits if_splits)
next
  case (4 s v s')
  then have s': "s' = s\<lparr>stk_ptr := stk_ptr s - 1\<rparr>" and gt: "0 < stk_ptr s"
    and v: "v = stk_data s ! nat (stk_ptr s - 1)"
    by (auto simp: stack_pop_def cell_Ret Let_def split: go.splits)
  from 4(1) s' gt have "stack_wf s'" by (simp add: stack_wf_def)
  moreover have "live s = v # live s'"
    using 4(1) gt live_Cons [of s] by (simp add: s' v stack_wf_def)
  ultimately show ?case by simp
next
  case (5 s n)
  then show ?case
    by (auto simp: stack_peekN_def list_peekN_def stack_len_def cell_def length_live nth_live
        stack_wf_def)
next
  case (6 s n)
  then show ?case
    by (auto simp: stack_swap_def stack_len_def length_live cell_def stack_wf_def split: go.splits)
next
  case (7 s n s')
  then have n: "n < nat (stk_ptr s)"
    and s': "s' = s\<lparr>stk_data := (stk_data s)
      [nat (stk_ptr s - int n - 1) := stk_data s ! nat (stk_ptr s - 1),
       nat (stk_ptr s - 1) := stk_data s ! nat (stk_ptr s - int n - 1)]\<rparr>"
    by (auto simp: stack_swap_def stack_len_def cell_Ret split: go.splits)
  with 7(1) live_swap [of s n] show ?case by (simp add: stack_wf_def)
next
  case (8 s n)
  then show ?case
    by (auto simp: stack_dup_def length_live cell_def stack_wf_def split: go.splits)
next
  case (9 s n s')
  then have n: "n < nat (stk_ptr s)" and lt: "stk_ptr s < int maxStackSize"
    and s': "s' = s\<lparr>stk_data := (stk_data s)[nat (stk_ptr s) := stk_data s ! nat (stk_ptr s - int n - 1)],
      stk_ptr := stk_ptr s + 1\<rparr>"
    by (auto simp: stack_dup_def stack_wf_def cell_Ret split: go.splits)
  from 9(1) s' lt have "stack_wf s'" by (simp add: stack_wf_def)
  moreover have "live s' = live s ! n # live s"
    using 9(1) lt n by (subst live_Cons) (auto simp: s' stack_wf_def live_def nth_live [symmetric])
  ultimately show ?case by simp
next
  case (10 s)
  then show ?case by (simp add: length_live) (simp add: stack_wf_def, linarith)
qed

section \<open>Interpretation on the list stack\<close>

interpretation lst: evm_stack list_push list_pop list_peekN list_swap list_dup
  "\<lambda>xs. xs" "\<lambda>xs. length xs \<le> maxStackSize"
  by unfold_locales
    (auto simp: list_push_def list_pop_def list_peekN_def list_swap_def list_dup_def
      split: if_splits list.splits)

section \<open>The pool\<close>

definition pool_ok :: "stack list \<Rightarrow> bool" where
  "pool_ok pool \<longleftrightarrow> (\<forall>s \<in> set pool. stack_wf s \<and> stk_ptr s = 0)"

lemma NewStack_empty:
  "pool_ok pool \<Longrightarrow> NewStack pool = (s, pool') \<Longrightarrow> stack_wf s \<and> live s = [] \<and> pool_ok pool'"
  by (auto simp: NewStack_def pool_ok_def stack_wf_def live_def split: list.splits)

lemma ReturnStack_ok: "pool_ok pool \<Longrightarrow> stack_wf s \<Longrightarrow> pool_ok (ReturnStack s pool)"
  by (simp add: ReturnStack_def pool_ok_def stack_wf_def)

end
