(* ===== verification/Evm_Context.thy ===== *)
theory Evm_Context
  imports Evm_Stack
begin

text \<open>
  The execution context of an interpreter run (\<open>sfvm/interpreter.go\<close>,
  \<open>lfvm/interpreter.go\<close>), and the interfaces it depends on: the 256-bit integer package,
  the Keccak hash and the run context (\<open>go/tosca/interpreter.go\<close>) are arguments of the
  model, collected in the record \<open>env\<close>.
\<close>

section \<open>The 256-bit integers\<close>

text \<open>
  \<open>uint256.Int\<close> is an array of four 64-bit limbs: a 256-bit word. Its conversions read
  and write that representation; its arithmetic is a parameter, with the documented
  behaviour as the assumptions of the locale \<open>uint256_arith\<close>.
\<close>

definition IsUint64 :: "u256 \<Rightarrow> bool" where
  "IsUint64 x \<longleftrightarrow> unat x < 2 ^ 64"

definition Uint64 :: "u256 \<Rightarrow> u64" where
  "Uint64 x = ucast x"

definition SetUint64 :: "u64 \<Rightarrow> u256" where
  "SetUint64 x = ucast x"

definition Bytes20 :: "u256 \<Rightarrow> Address" where
  "Bytes20 x = ucast x"

definition SetBytes20 :: "Address \<Rightarrow> u256" where
  "SetBytes20 x = ucast x"

record uint256_lib =
  u_Add :: "u256 \<Rightarrow> u256 \<Rightarrow> u256"
  u_Sub :: "u256 \<Rightarrow> u256 \<Rightarrow> u256"
  u_Mul :: "u256 \<Rightarrow> u256 \<Rightarrow> u256"
  u_Div :: "u256 \<Rightarrow> u256 \<Rightarrow> u256"
  u_SDiv :: "u256 \<Rightarrow> u256 \<Rightarrow> u256"
  u_Mod :: "u256 \<Rightarrow> u256 \<Rightarrow> u256"
  u_SMod :: "u256 \<Rightarrow> u256 \<Rightarrow> u256"
  u_AddMod :: "u256 \<Rightarrow> u256 \<Rightarrow> u256 \<Rightarrow> u256"
  u_MulMod :: "u256 \<Rightarrow> u256 \<Rightarrow> u256 \<Rightarrow> u256"
  u_Exp :: "u256 \<Rightarrow> u256 \<Rightarrow> u256"
  u_ExtendSign :: "u256 \<Rightarrow> u256 \<Rightarrow> u256"
  u_Byte :: "u256 \<Rightarrow> u256 \<Rightarrow> u256"
  u_And :: "u256 \<Rightarrow> u256 \<Rightarrow> u256"
  u_Or :: "u256 \<Rightarrow> u256 \<Rightarrow> u256"
  u_Xor :: "u256 \<Rightarrow> u256 \<Rightarrow> u256"
  u_Not :: "u256 \<Rightarrow> u256"
  u_Lsh :: "u256 \<Rightarrow> nat \<Rightarrow> u256"
  u_Rsh :: "u256 \<Rightarrow> nat \<Rightarrow> u256"
  u_SRsh :: "u256 \<Rightarrow> nat \<Rightarrow> u256"
  u_Lt :: "u256 \<Rightarrow> u256 \<Rightarrow> bool"
  u_Gt :: "u256 \<Rightarrow> u256 \<Rightarrow> bool"
  u_Slt :: "u256 \<Rightarrow> u256 \<Rightarrow> bool"
  u_Sgt :: "u256 \<Rightarrow> u256 \<Rightarrow> bool"
  u_Cmp :: "u256 \<Rightarrow> u256 \<Rightarrow> int"
  u_Sign :: "u256 \<Rightarrow> int"
  u_BitLen :: "u256 \<Rightarrow> nat"
  u_ByteLen :: "u256 \<Rightarrow> nat"

section \<open>The run context\<close>

text \<open>
  \<open>tosca.TransactionContext\<close> (with the embedded \<open>tosca.WorldState\<close>) over a state type
  \<open>'w\<close>: getters read the state, the other methods return the new state.
\<close>

record 'w TransactionContext =
  AccountExists :: "'w \<Rightarrow> Address \<Rightarrow> bool"
  CreateContract :: "Address \<Rightarrow> 'w \<Rightarrow> 'w"
  IsNewContract :: "'w \<Rightarrow> Address \<Rightarrow> bool"
  GetBalance :: "'w \<Rightarrow> Address \<Rightarrow> Value"
  SetBalance :: "Address \<Rightarrow> Value \<Rightarrow> 'w \<Rightarrow> 'w"
  GetNonce :: "'w \<Rightarrow> Address \<Rightarrow> u64"
  SetNonce :: "Address \<Rightarrow> u64 \<Rightarrow> 'w \<Rightarrow> 'w"
  GetCode :: "'w \<Rightarrow> Address \<Rightarrow> bytes"
  GetCodeHash :: "'w \<Rightarrow> Address \<Rightarrow> Hash"
  GetCodeSize :: "'w \<Rightarrow> Address \<Rightarrow> int"
  SetCode :: "Address \<Rightarrow> bytes \<Rightarrow> 'w \<Rightarrow> 'w"
  HasEmptyStorage :: "'w \<Rightarrow> Address \<Rightarrow> bool"
  GetStorage :: "'w \<Rightarrow> Address \<Rightarrow> Key \<Rightarrow> Word"
  SetStorage :: "Address \<Rightarrow> Key \<Rightarrow> Word \<Rightarrow> 'w \<Rightarrow> StorageStatus \<times> 'w"
  SelfDestruct :: "Address \<Rightarrow> Address \<Rightarrow> 'w \<Rightarrow> bool \<times> 'w"
  CreateSnapshot :: "'w \<Rightarrow> int \<times> 'w"
  RestoreSnapshot :: "int \<Rightarrow> 'w \<Rightarrow> 'w"
  GetTransientStorage :: "'w \<Rightarrow> Address \<Rightarrow> Key \<Rightarrow> Word"
  SetTransientStorage :: "Address \<Rightarrow> Key \<Rightarrow> Word \<Rightarrow> 'w \<Rightarrow> 'w"
  AccessAccount :: "Address \<Rightarrow> 'w \<Rightarrow> AccessStatus \<times> 'w"
  AccessStorage :: "Address \<Rightarrow> Key \<Rightarrow> 'w \<Rightarrow> AccessStatus \<times> 'w"
  EmitLog :: "Log \<Rightarrow> 'w \<Rightarrow> 'w"
  GetLogs :: "'w \<Rightarrow> Log list"
  GetBlockHash :: "'w \<Rightarrow> int \<Rightarrow> Hash"

text \<open>
  \<open>tosca.RunContext\<close> adds nested calls. The Boolean of the result says that the Go error
  is not nil.
\<close>

record 'w RunContext = "'w TransactionContext" +
  CallOp :: "CallKind \<Rightarrow> CallParameters \<Rightarrow> 'w \<Rightarrow> (CallResult \<times> bool) \<times> 'w"

text \<open>
  The environment of a run: the run context, the integer package, the Keccak function and
  the global hash cache \<open>sha3Cache\<close> seen as a function (theory \<open>Hash_Cache\<close> models the
  cache and shows that it is one, as long as an entry that was found is not evicted by
  concurrent requests before it is read).
\<close>

record 'w env =
  rc :: "'w RunContext"
  u256lib :: uint256_lib
  Keccak256 :: "bytes \<Rightarrow> Hash"
  sha3Cache_hash :: "bytes \<Rightarrow> Hash"

section \<open>The context struct\<close>

record Memory =
  store :: bytes
  currentMemoryCost :: Gas

definition NewMemory :: Memory where
  "NewMemory = \<lparr>store = [], currentMemoryCost = 0\<rparr>"

text \<open>
  The fields shared by the two interpreters; each extends the record by its code. The
  operand stack is the list of live cells (theory \<open>Evm_Stack\<close>).
\<close>

record 'w ctxt =
  params :: Parameters
  world :: 'w
  pc :: int
  gas :: Gas
  refund :: Gas
  stack :: "u256 list"
  memory :: Memory
  returnData :: bytes
  withShaCache :: bool

datatype status =
    statusRunning
  | statusStopped
  | statusReverted
  | statusReturned
  | statusSelfDestructed
  | statusFailed

definition useGas :: "Gas \<Rightarrow> ('w, 'z) ctxt_scheme \<Rightarrow> (('w, 'z) ctxt_scheme, unit) res" where
  "useGas amount c =
     (if gas c < 0 \<or> amount < 0 \<or> gas c < amount then fail errOutOfGas c
      else ret () (c\<lparr>gas := gas c - amount\<rparr>))"

definition isAtLeast :: "('w, 'z) ctxt_scheme \<Rightarrow> Revision \<Rightarrow> bool" where
  "isAtLeast c r \<longleftrightarrow> r \<le> revision (BlockParams (params c))"

definition generateResult :: "status \<Rightarrow> ('w, 'z) ctxt_scheme \<Rightarrow> Result option" where
  "generateResult st c =
     (case st of
        statusStopped \<Rightarrow>
          Some \<lparr>res_Success = True, res_Output = [], res_GasLeft = gas c, res_GasRefund = refund c\<rparr>
      | statusSelfDestructed \<Rightarrow>
          Some \<lparr>res_Success = True, res_Output = [], res_GasLeft = gas c, res_GasRefund = refund c\<rparr>
      | statusReturned \<Rightarrow>
          Some \<lparr>res_Success = True, res_Output = returnData c, res_GasLeft = gas c,
                res_GasRefund = refund c\<rparr>
      | statusReverted \<Rightarrow>
          Some \<lparr>res_Success = False, res_Output = returnData c, res_GasLeft = gas c,
                res_GasRefund = 0\<rparr>
      | statusFailed \<Rightarrow>
          Some \<lparr>res_Success = False, res_Output = [], res_GasLeft = 0, res_GasRefund = 0\<rparr>
      | statusRunning \<Rightarrow> None)"

section \<open>Stack operations on the context\<close>

definition pop :: "('w, 'z) ctxt_scheme \<Rightarrow> (('w, 'z) ctxt_scheme, u256) res" where
  "pop c = (case list_pop (stack c) of
              Panic \<Rightarrow> fail GoPanic c
            | Ret (v, s) \<Rightarrow> ret v (c\<lparr>stack := s\<rparr>))"

definition push :: "u256 \<Rightarrow> ('w, 'z) ctxt_scheme \<Rightarrow> (('w, 'z) ctxt_scheme, unit) res" where
  "push v c = (case list_push v (stack c) of
                 Panic \<Rightarrow> fail GoPanic c
               | Ret s \<Rightarrow> ret () (c\<lparr>stack := s\<rparr>))"

definition peekN :: "nat \<Rightarrow> ('w, 'z) ctxt_scheme \<Rightarrow> (('w, 'z) ctxt_scheme, u256) res" where
  "peekN n c = (case list_peekN n (stack c) of
                  Panic \<Rightarrow> fail GoPanic c
                | Ret v \<Rightarrow> ret v c)"

abbreviation peek :: "('w, 'z) ctxt_scheme \<Rightarrow> (('w, 'z) ctxt_scheme, u256) res" where
  "peek \<equiv> peekN 0"

text \<open>A write through the pointer returned by \<open>peekN(n)\<close>.\<close>

definition setN :: "nat \<Rightarrow> u256 \<Rightarrow> ('w, 'z) ctxt_scheme \<Rightarrow> (('w, 'z) ctxt_scheme, unit) res" where
  "setN n v c = (if n < length (stack c) then ret () (c\<lparr>stack := (stack c)[n := v]\<rparr>)
                 else fail GoPanic c)"

definition swap :: "nat \<Rightarrow> ('w, 'z) ctxt_scheme \<Rightarrow> (('w, 'z) ctxt_scheme, unit) res" where
  "swap n c = (case list_swap n (stack c) of
                 Panic \<Rightarrow> fail GoPanic c
               | Ret s \<Rightarrow> ret () (c\<lparr>stack := s\<rparr>))"

definition dup :: "nat \<Rightarrow> ('w, 'z) ctxt_scheme \<Rightarrow> (('w, 'z) ctxt_scheme, unit) res" where
  "dup n c = (case list_dup n (stack c) of
                Panic \<Rightarrow> fail GoPanic c
              | Ret s \<Rightarrow> ret () (c\<lparr>stack := s\<rparr>))"

section \<open>Contracts of the external interfaces\<close>

text \<open>The documented behaviour of \<open>uint256.Int\<close>.\<close>

locale uint256_arith =
  fixes U :: uint256_lib
  assumes Add: "u_Add U x y = x + y"
    and Sub: "u_Sub U x y = x - y"
    and Mul: "u_Mul U x y = x * y"
    and Div: "u_Div U x y = (if y = 0 then 0 else x div y)"
    and SDiv: "u_SDiv U x y = (if y = 0 then 0 else word_of_int (go_quot (sint x) (sint y)))"
    and Mod: "u_Mod U x y = (if y = 0 then 0 else x mod y)"
    and SMod: "u_SMod U x y =
      (if y = 0 then 0 else word_of_int (sgn (sint x) * (\<bar>sint x\<bar> mod \<bar>sint y\<bar>)))"
    and AddMod: "u_AddMod U x y m =
      (if m = 0 then 0 else word_of_int ((uint x + uint y) mod uint m))"
    and MulMod: "u_MulMod U x y m =
      (if m = 0 then 0 else word_of_int ((uint x * uint y) mod uint m))"
    and Exp: "u_Exp U x y = x ^ unat y"
    and ExtendSign: "u_ExtendSign U x n =
      (if 30 < unat n then x else signed_take_bit (8 * unat n + 7) x)"
    and Byte: "u_Byte U x n =
      (if unat n < 32 then take_bit 8 (drop_bit (8 * (31 - unat n)) x) else 0)"
    and And: "u_And U x y = and x y"
    and Or: "u_Or U x y = or x y"
    and Xor: "u_Xor U x y = xor x y"
    and Not: "u_Not U x = not x"
    and Lsh: "u_Lsh U x k = push_bit k x"
    and Rsh: "u_Rsh U x k = drop_bit k x"
    and SRsh: "u_SRsh U x k = signed_drop_bit k x"
    and Lt: "u_Lt U x y = (x < y)"
    and Gt: "u_Gt U x y = (y < x)"
    and Slt: "u_Slt U x y = (sint x < sint y)"
    and Sgt: "u_Sgt U x y = (sint y < sint x)"
    and Cmp: "u_Cmp U x y = (if x < y then - 1 else if y < x then 1 else 0)"
    and Sign: "u_Sign U x = sgn (sint x)"
    and BitLen: "u_BitLen U x = (LEAST k. unat x < 2 ^ k)"
    and ByteLen: "u_ByteLen U x = (u_BitLen U x + 7) div 8"

text \<open>The word operations are an instance of the contract.\<close>

fun bit_len :: "nat \<Rightarrow> nat" where
  "bit_len n = (if n = 0 then 0 else Suc (bit_len (n div 2)))"

declare bit_len.simps [simp del]

definition word_uint256 :: uint256_lib where
  "word_uint256 =
     \<lparr>u_Add = (+), u_Sub = (-), u_Mul = (*),
      u_Div = (\<lambda>x y. if y = 0 then 0 else x div y),
      u_SDiv = (\<lambda>x y. if y = 0 then 0 else word_of_int (go_quot (sint x) (sint y))),
      u_Mod = (\<lambda>x y. if y = 0 then 0 else x mod y),
      u_SMod = (\<lambda>x y. if y = 0 then 0
                 else word_of_int (sgn (sint x) * (\<bar>sint x\<bar> mod \<bar>sint y\<bar>))),
      u_AddMod = (\<lambda>x y m. if m = 0 then 0 else word_of_int ((uint x + uint y) mod uint m)),
      u_MulMod = (\<lambda>x y m. if m = 0 then 0 else word_of_int ((uint x * uint y) mod uint m)),
      u_Exp = (\<lambda>x y. x ^ unat y),
      u_ExtendSign = (\<lambda>x n. if 30 < unat n then x else signed_take_bit (8 * unat n + 7) x),
      u_Byte = (\<lambda>x n. if unat n < 32 then take_bit 8 (drop_bit (8 * (31 - unat n)) x) else 0),
      u_And = and, u_Or = or, u_Xor = xor, u_Not = not,
      u_Lsh = (\<lambda>x n. push_bit n x), u_Rsh = (\<lambda>x n. drop_bit n x),
      u_SRsh = (\<lambda>x n. signed_drop_bit n x),
      u_Lt = (<), u_Gt = (\<lambda>x y. y < x),
      u_Slt = (\<lambda>x y. sint x < sint y), u_Sgt = (\<lambda>x y. sint y < sint x),
      u_Cmp = (\<lambda>x y. if x < y then - 1 else if y < x then 1 else 0),
      u_Sign = (\<lambda>x. sgn (sint x)),
      u_BitLen = (\<lambda>x. bit_len (unat x)),
      u_ByteLen = (\<lambda>x. (bit_len (unat x) + 7) div 8)\<rparr>"

lemma less_pow_bit_len: "n < 2 ^ bit_len n"
proof (induction n rule: bit_len.induct)
  case (1 n)
  then show ?case by (cases "n = 0") (auto simp: bit_len.simps [of n])
qed

lemma bit_len_le: "n < 2 ^ k \<Longrightarrow> bit_len n \<le> k"
proof (induction n arbitrary: k rule: bit_len.induct)
  case (1 n)
  show ?case
  proof (cases "n = 0")
    case True
    then show ?thesis by (simp add: bit_len.simps)
  next
    case False
    with 1(2) obtain j where j: "k = Suc j" by (cases k) auto
    with 1(2) have "n div 2 < 2 ^ j" by simp
    with 1(1) [OF False] j False show ?thesis by (simp add: bit_len.simps [of n])
  qed
qed

interpretation word_uint256: uint256_arith word_uint256
  by unfold_locales
    (auto simp: word_uint256_def intro!: Least_equality [symmetric] less_pow_bit_len bit_len_le)

section \<open>Conversions\<close>

lemma unat_Uint64: "IsUint64 x \<Longrightarrow> unat (Uint64 x) = unat x"
  by (simp add: IsUint64_def Uint64_def unsigned_ucast_eq take_bit_nat_eq_self)

lemma unat_SetUint64 [simp]: "unat (SetUint64 x) = unat x"
  unfolding SetUint64_def unsigned_ucast_eq
  by (rule take_bit_nat_eq_self) (rule less_trans [OF unat_u64_bound], simp)

lemma IsUint64_SetUint64 [simp]: "IsUint64 (SetUint64 x)"
  by (simp add: IsUint64_def)

lemma Uint64_SetUint64 [simp]: "Uint64 (SetUint64 x) = x"
  by (simp add: word_unat_eq_iff unat_Uint64)

lemma SetUint64_Uint64: "IsUint64 x \<Longrightarrow> SetUint64 (Uint64 x) = x"
  by (metis unat_SetUint64 unat_Uint64 word_unat_eq_iff)

section \<open>Stack operations on a context with enough operands\<close>

lemma pop_Cons [simp]: "stack c = v # s \<Longrightarrow> pop c = ret v (c\<lparr>stack := s\<rparr>)"
  by (simp add: pop_def list_pop_def)

lemma push_ok [simp]: "length (stack c) < maxStackSize \<Longrightarrow> push v c = ret () (c\<lparr>stack := v # stack c\<rparr>)"
  by (simp add: push_def list_push_def)

lemma peekN_ok [simp]: "n < length (stack c) \<Longrightarrow> peekN n c = ret (stack c ! n) c"
  by (simp add: peekN_def list_peekN_def)

lemma setN_ok [simp]: "n < length (stack c) \<Longrightarrow> setN n v c = ret () (c\<lparr>stack := (stack c)[n := v]\<rparr>)"
  by (simp add: setN_def)

lemma swap_ok [simp]:
  "n < length (stack c) \<Longrightarrow>
   swap n c = ret () (c\<lparr>stack := (stack c)[n := stack c ! 0, 0 := stack c ! n]\<rparr>)"
  by (simp add: swap_def list_swap_def)

lemma dup_ok [simp]:
  "n < length (stack c) \<Longrightarrow> length (stack c) < maxStackSize \<Longrightarrow>
   dup n c = ret () (c\<lparr>stack := stack c ! n # stack c\<rparr>)"
  by (simp add: dup_def list_dup_def)

lemma wp_useGas [wp_simps]:
  "wp (useGas n c) E Q =
     (if gas c < 0 \<or> n < 0 \<or> gas c < n then E errOutOfGas c
      else Q () (c\<lparr>gas := gas c - n\<rparr>))"
  by (simp add: useGas_def wp_ret wp_fail)

end
