(* ===== verification/Evm_Memory.thy ===== *)
theory Evm_Memory
  imports Evm_Context
begin

text \<open>
  The byte memory of a run (\<open>sfvm/memory.go\<close>, \<open>lfvm/memory.go\<close>: the two files are the
  same): expansion with its gas charge, slices, reads and writes.
\<close>

section \<open>Definitions\<close>

abbreviation (input) maxMemoryExpansionSize :: nat where "maxMemoryExpansionSize \<equiv> 0x1FFFFFFFE0"

definition mem_length :: "Memory \<Rightarrow> u64" where
  "mem_length m = word_of_nat (length (store m))"

definition getExpansionCostsAndSize :: "Memory \<Rightarrow> u64 \<Rightarrow> error + (Gas \<times> u64)" where
  "getExpansionCostsAndSize m sz =
     (if sz \<le> mem_length m then Inr (0, mem_length m)
      else (let ws = SizeInWords sz; validSize = ws * 32 in
        if validSize < sz then Inl errOverflow
        else if word_of_nat maxMemoryExpansionSize < validSize then Inl errMaxMemoryExpansionSize
        else (let new_costs = int64 (uint ((ws * ws) div 512 + 3 * ws)) in
          Inr (int64 (new_costs - currentMemoryCost m), validSize))))"

definition expandMemory ::
  "u64 \<Rightarrow> u64 \<Rightarrow> ('w, 'z) ctxt_scheme \<Rightarrow> (('w, 'z) ctxt_scheme, unit) res" where
  "expandMemory offset sz c =
     (if sz = 0 then ret () c
      else (let needed = offset + sz in
        if needed < offset then fail errOverflow c
        else if mem_length (memory c) < needed then
          (case getExpansionCostsAndSize (memory c) needed of
             Inl e \<Rightarrow> fail e c
           | Inr (fee, expandedSize) \<Rightarrow>
               bind (useGas fee c) (\<lambda>_ c.
                 (let m = memory c; currentSize = mem_length m in
                  ret () (c\<lparr>memory := m\<lparr>
                    currentMemoryCost := int64 (currentMemoryCost m + fee),
                    store := store m @ replicate (unat (expandedSize - currentSize)) 0\<rparr>\<rparr>))))
        else ret () c))"

text \<open>
  A slice of the memory is a view: its offset and length (\<open>nil\<close> is the empty view).
  Reads take the bytes of the view, \<open>copy(view, src)\<close> overwrites its prefix.
\<close>

type_synonym mslice = "nat \<times> nat"

definition slice_bytes :: "Memory \<Rightarrow> mslice \<Rightarrow> bytes" where
  "slice_bytes m sl = (case sl of (off, n) \<Rightarrow> take n (drop off (store m)))"

definition copy_slice :: "mslice \<Rightarrow> bytes \<Rightarrow> Memory \<Rightarrow> Memory" where
  "copy_slice sl src m =
     (case sl of (off, n) \<Rightarrow> m\<lparr>store := overwrite off (take n src) (store m)\<rparr>)"

definition getSlice ::
  "u256 \<Rightarrow> u256 \<Rightarrow> ('w, 'z) ctxt_scheme \<Rightarrow> (('w, 'z) ctxt_scheme, mslice) res" where
  "getSlice offset sz c =
     (if sz = 0 then ret (0, 0) c
      else if \<not> IsUint64 offset \<or> \<not> IsUint64 sz then fail errOverflow c
      else (let offset64 = Uint64 offset; size64 = Uint64 sz in
        bind (expandMemory offset64 size64 c) (\<lambda>_ c.
          if offset64 + size64 < offset64 \<or> length (store (memory c)) < unat (offset64 + size64)
          then fail GoPanic c
          else ret (unat offset64, unat size64) c)))"

text \<open>The target of \<open>readWord\<close> is the operand at the top of the stack.\<close>

definition readWord :: "u256 \<Rightarrow> ('w, 'z) ctxt_scheme \<Rightarrow> (('w, 'z) ctxt_scheme, u256) res" where
  "readWord offset c =
     bind (getSlice offset 32 c) (\<lambda>sl c. ret (of_be_bytes (slice_bytes (memory c) sl)) c)"

definition mem_set ::
  "u256 \<Rightarrow> bytes \<Rightarrow> ('w, 'z) ctxt_scheme \<Rightarrow> (('w, 'z) ctxt_scheme, unit) res" where
  "mem_set offset v c =
     bind (getSlice offset (SetUint64 (word_of_nat (length v))) c) (\<lambda>sl c.
       ret () (c\<lparr>memory := copy_slice sl v (memory c)\<rparr>))"

text \<open>The gas that a memory of \<open>w\<close> words has cost, and the memory invariant.\<close>

definition mem_cost :: "nat \<Rightarrow> int" where
  "mem_cost w = int (w * w div 512 + 3 * w)"

definition mem_wf :: "Memory \<Rightarrow> bool" where
  "mem_wf m \<longleftrightarrow>
     length (store m) mod 32 = 0 \<and> length (store m) \<le> maxMemoryExpansionSize \<and>
     currentMemoryCost m = mem_cost (length (store m) div 32)"

section \<open>Expansion\<close>

lemma mem_wf_NewMemory [simp]: "mem_wf NewMemory"
  by (simp add: mem_wf_def NewMemory_def mem_cost_def)

lemma mem_cost_mono: "v \<le> w \<Longrightarrow> mem_cost v \<le> mem_cost w"
  unfolding mem_cost_def by (simp add: add_mono div_le_mono mult_le_mono)

lemma mem_cost_bound: "w \<le> 4294967295 \<Longrightarrow> mem_cost w \<le> 36028809887088637"
  using mem_cost_mono [of w 4294967295] by (simp add: mem_cost_def)

lemma mem_cost_nonneg [simp]: "0 \<le> mem_cost w"
  by (simp add: mem_cost_def)

lemma unat_mem_length:
  "mem_wf m \<Longrightarrow> unat (mem_length m) = length (store m)"
  by (simp add: mem_wf_def mem_length_def unat_of_nat)

lemma expansion_Inr:
  assumes wf: "mem_wf m" and big: "length (store m) < unat sz"
    and "getExpansionCostsAndSize m sz = Inr (fee, n)"
  shows "unat n = 32 * ((unat sz + 31) div 32)" "unat n \<le> maxMemoryExpansionSize"
    "fee = mem_cost ((unat sz + 31) div 32) - currentMemoryCost m" "0 \<le> fee"
proof -
  define w where "w = (unat sz + 31) div 32"
  define ws where "ws = SizeInWords sz"
  have uw: "unat ws = w" by (simp add: ws_def w_def unat_SizeInWords)
  have "\<not> sz \<le> mem_length m" using big unat_mem_length [OF wf] by (simp add: word_le_nat_alt)
  then have ok: "\<not> ws * 32 < sz" "\<not> word_of_nat maxMemoryExpansionSize < ws * 32"
    and fee: "fee = int64 (int64 (uint ((ws * ws) div 512 + 3 * ws)) - currentMemoryCost m)"
    and n: "n = ws * 32"
    using assms(3) by (auto simp: getExpansionCostsAndSize_def ws_def Let_def split: if_splits)
  have "w \<le> 576460752303423488" unfolding w_def using unat_u64_bound [of sz] by linarith
  then have un: "unat (ws * 32) = (w * 32) mod 18446744073709551616"
    by (simp add: unat_word_ariths uw)
  have "w * 32 < 18446744073709551616"
  proof (rule ccontr)
    assume "\<not> ?thesis"
    then have "unat (ws * 32) = 0" using un \<open>w \<le> 576460752303423488\<close> by (simp add: mod_if)
    then show False using ok(1) big by (simp add: word_less_nat_alt)
  qed
  then have un': "unat (ws * 32) = w * 32" using un by simp
  then show "unat n = 32 * ((unat sz + 31) div 32)" by (simp add: n w_def)
  show le: "unat n \<le> maxMemoryExpansionSize"
    using ok(2) un' by (simp add: n word_less_nat_alt)
  then have w: "w \<le> 4294967295" using un' by (simp add: n)
  have ww: "w * w \<le> 4294967295 * 4294967295" using w by (intro mult_le_mono)
  have "unat ((ws * ws) div 512 + 3 * ws) = w * w div 512 + 3 * w"
    using w ww by (simp add: unat_word_ariths unat_div uw)
  then have "uint ((ws * ws) div 512 + 3 * ws) = mem_cost w"
    by (simp add: mem_cost_def uint_nat del: of_nat_unat)
  moreover have "mem_cost w \<le> 36028809887088637" using w by (rule mem_cost_bound)
  moreover have old: "currentMemoryCost m = mem_cost (length (store m) div 32)"
    using wf by (simp add: mem_wf_def)
  moreover have "mem_cost (length (store m) div 32) \<le> mem_cost w"
    using big by (intro mem_cost_mono) (simp add: w_def)
  moreover have "int64 (mem_cost w) = mem_cost w"
    using mem_cost_bound [OF w] mem_cost_nonneg [of w] by (intro int64_id) linarith+
  moreover have "int64 (mem_cost w - mem_cost (length (store m) div 32))
      = mem_cost w - mem_cost (length (store m) div 32)"
    using mem_cost_bound [OF w] mem_cost_nonneg [of "length (store m) div 32"]
      \<open>mem_cost (length (store m) div 32) \<le> mem_cost w\<close> by (intro int64_id) linarith+
  ultimately show fee': "fee = mem_cost ((unat sz + 31) div 32) - currentMemoryCost m"
    by (simp add: fee w_def)
  show "0 \<le> fee" unfolding fee' old using big by (simp add: mem_cost_mono)
qed

text \<open>
  Every outcome of an expansion: an error leaves the context as it was; a success keeps the
  bytes, appends zeroes up to the next multiple of 32 and charges the difference of the
  memory costs.
\<close>

lemma expandMemory_cases:
  assumes wf: "mem_wf (memory c)"
  obtains (err) e where "expandMemory offset sz c = fail e c" "e \<noteq> GoPanic"
  | (ok) m fee where
      "expandMemory offset sz c = ret () (c\<lparr>gas := gas c - fee, memory := m\<rparr>)"
      "0 \<le> fee" "fee = 0 \<or> fee \<le> gas c" "mem_wf m"
      "fee = mem_cost (length (store m) div 32) - mem_cost (length (store (memory c)) div 32)"
      "\<exists>k. store m = store (memory c) @ replicate k 0"
      "length (store m) = (if sz = 0 then length (store (memory c)) else
         max (length (store (memory c))) (32 * ((unat offset + unat sz + 31) div 32)))"
      "sz \<noteq> 0 \<longrightarrow> unat (offset + sz) = unat offset + unat sz"
proof (cases "sz = 0 \<or> (\<not> offset + sz < offset \<and> \<not> mem_length (memory c) < offset + sz)")
  case True
  then have eq: "expandMemory offset sz c = ret () (c\<lparr>gas := gas c - 0, memory := memory c\<rparr>)"
    by (auto simp: expandMemory_def Let_def)
  have "unat (offset + sz) = unat offset + unat sz" "unat (offset + sz) \<le> length (store (memory c))"
    if "sz \<noteq> 0"
  proof -
    from True that have "\<not> offset + sz < offset" "\<not> mem_length (memory c) < offset + sz" by auto
    then show "unat (offset + sz) = unat offset + unat sz"
      by (simp add: not_less flip: unat_plus_simple)
    show "unat (offset + sz) \<le> length (store (memory c))"
      using \<open>\<not> mem_length (memory c) < offset + sz\<close> unat_mem_length [OF wf]
      by (simp add: not_less word_le_nat_alt)
  qed
  moreover have "length (store (memory c)) mod 32 = 0" using wf by (simp add: mem_wf_def)
  ultimately have "length (store (memory c)) = (if sz = 0 then length (store (memory c)) else
      max (length (store (memory c))) (32 * ((unat offset + unat sz + 31) div 32)))"
    by (auto simp: max_def)
  with eq \<open>sz \<noteq> 0 \<Longrightarrow> unat (offset + sz) = unat offset + unat sz\<close> show ?thesis
    by (intro ok [where fee = 0 and m = "memory c"]) (auto simp: wf intro: exI [of _ 0])
next
  case False
  then have nz: "sz \<noteq> 0" by auto
  show ?thesis
  proof (cases "offset + sz < offset")
    case True
    then show ?thesis by (intro err [of errOverflow]) (simp_all add: expandMemory_def nz)
  next
    case nov: False
    with False have lt: "mem_length (memory c) < offset + sz" by auto
    have sum: "unat (offset + sz) = unat offset + unat sz"
      using nov by (simp add: not_less flip: unat_plus_simple)
    have big: "length (store (memory c)) < unat (offset + sz)"
      using lt unat_mem_length [OF wf] by (simp add: word_less_nat_alt)
    show ?thesis
    proof (cases "getExpansionCostsAndSize (memory c) (offset + sz)")
      case (Inl e)
      then have "e \<noteq> GoPanic"
        by (auto simp: getExpansionCostsAndSize_def Let_def split: if_splits)
      with Inl nov lt nz show ?thesis by (intro err [of e]) (simp_all add: expandMemory_def)
    next
      case (Inr p)
      obtain fee n where p: "p = (fee, n)" by fastforce
      note exp = expansion_Inr [OF wf big Inr [unfolded p]]
      show ?thesis
      proof (cases "gas c < 0 \<or> fee < 0 \<or> gas c < fee")
        case True
        with Inr p nov lt nz show ?thesis
          by (intro err [of errOutOfGas]) (simp_all add: expandMemory_def useGas_def)
      next
        case gasok: False
        define m where "m = (memory c)\<lparr>currentMemoryCost := int64 (currentMemoryCost (memory c) + fee),
          store := store (memory c) @ replicate (unat (n - mem_length (memory c))) 0\<rparr>"
        have run: "expandMemory offset sz c = ret () (c\<lparr>gas := gas c - fee, memory := m\<rparr>)"
          using Inr p nov lt nz gasok by (simp add: expandMemory_def useGas_def m_def Let_def)
        have le: "length (store (memory c)) \<le> unat n" using big exp(1) by linarith
        then have "unat (n - mem_length (memory c)) = unat n - length (store (memory c))"
          using unat_mem_length [OF wf] by (simp add: unat_sub word_le_nat_alt)
        then have len: "length (store m) = unat n" using le by (simp add: m_def)
        have "mem_cost (unat n div 32) \<le> 36028809887088637"
          using exp(2) by (intro mem_cost_bound) simp
        then have "int64 (mem_cost (unat n div 32)) = mem_cost (unat n div 32)"
          using mem_cost_nonneg [of "unat n div 32"] by (intro int64_id) linarith+
        then have cost: "currentMemoryCost m = mem_cost (unat n div 32)"
          using exp(1,3) by (simp add: m_def)
        have wfm: "mem_wf m" using exp(1,2) len cost by (simp add: mem_wf_def)
        have feeq: "fee = mem_cost (length (store m) div 32)
            - mem_cost (length (store (memory c)) div 32)"
          using exp(1,3) len wf by (simp add: mem_wf_def)
        have lenq: "length (store m) = (if sz = 0 then length (store (memory c)) else
            max (length (store (memory c))) (32 * ((unat offset + unat sz + 31) div 32)))"
          using len exp(1) le nz sum by simp
        have ext: "\<exists>k. store m = store (memory c) @ replicate k 0" by (auto simp: m_def)
        have paid: "fee = 0 \<or> fee \<le> gas c" using gasok by auto
        have sum': "sz \<noteq> 0 \<longrightarrow> unat (offset + sz) = unat offset + unat sz" using sum by simp
        show ?thesis by (rule ok [OF run exp(4) paid wfm feeq ext lenq sum'])
      qed
    qed
  qed
qed

lemma getSlice_cases:
  assumes wf: "mem_wf (memory c)"
  obtains (err) e where "getSlice offset sz c = fail e c" "e \<noteq> GoPanic"
  | (ok) m fee off where
      "getSlice offset sz c = ret (off, unat sz) (c\<lparr>gas := gas c - fee, memory := m\<rparr>)"
      "0 \<le> fee" "fee = 0 \<or> fee \<le> gas c" "mem_wf m"
      "fee = mem_cost (length (store m) div 32) - mem_cost (length (store (memory c)) div 32)"
      "\<exists>k. store m = store (memory c) @ replicate k 0"
      "length (store m) = (if sz = 0 then length (store (memory c)) else
         max (length (store (memory c))) (32 * ((unat offset + unat sz + 31) div 32)))"
      "off + unat sz \<le> length (store m)" "sz \<noteq> 0 \<longrightarrow> off = unat offset" "IsUint64 sz"
proof (cases "sz = 0")
  case True
  then have "getSlice offset sz c = ret (0, unat sz) (c\<lparr>gas := gas c - 0, memory := memory c\<rparr>)"
    by (simp add: getSlice_def)
  with True show ?thesis
    by (intro ok [where off = 0 and fee = 0 and m = "memory c"]) (auto simp: wf IsUint64_def intro: exI [of _ 0])
next
  case nz: False
  show ?thesis
  proof (cases "IsUint64 offset \<and> IsUint64 sz")
    case False
    with nz show ?thesis by (intro err [of errOverflow]) (auto simp: getSlice_def)
  next
    case u: True
    have uo: "unat (Uint64 offset) = unat offset" and us: "unat (Uint64 sz) = unat sz"
      using u by (auto simp: unat_Uint64)
    have nz': "Uint64 sz \<noteq> 0" using us nz by (metis unsigned_0 word_unat_eq_iff)
    show ?thesis
    proof (cases rule: expandMemory_cases [OF wf, of "Uint64 offset" "Uint64 sz"])
      case (1 e)
      with u nz show ?thesis by (intro err [of e]) (auto simp: getSlice_def Let_def)
    next
      case (2 m fee)
      have sum: "unat (Uint64 offset + Uint64 sz) = unat offset + unat sz"
        using 2(8) nz' uo us by simp
      have bound: "unat offset + unat sz \<le> length (store m)"
        using 2(7) nz' uo us by simp
      have "\<not> Uint64 offset + Uint64 sz < Uint64 offset"
        using sum uo by (simp add: word_less_nat_alt)
      with u nz 2(1) sum bound
      have run: "getSlice offset sz c
          = ret (unat offset, unat sz) (c\<lparr>gas := gas c - fee, memory := m\<rparr>)"
        by (simp add: getSlice_def Let_def uo us)
      have len: "length (store m) = (if sz = 0 then length (store (memory c)) else
          max (length (store (memory c))) (32 * ((unat offset + unat sz + 31) div 32)))"
        using 2(7) nz nz' uo us by simp
      have off: "sz \<noteq> 0 \<longrightarrow> unat offset = unat offset" and isu: "IsUint64 sz" using u by auto
      show ?thesis by (rule ok [OF run 2(2-6) len bound off isu])
    qed
  qed
qed

end
