(* ===== verification/Evm_Gas.thy ===== *)
theory Evm_Gas
  imports Opcodes Evm_Memory
begin

text \<open>
  Gas prices (\<open>sfvm/gas.go\<close>, \<open>lfvm/gas.go\<close>) and stack usage
  (\<open>sfvm/stack_usage.go\<close>, \<open>lfvm/stack_usage.go\<close>) of the EVM op-codes.
\<close>

section \<open>Prices\<close>

abbreviation (input) CallNewAccountGas :: Gas where "CallNewAccountGas \<equiv> 25000"
abbreviation (input) CallValueTransferGas :: Gas where "CallValueTransferGas \<equiv> 9000"
abbreviation (input) CallStipend :: Gas where "CallStipend \<equiv> 2300"
abbreviation (input) UNKNOWN_GAS_PRICE :: Gas where "UNKNOWN_GAS_PRICE \<equiv> 999999"

text \<open>The switch of \<open>getStaticGasPriceInternal\<close> as a table.\<close>

definition static_price_cases :: "(OpCode \<times> Gas) list" where
  "static_price_cases =
    [(CLZ, 5), (POP, 2), (PUSH0, 2), (ADD, 3), (SUB, 3), (MUL, 5), (DIV, 5), (SDIV, 5),
     (MOD, 5), (SMOD, 5), (ADDMOD, 8), (MULMOD, 8), (EXP, 10), (SIGNEXTEND, 5),
     (SHA3, 30), (ADDRESS, 2), (BALANCE, 700), (ORIGIN, 2), (CALLER, 2), (CALLVALUE, 2),
     (CALLDATALOAD, 3), (CALLDATASIZE, 2), (CALLDATACOPY, 3), (CODESIZE, 2),
     (CODECOPY, 3), (GASPRICE, 2), (EXTCODESIZE, 700), (EXTCODECOPY, 700),
     (RETURNDATASIZE, 2), (RETURNDATACOPY, 3), (EXTCODEHASH, 700), (BLOCKHASH, 20),
     (SELFBALANCE, 5), (BASEFEE, 2), (BLOBHASH, 3), (BLOBBASEFEE, 2), (MLOAD, 3),
     (MSTORE, 3), (MSTORE8, 3), (SLOAD, 800), (SSTORE, 0), (JUMP, 8), (JUMPI, 10),
     (JUMPDEST, 1), (TLOAD, 100), (TSTORE, 100), (PC, 2), (MSIZE, 2), (MCOPY, 3),
     (GAS, 2), (LOG0, 375), (LOG1, 750), (LOG2, 1125), (LOG3, 1500), (LOG4, 1875),
     (CREATE, 32000), (CREATE2, 32000), (CALL, 700), (CALLCODE, 700), (STATICCALL, 700),
     (RETURN, 0), (STOP, 0), (REVERT, 0), (INVALID, 0), (DELEGATECALL, 700),
     (SELFDESTRUCT, 5000)]"

definition getStaticGasPriceInternal :: "OpCode \<Rightarrow> Gas" where
  "getStaticGasPriceInternal op =
     (if PUSH1 \<le> op \<and> op \<le> PUSH32 then 3
      else if DUP1 \<le> op \<and> op \<le> DUP16 then 3
      else if SWAP1 \<le> op \<and> op \<le> SWAP16 then 3
      else if LT \<le> op \<and> op \<le> SAR then 3
      else if COINBASE \<le> op \<and> op \<le> CHAINID then 2
      else (case map_of static_price_cases op of
              Some p \<Rightarrow> p
            | None \<Rightarrow> UNKNOWN_GAS_PRICE))"

definition getBerlinGasPriceInternal :: "OpCode \<Rightarrow> Gas" where
  "getBerlinGasPriceInternal op =
     (if op \<in> {SLOAD, EXTCODECOPY, EXTCODESIZE, EXTCODEHASH, BALANCE, CALL, CALLCODE,
             STATICCALL, DELEGATECALL} then 0
      else getStaticGasPriceInternal op)"

text \<open>A lookup table precomputed from a property function, for the 256 op-codes.\<close>

abbreviation (input) numOpCodes :: nat where "numOpCodes \<equiv> 256"

definition newOpCodePropertyMap :: "(OpCode \<Rightarrow> 'a) \<Rightarrow> 'a list" where
  "newOpCodePropertyMap property = map property [0..<numOpCodes]"

definition propertyMap_get :: "'a list \<Rightarrow> OpCode \<Rightarrow> 'a" where
  "propertyMap_get lookup op = lookup ! op"

definition getStaticGasPrices :: "Revision \<Rightarrow> Gas list" where
  "getStaticGasPrices rv =
     (if R09_Berlin \<le> rv then newOpCodePropertyMap getBerlinGasPriceInternal
      else newOpCodePropertyMap getStaticGasPriceInternal)"

definition getDynamicCostsForSstore :: "Revision \<Rightarrow> StorageStatus \<Rightarrow> Gas" where
  "getDynamicCostsForSstore rv st =
     (case st of
        StorageAdded \<Rightarrow> 20000
      | StorageModified \<Rightarrow> if R09_Berlin \<le> rv then 2900 else 5000
      | StorageDeleted \<Rightarrow> if R09_Berlin \<le> rv then 2900 else 5000
      | _ \<Rightarrow> if R09_Berlin \<le> rv then 100 else 800)"

definition getRefundForSstore :: "Revision \<Rightarrow> StorageStatus \<Rightarrow> Gas" where
  "getRefundForSstore rv st =
     (case st of
        StorageDeleted \<Rightarrow> if R10_London \<le> rv then 4800 else 15000
      | StorageModifiedDeleted \<Rightarrow> if R10_London \<le> rv then 4800 else 15000
      | StorageDeletedAdded \<Rightarrow> if R10_London \<le> rv then - 4800 else - 15000
      | StorageDeletedRestored \<Rightarrow>
          if R10_London \<le> rv then - 4800 + 5000 - 2100 - 100
          else if R09_Berlin \<le> rv then - 15000 + 5000 - 2100 - 100
          else - 15000 + 4200
      | StorageAddedDeleted \<Rightarrow> if R09_Berlin \<le> rv then 19900 else 19200
      | StorageModifiedRestored \<Rightarrow> if R09_Berlin \<le> rv then 5000 - 2100 - 100 else 4200
      | _ \<Rightarrow> 0)"

section \<open>Stack usage\<close>

record stackUsage =
  su_from :: int
  su_to :: int
  su_delta :: int

definition makeUsage :: "int \<Rightarrow> int \<Rightarrow> stackUsage" where
  "makeUsage pops pushes =
     (let delta = pushes - pops in
      \<lparr>su_from = - pops, su_to = max delta 0, su_delta = delta\<rparr>)"

definition computeStackUsage :: "OpCode \<Rightarrow> stackUsage" where
  "computeStackUsage op =
     (if PUSH1 \<le> op \<and> op \<le> PUSH32 then makeUsage 0 1
      else if DUP1 \<le> op \<and> op \<le> DUP16
        then makeUsage (int (op - DUP1 + 1)) (int (op - DUP1 + 2))
      else if SWAP1 \<le> op \<and> op \<le> SWAP16
        then makeUsage (int (op - SWAP1 + 2)) (int (op - SWAP1 + 2))
      else if LOG0 \<le> op \<and> op \<le> LOG4 then makeUsage (int (op - LOG0 + 2)) 0
      else if op \<in> {JUMPDEST, STOP}
        then makeUsage 0 0
      else if op \<in> {PUSH0, MSIZE, ADDRESS, ORIGIN, CALLER, CALLVALUE, CALLDATASIZE,
          CODESIZE, GASPRICE, COINBASE, TIMESTAMP, NUMBER, PREVRANDAO,
          GASLIMIT, PC, GAS, RETURNDATASIZE, SELFBALANCE, CHAINID, BASEFEE,
          BLOBBASEFEE}
        then makeUsage 0 1
      else if op \<in> {POP, JUMP, SELFDESTRUCT}
        then makeUsage 1 0
      else if op \<in> {ISZERO, NOT, BALANCE, CALLDATALOAD, EXTCODESIZE, BLOCKHASH, MLOAD,
          SLOAD, TLOAD, EXTCODEHASH, BLOBHASH, CLZ}
        then makeUsage 1 1
      else if op \<in> {MSTORE, MSTORE8, SSTORE, TSTORE, JUMPI, RETURN, REVERT}
        then makeUsage 2 0
      else if op \<in> {ADD, SUB, MUL, DIV, SDIV, MOD, SMOD, EXP, SIGNEXTEND, SHA3, LT, GT,
          SLT, SGT, EQ, AND, XOR, OR, BYTE, SHL, SHR, SAR}
        then makeUsage 2 1
      else if op \<in> {CALLDATACOPY, CODECOPY, RETURNDATACOPY, MCOPY}
        then makeUsage 3 0
      else if op \<in> {ADDMOD, MULMOD, CREATE}
        then makeUsage 3 1
      else if op \<in> {EXTCODECOPY}
        then makeUsage 4 0
      else if op \<in> {CREATE2}
        then makeUsage 4 1
      else if op \<in> {STATICCALL, DELEGATECALL}
        then makeUsage 6 1
      else if op \<in> {CALL, CALLCODE}
        then makeUsage 7 1
      else \<lparr>su_from = 0, su_to = 0, su_delta = 0\<rparr>)"

record stackLimits =
  sl_min :: int
  sl_max :: int

definition usage_limits :: "stackUsage \<Rightarrow> stackLimits" where
  "usage_limits usage =
     \<lparr>sl_min = - su_from usage, sl_max = int maxStackSize - su_to usage\<rparr>"

definition precomputedStackLimits :: "stackLimits list" where
  "precomputedStackLimits = newOpCodePropertyMap (\<lambda>op. usage_limits (computeStackUsage op))"

definition check_limits :: "nat \<Rightarrow> stackLimits \<Rightarrow> error option" where
  "check_limits stackLen limits =
     (if int stackLen < sl_min limits then Some errStackUnderflow
      else if sl_max limits < int stackLen then Some errStackOverflow
      else None)"

definition checkStackLimits :: "nat \<Rightarrow> OpCode \<Rightarrow> error option" where
  "checkStackLimits stackLen op = check_limits stackLen (propertyMap_get precomputedStackLimits op)"

section \<open>Lemmas\<close>

lemma propertyMap_get_new [simp]:
  "op < numOpCodes \<Longrightarrow> propertyMap_get (newOpCodePropertyMap f) op = f op"
  by (simp add: propertyMap_get_def newOpCodePropertyMap_def)

lemma static_price_nonneg: "0 \<le> getStaticGasPriceInternal op"
proof -
  have "list_all (\<lambda>(_, p). 0 \<le> p) static_price_cases"
    by (simp add: static_price_cases_def)
  then have "0 \<le> p" if "map_of static_price_cases op = Some p" for p
    using map_of_SomeD [OF that] by (auto simp: list_all_iff)
  then show ?thesis
    by (auto simp: getStaticGasPriceInternal_def split: option.splits)
qed

lemma getStaticGasPrices_nonneg:
  "op < numOpCodes \<Longrightarrow> 0 \<le> propertyMap_get (getStaticGasPrices rv) op"
  by (simp add: getStaticGasPrices_def getBerlinGasPriceInternal_def static_price_nonneg)

lemma dynamic_sstore_pos: "0 < getDynamicCostsForSstore rv st"
  by (simp add: getDynamicCostsForSstore_def split: StorageStatus.splits)

lemma makeUsage_simps [simp]:
  "su_from (makeUsage a b) = - a" "su_to (makeUsage a b) = max (b - a) 0"
  "su_delta (makeUsage a b) = b - a"
  by (simp_all add: makeUsage_def Let_def)

lemma check_limits_makeUsage:
  "check_limits n (usage_limits (makeUsage a b)) = None \<longleftrightarrow>
     a \<le> int n \<and> int n + max (b - a) 0 \<le> int maxStackSize"
  by (auto simp: check_limits_def usage_limits_def)

end
