(* ===== verification/Instructions.thy ===== *)
theory Instructions
  imports Evm_Gas
begin

text \<open>
  The EVM instructions that the two interpreters share: the functions of
  \<open>sfvm/instructions.go\<close> whose text is the same in \<open>lfvm/instructions.go\<close>. They are
  polymorphic in the extension of the context record, which holds the code of the
  respective interpreter.
\<close>

type_synonym ('w, 'z) cmd = "('w, 'z) ctxt_scheme \<Rightarrow> (('w, 'z) ctxt_scheme, unit) res"

section \<open>Termination, stack and memory instructions\<close>

definition opStop :: status where
  "opStop = statusStopped"

definition opEndWithResult :: "('w, 'z) cmd" where
  "opEndWithResult c =
     bind (pop c) (\<lambda>offset c.
     bind (pop c) (\<lambda>sz c.
     bind (on_error (returnData_update (\<lambda>_. [])) (getSlice offset sz c)) (\<lambda>sl c.
     ret () (c\<lparr>returnData := slice_bytes (memory c) sl\<rparr>))))"

definition opPop :: "('w, 'z) cmd" where
  "opPop c = bind (pop c) (\<lambda>_ c. ret () c)"

definition opPush0 :: "('w, 'z) cmd" where
  "opPush0 c = (if \<not> isAtLeast c R12_Shanghai then fail errInvalidRevision c else push 0 c)"

definition opDup :: "nat \<Rightarrow> ('w, 'z) cmd" where
  "opDup pos c = dup (pos - 1) c"

definition opSwap :: "nat \<Rightarrow> ('w, 'z) cmd" where
  "opSwap pos c = swap pos c"

definition opMstore :: "('w, 'z) cmd" where
  "opMstore c =
     bind (pop c) (\<lambda>addr c.
     bind (pop c) (\<lambda>v c.
     mem_set addr (be_bytes 32 v) c))"

definition opMstore8 :: "('w, 'z) cmd" where
  "opMstore8 c =
     bind (pop c) (\<lambda>addr c.
     bind (pop c) (\<lambda>v c.
     mem_set addr [ucast (Uint64 v)] c))"

definition opMcopy :: "('w, 'z) cmd" where
  "opMcopy c =
     (if \<not> isAtLeast c R13_Cancun then fail errInvalidRevision c
      else
        bind (pop c) (\<lambda>destAddr c.
        bind (pop c) (\<lambda>srcAddr c.
        bind (pop c) (\<lambda>sz c.
        bind (getSlice srcAddr sz c) (\<lambda>sl c.
        let bs = slice_bytes (memory c) sl;
            price = int64 (uint (3 * SizeInWords (Uint64 sz))) in
        bind (useGas price c) (\<lambda>_ c.
        mem_set destAddr bs c))))))"

definition opMload :: "('w, 'z) cmd" where
  "opMload c =
     bind (peek c) (\<lambda>addr c.
     bind (readWord addr c) (\<lambda>v c.
     setN 0 v c))"

definition opMsize :: "('w, 'z) cmd" where
  "opMsize c = push (SetUint64 (mem_length (memory c))) c"

section \<open>Storage instructions\<close>

definition opSstore :: "'w env \<Rightarrow> ('w, 'z) cmd" where
  "opSstore E c =
     (if Static (params c) then fail errStaticContextViolation c
      else if gas c \<le> 2300 then fail errOutOfGas c
      else
        bind (pop c) (\<lambda>key c.
        bind (pop c) (\<lambda>v c.
        let addr = Recipient (params c);
            (cost, w) =
              (if isAtLeast c R09_Berlin then
                 (case AccessStorage (rc E) addr key (world c) of
                    (ColdAccess, w) \<Rightarrow> (2100, w)
                  | (WarmAccess, w) \<Rightarrow> (0, w))
               else (0, world c));
            (st, w) = SetStorage (rc E) addr key v w;
            cost = cost + getDynamicCostsForSstore (revision (BlockParams (params c))) st in
        bind (useGas cost (c\<lparr>world := w\<rparr>)) (\<lambda>_ c.
        ret () (c\<lparr>refund :=
          int64 (refund c + getRefundForSstore (revision (BlockParams (params c))) st)\<rparr>)))))"

definition opSload :: "'w env \<Rightarrow> ('w, 'z) cmd" where
  "opSload E c =
     bind (peek c) (\<lambda>slot c.
     let addr = Recipient (params c) in
     bind (if isAtLeast c R09_Berlin then
             (case AccessStorage (rc E) addr slot (world c) of
                (ColdAccess, w) \<Rightarrow> useGas 2100 (c\<lparr>world := w\<rparr>)
              | (WarmAccess, w) \<Rightarrow> useGas 100 (c\<lparr>world := w\<rparr>))
           else ret () c) (\<lambda>_ c.
     setN 0 (GetStorage (rc E) (world c) addr slot) c))"

definition opTstore :: "'w env \<Rightarrow> ('w, 'z) cmd" where
  "opTstore E c =
     (if \<not> isAtLeast c R13_Cancun then fail errInvalidRevision c
      else if Static (params c) then fail errStaticContextViolation c
      else
        bind (pop c) (\<lambda>key c.
        bind (pop c) (\<lambda>v c.
        ret () (c\<lparr>world := SetTransientStorage (rc E) (Recipient (params c)) key v (world c)\<rparr>))))"

definition opTload :: "'w env \<Rightarrow> ('w, 'z) cmd" where
  "opTload E c =
     (if \<not> isAtLeast c R13_Cancun then fail errInvalidRevision c
      else
        bind (peek c) (\<lambda>key c.
        setN 0 (GetTransientStorage (rc E) (world c) (Recipient (params c)) key) c))"

section \<open>Call data and code copies\<close>

definition opCaller :: "('w, 'z) cmd" where
  "opCaller c = push (SetBytes20 (Sender (params c))) c"

definition opCallvalue :: "('w, 'z) cmd" where
  "opCallvalue c = push (Value (params c)) c"

definition opCallDatasize :: "('w, 'z) cmd" where
  "opCallDatasize c = push (SetUint64 (word_of_nat (length (Input (params c))))) c"

text \<open>
  Slicing \<open>data[start:end]\<close> panics when \<open>end < start\<close>, which happens if
  \<open>start + size\<close> wraps around.
\<close>

definition getData :: "bytes \<Rightarrow> u256 \<Rightarrow> u64 \<Rightarrow> bytes go" where
  "getData src offset sz =
     (let dataSize = length src in
      if sz = 0 then Ret []
      else if \<not> IsUint64 offset \<or> dataSize \<le> unat (Uint64 offset)
        then Ret (replicate (unat sz) 0)
      else (let start = Uint64 offset; end64 = start + sz;
                stop = (if dataSize < unat end64 then dataSize else unat end64) in
        if stop < unat start then Panic
        else Ret (overwrite 0 (take (stop - unat start) (drop (unat start) src))
                    (replicate (unat sz) 0))))"

definition opCallDataload :: "('w, 'z) cmd" where
  "opCallDataload c =
     bind (peek c) (\<lambda>offset c.
     case getData (Input (params c)) offset 32 of
       Panic \<Rightarrow> fail GoPanic c
     | Ret v \<Rightarrow> setN 0 (of_be_bytes v) c)"

definition genericDataCopy :: "bytes \<Rightarrow> ('w, 'z) cmd" where
  "genericDataCopy source c =
     bind (pop c) (\<lambda>memOffset c.
     bind (pop c) (\<lambda>dataOffset c.
     bind (pop c) (\<lambda>len c.
     let ws = SizeInWords (Uint64 len) in
     bind (useGas (int64 (uint (3 * ws))) c) (\<lambda>_ c.
     bind (getSlice memOffset len c) (\<lambda>sl c.
     case getData source dataOffset (Uint64 len) of
       Panic \<Rightarrow> fail GoPanic c
     | Ret dataCopy \<Rightarrow> ret () (c\<lparr>memory := copy_slice sl dataCopy (memory c)\<rparr>))))))"

section \<open>Bit and comparison instructions\<close>

definition opAnd :: "'w env \<Rightarrow> ('w, 'z) cmd" where
  "opAnd E c = bind (pop c) (\<lambda>a c. bind (peek c) (\<lambda>b c. setN 0 (u_And (u256lib E) a b) c))"

definition opOr :: "'w env \<Rightarrow> ('w, 'z) cmd" where
  "opOr E c = bind (pop c) (\<lambda>a c. bind (peek c) (\<lambda>b c. setN 0 (u_Or (u256lib E) a b) c))"

definition opNot :: "'w env \<Rightarrow> ('w, 'z) cmd" where
  "opNot E c = bind (peek c) (\<lambda>a c. setN 0 (u_Not (u256lib E) a) c)"

definition opXor :: "'w env \<Rightarrow> ('w, 'z) cmd" where
  "opXor E c = bind (pop c) (\<lambda>a c. bind (peek c) (\<lambda>b c. setN 0 (u_Xor (u256lib E) a b) c))"

definition opIszero :: "('w, 'z) cmd" where
  "opIszero c = bind (peek c) (\<lambda>t c. setN 0 (if t = 0 then 1 else 0) c)"

definition opEq :: "'w env \<Rightarrow> ('w, 'z) cmd" where
  "opEq E c = bind (pop c) (\<lambda>a c. bind (peek c) (\<lambda>b c.
     setN 0 (if u_Cmp (u256lib E) a b = 0 then 1 else 0) c))"

definition opLt :: "'w env \<Rightarrow> ('w, 'z) cmd" where
  "opLt E c = bind (pop c) (\<lambda>a c. bind (peek c) (\<lambda>b c.
     setN 0 (if u_Lt (u256lib E) a b then 1 else 0) c))"

definition opGt :: "'w env \<Rightarrow> ('w, 'z) cmd" where
  "opGt E c = bind (pop c) (\<lambda>a c. bind (peek c) (\<lambda>b c.
     setN 0 (if u_Gt (u256lib E) a b then 1 else 0) c))"

definition opSlt :: "'w env \<Rightarrow> ('w, 'z) cmd" where
  "opSlt E c = bind (pop c) (\<lambda>a c. bind (peek c) (\<lambda>b c.
     setN 0 (if u_Slt (u256lib E) a b then 1 else 0) c))"

definition opSgt :: "'w env \<Rightarrow> ('w, 'z) cmd" where
  "opSgt E c = bind (pop c) (\<lambda>a c. bind (peek c) (\<lambda>b c.
     setN 0 (if u_Sgt (u256lib E) a b then 1 else 0) c))"

definition opShr :: "'w env \<Rightarrow> ('w, 'z) cmd" where
  "opShr E c = bind (pop c) (\<lambda>a c. bind (peek c) (\<lambda>b c.
     setN 0 (if unat a < 256 then u_Rsh (u256lib E) b (unat (Uint64 a)) else 0) c))"

definition opShl :: "'w env \<Rightarrow> ('w, 'z) cmd" where
  "opShl E c = bind (pop c) (\<lambda>a c. bind (peek c) (\<lambda>b c.
     setN 0 (if unat a < 256 then u_Lsh (u256lib E) b (unat (Uint64 a)) else 0) c))"

definition opSar :: "'w env \<Rightarrow> ('w, 'z) cmd" where
  "opSar E c = bind (pop c) (\<lambda>a c. bind (peek c) (\<lambda>b c.
     setN 0 (if 256 < unat a then (if 0 \<le> u_Sign (u256lib E) b then 0 else - 1)
             else u_SRsh (u256lib E) b (unat (Uint64 a))) c))"

definition opClz :: "'w env \<Rightarrow> ('w, 'z) cmd" where
  "opClz E c =
     (if \<not> isAtLeast c R15_Osaka then fail errInvalidRevision c
      else bind (peek c) (\<lambda>a c.
        setN 0 (SetUint64 (256 - word_of_nat (u_BitLen (u256lib E) a))) c))"

definition opSignExtend :: "'w env \<Rightarrow> ('w, 'z) cmd" where
  "opSignExtend E c = bind (pop c) (\<lambda>back c. bind (peek c) (\<lambda>num c.
     setN 0 (u_ExtendSign (u256lib E) num back) c))"

definition opByte :: "'w env \<Rightarrow> ('w, 'z) cmd" where
  "opByte E c = bind (pop c) (\<lambda>th c. bind (peek c) (\<lambda>v c.
     setN 0 (u_Byte (u256lib E) v th) c))"

section \<open>Arithmetic instructions\<close>

definition opAdd :: "'w env \<Rightarrow> ('w, 'z) cmd" where
  "opAdd E c = bind (pop c) (\<lambda>a c. bind (peek c) (\<lambda>b c. setN 0 (u_Add (u256lib E) a b) c))"

definition opSub :: "'w env \<Rightarrow> ('w, 'z) cmd" where
  "opSub E c = bind (pop c) (\<lambda>a c. bind (peek c) (\<lambda>b c. setN 0 (u_Sub (u256lib E) a b) c))"

definition opMul :: "'w env \<Rightarrow> ('w, 'z) cmd" where
  "opMul E c = bind (pop c) (\<lambda>a c. bind (peek c) (\<lambda>b c. setN 0 (u_Mul (u256lib E) a b) c))"

definition opMulMod :: "'w env \<Rightarrow> ('w, 'z) cmd" where
  "opMulMod E c = bind (pop c) (\<lambda>a c. bind (pop c) (\<lambda>b c. bind (peek c) (\<lambda>n c.
     setN 0 (u_MulMod (u256lib E) a b n) c)))"

definition opDiv :: "'w env \<Rightarrow> ('w, 'z) cmd" where
  "opDiv E c = bind (pop c) (\<lambda>a c. bind (peek c) (\<lambda>b c. setN 0 (u_Div (u256lib E) a b) c))"

definition opSDiv :: "'w env \<Rightarrow> ('w, 'z) cmd" where
  "opSDiv E c = bind (pop c) (\<lambda>a c. bind (peek c) (\<lambda>b c. setN 0 (u_SDiv (u256lib E) a b) c))"

definition opMod :: "'w env \<Rightarrow> ('w, 'z) cmd" where
  "opMod E c = bind (pop c) (\<lambda>a c. bind (peek c) (\<lambda>b c. setN 0 (u_Mod (u256lib E) a b) c))"

definition opAddMod :: "'w env \<Rightarrow> ('w, 'z) cmd" where
  "opAddMod E c = bind (pop c) (\<lambda>a c. bind (pop c) (\<lambda>b c. bind (peek c) (\<lambda>n c.
     setN 0 (u_AddMod (u256lib E) a b n) c)))"

definition opSMod :: "'w env \<Rightarrow> ('w, 'z) cmd" where
  "opSMod E c = bind (pop c) (\<lambda>a c. bind (peek c) (\<lambda>b c. setN 0 (u_SMod (u256lib E) a b) c))"

definition opExp :: "'w env \<Rightarrow> ('w, 'z) cmd" where
  "opExp E c =
     bind (pop c) (\<lambda>base c.
     bind (peek c) (\<lambda>exponent c.
     bind (useGas (int64 (50 * int (u_ByteLen (u256lib E) exponent))) c) (\<lambda>_ c.
     setN 0 (u_Exp (u256lib E) base exponent) c)))"

definition opSha3 :: "'w env \<Rightarrow> ('w, 'z) cmd" where
  "opSha3 E c =
     bind (pop c) (\<lambda>offset c.
     bind (peek c) (\<lambda>sz c.
     bind (getSlice offset sz c) (\<lambda>sl c.
     let ws = SizeInWords (Uint64 sz); price = int64 (uint (6 * ws)) in
     bind (useGas price c) (\<lambda>_ c.
     let bs = slice_bytes (memory c) sl;
         hash = (if withShaCache c then sha3Cache_hash E bs else Keccak256 E bs) in
     setN 0 hash c))))"

section \<open>Environment instructions\<close>

definition opGas :: "('w, 'z) cmd" where
  "opGas c = push (SetUint64 (word_of_int (gas c))) c"

definition opPrevRandao :: "('w, 'z) cmd" where
  "opPrevRandao c = push (PrevRandao (BlockParams (params c))) c"

definition opTimestamp :: "('w, 'z) cmd" where
  "opTimestamp c = push (SetUint64 (word_of_int (Timestamp (BlockParams (params c))))) c"

definition opNumber :: "('w, 'z) cmd" where
  "opNumber c = push (SetUint64 (word_of_int (BlockNumber (BlockParams (params c))))) c"

definition opCoinbase :: "('w, 'z) cmd" where
  "opCoinbase c = push (SetBytes20 (Coinbase (BlockParams (params c)))) c"

definition opGasLimit :: "('w, 'z) cmd" where
  "opGasLimit c = push (SetUint64 (word_of_int (GasLimit (BlockParams (params c))))) c"

definition opGasPrice :: "('w, 'z) cmd" where
  "opGasPrice c = push (GasPrice (TransactionParams (params c))) c"

definition getAccessCost :: "AccessStatus \<Rightarrow> Gas" where
  "getAccessCost accessStatus = (if accessStatus = ColdAccess then 2600 else 100)"

text \<open>The statement \<open>c.useGas(getAccessCost(c.context.AccessAccount(address)))\<close>.\<close>

definition useAccessGas :: "'w env \<Rightarrow> Address \<Rightarrow> ('w, 'z) cmd" where
  "useAccessGas E addr c =
     (let (st, w) = AccessAccount (rc E) addr (world c) in
      useGas (getAccessCost st) (c\<lparr>world := w\<rparr>))"

definition opBalance :: "'w env \<Rightarrow> ('w, 'z) cmd" where
  "opBalance E c =
     bind (peek c) (\<lambda>slot c.
     let address = Bytes20 slot in
     bind (if isAtLeast c R09_Berlin then useAccessGas E address c else ret () c) (\<lambda>_ c.
     setN 0 (GetBalance (rc E) (world c) address) c))"

definition opSelfbalance :: "'w env \<Rightarrow> ('w, 'z) cmd" where
  "opSelfbalance E c = push (GetBalance (rc E) (world c) (Recipient (params c))) c"

definition opBaseFee :: "('w, 'z) cmd" where
  "opBaseFee c =
     (if \<not> isAtLeast c R10_London then fail errInvalidRevision c
      else push (BaseFee (BlockParams (params c))) c)"

definition opBlobHash :: "('w, 'z) cmd" where
  "opBlobHash c =
     (if \<not> isAtLeast c R13_Cancun then fail errInvalidRevision c
      else
        bind (pop c) (\<lambda>index c.
        let hs = BlobHashes (TransactionParams (params c)) in
        if IsUint64 index \<and> unat (Uint64 index) < length hs
        then push (hs ! unat (Uint64 index)) c
        else push 0 c))"

definition opBlobBaseFee :: "('w, 'z) cmd" where
  "opBlobBaseFee c =
     (if \<not> isAtLeast c R13_Cancun then fail errInvalidRevision c
      else push (BlobBaseFee (BlockParams (params c))) c)"

definition opChainId :: "('w, 'z) cmd" where
  "opChainId c = push (ChainID (BlockParams (params c))) c"

definition opBlockhash :: "'w env \<Rightarrow> ('w, 'z) cmd" where
  "opBlockhash E c =
     bind (peek c) (\<lambda>t c.
     let requestedBlockNumber = Uint64 t;
         currentBlockNumber = word_of_int (BlockNumber (BlockParams (params c))) :: u64 in
     if \<not> IsUint64 t \<or> currentBlockNumber \<le> requestedBlockNumber then setN 0 0 c
     else
       (let oldest = (if currentBlockNumber < 256 then currentBlockNumber else 256);
            oldestInHistory = currentBlockNumber - oldest in
        if requestedBlockNumber < oldestInHistory then setN 0 0 c
        else setN 0 (GetBlockHash (rc E) (world c) (int64 (uint requestedBlockNumber))) c))"

definition opAddress :: "('w, 'z) cmd" where
  "opAddress c = push (SetBytes20 (Recipient (params c))) c"

definition opOrigin :: "('w, 'z) cmd" where
  "opOrigin c = push (SetBytes20 (Origin (TransactionParams (params c)))) c"

definition opCodeSize :: "('w, 'z) cmd" where
  "opCodeSize c = push (SetUint64 (word_of_nat (length (Code (params c))))) c"

definition opExtcodesize :: "'w env \<Rightarrow> ('w, 'z) cmd" where
  "opExtcodesize E c =
     bind (peek c) (\<lambda>t c.
     let address = Bytes20 t in
     bind (if isAtLeast c R09_Berlin then useAccessGas E address c else ret () c) (\<lambda>_ c.
     setN 0 (SetUint64 (word_of_int (GetCodeSize (rc E) (world c) address))) c))"

text \<open>An account is empty if it has no nonce, no balance and no code.\<close>

definition isEmpty :: "'w RunContext \<Rightarrow> 'w \<Rightarrow> Address \<Rightarrow> bool" where
  "isEmpty r w addr \<longleftrightarrow> GetNonce r w addr = 0 \<and> GetBalance r w addr = 0 \<and> GetCodeSize r w addr = 0"

definition opExtcodehash :: "'w env \<Rightarrow> ('w, 'z) cmd" where
  "opExtcodehash E c =
     bind (peek c) (\<lambda>slot c.
     let address = Bytes20 slot in
     bind (if isAtLeast c R09_Berlin then useAccessGas E address c else ret () c) (\<lambda>_ c.
     if isEmpty (rc E) (world c) address then setN 0 0 c
     else setN 0 (GetCodeHash (rc E) (world c) address) c))"

definition opExtCodeCopy :: "'w env \<Rightarrow> ('w, 'z) cmd" where
  "opExtCodeCopy E c =
     bind (pop c) (\<lambda>a c.
     let address = Bytes20 a in
     bind (if isAtLeast c R09_Berlin then useAccessGas E address c else ret () c) (\<lambda>_ c.
     genericDataCopy (GetCode (rc E) (world c) address) c))"

section \<open>Self-destruct\<close>

definition selfDestructNewAccountCost :: "bool \<Rightarrow> Value \<Rightarrow> Gas" where
  "selfDestructNewAccountCost beneficiaryEmpty balance =
     (if beneficiaryEmpty \<and> balance \<noteq> 0 then 25000 else 0)"

definition selfDestructRefund :: "bool \<Rightarrow> Revision \<Rightarrow> Gas" where
  "selfDestructRefund destructed rv = (if destructed \<and> rv < R10_London then 24000 else 0)"

definition opSelfdestruct ::
  "'w env \<Rightarrow> ('w, 'z) ctxt_scheme \<Rightarrow> (('w, 'z) ctxt_scheme, status) res" where
  "opSelfdestruct E c =
     (if Static (params c) then fail errStaticContextViolation c
      else
        bind (pop c) (\<lambda>b c.
        let beneficiary = Bytes20 b;
            (cost, w) =
              (if isAtLeast c R09_Berlin then
                 (case AccessAccount (rc E) beneficiary (world c) of
                    (WarmAccess, w) \<Rightarrow> (0, w)
                  | (ColdAccess, w) \<Rightarrow> (getAccessCost ColdAccess, w))
               else (0, world c));
            cost = cost + selfDestructNewAccountCost (isEmpty (rc E) w beneficiary)
                            (GetBalance (rc E) w (Recipient (params c))) in
        bind (useGas cost (c\<lparr>world := w\<rparr>)) (\<lambda>_ c.
        let (destructed, w) = SelfDestruct (rc E) (Recipient (params c)) beneficiary (world c) in
        ret statusSelfDestructed (c\<lparr>world := w,
          refund := int64 (refund c +
            selfDestructRefund destructed (revision (BlockParams (params c))))\<rparr>))))"

section \<open>Contract creation\<close>

text \<open>\<open>maxInitCodeSize = 2 * 24576\<close>, \<open>initCodeWordGas = 2\<close>.\<close>

definition computeCodeSizeCost :: "u64 \<Rightarrow> error + Gas" where
  "computeCodeSizeCost sz =
     (if 49152 < sz then Inl errInitCodeTooLarge
      else Inr (int64 (uint (2 * SizeInWords sz))))"

text \<open>
  The last part of \<open>genericCreate\<close>: the balance check, the nested call and the update of
  the caller's state.
\<close>

definition forwardCreate :: "'w env \<Rightarrow> CallKind \<Rightarrow> u256 \<Rightarrow> u256 \<Rightarrow> mslice \<Rightarrow> ('w, 'z) cmd" where
  "forwardCreate E kind v salt sl c =
     (if v \<noteq> 0 \<and> u_Gt (u256lib E) v (GetBalance (rc E) (world c) (Recipient (params c)))
      then bind (push 0 c) (\<lambda>_ c. ret () (c\<lparr>returnData := []\<rparr>))
      else
        (let nestedCallGas = gas c - go_quot (gas c) 64;
             ((r, err), w) = CallOp (rc E) kind
               \<lparr>cp_Sender = Recipient (params c), cp_Recipient = 0, cp_Value = v,
                cp_Input = slice_bytes (memory c) sl, cp_Gas = nestedCallGas,
                cp_Salt = salt, cp_CodeAddress = 0\<rparr> (world c) in
         bind (push (if \<not> cr_Success r \<or> err then 0 else SetBytes20 (cr_CreatedAddress r))
                 (c\<lparr>world := w\<rparr>)) (\<lambda>_ c.
         ret () (c\<lparr>returnData := (if \<not> cr_Success r \<and> \<not> err then cr_Output r else []),
                   gas := int64 (gas c - nestedCallGas + cr_GasLeft r),
                   refund := int64 (refund c + cr_GasRefund r)\<rparr>))))"

definition genericCreate :: "'w env \<Rightarrow> CallKind \<Rightarrow> ('w, 'z) cmd" where
  "genericCreate E kind c =
     (if Static (params c) then fail errStaticContextViolation c
      else
        bind (pop c) (\<lambda>v c.
        bind (pop c) (\<lambda>offset c.
        bind (pop c) (\<lambda>sz c.
        bind (if kind = Create2 then pop c else ret 0 c) (\<lambda>salt c.
        bind (getSlice offset sz c) (\<lambda>sl c.
        bind (if isAtLeast c R12_Shanghai then
                (case computeCodeSizeCost (Uint64 sz) of
                   Inl e \<Rightarrow> fail e c
                 | Inr initCodeCost \<Rightarrow> useGas initCodeCost c)
              else ret () c) (\<lambda>_ c.
        bind (if kind = Create2 then useGas (int64 (uint (6 * SizeInWords (Uint64 sz)))) c
              else ret () c) (\<lambda>_ c.
        forwardCreate E kind v salt sl c))))))))"

section \<open>Calls\<close>

definition parseDelegationDesignation :: "bytes \<Rightarrow> Address \<times> bool" where
  "parseDelegationDesignation cd =
     (if length cd = 23 \<and> take 3 cd = [0xef, 0x01, 0x00]
      then (of_be_bytes (drop 3 cd), True)
      else (0, False))"

text \<open>The sequence of charges of \<open>genericCall\<close> between the memory expansions and the call.\<close>

definition chargeDelegation :: "'w env \<Rightarrow> Address \<Rightarrow> ('w, 'z) cmd" where
  "chargeDelegation E toAddr c =
     (if isAtLeast c R14_Prague then
        (case parseDelegationDesignation (GetCode (rc E) (world c) toAddr) of
           (target, True) \<Rightarrow> useAccessGas E target c
         | (_, False) \<Rightarrow> ret () c)
      else ret () c)"

definition chargeCallCosts :: "'w env \<Rightarrow> CallKind \<Rightarrow> u256 \<Rightarrow> Address \<Rightarrow> ('w, 'z) cmd" where
  "chargeCallCosts E kind v toAddr c =
     bind (if isAtLeast c R09_Berlin then useAccessGas E toAddr c else ret () c) (\<lambda>_ c.
     bind (chargeDelegation E toAddr c) (\<lambda>_ c.
     bind (if v \<noteq> 0 then useGas CallValueTransferGas c else ret () c) (\<lambda>_ c.
     if kind = Call \<and> v \<noteq> 0 \<and> isEmpty (rc E) (world c) toAddr
     then useGas CallNewAccountGas c else ret () c)))"

text \<open>The gas passed on: all but one 64th, or less if less was provided.\<close>

definition nestedGas :: "Gas \<Rightarrow> u256 \<Rightarrow> Gas" where
  "nestedGas g provided_gas =
     (let nested = g - go_quot g 64 in
      if IsUint64 provided_gas \<and> uint (Uint64 provided_gas) \<le> 9223372036854775807 \<and>
         int64 (uint (Uint64 provided_gas)) \<le> nested
      then int64 (uint (Uint64 provided_gas)) else nested)"

definition makeCallParams ::
  "Parameters \<Rightarrow> CallKind \<Rightarrow> bytes \<Rightarrow> Gas \<Rightarrow> u256 \<Rightarrow> Address \<Rightarrow> CallParameters" where
  "makeCallParams p kind args nestedCallGas v toAddr =
     (let cp = \<lparr>cp_Sender = 0, cp_Recipient = 0, cp_Value = v, cp_Input = args,
                cp_Gas = nestedCallGas, cp_Salt = 0, cp_CodeAddress = toAddr\<rparr> in
      case kind of
        Call \<Rightarrow> cp\<lparr>cp_Sender := Recipient p, cp_Recipient := toAddr\<rparr>
      | StaticCall \<Rightarrow> cp\<lparr>cp_Sender := Recipient p, cp_Recipient := toAddr\<rparr>
      | CallCode \<Rightarrow> cp\<lparr>cp_Sender := Recipient p, cp_Recipient := Recipient p\<rparr>
      | DelegateCall \<Rightarrow> cp\<lparr>cp_Sender := Sender p, cp_Recipient := Recipient p, cp_Value := Value p\<rparr>
      | _ \<Rightarrow> cp)"

text \<open>
  The last part of \<open>genericCall\<close>: the nested call itself and the update of the caller's
  state from its result.
\<close>

definition performCall ::
  "'w env \<Rightarrow> CallKind \<Rightarrow> CallParameters \<Rightarrow> mslice \<Rightarrow> ('w, 'z) cmd" where
  "performCall E kind callParams output c =
     (let ((r, err), w) = CallOp (rc E) kind callParams (world c);
          c = c\<lparr>world := w\<rparr>;
          c = (if err then c else c\<lparr>memory := copy_slice output (cr_Output r) (memory c)\<rparr>) in
      bind (push (if err \<or> \<not> cr_Success r then 0 else 1) c) (\<lambda>_ c.
      ret () (c\<lparr>gas := int64 (gas c + cr_GasLeft r),
                refund := int64 (refund c + cr_GasRefund r),
                returnData := cr_Output r\<rparr>)))"

text \<open>
  The part after the charges: the gas that is passed on, the stipend, the balance check and
  the call.
\<close>

definition forwardCall ::
  "'w env \<Rightarrow> CallKind \<Rightarrow> u256 \<Rightarrow> Address \<Rightarrow> u256 \<Rightarrow> mslice \<Rightarrow> mslice \<Rightarrow> ('w, 'z) cmd" where
  "forwardCall E kind v toAddr provided_gas args output c =
     (let nestedCallGas = nestedGas (gas c) provided_gas;
         c = c\<lparr>gas := gas c - nestedCallGas\<rparr>;
         nestedCallGas = (if v \<noteq> 0 then int64 (nestedCallGas + CallStipend) else nestedCallGas) in
     if (kind = Call \<or> kind = CallCode) \<and> v \<noteq> 0 \<and>
        u_Lt (u256lib E) (GetBalance (rc E) (world c) (Recipient (params c))) v
     then bind (push 0 c) (\<lambda>_ c.
            ret () (c\<lparr>returnData := [], gas := int64 (gas c + nestedCallGas)\<rparr>))
     else
       (let kind = (if Static (params c) \<and> kind = Call then StaticCall else kind) in
        performCall E kind
          (makeCallParams (params c) kind (slice_bytes (memory c) args) nestedCallGas v toAddr)
          output c))"

definition genericCall :: "'w env \<Rightarrow> CallKind \<Rightarrow> ('w, 'z) cmd" where
  "genericCall E kind c =
     bind (pop c) (\<lambda>provided_gas c.
     bind (pop c) (\<lambda>addr c.
     bind (if kind = Call \<or> kind = CallCode then pop c else ret 0 c) (\<lambda>v c.
     bind (pop c) (\<lambda>inOffset c.
     bind (pop c) (\<lambda>inSize c.
     bind (pop c) (\<lambda>retOffset c.
     bind (pop c) (\<lambda>retSize c.
     let toAddr = Bytes20 addr in
     bind (getSlice inOffset inSize c) (\<lambda>args c.
     bind (getSlice retOffset retSize c) (\<lambda>output c.
     bind (chargeCallCosts E kind v toAddr c) (\<lambda>_ c.
     forwardCall E kind v toAddr provided_gas args output c))))))))))"

definition opCall :: "'w env \<Rightarrow> ('w, 'z) cmd" where
  "opCall E c =
     bind (peekN 2 c) (\<lambda>v c.
     if Static (params c) \<and> v \<noteq> 0 then fail errStaticContextViolation c
     else genericCall E Call c)"

definition opCallCode :: "'w env \<Rightarrow> ('w, 'z) cmd" where
  "opCallCode E c = genericCall E CallCode c"

definition opStaticCall :: "'w env \<Rightarrow> ('w, 'z) cmd" where
  "opStaticCall E c = genericCall E StaticCall c"

definition opDelegateCall :: "'w env \<Rightarrow> ('w, 'z) cmd" where
  "opDelegateCall E c = genericCall E DelegateCall c"

section \<open>Return data and logs\<close>

definition opReturnDataSize :: "('w, 'z) cmd" where
  "opReturnDataSize c = push (SetUint64 (word_of_nat (length (returnData c)))) c"

definition opReturnDataCopy :: "('w, 'z) cmd" where
  "opReturnDataCopy c =
     bind (pop c) (\<lambda>memOffset c.
     bind (pop c) (\<lambda>dataOffset c.
     bind (pop c) (\<lambda>len c.
     if \<not> IsUint64 dataOffset \<or> \<not> IsUint64 len then fail errOverflow c
     else
       bind (useGas (int64 (uint (3 * SizeInWords (Uint64 len)))) c) (\<lambda>_ c.
       let start = Uint64 dataOffset; end64 = start + Uint64 len in
       if end64 < start then fail errOverflow c
       else if length (returnData c) < unat end64 then fail errOverflow c
       else mem_set memOffset
              (take (unat end64 - unat start) (drop (unat start) (returnData c))) c))))"

fun popTopics :: "nat \<Rightarrow> ('w, 'z) ctxt_scheme \<Rightarrow> (('w, 'z) ctxt_scheme, Hash list) res" where
  "popTopics 0 c = ret [] c"
| "popTopics (Suc n) c =
     bind (pop c) (\<lambda>t c. bind (popTopics n c) (\<lambda>ts c. ret (t # ts) c))"

definition opLog :: "'w env \<Rightarrow> nat \<Rightarrow> ('w, 'z) cmd" where
  "opLog E n c =
     (if Static (params c) then fail errStaticContextViolation c
      else
        bind (pop c) (\<lambda>offset c.
        bind (pop c) (\<lambda>sz c.
        bind (popTopics n c) (\<lambda>topics c.
        bind (getSlice offset sz c) (\<lambda>sl c.
        bind (useGas (int64 (uint (8 * Uint64 sz))) c) (\<lambda>_ c.
        ret () (c\<lparr>world := EmitLog (rc E)
          \<lparr>log_Address = Recipient (params c), log_Topics = topics,
           log_Data = slice_bytes (memory c) sl\<rparr> (world c)\<rparr>)))))))"

end
