(* ===== verification/Exec_Logic.thy ===== *)
theory Exec_Logic
  imports Instructions
begin

text \<open>
  A small program logic for the shared instructions: the context invariant \<open>cinv\<close>, the
  relation \<open>crel\<close> between the contexts before and after an operation, the predicate
  \<open>sound\<close> that every instruction satisfies for its declared stack usage, and the contract
  \<open>run_ctx\<close> of the run context under which it is proved.
\<close>

section \<open>Invariant, step relation and soundness\<close>

definition cinv :: "('w, 'z) ctxt_scheme \<Rightarrow> bool" where
  "cinv c \<longleftrightarrow>
     0 \<le> gas c \<and> gas c < 9223372036854775808 \<and> length (stack c) \<le> maxStackSize \<and>
     mem_wf (memory c) \<and>
     length (Input (params c)) < 9223372036854775808 \<and>
     length (Code (params c)) < 9223372036854775808"

definition crel :: "('w, 'z) ctxt_scheme \<Rightarrow> ('w, 'z) ctxt_scheme \<Rightarrow> bool" where
  "crel c c' \<longleftrightarrow>
     cinv c' \<and> gas c' \<le> gas c \<and> params c' = params c \<and> pc c' = pc c \<and>
     withShaCache c' = withShaCache c \<and> ctxt.more c' = ctxt.more c"

text \<open>
  \<open>sound k pops pushes f\<close>: on a context that satisfies the invariant and whose stack
  holds \<open>pops\<close> operands and has room for the result, \<open>f\<close> does not panic, keeps the
  invariant, never increases the gas, charges at least \<open>k\<close> on success and changes the
  stack height by \<open>pushes - pops\<close>.
\<close>

definition sound ::
  "(Revision \<Rightarrow> int) \<Rightarrow> nat \<Rightarrow> nat \<Rightarrow>
   (('w, 'z) ctxt_scheme \<Rightarrow> (('w, 'z) ctxt_scheme, 'a) res) \<Rightarrow> bool" where
  "sound k pops pushes f \<longleftrightarrow>
     (\<forall>c. cinv c \<and> pops \<le> length (stack c) \<and> length (stack c) + pushes \<le> maxStackSize + pops \<longrightarrow>
        wp (f c) (\<lambda>e c'. e \<noteq> GoPanic \<and> crel c c')
          (\<lambda>_ c'. crel c c' \<and> gas c' + k (revision (BlockParams (params c))) \<le> gas c \<and>
                 length (stack c') + pops = length (stack c) + pushes))"

abbreviation free_op :: "Revision \<Rightarrow> int" where
  "free_op \<equiv> \<lambda>_. 0"

definition berlin_access :: "Revision \<Rightarrow> int" where
  "berlin_access rv = (if R09_Berlin \<le> rv then 100 else 0)"

section \<open>Basic rules\<close>

lemma crel_refl [simp]: "cinv c \<Longrightarrow> crel c c"
  by (simp add: crel_def)

lemma crel_cinv: "crel c c' \<Longrightarrow> cinv c'"
  by (simp add: crel_def)

lemma crel_trans: "crel c c' \<Longrightarrow> crel c' c'' \<Longrightarrow> crel c c''"
  by (auto simp: crel_def)

lemma crel_params: "crel c c' \<Longrightarrow> params c' = params c"
  by (simp add: crel_def)

lemma crel_isAtLeast: "crel c c' \<Longrightarrow> isAtLeast c' r = isAtLeast c r"
  by (simp add: crel_def isAtLeast_def)

lemma crel_gas: "crel c c' \<Longrightarrow> gas c' \<le> gas c"
  by (simp add: crel_def)

lemma le_length_Cons: "Suc n \<le> length xs \<longleftrightarrow> (\<exists>x ys. xs = x # ys \<and> n \<le> length ys)"
  by (rule Suc_le_length_iff)

lemma le_length_numeral:
  "numeral k \<le> length xs \<longleftrightarrow> (\<exists>x ys. xs = x # ys \<and> pred_numeral k \<le> length ys)"
  by (simp add: numeral_eq_Suc Suc_le_length_iff)

text \<open>Operations that touch neither gas nor memory.\<close>

lemma sound_pure:
  assumes "\<And>c. pops \<le> length (stack c) \<Longrightarrow> length (stack c) + pushes \<le> maxStackSize + pops \<Longrightarrow>
    length (stack c) \<le> maxStackSize \<Longrightarrow>
    wp (f c) (\<lambda>e c'. e \<noteq> GoPanic \<and> (\<exists>s. c' = c\<lparr>stack := s\<rparr> \<and> length s \<le> maxStackSize))
      (\<lambda>_ c'. \<exists>s. c' = c\<lparr>stack := s\<rparr> \<and> length s + pops = length (stack c) + pushes)"
  shows "sound free_op pops pushes f"
  unfolding sound_def
proof (intro allI impI, elim conjE)
  fix c :: "('a, 'b) ctxt_scheme"
  assume c: "cinv c" "pops \<le> length (stack c)" "length (stack c) + pushes \<le> maxStackSize + pops"
  then have "length (stack c) \<le> maxStackSize" by (simp add: cinv_def)
  from assms [OF c(2,3) this]
  show "wp (f c) (\<lambda>e c'. e \<noteq> GoPanic \<and> crel c c')
     (\<lambda>_ c'. crel c c' \<and> gas c' + 0 \<le> gas c \<and> length (stack c') + pops = length (stack c) + pushes)"
    by (rule wp_conseq) (use c in \<open>auto simp: crel_def cinv_def\<close>)
qed

lemma ex_stack_update [simp]:
  "(\<exists>s. c\<lparr>stack := t\<rparr> = c\<lparr>stack := s\<rparr> \<and> P s) \<longleftrightarrow> P t"
  "(\<exists>s. c = c\<lparr>stack := s\<rparr> \<and> P s) \<longleftrightarrow> P (stack c)"
  by (metis ctxt.select_convs(6) ctxt.surjective ctxt.update_convs(6))+

lemmas pure_simps = wp_simps le_length_Cons le_length_numeral Let_def

lemma sound_bin:
  assumes "\<And>c. f c = bind (pop c) (\<lambda>a c. bind (peek c) (\<lambda>b c. setN 0 (g a b) c))"
  shows "sound free_op 2 1 f"
  by (rule sound_pure) (auto simp: assms pure_simps)

lemma sound_un:
  assumes "\<And>c. f c = bind (peek c) (\<lambda>a c. setN 0 (g c a) c)"
  shows "sound free_op 1 1 f"
  by (rule sound_pure) (auto simp: assms pure_simps)

lemma sound_tern:
  assumes "\<And>c. f c = bind (pop c) (\<lambda>a c. bind (pop c) (\<lambda>b c. bind (peek c) (\<lambda>n c. setN 0 (g a b n) c)))"
  shows "sound free_op 3 1 f"
  by (rule sound_pure) (auto simp: assms pure_simps)

lemma sound_push:
  assumes "\<And>c. f c = push (g c) c"
  shows "sound free_op 0 1 f"
  by (rule sound_pure) (auto simp: assms pure_simps)

section \<open>Soundness of the stack, bit and arithmetic instructions\<close>

lemma sound_opPop: "sound free_op 1 0 opPop"
  by (rule sound_pure) (auto simp: opPop_def pure_simps)

lemma sound_opPush0: "sound free_op 0 1 opPush0"
  by (rule sound_pure) (auto simp: opPush0_def pure_simps)

lemma sound_opDup: "0 < n \<Longrightarrow> sound free_op n (Suc n) (opDup n)"
  by (rule sound_pure) (auto simp: opDup_def wp_simps)

lemma sound_opSwap: "sound free_op (Suc n) (Suc n) (opSwap n)"
  by (rule sound_pure) (auto simp: opSwap_def wp_simps)

lemma sound_opClz: "sound free_op 1 1 (opClz E)"
  by (rule sound_pure) (auto simp: opClz_def pure_simps)

lemma sound_opTload: "sound free_op 1 1 (opTload E)"
  by (rule sound_pure) (auto simp: opTload_def pure_simps)

lemma sound_opBlobHash: "sound free_op 1 1 opBlobHash"
  by (rule sound_pure) (auto simp: opBlobHash_def pure_simps)

lemma sound_opBaseFee: "sound free_op 0 1 opBaseFee"
  by (rule sound_pure) (auto simp: opBaseFee_def pure_simps)

lemma sound_opBlobBaseFee: "sound free_op 0 1 opBlobBaseFee"
  by (rule sound_pure) (auto simp: opBlobBaseFee_def pure_simps)

lemma sound_opBlockhash: "sound free_op 1 1 (opBlockhash E)"
  by (rule sound_pure) (auto simp: opBlockhash_def pure_simps)

lemma sound_opNot: "sound free_op 1 1 (opNot E)" by (rule sound_un) (rule opNot_def)
lemma sound_opIszero: "sound free_op 1 1 opIszero" by (rule sound_un) (rule opIszero_def)
lemma sound_opAnd: "sound free_op 2 1 (opAnd E)" by (rule sound_bin) (rule opAnd_def)
lemma sound_opOr: "sound free_op 2 1 (opOr E)" by (rule sound_bin) (rule opOr_def)
lemma sound_opXor: "sound free_op 2 1 (opXor E)" by (rule sound_bin) (rule opXor_def)
lemma sound_opEq: "sound free_op 2 1 (opEq E)" by (rule sound_bin) (rule opEq_def)
lemma sound_opLt: "sound free_op 2 1 (opLt E)" by (rule sound_bin) (rule opLt_def)
lemma sound_opGt: "sound free_op 2 1 (opGt E)" by (rule sound_bin) (rule opGt_def)
lemma sound_opSlt: "sound free_op 2 1 (opSlt E)" by (rule sound_bin) (rule opSlt_def)
lemma sound_opSgt: "sound free_op 2 1 (opSgt E)" by (rule sound_bin) (rule opSgt_def)
lemma sound_opShr: "sound free_op 2 1 (opShr E)" by (rule sound_bin) (rule opShr_def)
lemma sound_opShl: "sound free_op 2 1 (opShl E)" by (rule sound_bin) (rule opShl_def)
lemma sound_opSar: "sound free_op 2 1 (opSar E)" by (rule sound_bin) (rule opSar_def)
lemma sound_opSignExtend: "sound free_op 2 1 (opSignExtend E)" by (rule sound_bin) (rule opSignExtend_def)
lemma sound_opByte: "sound free_op 2 1 (opByte E)" by (rule sound_bin) (rule opByte_def)
lemma sound_opAdd: "sound free_op 2 1 (opAdd E)" by (rule sound_bin) (rule opAdd_def)
lemma sound_opSub: "sound free_op 2 1 (opSub E)" by (rule sound_bin) (rule opSub_def)
lemma sound_opMul: "sound free_op 2 1 (opMul E)" by (rule sound_bin) (rule opMul_def)
lemma sound_opDiv: "sound free_op 2 1 (opDiv E)" by (rule sound_bin) (rule opDiv_def)
lemma sound_opSDiv: "sound free_op 2 1 (opSDiv E)" by (rule sound_bin) (rule opSDiv_def)
lemma sound_opMod: "sound free_op 2 1 (opMod E)" by (rule sound_bin) (rule opMod_def)
lemma sound_opSMod: "sound free_op 2 1 (opSMod E)" by (rule sound_bin) (rule opSMod_def)
lemma sound_opMulMod: "sound free_op 3 1 (opMulMod E)" by (rule sound_tern) (rule opMulMod_def)
lemma sound_opAddMod: "sound free_op 3 1 (opAddMod E)" by (rule sound_tern) (rule opAddMod_def)
lemma sound_opMsize: "sound free_op 0 1 opMsize" by (rule sound_push) (rule opMsize_def)
lemma sound_opCaller: "sound free_op 0 1 opCaller" by (rule sound_push) (rule opCaller_def)
lemma sound_opCallvalue: "sound free_op 0 1 opCallvalue" by (rule sound_push) (rule opCallvalue_def)
lemma sound_opCallDatasize: "sound free_op 0 1 opCallDatasize" by (rule sound_push) (rule opCallDatasize_def)
lemma sound_opGas: "sound free_op 0 1 opGas" by (rule sound_push) (rule opGas_def)
lemma sound_opPrevRandao: "sound free_op 0 1 opPrevRandao" by (rule sound_push) (rule opPrevRandao_def)
lemma sound_opTimestamp: "sound free_op 0 1 opTimestamp" by (rule sound_push) (rule opTimestamp_def)
lemma sound_opNumber: "sound free_op 0 1 opNumber" by (rule sound_push) (rule opNumber_def)
lemma sound_opCoinbase: "sound free_op 0 1 opCoinbase" by (rule sound_push) (rule opCoinbase_def)
lemma sound_opGasLimit: "sound free_op 0 1 opGasLimit" by (rule sound_push) (rule opGasLimit_def)
lemma sound_opGasPrice: "sound free_op 0 1 opGasPrice" by (rule sound_push) (rule opGasPrice_def)
lemma sound_opSelfbalance: "sound free_op 0 1 (opSelfbalance E)" by (rule sound_push) (rule opSelfbalance_def)
lemma sound_opChainId: "sound free_op 0 1 opChainId" by (rule sound_push) (rule opChainId_def)
lemma sound_opAddress: "sound free_op 0 1 opAddress" by (rule sound_push) (rule opAddress_def)
lemma sound_opOrigin: "sound free_op 0 1 opOrigin" by (rule sound_push) (rule opOrigin_def)
lemma sound_opCodeSize: "sound free_op 0 1 opCodeSize" by (rule sound_push) (rule opCodeSize_def)
lemma sound_opReturnDataSize: "sound free_op 0 1 opReturnDataSize" by (rule sound_push) (rule opReturnDataSize_def)

section \<open>Rules for gas and memory\<close>

text \<open>
  The rules relate every intermediate context to the one at the start of the operation, so
  that a proof runs through the body of an instruction from left to right.
\<close>

abbreviation (input) err_ok ::
  "('w, 'z) ctxt_scheme \<Rightarrow> error \<Rightarrow> ('w, 'z) ctxt_scheme \<Rightarrow> bool" where
  "err_ok c \<equiv> \<lambda>e c'. e \<noteq> GoPanic \<and> crel c c'"

lemma soundI:
  assumes "\<And>c. cinv c \<Longrightarrow> crel c c \<Longrightarrow> pops \<le> length (stack c) \<Longrightarrow> length (stack c) \<le> maxStackSize \<Longrightarrow>
    length (stack c) + pushes \<le> maxStackSize + pops \<Longrightarrow>
    wp (f c) (err_ok c)
      (\<lambda>_ c'. crel c c' \<and> gas c' + k (revision (BlockParams (params c))) \<le> gas c \<and>
             length (stack c') + pops = length (stack c) + pushes)"
  shows "sound k pops pushes f"
  using assms unfolding sound_def cinv_def by (simp add: crel_def cinv_def)

lemma soundD:
  "sound k pops pushes f \<Longrightarrow> cinv c \<Longrightarrow> pops \<le> length (stack c) \<Longrightarrow>
   length (stack c) + pushes \<le> maxStackSize + pops \<Longrightarrow>
   wp (f c) (err_ok c)
     (\<lambda>_ c'. crel c c' \<and> gas c' + k (revision (BlockParams (params c))) \<le> gas c \<and>
            length (stack c') + pops = length (stack c) + pushes)"
  by (simp add: sound_def)

lemma crel_frame [simp]:
  "crel c (c'\<lparr>world := w\<rparr>) = crel c c'"
  "crel c (c'\<lparr>refund := r\<rparr>) = crel c c'"
  "crel c (c'\<lparr>returnData := d\<rparr>) = crel c c'"
  by (simp_all add: crel_def cinv_def)

lemma crel_stackI: "crel c c' \<Longrightarrow> length s \<le> maxStackSize \<Longrightarrow> crel c (c'\<lparr>stack := s\<rparr>)"
  by (auto simp: crel_def cinv_def)

lemma crel_memoryI: "crel c c' \<Longrightarrow> mem_wf m \<Longrightarrow> crel c (c'\<lparr>memory := m\<rparr>)"
  by (auto simp: crel_def cinv_def)

lemma mem_wf_copy_slice:
  "mem_wf m \<Longrightarrow> off + n \<le> length (store m) \<Longrightarrow> mem_wf (copy_slice (off, n) d m)"
  by (simp add: mem_wf_def copy_slice_def)

lemma crel_copy_sliceI:
  "crel c c' \<Longrightarrow> m = memory c' \<Longrightarrow> off + n \<le> length (store m) \<Longrightarrow>
   crel c (c'\<lparr>memory := copy_slice (off, n) d m\<rparr>)"
  by (rule crel_memoryI) (auto simp: crel_def cinv_def intro: mem_wf_copy_slice)

text \<open>What a charge and a memory access leave unchanged.\<close>

definition kept :: "('w, 'z) ctxt_scheme \<Rightarrow> ('w, 'z) ctxt_scheme \<Rightarrow> bool" where
  "kept c c' \<longleftrightarrow> stack c' = stack c \<and> world c' = world c \<and> refund c' = refund c \<and>
     returnData c' = returnData c \<and> params c' = params c \<and> pc c' = pc c \<and>
     withShaCache c' = withShaCache c \<and> ctxt.more c' = ctxt.more c"

lemma keptD:
  "kept c c' \<Longrightarrow> stack c' = stack c" "kept c c' \<Longrightarrow> world c' = world c"
  "kept c c' \<Longrightarrow> returnData c' = returnData c" "kept c c' \<Longrightarrow> params c' = params c"
  "kept c c' \<Longrightarrow> withShaCache c' = withShaCache c"
  by (simp_all add: kept_def)

lemma wp_useGas_rel:
  assumes "crel b c"
    and "\<And>c'. crel b c' \<Longrightarrow> kept c c' \<Longrightarrow> memory c' = memory c \<Longrightarrow> gas c' = gas c - n \<Longrightarrow> 0 \<le> n \<Longrightarrow>
      n \<le> gas c \<Longrightarrow> 0 \<le> gas c' \<Longrightarrow> Q () c'"
  shows "wp (useGas n c) (err_ok b) Q"
  using assms by (auto simp: wp_useGas crel_def cinv_def kept_def not_less)

lemma wp_getSlice:
  assumes "crel b c"
    and "\<And>off c'. crel b c' \<Longrightarrow> kept c c' \<Longrightarrow> gas c' \<le> gas c \<Longrightarrow> 0 \<le> gas c' \<Longrightarrow>
      off + unat sz \<le> length (store (memory c')) \<Longrightarrow> IsUint64 sz \<Longrightarrow>
      length (store (memory c)) \<le> length (store (memory c')) \<Longrightarrow> Q (off, unat sz) c'"
  shows "wp (getSlice offset sz c) (err_ok b) Q"
proof -
  have wf: "mem_wf (memory c)" using assms(1) by (simp add: crel_def cinv_def)
  show ?thesis
  proof (cases rule: getSlice_cases [OF wf, of offset sz])
    case (1 e)
    then show ?thesis using assms(1) by (simp add: wp_fail)
  next
    case (2 m fee off)
    let ?c = "c\<lparr>gas := gas c - fee, memory := m\<rparr>"
    have "crel b ?c" "0 \<le> gas ?c"
      using assms(1) 2(2,3,4) by (auto simp: crel_def cinv_def)
    moreover have "length (store (memory c)) \<le> length (store m)" using 2(6) by auto
    ultimately have "Q (off, unat sz) ?c" using 2(2,8,10) by (intro assms(2)) (auto simp: kept_def)
    then show ?thesis by (simp add: 2(1) wp_ret)
  qed
qed

lemma wp_mem_set:
  assumes "crel b c"
    and "\<And>c'. crel b c' \<Longrightarrow> kept c c' \<Longrightarrow> gas c' \<le> gas c \<Longrightarrow> Q () c'"
  shows "wp (mem_set offset v c) (err_ok b) Q"
  unfolding mem_set_def wp_bind
  by (rule wp_getSlice [OF assms(1)])
    (auto simp: wp_ret kept_def intro!: assms(2) crel_copy_sliceI)

lemmas rel_rules = wp_useGas_rel wp_getSlice wp_mem_set crel_stackI crel_copy_sliceI
lemmas rel_simps = wp_ret wp_fail wp_bind wp_if wp_let le_length_Cons le_length_numeral Let_def keptD

section \<open>Soundness of the memory instructions\<close>

lemma crel_returnData: "crel b (c\<lparr>returnData := d\<rparr>) \<longleftrightarrow> crel b c"
  by (simp add: crel_def cinv_def)

lemma sound_opEndWithResult: "sound free_op 2 0 opEndWithResult"
  by (rule soundI)
    (auto simp: opEndWithResult_def rel_simps wp_on_error crel_returnData intro!: rel_rules)

lemma sound_opMstore: "sound free_op 2 0 opMstore"
  by (rule soundI)
    (auto simp: opMstore_def rel_simps intro!: rel_rules)

lemma sound_opMstore8: "sound free_op 2 0 opMstore8"
  by (rule soundI)
    (auto simp: opMstore8_def rel_simps intro!: rel_rules)

lemma sound_opMload: "sound free_op 1 1 opMload"
  by (rule soundI)
    (auto simp: opMload_def readWord_def rel_simps intro!: rel_rules)

lemma sound_opMcopy: "sound free_op 3 0 opMcopy"
  by (rule soundI)
    (auto simp: opMcopy_def rel_simps intro!: rel_rules)

lemma sound_opReturnDataCopy: "sound free_op 3 0 opReturnDataCopy"
  by (rule soundI)
    (auto simp: opReturnDataCopy_def rel_simps intro!: rel_rules)

lemma sound_opExp:
  "sound free_op 2 1 (opExp E)"
  by (rule soundI) (auto simp: opExp_def rel_simps intro!: rel_rules)

lemma sound_opSha3: "sound free_op 2 1 (opSha3 E)"
  by (rule soundI)
    (auto simp: opSha3_def rel_simps intro!: rel_rules)

section \<open>Accesses and data copies\<close>

lemma wp_useAccessGas:
  assumes "crel b c"
    and "\<And>c'. crel b c' \<Longrightarrow> stack c' = stack c \<Longrightarrow> memory c' = memory c \<Longrightarrow> params c' = params c \<Longrightarrow>
      gas c' + 100 \<le> gas c \<Longrightarrow> 0 \<le> gas c' \<Longrightarrow> Q () c'"
  shows "wp (useAccessGas E a c) (err_ok b) Q"
  using assms(1)
  by (auto simp: useAccessGas_def getAccessCost_def kept_def wp_let
      intro!: wp_useGas_rel assms(2) split: prod.splits)

lemma getData_total:
  assumes "length src < 9223372036854775808" and "unat sz < 9223372036854775808"
  shows "\<exists>v. getData src offset sz = Ret v \<and> length v = unat sz"
proof -
  have "\<not> (if length src < unat (Uint64 offset + sz) then length src
          else unat (Uint64 offset + sz)) < unat (Uint64 offset)"
    if "unat (Uint64 offset) < length src"
  proof -
    have "unat (Uint64 offset + sz) = unat (Uint64 offset) + unat sz"
      using that assms by (simp add: unat_word_ariths)
    with that show ?thesis by simp
  qed
  then show ?thesis using assms
    by (auto simp: getData_def Let_def not_le overwrite_def unat_word_ariths)
qed

lemma crel_lengths:
  "crel b c \<Longrightarrow> length (store (memory c)) \<le> maxMemoryExpansionSize"
  "crel b c \<Longrightarrow> length (Input (params c)) < 9223372036854775808"
  "crel b c \<Longrightarrow> length (Code (params c)) < 9223372036854775808"
  by (auto simp: crel_def cinv_def mem_wf_def)

lemma wp_genericDataCopy:
  assumes c: "crel b c" and s: "stack c = x # y # z # zs" "length zs \<le> maxStackSize"
    and len: "length src < 9223372036854775808"
    and Q: "\<And>c'. crel b c' \<Longrightarrow> stack c' = zs \<Longrightarrow> gas c' \<le> gas c \<Longrightarrow> Q () c'"
  shows "wp (genericDataCopy src c) (err_ok b) Q"
proof -
  have get: "\<exists>v. getData src y (Uint64 z) = Ret v"
    if "crel b c'" "off + unat z \<le> length (store (memory c'))" "IsUint64 z" for c' :: "('a, 'b) ctxt_scheme" and off
    using getData_total [OF len, of "Uint64 z" y] crel_lengths(1) [OF that(1)] that(2,3)
    by (auto simp: unat_Uint64)
  show ?thesis
    unfolding genericDataCopy_def using c s
    apply (simp add: wp_bind Let_def)
    apply (rule wp_useGas_rel)
     apply (rule crel_stackI, assumption, simp)
    apply (rule wp_getSlice, assumption)
    apply (frule (2) get)
    apply (auto simp: wp_ret kept_def intro!: Q crel_copy_sliceI)
    done
qed

lemma sound_opCallDataload: "sound free_op 1 1 opCallDataload"
proof (rule soundI)
  fix c :: "('a, 'b) ctxt_scheme"
  assume c: "cinv c" "crel c c" "1 \<le> length (stack c)" "length (stack c) \<le> maxStackSize"
  obtain v where "getData (Input (params c)) (stack c ! 0) 32 = Ret v"
    using getData_total [of "Input (params c)" 32 "stack c ! 0"] crel_lengths(2) [OF c(2)] by auto
  then show "wp (opCallDataload c) (err_ok c) (\<lambda>_ c'. crel c c' \<and> gas c' + 0 \<le> gas c \<and>
      length (stack c') + 1 = length (stack c) + 1)"
    using c by (auto simp: opCallDataload_def rel_simps Suc_le_eq intro!: rel_rules)
qed

lemma sound_copy:
  assumes "\<And>c. f c = genericDataCopy (src c) c"
    and "\<And>c. cinv c \<Longrightarrow> length (src c) < 9223372036854775808"
  shows "sound free_op 3 0 f"
  by (rule soundI)
    (auto simp: assms(1) le_length_numeral le_length_Cons intro!: wp_genericDataCopy assms(2))

lemma sound_opCallDataCopy: "sound free_op 3 0 (\<lambda>c. genericDataCopy (Input (params c)) c)"
  by (rule sound_copy) (auto simp: cinv_def)

lemma sound_opCodeCopy: "sound free_op 3 0 (\<lambda>c. genericDataCopy (Code (params c)) c)"
  by (rule sound_copy) (auto simp: cinv_def)

section \<open>Storage and account instructions\<close>

lemmas access_rules = rel_rules wp_useAccessGas
lemmas access_simps = rel_simps isAtLeast_def berlin_access_def

lemma sound_opBalance: "sound berlin_access 1 1 (opBalance E)"
  by (rule soundI) (auto simp: opBalance_def access_simps intro!: access_rules)

lemma sound_opExtcodesize: "sound berlin_access 1 1 (opExtcodesize E)"
  by (rule soundI) (auto simp: opExtcodesize_def access_simps intro!: access_rules)

lemma sound_opExtcodehash: "sound berlin_access 1 1 (opExtcodehash E)"
  by (rule soundI) (auto simp: opExtcodehash_def access_simps intro!: access_rules)

lemma sound_opSload: "sound berlin_access 1 1 (opSload E)"
  by (rule soundI)
    (auto simp: opSload_def access_simps intro!: access_rules split: prod.splits AccessStatus.splits)

lemma sound_opTstore: "sound free_op 2 0 (opTstore E)"
  by (rule soundI) (auto simp: opTstore_def access_simps intro!: access_rules)

lemma sstore_min [simp]:
  "100 \<le> getDynamicCostsForSstore rv st" "- getDynamicCostsForSstore rv st \<le> 2000"
  by (auto simp: getDynamicCostsForSstore_def split: StorageStatus.splits)

lemma sound_opSstore: "sound (\<lambda>_. 100) 2 0 (opSstore E)"
proof (rule soundI)
  fix c :: "('a, 'b) ctxt_scheme"
  assume c: "cinv c" "crel c c" "2 \<le> length (stack c)" "length (stack c) \<le> maxStackSize"
  then show "wp (opSstore E c) (err_ok c) (\<lambda>_ c'. crel c c' \<and> gas c' + 100 \<le> gas c \<and>
      length (stack c') + 2 = length (stack c) + 0)"
    by (auto simp: opSstore_def access_simps intro!: access_rules split: prod.splits AccessStatus.splits)
qed

section \<open>Logs and self-destruct\<close>

lemma popTopics_ok [simp]:
  "n \<le> length (stack c) \<Longrightarrow>
   popTopics n c = ret (take n (stack c)) (c\<lparr>stack := drop n (stack c)\<rparr>)"
proof (induction n arbitrary: c)
  case (Suc n)
  then obtain x xs where "stack c = x # xs" by (cases "stack c") auto
  with Suc show ?case by simp
qed simp

lemma sound_opLog: "sound free_op (n + 2) 0 (opLog E n)"
  by (rule soundI) (auto simp: opLog_def rel_simps intro!: rel_rules)

lemma sound_opSelfdestruct: "sound free_op 1 0 (opSelfdestruct E)"
  by (rule soundI)
    (auto simp: opSelfdestruct_def selfDestructNewAccountCost_def access_simps
      intro!: access_rules split: prod.splits AccessStatus.splits)

section \<open>The contract of the run context\<close>

lemma length_slice_bytes: "mem_wf m \<Longrightarrow> length (slice_bytes m sl) < 9223372036854775808"
  by (cases sl) (auto simp: slice_bytes_def mem_wf_def)

text \<open>
  What the interpreters rely on: a nested call returns no more gas than it was given, and
  code is a Go slice, so its length is a non-negative \<open>int\<close>. In turn they call with an
  amount of gas that fits an \<open>int64\<close> and with an input that is a slice.
\<close>

locale run_ctx =
  fixes E :: "'w env"
  assumes call_gas:
    "0 \<le> cp_Gas p \<Longrightarrow> cp_Gas p < 9223372036854775808 \<Longrightarrow>
     length (cp_Input p) < 9223372036854775808 \<Longrightarrow> CallOp (rc E) kind p w = ((r, err), w') \<Longrightarrow>
     0 \<le> cr_GasLeft r \<and> cr_GasLeft r \<le> cp_Gas p"
    and code_length: "length (GetCode (rc E) w a) < 9223372036854775808"
begin

lemma sound_opExtCodeCopy: "sound berlin_access 4 0 (opExtCodeCopy E)"
  by (rule soundI)
    (auto simp: opExtCodeCopy_def access_simps code_length
      intro!: access_rules wp_genericDataCopy)

lemma wp_chargeDelegation:
  assumes "crel b c"
    and "\<And>c'. crel b c' \<Longrightarrow> stack c' = stack c \<Longrightarrow> memory c' = memory c \<Longrightarrow> params c' = params c \<Longrightarrow>
      gas c' \<le> gas c \<Longrightarrow> Q () c'"
  shows "wp (chargeDelegation E a c) (err_ok b) Q"
  using assms
  by (auto simp: chargeDelegation_def wp_ret intro!: wp_useAccessGas split: prod.splits bool.splits)

lemma wp_chargeCallCosts:
  assumes "crel b c"
    and "\<And>c'. crel b c' \<Longrightarrow> stack c' = stack c \<Longrightarrow> memory c' = memory c \<Longrightarrow> 0 \<le> gas c' \<Longrightarrow>
      gas c' + berlin_access (revision (BlockParams (params b))) + (if v = 0 then 0 else 9000) \<le> gas c \<Longrightarrow>
      Q () c'"
  shows "wp (chargeCallCosts E kind v a c) (err_ok b) Q"
proof -
  have nonneg: "0 \<le> gas c'" if "crel b c'" for c' :: "('w, 'a) ctxt_scheme"
    using that by (simp add: crel_def cinv_def)
  show ?thesis
    unfolding chargeCallCosts_def wp_bind using assms(1)
    by (auto simp: wp_ret kept_def berlin_access_def isAtLeast_def crel_params nonneg
        intro!: wp_useAccessGas wp_chargeDelegation wp_useGas_rel assms(2))
qed

lemma nestedGas_bounds:
  assumes "0 \<le> g"
  shows "0 \<le> nestedGas g v" "nestedGas g v \<le> g"
proof -
  have "int64 (uint x) = uint x" if "uint x \<le> 9223372036854775807" for x :: u64
    using that uint_ge_0 [of x] by (intro int64_id) linarith+
  then show "0 \<le> nestedGas g v" "nestedGas g v \<le> g"
    using assms by (auto simp: nestedGas_def Let_def)
qed

lemma wp_performCall:
  assumes b: "cinv b" and c: "crel b c" and len: "length (stack c) < maxStackSize"
    and out: "off + n \<le> length (store (memory c))" and inp: "length (cp_Input p) < 9223372036854775808"
    and g: "0 \<le> cp_Gas p" "0 \<le> k" "gas c + cp_Gas p + k \<le> gas b"
  shows "wp (performCall E kind p (off, n) c) (err_ok b)
    (\<lambda>_ c'. crel b c' \<and> gas c' + k \<le> gas b \<and> length (stack c') = Suc (length (stack c)))"
proof -
  obtain r err w where call: "CallOp (rc E) kind p (world c) = ((r, err), w)"
    by (metis prod.collapse)
  have "cp_Gas p < 9223372036854775808" "0 \<le> gas c" using b c g by (auto simp: crel_def cinv_def)
  with call_gas [OF g(1) _ inp call] have r: "0 \<le> cr_GasLeft r" "cr_GasLeft r \<le> cp_Gas p" by auto
  have "crel b (c\<lparr>memory := copy_slice (off, n) (cr_Output r) (memory c)\<rparr>)"
    using c out by (intro crel_copy_sliceI) auto
  moreover have "int64 (gas c + cr_GasLeft r) = gas c + cr_GasLeft r"
    using b c r g by (intro int64_id) (auto simp: crel_def cinv_def)
  ultimately show ?thesis
    using len b c g r by (auto simp: performCall_def call Let_def wp_bind wp_ret crel_def cinv_def)
qed

lemma wp_forwardCall:
  assumes b: "cinv b" and c: "crel b c" and len: "length (stack c) < maxStackSize"
    and out: "off + n \<le> length (store (memory c))" and k: "0 \<le> k" "0 \<le> gas c"
    and g: "gas c + k + (if v = 0 then 0 else 9000) \<le> gas b"
  shows "wp (forwardCall E kind v toAddr provided_gas args (off, n) c) (err_ok b)
    (\<lambda>_ c'. crel b c' \<and> gas c' + k \<le> gas b \<and> length (stack c') = Suc (length (stack c)))"
proof -
  define ng where "ng = nestedGas (gas c) provided_gas"
  define ng' where "ng' = (if v \<noteq> 0 then int64 (ng + CallStipend) else ng)"
  define d where "d = c\<lparr>gas := gas c - ng\<rparr>"
  have ng: "0 \<le> ng" "ng \<le> gas c" using nestedGas_bounds [OF k(2)] by (auto simp: ng_def)
  have gb: "gas b < 9223372036854775808" using b by (simp add: cinv_def)
  have ng': "0 \<le> ng'" "gas d + ng' + k \<le> gas b"
    using ng gb g k by (auto simp: ng'_def d_def)
  have d: "crel b d" "length (stack d) = length (stack c)" "memory d = memory c"
    using c ng by (auto simp: d_def crel_def cinv_def)
  have gd: "0 \<le> gas d" using ng by (simp add: d_def)
  have gas_p: "cp_Gas (makeCallParams p kd ar ng' v t) = ng'" "cp_Input (makeCallParams p kd ar ng' v t) = ar"
    for p kd ar t
    by (simp_all add: makeCallParams_def Let_def split: CallKind.splits)
  have inp: "length (slice_bytes (memory d) args) < 9223372036854775808"
    using d(1) by (auto simp: crel_def cinv_def intro: length_slice_bytes)
  have "int64 (gas d + ng') = gas d + ng'" using gd ng' gb k by (intro int64_id) auto
  then have fail_case: "wp (bind (push 0 d) (\<lambda>_ c. ret () (c\<lparr>returnData := [], gas := int64 (gas c + ng')\<rparr>)))
      (err_ok b) (\<lambda>_ c'. crel b c' \<and> gas c' + k \<le> gas b \<and> length (stack c') = Suc (length (stack c)))"
    using d len ng' gd gb k by (auto simp: wp_bind wp_ret crel_def cinv_def)
  have call_case: "wp (performCall E kd (makeCallParams (params d) kd (slice_bytes (memory d) args) ng' v toAddr)
          (off, n) d) (err_ok b)
    (\<lambda>_ c'. crel b c' \<and> gas c' + k \<le> gas b \<and> length (stack c') = Suc (length (stack c)))" for kd
    using wp_performCall [OF b d(1), of off n _ k] d len out ng' k inp by (simp add: gas_p)
  show ?thesis
    unfolding forwardCall_def Let_def ng_def [symmetric] ng'_def [symmetric] d_def [symmetric]
    using fail_case call_case by simp
qed

lemma wp_call_body:
  assumes b: "cinv b" and c: "crel b c" and len: "length (stack c) < maxStackSize"
  shows "wp (bind (getSlice i n c) (\<lambda>args c. bind (getSlice j m c) (\<lambda>output c.
      bind (chargeCallCosts E kind v a c) (\<lambda>_ c. forwardCall E kind v a g args output c)))) (err_ok b)
    (\<lambda>_ c'. crel b c' \<and> gas c' + berlin_access (revision (BlockParams (params b))) \<le> gas b \<and>
       length (stack c') = Suc (length (stack c)))"
proof -
  have k: "0 \<le> berlin_access rv" for rv by (simp add: berlin_access_def)
  show ?thesis
    unfolding wp_bind
  proof (rule wp_getSlice [OF c], rule wp_getSlice, assumption, rule wp_chargeCallCosts, assumption)
    fix off1 off2 c1 c2 c3
    assume 1: "crel b c1" "kept c c1" "gas c1 \<le> gas c" "crel b c2" "kept c1 c2" "gas c2 \<le> gas c1"
      "off2 + unat m \<le> length (store (memory c2))"
      "crel b c3" "stack c3 = stack c2" "memory c3 = memory c2" "0 \<le> gas c3"
      "gas c3 + berlin_access (revision (BlockParams (params b))) + (if v = 0 then 0 else 9000) \<le> gas c2"
    have "gas c2 \<le> gas b" using 1 by (simp add: crel_def)
    with 1 b len show "wp (forwardCall E kind v a g (off1, unat n) (off2, unat m) c3) (err_ok b)
      (\<lambda>_ c'. crel b c' \<and> gas c' + berlin_access (revision (BlockParams (params b))) \<le> gas b \<and>
        length (stack c') = Suc (length (stack c)))"
      using wp_forwardCall [OF b 1(8), of off2 "unat m" "berlin_access (revision (BlockParams (params b)))" v
          kind a g "(off1, unat n)"] k
      by (simp add: kept_def)
  qed
qed

lemma sound_genericCall:
  "sound berlin_access (if kind = Call \<or> kind = CallCode then 7 else 6) 1 (genericCall E kind)"
proof (rule soundI)
  fix c :: "('w, 'a) ctxt_scheme"
  assume c: "cinv c" "crel c c" "length (stack c) \<le> maxStackSize"
    "(if kind = Call \<or> kind = CallCode then 7 else 6) \<le> length (stack c)"
  show "wp (genericCall E kind c) (err_ok c)
     (\<lambda>_ c'. crel c c' \<and> gas c' + berlin_access (revision (BlockParams (params c))) \<le> gas c \<and>
        length (stack c') + (if kind = Call \<or> kind = CallCode then 7 else 6) = length (stack c) + 1)"
  proof (cases "kind = Call \<or> kind = CallCode")
    case True
    with c(4) obtain g a v i n j m zs where s: "stack c = g # a # v # i # n # j # m # zs"
      by (auto simp: le_length_numeral le_length_Cons)
    then have "crel c (c\<lparr>stack := zs\<rparr>)" using c by (intro crel_stackI) auto
    from wp_call_body [OF c(1) this, where i = i and n = n and j = j and m = m and kind = kind and v = v
        and a = "Bytes20 a" and g = g] s c(3) True
    show ?thesis by (simp add: genericCall_def Let_def)
  next
    case False
    with c(4) obtain g a i n j m zs where s: "stack c = g # a # i # n # j # m # zs"
      by (auto simp: le_length_numeral le_length_Cons)
    then have "crel c (c\<lparr>stack := zs\<rparr>)" using c by (intro crel_stackI) auto
    from wp_call_body [OF c(1) this, where i = i and n = n and j = j and m = m and kind = kind and v = 0
        and a = "Bytes20 a" and g = g] s c(3) False
    show ?thesis by (simp add: genericCall_def Let_def)
  qed
qed

lemma sound_opCall: "sound berlin_access 7 1 (opCall E)"
proof (rule soundI)
  fix c :: "('w, 'a) ctxt_scheme"
  assume c: "cinv c" "crel c c" "7 \<le> length (stack c)" "length (stack c) + 1 \<le> maxStackSize + 7"
  from soundD [OF sound_genericCall [of Call] c(1)] c
  show "wp (opCall E c) (err_ok c)
     (\<lambda>_ c'. crel c c' \<and> gas c' + berlin_access (revision (BlockParams (params c))) \<le> gas c \<and>
        length (stack c') + 7 = length (stack c) + 1)"
    by (auto simp: opCall_def wp_bind wp_ret wp_fail)
qed

lemma sound_opCallCode: "sound berlin_access 7 1 (opCallCode E)"
  using sound_genericCall [of CallCode] by (simp add: opCallCode_def [abs_def])

lemma sound_opStaticCall: "sound berlin_access 6 1 (opStaticCall E)"
  using sound_genericCall [of StaticCall] by (simp add: opStaticCall_def [abs_def])

lemma sound_opDelegateCall: "sound berlin_access 6 1 (opDelegateCall E)"
  using sound_genericCall [of DelegateCall] by (simp add: opDelegateCall_def [abs_def])

lemma wp_forwardCreate:
  assumes b: "cinv b" and c: "crel b c" and len: "length (stack c) < maxStackSize"
  shows "wp (forwardCreate E kind v salt sl c) (err_ok b)
    (\<lambda>_ c'. crel b c' \<and> gas c' \<le> gas b \<and> length (stack c') = Suc (length (stack c)))"
proof -
  define p where "p = \<lparr>cp_Sender = Recipient (params c), cp_Recipient = 0, cp_Value = v,
    cp_Input = slice_bytes (memory c) sl, cp_Gas = gas c - go_quot (gas c) 64,
    cp_Salt = salt, cp_CodeAddress = 0\<rparr>"
  have g: "0 \<le> gas c" "gas c \<le> gas b" "gas b < 9223372036854775808"
    using b c by (auto simp: crel_def cinv_def)
  obtain r err w where call: "CallOp (rc E) kind p (world c) = ((r, err), w)"
    by (metis prod.collapse)
  have pg: "cp_Gas p = gas c - gas c div 64" using g by (simp add: p_def)
  have inp: "length (slice_bytes (memory c) sl) < 9223372036854775808"
    using c by (auto simp: crel_def cinv_def intro: length_slice_bytes)
  have r: "0 \<le> cr_GasLeft r" "cr_GasLeft r \<le> gas c - gas c div 64"
    using call_gas [OF _ _ _ call] g pg inp by (auto simp: p_def)
  then have "int64 (gas c div 64 + cr_GasLeft r) = gas c div 64 + cr_GasLeft r"
    using g by (intro int64_id) auto
  then show ?thesis
    unfolding forwardCreate_def Let_def p_def [symmetric] call
    using len c g r by (auto simp: wp_simps crel_def cinv_def)
qed

lemma sound_genericCreate:
  "sound free_op (if kind = Create2 then 4 else 3) 1 (genericCreate E kind)"
proof (rule soundI)
  fix c :: "('w, 'a) ctxt_scheme"
  assume c: "cinv c" "crel c c" "length (stack c) \<le> maxStackSize"
    "(if kind = Create2 then 4 else 3) \<le> length (stack c)"
  have tail: "wp (forwardCreate E kd v salt sl c') (err_ok c)
      (\<lambda>_ c'. crel c c' \<and> gas c' \<le> gas c \<and> length (stack c') = Suc n)"
    if "crel c c'" "length (stack c') = n" "n < maxStackSize"
    for kd v salt sl n and c' :: "('w, 'a) ctxt_scheme"
    using wp_forwardCreate [OF c(1) that(1)] that by simp
  have size: "computeCodeSizeCost s = Inl e \<Longrightarrow> e \<noteq> GoPanic" for s e
    by (auto simp: computeCodeSizeCost_def split: if_splits)
  show "wp (genericCreate E kind c) (err_ok c) (\<lambda>_ c'. crel c c' \<and> gas c' + 0 \<le> gas c \<and>
      length (stack c') + (if kind = Create2 then 4 else 3) = length (stack c) + 1)"
    using c
    by (auto simp: genericCreate_def rel_simps intro!: wp_getSlice wp_useGas_rel crel_stackI tail
        dest: size split: if_splits sum.splits)
qed

lemma sound_opCreate: "sound free_op 3 1 (genericCreate E Create)"
  using sound_genericCreate [of Create] by simp

lemma sound_opCreate2: "sound free_op 4 1 (genericCreate E Create2)"
  using sound_genericCreate [of Create2] by simp

end

end
