(* ===== verification/Evm_Properties.thy ===== *)
theory Evm_Properties
  imports Exec_Logic
begin

text \<open>
  Functional properties of the parts that the two interpreters share: the operand stack and
  its pool, the memory, the metering of storage writes, the gas passed to nested calls, the
  shift instructions and the value types.
\<close>

section \<open>Operand stack\<close>

text \<open>
  C24: refinement: any sequence of stack operations on the array of 1024 cells with a stack
  pointer reads the same values, and panics at the same point, as on the list of its live
  cells.
\<close>

theorem stack_refines_list:
  assumes "stack_wf s"
  shows "run_ops stack_push stack_pop stack_peekN stack_swap stack_dup ops s
    = run_ops list_push list_pop list_peekN list_swap list_dup ops (live s)"
  using assms by (rule arr.run_ops_abs)

theorem stack_refines_list_witness:
  "run_ops stack_push stack_pop stack_peekN stack_swap stack_dup [SPush 1, SPush 2, SSwap 1, SPop]
     (fst (NewStack [])) = Ret [1]"
proof -
  have wf: "stack_wf (fst (NewStack []))" "live (fst (NewStack [])) = []"
    using NewStack_empty [of "[]" "fst (NewStack [])" "snd (NewStack [])"] by (simp_all add: pool_ok_def)
  show ?thesis
    using stack_refines_list [OF wf(1), of "[SPush 1, SPush 2, SSwap 1, SPop]"] wf(2)
    by (simp add: list_push_def list_pop_def list_swap_def)
qed

text \<open>
  A stack that is returned to the pool and handed out again is empty, whatever values
  its cells still hold.
\<close>

lemma recycled_stack_empty:
  assumes "pool_ok pool" and "stack_wf s"
  shows "stack_wf (fst (NewStack (ReturnStack s pool))) \<and> live (fst (NewStack (ReturnStack s pool))) = [] \<and>
    pool_ok (snd (NewStack (ReturnStack s pool)))"
  using NewStack_empty [OF ReturnStack_ok [OF assms] prod.collapse [symmetric]] .

section \<open>Values\<close>

text \<open>
  C32: the limb-wise addition, subtraction and comparison of 32-byte values agree with
  arithmetic on 256-bit words, wrap-around included.
\<close>

theorem value_arithmetic:
  "tosca_Add a b = a + b \<and> tosca_Sub a b = a - b \<and>
   tosca_Cmp a b = (if a < b then - 1 else if b < a then 1 else 0) \<and> tosca_Min a b = min a b"
  by simp

text \<open>
  Round trip: the text form of a byte array (addresses, values) decodes to the same
  bytes, and the name of a call kind to the same kind.
\<close>

lemma text_round_trip:
  "textToBytes (length bs) (bytesToText bs) = Inr bs \<and> CallKind_Unmarshal (CallKind_String k) = Some k"
proof -
  have "hex_DecodeString (drop 2 (bytesToText bs)) = Some bs"
    using hex_DecodeString_encode [of bs] by (simp add: bytesToText_def)
  moreover have "take 2 (bytesToText bs) = ''0x''" by (simp add: bytesToText_def)
  ultimately show ?thesis
    by (cases k) (simp_all add: textToBytes_def CallKind_Unmarshal_def toLower_def)
qed

section \<open>Metering of storage writes\<close>

text \<open>The net charge of a write: its dynamic cost less its refund.\<close>

definition sstore_net :: "Revision \<Rightarrow> Word \<Rightarrow> Word \<Rightarrow> Word \<Rightarrow> Gas" where
  "sstore_net rv original current new =
     (let st = GetStorageStatus original current new in
      getDynamicCostsForSstore rv st - getRefundForSstore rv st)"

fun sstore_nets :: "Revision \<Rightarrow> Word \<Rightarrow> Word \<Rightarrow> Word list \<Rightarrow> Gas" where
  "sstore_nets rv original current [] = 0"
| "sstore_nets rv original current (v # vs) =
     sstore_net rv original current v + sstore_nets rv original v vs"

definition warm_price :: "Revision \<Rightarrow> Gas" where
  "warm_price rv = (if R09_Berlin \<le> rv then 100 else 800)"

text \<open>What a slot with the given original value has cost, beyond the warm accesses.\<close>

definition slot_debt :: "Revision \<Rightarrow> Word \<Rightarrow> Word \<Rightarrow> Gas" where
  "slot_debt rv original current =
     (if current = original then 0
      else if original = 0 then 20000 - warm_price rv
      else (if R09_Berlin \<le> rv then 2800 else 4200)
           - (if current = 0 then (if R10_London \<le> rv then 4800 else 15000) else 0))"

lemma sstore_net_eq:
  "sstore_net rv original current new =
     warm_price rv + slot_debt rv original new - slot_debt rv original current"
proof -
  have "R10_London \<le> rv \<Longrightarrow> R09_Berlin \<le> rv" by (cases rv) auto
  then show ?thesis
    by (auto simp: sstore_net_def GetStorageStatus_def getDynamicCostsForSstore_def
        getRefundForSstore_def slot_debt_def warm_price_def Let_def)
qed

text \<open>
  C25: net gas metering: over any sequence of writes to a storage slot in a transaction, the
  charges less the refunds depend only on the original, the first and the last value and on
  the number of writes; intermediate values cost nothing but the warm access of each write.
\<close>

theorem sstore_path_independent:
  "sstore_nets rv original current vs =
     int (length vs) * warm_price rv + slot_debt rv original (last (current # vs))
       - slot_debt rv original current"
  by (induction vs arbitrary: current) (auto simp: sstore_net_eq algebra_simps)

section \<open>Memory\<close>

text \<open>
  C26: a memory access either fails and leaves the context as it was, or extends the memory
  with zeroes to the next multiple of 32 bytes that holds the range, charges exactly the
  difference of the quadratic memory costs, and changes nothing else.
\<close>

theorem getSlice_charge:
  assumes "mem_wf (memory c)"
  shows "(\<exists>e. e \<noteq> GoPanic \<and> getSlice offset sz c = fail e c) \<or>
    (\<exists>m off. getSlice offset sz c =
        ret (off, unat sz)
          (c\<lparr>gas := gas c - (mem_cost (length (store m) div 32)
                       - mem_cost (length (store (memory c)) div 32)), memory := m\<rparr>) \<and>
      mem_wf m \<and> (\<exists>k. store m = store (memory c) @ replicate k 0) \<and>
      length (store m) = (if sz = 0 then length (store (memory c)) else
        max (length (store (memory c))) (32 * ((unat offset + unat sz + 31) div 32))) \<and>
      off + unat sz \<le> length (store m) \<and> (sz \<noteq> 0 \<longrightarrow> off = unat offset))"
proof (cases rule: getSlice_cases [OF assms, of offset sz])
  case (1 e)
  then show ?thesis by (intro disjI1 exI [of _ e]) simp
next
  case (2 m fee off)
  from 2(4,6-9) 2(1) [unfolded 2(5)] show ?thesis
    by (intro disjI2 exI [of _ m]) (intro exI [of _ off], blast)
qed

definition demo_base :: "Memory \<Rightarrow> u256 list \<Rightarrow> unit ctxt" where
  "demo_base m s =
     \<lparr>params =
       \<lparr>BlockParams = \<lparr>ChainID = 1, BlockNumber = 5, Timestamp = 0, Coinbase = 0, GasLimit = 0,
          PrevRandao = 0, BaseFee = 0, BlobBaseFee = 0, revision = R13_Cancun\<rparr>,
        TransactionParams = \<lparr>Origin = 0, GasPrice = 0, BlobHashes = []\<rparr>,
        Kind = Call, Static = False, Depth = 0, Gas = 1000, Recipient = 0, Sender = 0, Input = [],
        Value = 0, CodeHash = None, Code = []\<rparr>,
      world = (), pc = 0, gas = 100, refund = 0, stack = s, memory = m, returnData = [],
      withShaCache = False\<rparr>"

lemma demo_base_simps [simp]: "memory (demo_base m s) = m" "stack (demo_base m s) = s" "gas (demo_base m s) = 100"
  by (simp_all add: demo_base_def)

theorem getSlice_charge_witness:
  "(\<exists>e. e \<noteq> GoPanic \<and> getSlice 5 40 (demo_base NewMemory []) = fail e (demo_base NewMemory [])) \<or>
   (\<exists>m. getSlice 5 40 (demo_base NewMemory []) =
        ret (5, 40) ((demo_base NewMemory [])\<lparr>gas := 100 - mem_cost 2, memory := m\<rparr>) \<and> length (store m) = 64)"
proof -
  have empty: "store NewMemory = []" "mem_cost 0 = 0" by (simp_all add: NewMemory_def mem_cost_def)
  from getSlice_charge [of "demo_base NewMemory []" 5 40] show ?thesis
  proof (simp add: empty, elim disjE exE conjE)
    fix m :: Memory
    assume "length (store m) = 64"
      "getSlice 5 40 (demo_base NewMemory []) =
        ret (5, 40) ((demo_base NewMemory [])\<lparr>gas := 100 - mem_cost (length (store m) div 32), memory := m\<rparr>)"
    then show ?thesis by (intro disjI2 exI [of _ m]) simp
  qed blast
qed

section \<open>Nested gas\<close>

text \<open>
  The gas passed to a nested call is the requested amount, but never more than all but
  one 64th of the gas that is left.
\<close>

lemma nestedGas_min:
  assumes "0 \<le> g" and "g < 9223372036854775808"
  shows "nestedGas g v = min (int (unat v)) (g - g div 64)"
proof (cases "IsUint64 v")
  case True
  then have "uint (Uint64 v) = int (unat v)" by (simp add: uint_nat unat_Uint64 del: of_nat_unat)
  moreover have "int64 (int (unat v)) = int (unat v)" if "int (unat v) \<le> 9223372036854775807"
    using that by (intro int64_id) linarith+
  ultimately show ?thesis using assms True by (auto simp: nestedGas_def Let_def)
next
  case False
  then have "2 ^ 64 \<le> unat v" by (simp add: IsUint64_def)
  then have "g < int (unat v)" using assms by (simp del: of_nat_unat)
  then show ?thesis using assms False by (simp add: nestedGas_def)
qed

section \<open>Shifts\<close>

context uint256_arith
begin

lemma shift_ops:
  assumes "u256lib E = U" and "stack c = a # b # zs"
  shows "opShl E c = ret () (c\<lparr>stack := word_of_nat (unat b * 2 ^ unat a) # zs\<rparr>)"
    and "opShr E c = ret () (c\<lparr>stack := word_of_nat (unat b div 2 ^ unat a) # zs\<rparr>)"
    and "opSar E c = ret () (c\<lparr>stack := word_of_int (sint b div 2 ^ unat a) # zs\<rparr>)"
proof -
  have u: "unat (Uint64 a) = unat a" if "unat a \<le> 256" using that by (intro unat_Uint64) (simp add: IsUint64_def)
  have word_exp_zero: "(2 :: u256) ^ n = 0" if "\<not> n < 256" for n using that by simp
  have big: "unat b < 2 ^ n" if "256 \<le> n" for n
    by (rule less_le_trans [OF unat_lt_pow]) (rule power_increasing, use that in simp_all)
  show "opShl E c = ret () (c\<lparr>stack := word_of_nat (unat b * 2 ^ unat a) # zs\<rparr>)"
  proof -
    have "word_of_nat (unat b * 2 ^ unat a) = (if unat a < 256 then push_bit (unat a) b else 0)"
    proof (cases "unat a < 256")
      case True
      then show ?thesis by (simp add: push_bit_eq_mult)
    next
      case False
      have "word_of_nat (unat b * 2 ^ unat a) = b * (2 :: u256) ^ unat a" by simp
      also have "\<dots> = 0" by (simp only: word_exp_zero [OF False] mult_zero_right)
      finally show ?thesis using False by simp
    qed
    then show ?thesis
      using assms u by (simp add: opShl_def Lsh del: of_nat_mult word_of_nat_eq_0_iff)
  qed
  have "drop_bit n b = word_of_nat (unat b div 2 ^ n)" for n
  proof -
    have "unat b div 2 ^ n < 2 ^ LENGTH(256)"
      by (rule le_less_trans [OF div_le_dividend unat_lt_pow])
    then have "unat (word_of_nat (unat b div 2 ^ n) :: u256) = unat b div 2 ^ n"
      unfolding unat_of_nat by (rule mod_less)
    moreover have "unat (drop_bit n b) = unat b div 2 ^ n"
      by (simp only: unat_drop_bit_eq drop_bit_eq_div [where 'a = nat])
    ultimately show ?thesis by (simp only: word_unat_eq_iff)
  qed
  then show "opShr E c = ret () (c\<lparr>stack := word_of_nat (unat b div 2 ^ unat a) # zs\<rparr>)"
    using assms u big [of "unat a"] by (auto simp: opShr_def Rsh)
  have "signed_drop_bit n b = word_of_int (sint b div 2 ^ n)" for n
    by (simp only: drop_bit_eq_div [where 'a = int, symmetric] sint_signed_drop_bit_eq [symmetric])
      (simp add: scast_eq [symmetric] scast_id)
  moreover have "sint b div 2 ^ n = (if 0 \<le> sgn (sint b) then 0 else - 1)" if "256 \<le> n" for n
  proof -
    have "(2 :: int) ^ 255 \<le> 2 ^ n" using that by (intro power_increasing) auto
    moreover have "- (2 ^ 255) \<le> sint b" "sint b < 2 ^ 255"
      using sint_greater_eq [of b] sint_less [of b] by simp_all
    ultimately have "- (2 ^ n) \<le> sint b" "sint b < 2 ^ n" by linarith+
    moreover have "sint b div 2 ^ n = - 1" if "sint b < 0"
    proof -
      have "(sint b + 2 ^ n) div 2 ^ n = 0"
        using that \<open>- (2 ^ n) \<le> sint b\<close> by (intro div_pos_pos_trivial) linarith+
      moreover have "(sint b + 2 ^ n) div 2 ^ n = sint b div 2 ^ n + 1" by (rule div_add_self2) simp
      ultimately show ?thesis by linarith
    qed
    ultimately show ?thesis
      by (auto simp: sgn_if div_pos_pos_trivial)
  qed
  ultimately show "opSar E c = ret () (c\<lparr>stack := word_of_int (sint b div 2 ^ unat a) # zs\<rparr>)"
    using assms u by (auto simp: opSar_def SRsh Sign)
qed

end

text \<open>
  C29: the shift instructions compute multiplication, division and signed division by powers
  of two for every shift amount, however large, given the documented behaviour of the
  256-bit integer package.
\<close>

theorem shifts_correct:
  assumes "uint256_arith (u256lib E)" and "stack c = a # b # zs"
  shows "opShl E c = ret () (c\<lparr>stack := word_of_nat (unat b * 2 ^ unat a) # zs\<rparr>) \<and>
    opShr E c = ret () (c\<lparr>stack := word_of_nat (unat b div 2 ^ unat a) # zs\<rparr>) \<and>
    opSar E c = ret () (c\<lparr>stack := word_of_int (sint b div 2 ^ unat a) # zs\<rparr>)"
  using uint256_arith.shift_ops [OF assms(1) refl assms(2)] by blast

theorem shifts_correct_witness:
  "opShl \<lparr>rc = undefined, u256lib = word_uint256, Keccak256 = (\<lambda>_. 0), sha3Cache_hash = (\<lambda>_. 0)\<rparr>
     (demo_base NewMemory [3, 5]) = ret () ((demo_base NewMemory [3, 5])\<lparr>stack := [40]\<rparr>)"
  using shifts_correct [of "\<lparr>rc = undefined, u256lib = word_uint256, Keccak256 = (\<lambda>_. 0), sha3Cache_hash = (\<lambda>_. 0)\<rparr>"
      "demo_base NewMemory [3, 5]" 3 5 "[]"] word_uint256.uint256_arith_axioms
  by simp

section \<open>Memory round trip\<close>

text \<open>A slice that lies in the memory is read without cost.\<close>

lemma getSlice_inside:
  assumes "mem_wf (memory c)" and "IsUint64 offset" and "IsUint64 sz"
    and "unat offset + unat sz \<le> length (store (memory c))" and "sz \<noteq> 0"
  shows "getSlice offset sz c = ret (unat offset, unat sz) c"
proof -
  have o: "unat (Uint64 offset) = unat offset" "unat (Uint64 sz) = unat sz"
    using assms by (simp_all add: unat_Uint64)
  have len: "length (store (memory c)) \<le> maxMemoryExpansionSize" using assms(1) by (simp add: mem_wf_def)
  have sum: "unat (Uint64 offset + Uint64 sz) = unat offset + unat sz"
    using assms(4) len o by (simp add: unat_word_ariths)
  have "Uint64 sz \<noteq> 0" using o(2) assms(5) by (metis unsigned_0 word_unat_eq_iff)
  then show ?thesis
    using assms sum o unat_mem_length [OF assms(1)]
    by (simp add: getSlice_def expandMemory_def Let_def word_less_nat_alt not_less)
qed

lemma mem_set_result:
  assumes wf: "mem_wf (memory c)" and v: "length v = 32" and run: "mem_set offset v c = ret () c'"
  shows "IsUint64 offset" "mem_wf (memory c')"
    "unat offset + 32 \<le> length (store (memory c'))"
    "take 32 (drop (unat offset) (store (memory c'))) = v"
    "stack c' = stack c" "params c' = params c"
proof -
  have sz: "SetUint64 (word_of_nat (length v)) = 32" "(32 :: u256) \<noteq> 0"
    by (simp_all add: v SetUint64_def)
  have "mem_set offset v c = fail errOverflow c" if "\<not> IsUint64 offset"
    using that by (simp add: mem_set_def sz getSlice_def)
  with run show "IsUint64 offset" by fastforce
  obtain m fee where get: "getSlice offset 32 c = ret (unat offset, 32) (c\<lparr>gas := gas c - fee, memory := m\<rparr>)"
    and m: "mem_wf m" "unat offset + 32 \<le> length (store m)"
  proof (cases rule: getSlice_cases [OF wf, of offset 32])
    case (1 e)
    with run show ?thesis by (simp add: mem_set_def sz)
  next
    case (2 m fee off)
    have off: "off = unat offset" using 2(9) by simp
    have u32: "unat (32 :: u256) = 32" by simp
    show ?thesis using that [OF 2(1) [unfolded off u32] 2(4) 2(8) [unfolded off u32]] .
  qed
  then have c': "c' = c\<lparr>gas := gas c - fee, memory := copy_slice (unat offset, 32) v m\<rparr>"
    using run by (simp add: mem_set_def sz)
  have copy: "store (copy_slice (unat offset, 32) v m) = overwrite (unat offset) v (store m)"
    using v by (simp add: copy_slice_def)
  show "mem_wf (memory c')" using m mem_wf_copy_slice [OF m(1), of "unat offset" 32 v] by (simp add: c')
  show "unat offset + 32 \<le> length (store (memory c'))" using m v by (simp add: c' copy)
  show "take 32 (drop (unat offset) (store (memory c'))) = v"
    using read_overwrite [of "unat offset" v "store m"] m v by (simp add: c' copy)
  show "stack c' = stack c" "params c' = params c" by (simp_all add: c')
qed

text \<open>
  C27: round trip: after \<open>MSTORE\<close> wrote a word, \<open>MLOAD\<close> of the same offset returns it
  and charges nothing for memory.
\<close>

theorem mstore_mload:
  assumes "mem_wf (memory c)" and "stack c = offset # v # zs"
    and "opMstore c = ret () c'"
  shows "opMload (c'\<lparr>stack := offset # zs\<rparr>) = ret () (c'\<lparr>stack := v # zs\<rparr>)"
proof -
  have run: "mem_set offset (be_bytes 32 v) (c\<lparr>stack := zs\<rparr>) = ret () c'"
    using assms(2,3) by (simp add: opMstore_def)
  note r = mem_set_result [OF _ _ run]
  have "getSlice offset 32 (c'\<lparr>stack := offset # zs\<rparr>) = ret (unat offset, 32) (c'\<lparr>stack := offset # zs\<rparr>)"
    using getSlice_inside [of "c'\<lparr>stack := offset # zs\<rparr>" offset 32] r(1-3) assms(1)
    by (simp add: IsUint64_def)
  then show ?thesis
    using r(4) assms(1) by (simp add: opMload_def readWord_def slice_bytes_def)
qed

theorem mstore_mload_witness:
  "\<exists>c'. opMstore (demo_base \<lparr>store = replicate 64 0, currentMemoryCost = 6\<rparr> [16, 99]) = ret () c' \<and>
    opMload (c'\<lparr>stack := [16]\<rparr>) = ret () (c'\<lparr>stack := [99]\<rparr>)"
proof -
  let ?c = "demo_base \<lparr>store = replicate 64 0, currentMemoryCost = 6\<rparr> [16, 99]"
  have wf: "mem_wf (memory ?c)" by (simp add: mem_wf_def mem_cost_def)
  have get: "getSlice 16 32 (?c\<lparr>stack := []\<rparr>) = ret (16, 32) (?c\<lparr>stack := []\<rparr>)"
    using getSlice_inside [of "?c\<lparr>stack := []\<rparr>" 16 32] wf by (simp add: IsUint64_def)
  have "SetUint64 (word_of_nat 32) = 32" by (simp add: SetUint64_def)
  with get obtain c' where "opMstore ?c = ret () c'"
    by (simp add: opMstore_def mem_set_def)
  with mstore_mload [OF wf _ this] show ?thesis by auto
qed

end
