(* ===== verification/Hash_Cache.thy ===== *)
theory Hash_Cache
  imports Evm_Context
begin

text \<open>
  The cache of Keccak hashes (\<open>sfvm/hash_cache.go\<close>, \<open>lfvm/hash_cache.go\<close>: the two files
  are the same but for the package): a fixed array of entries that form a doubly linked list
  in the order of their last use, and an index by key. Pointers to entries are positions of
  the array, \<open>None\<close> is nil. \<open>getHash\<close> holds the lock twice: to look up the key and, if it is
  not there, to add it. The hash of a new key is computed in between, and the hash of an
  entry that was found is read after the lock has been released. So a call is a critical
  section followed by a read, or two critical sections, and runs of several threads
  interleave these steps. The read of the 32 bytes of a hash is one step, at its end.
\<close>

section \<open>The cache\<close>

record 'k hashCacheEntry =
  he_key :: 'k
  he_hash :: Hash
  he_pred :: "nat option"
  he_succ :: "nat option"

record 'k hashCache =
  hc_hash :: "'k \<Rightarrow> Hash"
  hc_entries :: "'k hashCacheEntry list"
  hc_index :: "'k \<rightharpoonup> nat"
  hc_head :: "nat option"
  hc_tail :: "nat option"
  hc_nextFree :: nat

text \<open>Assignments to a field of an entry; those through a nil pointer panic.\<close>

definition upd_at :: "nat \<Rightarrow> ('a \<Rightarrow> 'a) \<Rightarrow> 'a list \<Rightarrow> 'a list" where
  "upd_at i f es = es[i := f (es ! i)]"

definition upd_entry :: "nat \<Rightarrow> ('k hashCacheEntry \<Rightarrow> 'k hashCacheEntry) \<Rightarrow> 'k hashCache \<Rightarrow> 'k hashCache" where
  "upd_entry i f c = c\<lparr>hc_entries := upd_at i f (hc_entries c)\<rparr>"

definition set_pred :: "nat option \<Rightarrow> nat option \<Rightarrow> 'k hashCache \<Rightarrow> 'k hashCache go" where
  "set_pred p q c = (case p of None \<Rightarrow> Panic | Some i \<Rightarrow> Ret (upd_entry i (he_pred_update (\<lambda>_. q)) c))"

definition set_succ :: "nat option \<Rightarrow> nat option \<Rightarrow> 'k hashCache \<Rightarrow> 'k hashCache go" where
  "set_succ p q c = (case p of None \<Rightarrow> Panic | Some i \<Rightarrow> Ret (upd_entry i (he_succ_update (\<lambda>_. q)) c))"

definition getFree :: "'k hashCache \<Rightarrow> (nat \<times> 'k hashCache) go" where
  "getFree h =
     (if hc_nextFree h < length (hc_entries h)
      then Ret (hc_nextFree h, h\<lparr>hc_nextFree := hc_nextFree h + 1\<rparr>)
      else
        (case hc_tail h of
           None \<Rightarrow> Panic
         | Some res \<Rightarrow>
             let h = h\<lparr>hc_tail := he_pred (hc_entries h ! res)\<rparr> in
             go_bind (set_succ (hc_tail h) None h) (\<lambda>h.
             Ret (res, h\<lparr>hc_index := (hc_index h)(he_key (hc_entries h ! res) := None)\<rparr>))))"

text \<open>\<open>zero\<close> is the zero value of the key type, which \<open>var key K\<close> declares.\<close>

definition newHashCache :: "'k \<Rightarrow> int \<Rightarrow> ('k \<Rightarrow> Hash) \<Rightarrow> 'k hashCache go" where
  "newHashCache zero capacity hash =
     (let capacity = (if capacity < 2 then 2 else capacity);
          res = \<lparr>hc_hash = hash,
                 hc_entries = replicate (nat capacity) \<lparr>he_key = zero, he_hash = 0, he_pred = None, he_succ = None\<rparr>,
                 hc_index = Map.empty, hc_head = None, hc_tail = None, hc_nextFree = 0\<rparr> in
      go_bind (getFree res) (\<lambda>(e, res).
      let res = res\<lparr>hc_head := Some e, hc_tail := Some e\<rparr>;
          res = upd_entry e (he_hash_update (\<lambda>_. hash zero)) res in
      Ret (res\<lparr>hc_index := (hc_index res)(zero \<mapsto> e)\<rparr>)))"

definition moveToFront :: "nat \<Rightarrow> 'k hashCache \<Rightarrow> 'k hashCache go" where
  "moveToFront e h =
     (if Some e = hc_head h then Ret h
      else
        go_bind (set_succ (he_pred (hc_entries h ! e)) (he_succ (hc_entries h ! e)) h) (\<lambda>h.
        go_bind (if he_succ (hc_entries h ! e) \<noteq> None
                 then set_pred (he_succ (hc_entries h ! e)) (he_pred (hc_entries h ! e)) h
                 else Ret (h\<lparr>hc_tail := he_pred (hc_entries h ! e)\<rparr>)) (\<lambda>h.
        let h = upd_entry e (he_pred_update (\<lambda>_. None)) h;
            h = upd_entry e (he_succ_update (\<lambda>_. hc_head h)) h in
        go_bind (set_pred (hc_head h) (Some e) h) (\<lambda>h. Ret (h\<lparr>hc_head := Some e\<rparr>)))))"

text \<open>The first critical section of \<open>getHash\<close>: the entry of a key that is present.\<close>

definition getHash_lookup :: "'k \<Rightarrow> 'k hashCache \<Rightarrow> (nat option \<times> 'k hashCache) go" where
  "getHash_lookup key h =
     (case hc_index h key of
        Some entry \<Rightarrow> go_bind (moveToFront entry h) (\<lambda>h. Ret (Some entry, h))
      | None \<Rightarrow> Ret (None, h))"

text \<open>The statement \<open>return entry.hash\<close> behind \<open>h.lock.Unlock()\<close>.\<close>

definition getHash_read :: "nat \<Rightarrow> 'k hashCache \<Rightarrow> Hash" where
  "getHash_read entry h = he_hash (hc_entries h ! entry)"

text \<open>The second one: the key is added unless another thread has done so.\<close>

definition getHash_add :: "'k \<Rightarrow> Hash \<Rightarrow> 'k hashCache \<Rightarrow> 'k hashCache go" where
  "getHash_add key hash h =
     (case hc_index h key of
        Some _ \<Rightarrow> Ret h
      | None \<Rightarrow>
          go_bind (getFree h) (\<lambda>(entry, h).
          let h = upd_entry entry (\<lambda>x. x\<lparr>he_key := key, he_hash := hash, he_pred := None, he_succ := hc_head h\<rparr>) h in
          go_bind (set_pred (hc_head h) (Some entry) h) (\<lambda>h.
          Ret (h\<lparr>hc_head := Some entry, hc_index := (hc_index h)(key \<mapsto> entry)\<rparr>))))"

text \<open>A call without others in between.\<close>

definition getHash :: "'k \<Rightarrow> 'k hashCache \<Rightarrow> (Hash \<times> 'k hashCache) go" where
  "getHash key h =
     go_bind (getHash_lookup key h) (\<lambda>(found, h).
     case found of
       Some entry \<Rightarrow> Ret (getHash_read entry h, h)
     | None \<Rightarrow>
         let hash = hc_hash h key in
         go_bind (getHash_add key hash h) (\<lambda>h. Ret (hash, h)))"

section \<open>The list of the entries in the order of their use\<close>

definition first_or :: "nat list \<Rightarrow> nat option \<Rightarrow> nat option" where
  "first_or xs n = (if xs = [] then n else Some (hd xs))"

definition last_or :: "nat list \<Rightarrow> nat option \<Rightarrow> nat option" where
  "last_or xs p = (if xs = [] then p else Some (last xs))"

lemma first_last_simps [simp]:
  "first_or [] n = n" "first_or (x # xs) n = Some x" "last_or [] p = p" "last_or (xs @ [x]) p = Some x"
  "first_or (xs @ ys) n = first_or xs (first_or ys n)" "last_or (xs @ ys) p = last_or ys (last_or xs p)"
  by (simp_all add: first_or_def last_or_def hd_append)

text \<open>
  \<open>seg es p xs n\<close>: the entries \<open>xs\<close> are linked in this order, the first one has the
  predecessor \<open>p\<close> and the last one the successor \<open>n\<close>.
\<close>

fun seg :: "'k hashCacheEntry list \<Rightarrow> nat option \<Rightarrow> nat list \<Rightarrow> nat option \<Rightarrow> bool" where
  "seg es p [] n \<longleftrightarrow> True"
| "seg es p (x # xs) n \<longleftrightarrow> he_pred (es ! x) = p \<and> he_succ (es ! x) = first_or xs n \<and> seg es (Some x) xs n"

lemma seg_append: "seg es p (xs @ ys) n \<longleftrightarrow> seg es p xs (first_or ys n) \<and> seg es (last_or xs p) ys n"
  by (induction xs arbitrary: p) (auto simp: last_or_def)

lemma length_upd_at [simp]: "length (upd_at i f es) = length es"
  by (simp add: upd_at_def)

lemma nth_upd_at: "i < length es \<Longrightarrow> upd_at i f es ! j = (if i = j then f (es ! i) else es ! j)"
  by (simp add: upd_at_def)

lemma map_upd_at [simp]:
  "map he_key (upd_at i (he_pred_update f) es) = map he_key es" "map he_hash (upd_at i (he_pred_update f) es) = map he_hash es"
  "map he_key (upd_at i (he_succ_update f) es) = map he_key es" "map he_hash (upd_at i (he_succ_update f) es) = map he_hash es"
  by (cases "i < length es"; simp add: upd_at_def map_update list_update_beyond;
      metis list_update_id nth_map)+

lemma seg_frame [simp]: "i \<notin> set xs \<Longrightarrow> seg (upd_at i f es) p xs n \<longleftrightarrow> seg es p xs n"
  by (induction xs arbitrary: p) (auto simp: upd_at_def)

lemma seg_set_pred:
  assumes "seg es p xs n" and "distinct xs" and "xs \<noteq> []" and "hd xs < length es"
  shows "seg (upd_at (hd xs) (he_pred_update (\<lambda>_. q)) es) q xs n"
  using assms by (cases xs) (simp_all add: nth_upd_at)

lemma seg_set_succ:
  assumes "seg es p xs n" and "distinct xs" and "xs \<noteq> []" and "last xs < length es"
  shows "seg (upd_at (last xs) (he_succ_update (\<lambda>_. m)) es) p xs m"
  using assms by (cases xs rule: rev_cases) (simp_all add: seg_append nth_upd_at)

section \<open>The invariant\<close>

definition hc_links :: "'k hashCache \<Rightarrow> nat list \<Rightarrow> bool" where
  "hc_links c L \<longleftrightarrow>
     seg (hc_entries c) None L None \<and> L \<noteq> [] \<and> hc_head c = Some (hd L) \<and> hc_tail c = Some (last L) \<and>
     distinct L \<and> set L = {..<hc_nextFree c} \<and> hc_nextFree c \<le> length (hc_entries c) \<and> 2 \<le> length (hc_entries c)"

definition hc_data :: "'k hashCache \<Rightarrow> bool" where
  "hc_data c \<longleftrightarrow>
     (\<forall>k i. hc_index c k = Some i \<longleftrightarrow> i < hc_nextFree c \<and> he_key (hc_entries c ! i) = k) \<and>
     (\<forall>i < hc_nextFree c. he_hash (hc_entries c ! i) = hc_hash c (he_key (hc_entries c ! i)))"

text \<open>The keys in the cache, the last one used first.\<close>

definition lru_keys :: "'k hashCache \<Rightarrow> 'k list \<Rightarrow> bool" where
  "lru_keys c ks \<longleftrightarrow> (\<exists>L. hc_links c L \<and> hc_data c \<and> ks = map (\<lambda>i. he_key (hc_entries c ! i)) L)"

text \<open>What assignments to links keep.\<close>

definition same_data :: "'k hashCache \<Rightarrow> 'k hashCache \<Rightarrow> bool" where
  "same_data c c' \<longleftrightarrow>
     hc_hash c' = hc_hash c \<and> hc_index c' = hc_index c \<and> hc_nextFree c' = hc_nextFree c \<and>
     map he_key (hc_entries c') = map he_key (hc_entries c) \<and> map he_hash (hc_entries c') = map he_hash (hc_entries c)"

lemma same_data_nth:
  assumes "same_data c c'" and "i < length (hc_entries c)"
  shows "he_key (hc_entries c' ! i) = he_key (hc_entries c ! i)" "he_hash (hc_entries c' ! i) = he_hash (hc_entries c ! i)"
proof -
  have "length (hc_entries c') = length (hc_entries c)" using assms(1) unfolding same_data_def by (metis length_map)
  then show "he_key (hc_entries c' ! i) = he_key (hc_entries c ! i)" "he_hash (hc_entries c' ! i) = he_hash (hc_entries c ! i)"
    using assms nth_map [of i "hc_entries c'" he_key] nth_map [of i "hc_entries c'" he_hash] by (simp_all add: same_data_def)
qed

lemma same_data_hc_data:
  assumes "hc_data c" and "same_data c c'" and "hc_nextFree c \<le> length (hc_entries c)"
  shows "hc_data c'"
proof -
  have "i < hc_nextFree c \<Longrightarrow> he_key (hc_entries c' ! i) = he_key (hc_entries c ! i) \<and> he_hash (hc_entries c' ! i) = he_hash (hc_entries c ! i)" for i
    using same_data_nth [OF assms(2)] assms(3) by simp
  then show ?thesis using assms(1,2) by (auto simp: hc_data_def same_data_def)
qed

section \<open>Moving an entry to the front\<close>

definition unlinked :: "nat list \<Rightarrow> nat list \<Rightarrow> 'k hashCacheEntry list \<Rightarrow> 'k hashCacheEntry list" where
  "unlinked xs ys es =
     (let es = upd_at (last xs) (he_succ_update (\<lambda>_. first_or ys None)) es in
      if ys = [] then es else upd_at (hd ys) (he_pred_update (\<lambda>_. Some (last xs))) es)"

definition fronted :: "nat \<Rightarrow> nat \<Rightarrow> 'k hashCacheEntry list \<Rightarrow> 'k hashCacheEntry list" where
  "fronted e h es =
     upd_at h (he_pred_update (\<lambda>_. Some e)) (upd_at e (he_succ_update (\<lambda>_. Some h)) (upd_at e (he_pred_update (\<lambda>_. None)) es))"

lemma relink_simps [simp]:
  "length (unlinked xs ys es) = length es" "length (fronted e h es) = length es"
  "map he_key (unlinked xs ys es) = map he_key es" "map he_hash (unlinked xs ys es) = map he_hash es"
  "map he_key (fronted e h es) = map he_key es" "map he_hash (fronted e h es) = map he_hash es"
  by (simp_all add: unlinked_def fronted_def Let_def)

lemma seg_unlinked:
  assumes s: "seg es None xs (Some e)" "seg es (Some e) ys None" and xs: "xs \<noteq> []" and d: "distinct (xs @ ys)"
    and len: "\<forall>i \<in> set (xs @ ys). i < length es"
  shows "seg (unlinked xs ys es) None (xs @ ys) None"
proof -
  let ?es = "upd_at (last xs) (he_succ_update (\<lambda>_. first_or ys None)) es"
  have l: "last xs \<in> set xs" "last xs \<notin> set ys" using xs d last_in_set [OF xs] by (fastforce simp: disjoint_iff)+
  have "seg ?es None xs (first_or ys None)" "seg ?es (Some e) ys None"
    using s xs d len l by (simp_all add: seg_set_succ)
  moreover have "ys \<noteq> [] \<Longrightarrow> hd ys \<in> set ys \<and> hd ys \<notin> set xs" using d hd_in_set [of ys] by auto
  ultimately show ?thesis
    using xs d len by (auto simp: unlinked_def Let_def seg_append last_or_def seg_set_pred)
qed

lemma seg_front:
  assumes "seg es p xs n" and "xs \<noteq> []" and "distinct (e # xs)" and "\<forall>i \<in> set (e # xs). i < length es"
    and "he_pred (f (es ! e)) = None" and "he_succ (f (es ! e)) = Some (hd xs)"
  shows "seg (upd_at (hd xs) (he_pred_update (\<lambda>_. Some e)) (upd_at e f es)) None (e # xs) n"
proof -
  have "hd xs \<noteq> e" "hd xs < length es" using assms hd_in_set [of xs] by auto
  then show ?thesis
    using assms by (auto simp: first_or_def nth_upd_at intro!: seg_set_pred [where p = p])
qed

lemma fronted_eq:
  "e < length es \<Longrightarrow> fronted e h es =
     upd_at h (he_pred_update (\<lambda>_. Some e)) (upd_at e (\<lambda>x. x\<lparr>he_pred := None, he_succ := Some h\<rparr>) es)"
  by (simp add: fronted_def) (simp add: upd_at_def)

lemma moveToFront_links:
  assumes l: "hc_links c (xs @ e # ys)"
  shows "\<exists>c'. moveToFront e c = Ret c' \<and> hc_links c' (e # xs @ ys) \<and> same_data c c'"
proof (cases "xs = []")
  case True
  then show ?thesis using l by (auto simp: moveToFront_def hc_links_def same_data_def)
next
  case False
  let ?es = "fronted e (hd xs) (unlinked xs ys (hc_entries c))"
  have s: "seg (hc_entries c) None (xs @ e # ys) None" "distinct (xs @ e # ys)" and h: "hc_head c = Some (hd xs)"
    and len: "\<forall>i \<in> set (xs @ e # ys). i < length (hc_entries c)"
    using l False by (auto simp: hc_links_def)
  have e: "he_pred (hc_entries c ! e) = Some (last xs)" "he_succ (hc_entries c ! e) = first_or ys None"
    and s2: "seg (hc_entries c) None xs (Some e)" "seg (hc_entries c) (Some e) ys None"
    using s(1) False by (auto simp: seg_append last_or_def)
  have ne: "last xs \<noteq> e" "hd xs \<noteq> e" "last xs < length (hc_entries c)" using s(2) len False by auto
  have "moveToFront e c = Ret (c\<lparr>hc_entries := ?es, hc_head := Some e, hc_tail := Some (last (e # xs @ ys))\<rparr>)"
    using e ne h False l
    by (cases ys) (simp_all add: moveToFront_def set_succ_def set_pred_def upd_entry_def nth_upd_at unlinked_def fronted_def
        hc_links_def)
  moreover have "seg ?es None (e # xs @ ys) None"
    using len False s(2) seg_front [OF seg_unlinked [OF s2 False], of e "\<lambda>x. x\<lparr>he_pred := None, he_succ := Some (hd xs)\<rparr>"]
    by (subst fronted_eq) auto
  ultimately show ?thesis using l by (auto simp: hc_links_def same_data_def)
qed

section \<open>Adding an entry\<close>

lemma hc_links_length: "hc_links c L \<Longrightarrow> length L = hc_nextFree c"
  using distinct_card [of L] by (auto simp: hc_links_def)

lemma hc_links_seg: "hc_links c L \<Longrightarrow> seg (hc_entries c) None L None \<and> distinct L \<and> (\<forall>i \<in> set L. i < length (hc_entries c))"
  by (auto simp: hc_links_def)

text \<open>The entry to fill: a new one or the last one of the list, which leaves it.\<close>

lemma getFree_links:
  assumes l: "hc_links c L" and d: "hc_data c"
  defines "M \<equiv> (if hc_nextFree c < length (hc_entries c) then L else butlast L)"
  obtains e c' where "getFree c = Ret (e, c')" "M \<noteq> []" "distinct (e # M)" "set (e # M) = {..<hc_nextFree c'}"
    "seg (hc_entries c') None M None" "hc_head c' = Some (hd M)" "hc_tail c' = Some (last M)"
    "hc_nextFree c' \<le> length (hc_entries c')" "hc_nextFree c \<le> hc_nextFree c'"
    "length (hc_entries c') = length (hc_entries c)" "hc_hash c' = hc_hash c" "map he_key (hc_entries c') = map he_key (hc_entries c)"
    "map he_hash (hc_entries c') = map he_hash (hc_entries c)"
    "\<And>k i. hc_index c' k = Some i \<longleftrightarrow> i \<in> set M \<and> he_key (hc_entries c ! i) = k"
proof (cases "hc_nextFree c < length (hc_entries c)")
  case True
  show ?thesis
    by (rule that [of "hc_nextFree c" "c\<lparr>hc_nextFree := hc_nextFree c + 1\<rparr>"])
      (use l d True in \<open>auto simp: getFree_def hc_links_def hc_data_def M_def\<close>)
next
  case False
  have "length L = length (hc_entries c)" using hc_links_length [OF l] False l by (auto simp: hc_links_def)
  then have "2 \<le> length L" using l by (simp add: hc_links_def)
  then obtain xs x e where L: "L = (xs @ [x]) @ [e]"
    by (metis append_butlast_last_id length_append_singleton length_0_conv not_less_eq_eq numeral_2_eq_2 order_refl zero_le)
  have s: "seg (hc_entries c) None (xs @ [x]) (Some e)" and e: "he_pred (hc_entries c ! e) = Some x" "e \<noteq> x"
    and len: "x < length (hc_entries c)" "e < length (hc_entries c)"
    using hc_links_seg [OF l] by (simp_all add: L seg_append)
  let ?es = "upd_at x (he_succ_update (\<lambda>_. None)) (hc_entries c)"
  let ?c = "c\<lparr>hc_tail := Some x, hc_entries := ?es, hc_index := (hc_index c)(he_key (hc_entries c ! e) := None)\<rparr>"
  have "getFree c = Ret (e, ?c)"
    using False l e len unfolding L by (simp add: getFree_def hc_links_def set_succ_def upd_entry_def nth_upd_at)
  moreover have "seg ?es None (xs @ [x]) None"
    using seg_set_succ [OF s, of None] hc_links_seg [OF l] len by (simp add: L)
  moreover have "M = xs @ [x]" using False butlast_snoc [of "xs @ [x]" e] by (simp add: M_def L)
  moreover have "hc_index ?c k = Some i \<longleftrightarrow> i \<in> set (xs @ [x]) \<and> he_key (hc_entries c ! i) = k" for k i
  proof -
    have "{..<hc_nextFree c} = insert e (set (xs @ [x]))" "e \<notin> set (xs @ [x])" using l unfolding L by (auto simp: hc_links_def)
    moreover have "he_key (hc_entries c ! i) = he_key (hc_entries c ! e) \<Longrightarrow> i < hc_nextFree c \<Longrightarrow> e < hc_nextFree c \<Longrightarrow> i = e"
      using d unfolding hc_data_def by (metis option.inject)
    moreover have "i < hc_nextFree c \<longleftrightarrow> i = e \<or> i \<in> set (xs @ [x])" "e < hc_nextFree c"
      using calculation(1) by blast+
    ultimately show ?thesis using d unfolding hc_data_def by simp metis
  qed
  ultimately show ?thesis
    using l by (intro that [of e ?c]) (auto simp: L hc_links_def hd_append)
qed

section \<open>The cache keeps the keys that were used last\<close>

definition lru_add :: "nat \<Rightarrow> 'k \<Rightarrow> 'k list \<Rightarrow> 'k list" where
  "lru_add n k ks = (if k \<in> set ks then ks else take n (k # ks))"

definition lru_use :: "'k \<Rightarrow> 'k list \<Rightarrow> 'k list" where
  "lru_use k ks = k # remove1 k ks"

text \<open>The parts of a cache that never change.\<close>

definition same_config :: "'k hashCache \<Rightarrow> 'k hashCache \<Rightarrow> bool" where
  "same_config c c' \<longleftrightarrow> hc_hash c' = hc_hash c \<and> length (hc_entries c') = length (hc_entries c)"

text \<open>Entries keep their keys, except those of keys that have left the list \<open>ks\<close>.\<close>

definition entries_kept :: "'k list \<Rightarrow> 'k hashCache \<Rightarrow> 'k hashCache \<Rightarrow> bool" where
  "entries_kept ks c c' \<longleftrightarrow>
     hc_nextFree c \<le> hc_nextFree c' \<and>
     (\<forall>i < hc_nextFree c. he_key (hc_entries c' ! i) = he_key (hc_entries c ! i) \<or> he_key (hc_entries c ! i) \<notin> set ks)"

lemma lru_keys_index:
  assumes "lru_keys c ks"
  shows "hc_index c k \<noteq> None \<longleftrightarrow> k \<in> set ks"
proof -
  obtain L where L: "hc_links c L" "hc_data c" "ks = map (\<lambda>i. he_key (hc_entries c ! i)) L"
    using assms by (auto simp: lru_keys_def)
  have "hc_index c k \<noteq> None \<longleftrightarrow> (\<exists>i < hc_nextFree c. he_key (hc_entries c ! i) = k)"
    using L(2) by (auto simp: hc_data_def)
  also have "\<dots> \<longleftrightarrow> k \<in> set ks" using L(1,3) by (auto simp: hc_links_def)
  finally show ?thesis .
qed

lemma lru_keys_length: "lru_keys c ks \<Longrightarrow> length ks \<le> length (hc_entries c)"
  using hc_links_length by (fastforce simp: lru_keys_def hc_links_def)

lemma getHash_lookup_lru:
  assumes k: "lru_keys c ks"
  shows "if key \<in> set ks
    then \<exists>e c'. getHash_lookup key c = Ret (Some e, c') \<and> e < hc_nextFree c' \<and> he_key (hc_entries c' ! e) = key \<and>
      lru_keys c' (lru_use key ks) \<and> same_config c c' \<and> entries_kept (lru_use key ks) c c'
    else getHash_lookup key c = Ret (None, c)"
proof (cases "hc_index c key")
  case None
  then show ?thesis using lru_keys_index [OF k, of key] by (simp add: getHash_lookup_def)
next
  case (Some e)
  obtain L where L: "hc_links c L" "hc_data c" "ks = map (\<lambda>i. he_key (hc_entries c ! i)) L"
    using k by (auto simp: lru_keys_def)
  have le: "hc_nextFree c \<le> length (hc_entries c)" using L(1) by (simp add: hc_links_def)
  have e: "e < hc_nextFree c" "he_key (hc_entries c ! e) = key" using L(2) Some by (auto simp: hc_data_def)
  have "e \<in> set L" using e(1) L(1) by (simp add: hc_links_def)
  then obtain xs ys where xs: "L = xs @ e # ys" by (metis split_list)
  obtain c' where c': "moveToFront e c = Ret c'" "hc_links c' (e # xs @ ys)" "same_data c c'"
    using moveToFront_links L(1) xs by blast
  have key: "he_key (hc_entries c' ! i) = he_key (hc_entries c ! i)" if "i \<in> set L" for i
    using same_data_nth [OF c'(3)] that hc_links_seg [OF L(1)] by simp
  have "key \<notin> (\<lambda>i. he_key (hc_entries c ! i)) ` set xs"
  proof
    assume "key \<in> (\<lambda>i. he_key (hc_entries c ! i)) ` set xs"
    then obtain i where i: "i \<in> set xs" "he_key (hc_entries c ! i) = key" by auto
    moreover have "i < hc_nextFree c" using i(1) L(1) xs by (auto simp: hc_links_def)
    ultimately have "hc_index c key = Some i" using L(2) by (simp add: hc_data_def)
    then show False using Some i(1) L(1) xs by (auto simp: hc_links_def)
  qed
  then have "lru_use key ks = map (\<lambda>i. he_key (hc_entries c' ! i)) (e # xs @ ys)"
    using key e(2) xs by (auto simp: lru_use_def L(3) remove1_append)
  moreover have "hc_data c'" using same_data_hc_data [OF L(2) c'(3) le] .
  ultimately have "lru_keys c' (lru_use key ks)" using c'(2) by (auto simp: lru_keys_def)
  moreover have "same_config c c'" using c'(3) unfolding same_config_def same_data_def by (metis length_map)
  moreover have "hc_nextFree c' = hc_nextFree c" using c'(3) by (simp add: same_data_def)
  moreover from this have "entries_kept (lru_use key ks) c c'" using key L(1) by (simp add: entries_kept_def hc_links_def)
  ultimately show ?thesis
    using c'(1) Some lru_keys_index [OF k, of key] key [of e] e xs by (simp add: getHash_lookup_def)
qed

lemma take_full: "length ks = n \<Longrightarrow> 0 < n \<Longrightarrow> take n (k # ks) = k # butlast ks"
  by (cases n) (simp_all add: butlast_conv_take)

lemma evicted_key:
  assumes "hc_links c L" and "hc_data c" and "hc_index c key = None" and "e < hc_nextFree c"
    and "e \<notin> set M" and "set M \<subseteq> set L"
  shows "he_key (hc_entries c ! e) \<notin> insert key ((\<lambda>i. he_key (hc_entries c ! i)) ` set M)"
proof -
  have e: "hc_index c (he_key (hc_entries c ! e)) = Some e" using assms(2,4) by (auto simp: hc_data_def)
  have "hc_index c (he_key (hc_entries c ! i)) = Some i" if "i \<in> set M" for i
    using that assms(1,2,6) by (auto simp: hc_data_def hc_links_def)
  then show ?thesis using e assms(3,5) by auto
qed

lemma getHash_add_lru:
  assumes k: "lru_keys c ks"
  shows "\<exists>c'. getHash_add key (hc_hash c key) c = Ret c' \<and> lru_keys c' (lru_add (length (hc_entries c)) key ks) \<and>
    same_config c c' \<and> entries_kept (lru_add (length (hc_entries c)) key ks) c c'"
proof (cases "hc_index c key")
  case (Some e)
  then show ?thesis
    using k lru_keys_index [OF k, of key] by (simp add: getHash_add_def lru_add_def same_config_def entries_kept_def)
next
  case None
  obtain L where L: "hc_links c L" "hc_data c" "ks = map (\<lambda>i. he_key (hc_entries c ! i)) L"
    using k by (auto simp: lru_keys_def)
  define M where "M = (if hc_nextFree c < length (hc_entries c) then L else butlast L)"
  obtain e c1 where free: "getFree c = Ret (e, c1)" "M \<noteq> []" "distinct (e # M)" "set (e # M) = {..<hc_nextFree c1}"
    "seg (hc_entries c1) None M None" "hc_head c1 = Some (hd M)" "hc_tail c1 = Some (last M)"
    "hc_nextFree c1 \<le> length (hc_entries c1)" and mono: "hc_nextFree c \<le> hc_nextFree c1" and len: "length (hc_entries c1) = length (hc_entries c)" and
    hash: "hc_hash c1 = hc_hash c" and maps: "map he_key (hc_entries c1) = map he_key (hc_entries c)"
    "map he_hash (hc_entries c1) = map he_hash (hc_entries c)" and
    index: "\<And>k i. hc_index c1 k = Some i \<longleftrightarrow> i \<in> set M \<and> he_key (hc_entries c ! i) = k"
    by (rule getFree_links [OF L(1,2), folded M_def]) (rule that)
  let ?f = "\<lambda>x. x\<lparr>he_key := key, he_hash := hc_hash c key, he_pred := None, he_succ := Some (hd M)\<rparr>"
  define es where "es = upd_at (hd M) (he_pred_update (\<lambda>_. Some e)) (upd_at e ?f (hc_entries c1))"
  let ?c = "c1\<lparr>hc_entries := es, hc_head := Some e, hc_index := (hc_index c1)(key \<mapsto> e)\<rparr>"
  have lt: "\<forall>i \<in> set (e # M). i < length (hc_entries c)" using free(4,8) len by auto
  have hd: "hd M \<in> set M" "hd M \<noteq> e" using free(2,3) by auto
  have add_eq: "lru_add (length (hc_entries c)) key ks = key # map (\<lambda>i. he_key (hc_entries c ! i)) M"
  proof -
    have "length ks = hc_nextFree c" "hc_nextFree c \<le> length (hc_entries c)" "2 \<le> length (hc_entries c)"
      using hc_links_length [OF L(1)] L(1,3) by (auto simp: hc_links_def)
    then show ?thesis
      using None lru_keys_index [OF k, of key] take_full [of ks "length (hc_entries c)" key]
      by (cases "hc_entries c = []") (auto simp: lru_add_def M_def L(3) map_butlast)
  qed
  have kept: "he_key (hc_entries c ! e) \<notin> insert key ((\<lambda>i. he_key (hc_entries c ! i)) ` set M)" if "e < hc_nextFree c"
    by (rule evicted_key [OF L(1,2) None that]) (use free(3) in \<open>auto simp: M_def split: if_splits dest: in_set_butlastD\<close>)
  have run: "getHash_add key (hc_hash c key) c = Ret ?c"
    using None free(1,6) by (simp add: getHash_add_def upd_entry_def set_pred_def es_def)
  have key: "he_key (es ! i) = (if i = e then key else he_key (hc_entries c ! i))"
      "he_hash (es ! i) = (if i = e then hc_hash c key else he_hash (hc_entries c ! i))"
    if "i \<in> set (e # M)" for i
    using that lt hd len nth_map [of i "hc_entries c1" he_key] nth_map [of i "hc_entries c1" he_hash] maps
    by (auto simp: es_def nth_upd_at)
  have links: "hc_links ?c (e # M)"
  proof -
    have "seg es None (e # M) None" unfolding es_def by (rule seg_front [OF free(5) free(2,3)]) (use lt len in auto)
    then show ?thesis using free(2-4,7,8) len L(1) by (simp add: hc_links_def es_def)
  qed
  have "hc_index ?c k = Some i \<longleftrightarrow> i < hc_nextFree ?c \<and> he_key (hc_entries ?c ! i) = k" for k i
  proof -
    have "key \<notin> (\<lambda>i. he_key (hc_entries c ! i)) ` set M"
      using lru_keys_index [OF k, of key] None in_set_butlastD by (fastforce simp: L(3) M_def split: if_splits)
    moreover have "i < hc_nextFree ?c \<longleftrightarrow> i \<in> set (e # M)" using free(4) by auto
    ultimately show ?thesis using index [of k i] key(1) [of i] free(3) by (auto split: if_splits)
  qed
  moreover have "he_hash (hc_entries ?c ! i) = hc_hash ?c (he_key (hc_entries ?c ! i))" if "i < hc_nextFree ?c" for i
  proof -
    have i: "i \<in> set (e # M)" using free(4) that by auto
    then have "i \<noteq> e \<Longrightarrow> i < hc_nextFree c" using L(1) in_set_butlastD [of i L] by (auto simp: M_def hc_links_def split: if_splits)
    then show ?thesis using key [OF i] L(2) hash by (auto simp: hc_data_def)
  qed
  ultimately have "hc_data ?c" unfolding hc_data_def by blast
  moreover have "lru_add (length (hc_entries c)) key ks = map (\<lambda>i. he_key (es ! i)) (e # M)"
    using key(1) free(3) add_eq by auto
  ultimately have "lru_keys ?c (lru_add (length (hc_entries c)) key ks)"
    using links by (auto simp: lru_keys_def)
  moreover have "entries_kept (lru_add (length (hc_entries c)) key ks) c ?c"
    using kept mono key(1) free(3,4) add_eq by (auto simp: entries_kept_def lessThan_def set_eq_iff)
  ultimately show ?thesis using run len hash by (auto simp: same_config_def es_def)
qed

lemma newHashCache_lru:
  "\<exists>c. newHashCache zero capacity hash = Ret c \<and> lru_keys c [zero] \<and> hc_hash c = hash \<and>
     int (length (hc_entries c)) = max 2 capacity"
proof -
  let ?n = "nat (max 2 capacity)"
  let ?z = "\<lparr>he_key = zero, he_hash = 0, he_pred = None, he_succ = None\<rparr>"
  let ?c = "\<lparr>hc_hash = hash, hc_entries = (replicate ?n ?z)[0 := ?z\<lparr>he_hash := hash zero\<rparr>], hc_index = [zero \<mapsto> 0],
     hc_head = Some 0, hc_tail = Some 0, hc_nextFree = 1\<rparr>"
  have "newHashCache zero capacity hash = Ret ?c"
    by (simp add: newHashCache_def getFree_def upd_entry_def upd_at_def max_def)
  moreover have "hc_links ?c [0]" by (auto simp: hc_links_def)
  moreover have "hc_data ?c" by (auto simp: hc_data_def)
  ultimately show ?thesis by (auto simp: lru_keys_def intro!: exI [of _ "[0]"])
qed

section \<open>Concurrent requests\<close>

text \<open>
  A thread is idle, about to read the hash of an entry it has found, or about to compute and
  add the hash of a new key. The steps of a call are \<open>Enter\<close>, the first critical section, and
  then \<open>Read\<close> or \<open>Leave\<close>, the second critical section. A thread that is in a call cannot begin
  another one, and one that is not cannot continue. \<open>sys_results\<close> holds the keys and the hashes
  that were returned.
\<close>

datatype ('k, 'e) hc_thread = Idle | Reading 'k 'e | Computing 'k

record 'k hc_system =
  sys_cache :: "'k hashCache"
  sys_threads :: "nat \<Rightarrow> ('k, nat) hc_thread"
  sys_results :: "('k \<times> Hash) list"

datatype 'k hc_step = Enter nat 'k | Read nat | Leave nat

fun hc_event :: "'k hc_step \<Rightarrow> 'k hc_system \<Rightarrow> 'k hc_system go" where
  "hc_event (Enter t key) s =
     (if sys_threads s t \<noteq> Idle then Ret s
      else go_bind (getHash_lookup key (sys_cache s)) (\<lambda>(found, h).
           case found of
             Some entry \<Rightarrow> Ret (s\<lparr>sys_cache := h, sys_threads := (sys_threads s)(t := Reading key entry)\<rparr>)
           | None \<Rightarrow> Ret (s\<lparr>sys_cache := h, sys_threads := (sys_threads s)(t := Computing key)\<rparr>)))"
| "hc_event (Read t) s =
     (case sys_threads s t of
        Reading key entry \<Rightarrow>
          Ret (s\<lparr>sys_threads := (sys_threads s)(t := Idle),
                 sys_results := sys_results s @ [(key, getHash_read entry (sys_cache s))]\<rparr>)
      | _ \<Rightarrow> Ret s)"
| "hc_event (Leave t) s =
     (case sys_threads s t of
        Computing key \<Rightarrow>
          let hash = hc_hash (sys_cache s) key in
          go_bind (getHash_add key hash (sys_cache s)) (\<lambda>h.
          Ret (s\<lparr>sys_cache := h, sys_threads := (sys_threads s)(t := Idle),
                 sys_results := sys_results s @ [(key, hash)]\<rparr>))
      | _ \<Rightarrow> Ret s)"

fun hc_events :: "'k hc_step list \<Rightarrow> 'k hc_system \<Rightarrow> 'k hc_system go" where
  "hc_events [] s = Ret s"
| "hc_events (e # es) s = go_bind (hc_event e s) (hc_events es)"

definition hc_run :: "'k \<Rightarrow> int \<Rightarrow> ('k \<Rightarrow> Hash) \<Rightarrow> 'k hc_step list \<Rightarrow> 'k hc_system go" where
  "hc_run zero capacity hash es =
     go_bind (newHashCache zero capacity hash) (\<lambda>c.
     hc_events es \<lparr>sys_cache = c, sys_threads = (\<lambda>_. Idle), sys_results = []\<rparr>)"

text \<open>
  The specification: a list of at most \<open>n\<close> keys, the last one used first, which drops its
  last key for a new one. A thread that is about to read carries a flag that says whether its
  key has been in the list all the time since it was found; the answers have that flag, too.
\<close>

record 'k lru_system =
  lru_order :: "'k list"
  lru_threads :: "nat \<Rightarrow> ('k, bool) hc_thread"
  lru_served :: "('k \<times> bool) list"

fun lru_age :: "'k list \<Rightarrow> ('k, bool) hc_thread \<Rightarrow> ('k, bool) hc_thread" where
  "lru_age ks (Reading k fresh) = Reading k (fresh \<and> k \<in> set ks)"
| "lru_age ks Idle = Idle"
| "lru_age ks (Computing k) = Computing k"

fun lru_event :: "nat \<Rightarrow> 'k hc_step \<Rightarrow> 'k lru_system \<Rightarrow> 'k lru_system" where
  "lru_event n (Enter t key) s =
     (if lru_threads s t \<noteq> Idle then s
      else if key \<in> set (lru_order s)
      then s\<lparr>lru_order := lru_use key (lru_order s), lru_threads := (lru_threads s)(t := Reading key True)\<rparr>
      else s\<lparr>lru_threads := (lru_threads s)(t := Computing key)\<rparr>)"
| "lru_event n (Read t) s =
     (case lru_threads s t of
        Reading key fresh \<Rightarrow>
          s\<lparr>lru_threads := (lru_threads s)(t := Idle), lru_served := lru_served s @ [(key, fresh)]\<rparr>
      | _ \<Rightarrow> s)"
| "lru_event n (Leave t) s =
     (case lru_threads s t of
        Computing key \<Rightarrow>
          (let ks = lru_add n key (lru_order s) in
           s\<lparr>lru_order := ks, lru_threads := (lru_age ks \<circ> lru_threads s)(t := Idle),
             lru_served := lru_served s @ [(key, True)]\<rparr>)
      | _ \<Rightarrow> s)"

definition lru_run :: "'k \<Rightarrow> nat \<Rightarrow> 'k hc_step list \<Rightarrow> 'k lru_system" where
  "lru_run zero n es = fold (lru_event n) es \<lparr>lru_order = [zero], lru_threads = (\<lambda>_. Idle), lru_served = []\<rparr>"

text \<open>
  An answer is the hash of some key, and of the requested one if that has been in the cache
  all the time.
\<close>

fun answered :: "('k \<Rightarrow> Hash) \<Rightarrow> 'k \<times> Hash \<Rightarrow> 'k \<times> bool \<Rightarrow> bool" where
  "answered hash (k, h) (k', fresh) \<longleftrightarrow> k' = k \<and> (fresh \<longrightarrow> h = hash k) \<and> (\<exists>other. h = hash other)"

fun thread_rel :: "'k hashCache \<Rightarrow> ('k, nat) hc_thread \<Rightarrow> ('k, bool) hc_thread \<Rightarrow> bool" where
  "thread_rel c (Reading k e) (Reading k' fresh) \<longleftrightarrow>
     k' = k \<and> e < hc_nextFree c \<and> (fresh \<longrightarrow> he_key (hc_entries c ! e) = k)"
| "thread_rel c (Computing k) (Computing k') \<longleftrightarrow> k' = k"
| "thread_rel c Idle Idle \<longleftrightarrow> True"
| "thread_rel c _ _ \<longleftrightarrow> False"

definition lru_refines :: "('k \<Rightarrow> Hash) \<Rightarrow> nat \<Rightarrow> 'k hc_system \<Rightarrow> 'k lru_system \<Rightarrow> bool" where
  "lru_refines hash n s a \<longleftrightarrow>
     lru_keys (sys_cache s) (lru_order a) \<and> hc_hash (sys_cache s) = hash \<and> length (hc_entries (sys_cache s)) = n \<and>
     (\<forall>t. thread_rel (sys_cache s) (sys_threads s t) (lru_threads a t)) \<and>
     list_all2 (answered hash) (sys_results s) (lru_served a)"

lemma list_all2_snoc: "list_all2 P (xs @ [x]) (ys @ [y]) \<longleftrightarrow> list_all2 P xs ys \<and> P x y"
  by (subst list_all2_rev [symmetric]) auto

lemma thread_rel_simps:
  "thread_rel c Idle y \<longleftrightarrow> y = Idle" "thread_rel c x Idle \<longleftrightarrow> x = Idle"
  "thread_rel c (Computing k) y \<longleftrightarrow> y = Computing k"
  "thread_rel c (Reading k e) y \<longleftrightarrow>
     (\<exists>fresh. y = Reading k fresh \<and> e < hc_nextFree c \<and> (fresh \<longrightarrow> he_key (hc_entries c ! e) = k))"
  subgoal by (cases y) simp_all
  subgoal by (cases x) simp_all
  subgoal by (cases y) auto
  subgoal by (cases y) auto
  done

text \<open>A step that changes the cache, seen by the threads that are about to read.\<close>

lemma thread_rel_age:
  assumes "entries_kept ks c c'" and "thread_rel c x y"
  shows "thread_rel c' x (lru_age ks y)"
  using assms by (cases "(c, x, y)" rule: thread_rel.cases) (auto simp: entries_kept_def)

lemma lru_use_age:
  assumes "entries_kept (lru_use key ks) c c'" and "thread_rel c x y"
    and "\<And>k. y = Reading k True \<Longrightarrow> k \<in> set ks"
  shows "thread_rel c' x y"
proof -
  have "set ks \<subseteq> set (lru_use key ks)" by (metis insert_iff in_set_remove1 list.set(2) lru_use_def subsetI)
  then have "lru_age (lru_use key ks) y = y" using assms(3) by (cases y) auto
  then show ?thesis using thread_rel_age [OF assms(1,2)] by simp
qed

lemma lru_keys_read:
  assumes "lru_keys c ks" and "e < hc_nextFree c"
  shows "getHash_read e c = hc_hash c (he_key (hc_entries c ! e))" "he_key (hc_entries c ! e) \<in> set ks"
  using assms by (auto simp: lru_keys_def hc_data_def hc_links_def getHash_read_def)

lemma hc_event_refines:
  assumes r: "lru_refines hash n s a"
  shows "\<exists>s'. hc_event e s = Ret s' \<and> lru_refines hash n s' (lru_event n e a)"
proof (cases e)
  case (Enter t key)
  show ?thesis
  proof (cases "sys_threads s t = Idle \<and> key \<in> set (lru_order a)")
    case True
    have fresh: "k \<in> set (lru_order a)" if "lru_threads a u = Reading k True" for u k
    proof -
      have "thread_rel (sys_cache s) (sys_threads s u) (Reading k True)" using r that by (metis lru_refines_def)
      then show ?thesis using r lru_keys_read(2) by (cases "sys_threads s u") (auto simp: lru_refines_def)
    qed
    have i: "lru_threads a t = Idle" using r True by (metis lru_refines_def thread_rel_simps(1))
    obtain x c' where c: "getHash_lookup key (sys_cache s) = Ret (Some x, c')" "x < hc_nextFree c'"
      "he_key (hc_entries c' ! x) = key" "lru_keys c' (lru_use key (lru_order a))" "same_config (sys_cache s) c'"
      "entries_kept (lru_use key (lru_order a)) (sys_cache s) c'"
      using getHash_lookup_lru [of "sys_cache s" "lru_order a" key] r True by (auto simp: lru_refines_def)
    have "thread_rel c' (sys_threads s u) (lru_threads a u)" for u
      using lru_use_age [OF c(6)] fresh r by (auto simp: lru_refines_def)
    then show ?thesis using Enter True i c r by (auto simp: lru_refines_def same_config_def)
  next
    case False
    have i: "lru_threads a t = Idle \<longleftrightarrow> sys_threads s t = Idle" using r by (metis lru_refines_def thread_rel_simps(1,2))
    then show ?thesis
      using Enter False r getHash_lookup_lru [of "sys_cache s" "lru_order a" key] by (auto simp: lru_refines_def)
  qed
next
  case (Read t)
  have "thread_rel (sys_cache s) (sys_threads s t) (lru_threads a t)" using r by (simp add: lru_refines_def)
  then show ?thesis
    using Read r lru_keys_read(1) [of "sys_cache s" "lru_order a"]
    by (cases "sys_threads s t") (auto simp: lru_refines_def thread_rel_simps list_all2_snoc)
next
  case (Leave t)
  have t: "thread_rel (sys_cache s) (sys_threads s t) (lru_threads a t)" using r by (simp add: lru_refines_def)
  show ?thesis
  proof (cases "sys_threads s t")
    case (Computing key)
    obtain c' where c: "getHash_add key (hash key) (sys_cache s) = Ret c'" "lru_keys c' (lru_add n key (lru_order a))"
      "same_config (sys_cache s) c'" "entries_kept (lru_add n key (lru_order a)) (sys_cache s) c'"
      using getHash_add_lru [of "sys_cache s" "lru_order a" key] r by (auto simp: lru_refines_def)
    have "thread_rel c' (sys_threads s u) (lru_age (lru_add n key (lru_order a)) (lru_threads a u))" for u
      using thread_rel_age [OF c(4)] r by (simp add: lru_refines_def)
    then show ?thesis
      using Leave Computing t c r by (auto simp: lru_refines_def thread_rel_simps same_config_def Let_def list_all2_snoc)
  qed (use Leave t r in \<open>auto simp: thread_rel_simps\<close>)
qed

lemma hc_events_refine:
  "lru_refines hash n s a \<Longrightarrow> \<exists>s'. hc_events es s = Ret s' \<and> lru_refines hash n s' (fold (lru_event n) es a)"
proof (induction es arbitrary: s a)
  case (Cons e es)
  then show ?case using hc_event_refines [OF Cons.prems, of e] by auto
qed simp

text \<open>
  C30: the hash cache under concurrent requests. Whatever the capacity, the hash function and
  the interleaving of the steps of the threads, no pointer of the doubly linked list is nil
  where it is followed, and the cache holds the keys of the list of the specification, in its
  order and never more than its capacity, which is at least two: the linked list, the index
  and the array implement a list of the keys used last. Every request is answered with the
  hash of a key, and with the hash of the requested key unless that was evicted between the
  release of the lock and the read of the hash. (The read is one step; for a key that was not
  evicted this is no restriction, since its entry is not written.)
\<close>

theorem hash_cache_refines_lru:
  "\<exists>s. hc_run zero capacity hash es = Ret s \<and>
     (let a = lru_run zero (nat (max 2 capacity)) es in
      lru_keys (sys_cache s) (lru_order a) \<and> int (length (lru_order a)) \<le> max 2 capacity \<and>
      list_all2 (answered hash) (sys_results s) (lru_served a))"
proof -
  obtain c where c: "newHashCache zero capacity hash = Ret c" "lru_keys c [zero]" "hc_hash c = hash"
    "int (length (hc_entries c)) = max 2 capacity"
    using newHashCache_lru [of zero capacity hash] by (elim exE conjE) (rule that)
  have "lru_refines hash (nat (max 2 capacity)) \<lparr>sys_cache = c, sys_threads = (\<lambda>_. Idle), sys_results = []\<rparr>
      \<lparr>lru_order = [zero], lru_threads = (\<lambda>_. Idle), lru_served = []\<rparr>"
    using c(2,3) arg_cong [OF c(4), of nat] by (simp add: lru_refines_def)
  from hc_events_refine [OF this, of es] obtain s where s: "hc_run zero capacity hash es = Ret s"
    and r: "lru_refines hash (nat (max 2 capacity)) s (lru_run zero (nat (max 2 capacity)) es)"
    using c(1) by (auto simp: hc_run_def lru_run_def)
  have "length (lru_order (lru_run zero (nat (max 2 capacity)) es)) \<le> nat (max 2 capacity)"
    using lru_keys_length [of "sys_cache s"] r by (simp add: lru_refines_def)
  then have "int (length (lru_order (lru_run zero (nat (max 2 capacity)) es))) \<le> max 2 capacity" by linarith
  then show ?thesis using s r by (simp add: lru_refines_def)
qed

subsection \<open>How long an entry that was found can be read\<close>

text \<open>
  A step moves a key back by one position at most, and a new key evicts the last one. So a
  key that was just found is not evicted within fewer steps than the cache has entries.
\<close>

lemma in_take_remove1: "x \<in> set (take m xs) \<Longrightarrow> x \<noteq> y \<Longrightarrow> x \<in> set (take m (remove1 y xs))"
proof (induction xs arbitrary: m)
  case (Cons z xs)
  then show ?case using set_take_subset_set_take [of "m - 1" m xs] by (cases m) (auto simp: take_Cons')
qed simp

lemma lru_event_position:
  assumes "k \<in> set (take m (lru_order a))" and "Suc m \<le> n"
  shows "k \<in> set (take (Suc m) (lru_order (lru_event n e a)))"
proof -
  have s: "k \<in> set (take (Suc m) (lru_order a))" using assms(1) set_take_subset_set_take [of m "Suc m" "lru_order a"] by auto
  show ?thesis
  proof (cases e)
    case (Enter t key)
    then show ?thesis using assms(1) s in_take_remove1 [of k m "lru_order a" key] by (auto simp: lru_use_def)
  next
    case (Leave t)
    then show ?thesis using assms s by (auto simp: lru_add_def Let_def min_def split: hc_thread.splits)
  qed (use s in \<open>auto split: hc_thread.splits\<close>)
qed

fun step_of :: "'k hc_step \<Rightarrow> nat" where
  "step_of (Enter t key) = t" | "step_of (Read t) = t" | "step_of (Leave t) = t"

lemma lru_event_fresh:
  assumes "lru_threads a t = Reading k True" and "step_of e \<noteq> t" and "k \<in> set (lru_order (lru_event n e a))"
  shows "lru_threads (lru_event n e a) t = Reading k True"
  using assms by (cases e) (auto simp: Let_def split: hc_thread.splits)

lemma fresh_within_capacity:
  assumes "lru_threads a t = Reading k True" and "k \<in> set (take m (lru_order a))" and "m + length es \<le> n"
    and "\<forall>e \<in> set es. step_of e \<noteq> t"
  shows "lru_threads (fold (lru_event n) es a) t = Reading k True"
  using assms
proof (induction es arbitrary: a m)
  case (Cons e es)
  have k: "k \<in> set (take (Suc m) (lru_order (lru_event n e a)))" using Cons.prems(2,3) by (intro lru_event_position) auto
  then have "lru_threads (lru_event n e a) t = Reading k True"
    using Cons.prems(1,4) in_set_takeD [OF k] by (intro lru_event_fresh) auto
  then show ?case using Cons.IH [OF _ k] Cons.prems(3,4) by simp
qed simp

text \<open>A request is answered correctly if fewer steps than the cache has entries come before its read.\<close>

lemma read_within_capacity:
  assumes "lru_threads a t = Idle" and "key \<in> set (lru_order a)" and "length es < n" and "\<forall>e \<in> set es. step_of e \<noteq> t"
  shows "\<exists>others. lru_served (fold (lru_event n) (Enter t key # es @ [Read t]) a) = others @ [(key, True)]"
proof -
  have "lru_threads (fold (lru_event n) es (lru_event n (Enter t key) a)) t = Reading key True"
    by (rule fresh_within_capacity [where m = 1]) (use assms in \<open>auto simp: lru_use_def\<close>)
  then show ?thesis by simp
qed

text \<open>
  The bound is sharp: after as many steps the entry may hold another key. With two entries, a
  thread that has found key 0 gets the hash of key 2, because two other threads add keys
  before the read.
\<close>

lemma stale_read:
  "\<exists>s. hc_run (0 :: nat) 2 word_of_nat [Enter 1 1, Enter 2 2, Enter 0 0, Leave 1, Leave 2, Read 0] = Ret s \<and>
     sys_results s = [(1, 1), (2, 2), (0, 2)]"
  by (simp add: hc_run_def newHashCache_def getFree_def upd_entry_def upd_at_def getHash_lookup_def moveToFront_def
      getHash_add_def set_pred_def set_succ_def getHash_read_def numeral_2_eq_2)

section \<open>The cache of the interpreters\<close>

record sha3HashCache =
  cache32 :: "bytes hashCache"
  cache64 :: "bytes hashCache"

text \<open>\<open>K\<close> and \<open>K32\<close> are \<open>Keccak256\<close> and \<open>Keccak256For32byte\<close>, which are C code.\<close>

definition newSha3HashCache :: "(bytes \<Rightarrow> Hash) \<Rightarrow> (bytes \<Rightarrow> Hash) \<Rightarrow> int \<Rightarrow> int \<Rightarrow> sha3HashCache go" where
  "newSha3HashCache K K32 capacity32 capacity64 =
     go_bind (newHashCache (replicate 32 0) capacity32 K32) (\<lambda>c32.
     go_bind (newHashCache (replicate 64 0) capacity64 K) (\<lambda>c64.
     Ret \<lparr>cache32 = c32, cache64 = c64\<rparr>))"

definition sha3_hash :: "(bytes \<Rightarrow> Hash) \<Rightarrow> bytes \<Rightarrow> sha3HashCache \<Rightarrow> (Hash \<times> sha3HashCache) go" where
  "sha3_hash K data h =
     (if length data = 32 then
        go_bind (getHash data (cache32 h)) (\<lambda>(hash, c). Ret (hash, h\<lparr>cache32 := c\<rparr>))
      else if length data = 64 then
        go_bind (getHash data (cache64 h)) (\<lambda>(hash, c). Ret (hash, h\<lparr>cache64 := c\<rparr>))
      else Ret (K data, h))"

fun sha3_hashes :: "(bytes \<Rightarrow> Hash) \<Rightarrow> bytes list \<Rightarrow> sha3HashCache \<Rightarrow> Hash list go" where
  "sha3_hashes K [] h = Ret []"
| "sha3_hashes K (d # ds) h =
     go_bind (sha3_hash K d h) (\<lambda>(r, h). go_bind (sha3_hashes K ds h) (\<lambda>rs. Ret (r # rs)))"

lemma getHash_lru:
  assumes "lru_keys c ks"
  shows "\<exists>c' ks'. getHash key c = Ret (hc_hash c key, c') \<and> lru_keys c' ks' \<and> same_config c c'"
proof (cases "key \<in> set ks")
  case True
  then obtain e c' where "getHash_lookup key c = Ret (Some e, c')" "e < hc_nextFree c'" "he_key (hc_entries c' ! e) = key"
    "lru_keys c' (lru_use key ks)" "same_config c c'"
    using getHash_lookup_lru [OF assms, of key] by auto
  then show ?thesis using lru_keys_read(1) [of c' _ e] by (auto simp: getHash_def same_config_def)
next
  case False
  then show ?thesis
    using getHash_lookup_lru [OF assms, of key] getHash_add_lru [OF assms, of key] by (auto simp: getHash_def)
qed

definition sha3_ok :: "(bytes \<Rightarrow> Hash) \<Rightarrow> (bytes \<Rightarrow> Hash) \<Rightarrow> sha3HashCache \<Rightarrow> bool" where
  "sha3_ok K K32 h \<longleftrightarrow>
     (\<exists>ks. lru_keys (cache32 h) ks) \<and> (\<exists>ks. lru_keys (cache64 h) ks) \<and> hc_hash (cache32 h) = K32 \<and> hc_hash (cache64 h) = K"

lemma sha3_hash_ok:
  assumes "sha3_ok K K32 h" and "\<And>d. length d = 32 \<Longrightarrow> K32 d = K d"
  shows "\<exists>h'. sha3_hash K d h = Ret (K d, h') \<and> sha3_ok K K32 h'"
proof -
  obtain ks ms where k: "lru_keys (cache32 h) ks" "lru_keys (cache64 h) ms"
    and c: "hc_hash (cache32 h) = K32" "hc_hash (cache64 h) = K"
    using assms(1) by (auto simp: sha3_ok_def)
  show ?thesis
    using getHash_lru [OF k(1), of d] getHash_lru [OF k(2), of d] k c assms(2) [of d]
    by (auto simp: sha3_hash_def sha3_ok_def same_config_def)
qed

text \<open>
  The global cache is the Keccak function, as the environment of the interpreters has it, for
  requests that are not interleaved: if the routine for 32 bytes computes the same function, a
  sequence of requests to a new cache of any capacity is answered with the hashes of the data.
\<close>

lemma sha3_cache_transparent:
  assumes "\<And>d. length d = 32 \<Longrightarrow> K32 d = K d"
  shows "\<exists>h. newSha3HashCache K K32 capacity32 capacity64 = Ret h \<and> (\<forall>ds. sha3_hashes K ds h = Ret (map K ds))"
proof -
  have "sha3_ok K K32 h \<Longrightarrow> sha3_hashes K ds h = Ret (map K ds)" for ds h
  proof (induction ds arbitrary: h)
    case (Cons d ds)
    then show ?case using sha3_hash_ok [OF Cons.prems assms, of d] by auto
  qed simp
  moreover have "\<exists>h. newSha3HashCache K K32 capacity32 capacity64 = Ret h \<and> sha3_ok K K32 h"
    using newHashCache_lru [of "replicate 32 0" capacity32 K32] newHashCache_lru [of "replicate 64 0" capacity64 K]
    by (auto simp: newSha3HashCache_def sha3_ok_def)
  ultimately show ?thesis by blast
qed

end
