(* ===== verification/Jump_Analysis.thy ===== *)
theory Jump_Analysis
  imports Opcodes
begin

text \<open>
  The jump-destination analysis of the short-form interpreter (\<open>sfvm/analysis.go\<close>): the
  bitmap of jump destinations, the scan that fills it and the cache in front of it. The
  bitmap is shown to hold exactly the \<open>JUMPDEST\<close> bytes on instruction boundaries.
\<close>

section \<open>The bitmap\<close>

record jumpDestMap =
  bitmap :: "u64 list"
  codeSize :: u64

definition newJumpDestMap :: "u64 \<Rightarrow> jumpDestMap" where
  "newJumpDestMap sz =
     (let analysisSize = (if sz mod 64 \<noteq> 0 then sz div 64 + 1 else sz div 64) in
      \<lparr>bitmap = replicate (unat analysisSize) 0, codeSize = sz\<rparr>)"

definition idxToAnalysisIdxAndMask :: "u64 \<Rightarrow> u64 \<times> u64" where
  "idxToAnalysisIdxAndMask idx = (idx div 64, push_bit (unat (idx mod 64)) 1)"

text \<open>The receiver may be \<open>nil\<close>.\<close>

definition isJumpDest :: "jumpDestMap option \<Rightarrow> u64 \<Rightarrow> bool" where
  "isJumpDest a idx =
     (case a of
        None \<Rightarrow> False
      | Some a \<Rightarrow>
          (let (uintIdx, mask) = idxToAnalysisIdxAndMask idx in
           if length (bitmap a) \<le> unat uintIdx then False
           else and (bitmap a ! unat uintIdx) mask \<noteq> 0))"

definition markJumpDest :: "u64 \<Rightarrow> jumpDestMap \<Rightarrow> jumpDestMap" where
  "markJumpDest idx a =
     (if codeSize a \<le> idx then a
      else (let (uintIdx, mask) = idxToAnalysisIdxAndMask idx in
        if length (bitmap a) \<le> unat uintIdx then a
        else a\<lparr>bitmap := (bitmap a)[unat uintIdx := or (bitmap a ! unat uintIdx) mask]\<rparr>))"

section \<open>The scan\<close>

function findJumpDestinations_loop :: "bytes \<Rightarrow> nat \<Rightarrow> jumpDestMap \<Rightarrow> jumpDestMap" where
  "findJumpDestinations_loop cd idx a =
     (if idx < length cd then
        (let op = unat (cd ! idx) in
         if PUSH1 \<le> op \<and> op \<le> PUSH32 then
           (let dataSize = op - PUSH1 + 1 in findJumpDestinations_loop cd (idx + dataSize + 1) a)
         else if op = JUMPDEST then
           findJumpDestinations_loop cd (idx + 1) (markJumpDest (word_of_nat idx) a)
         else findJumpDestinations_loop cd (idx + 1) a)
      else a)"
  by pat_completeness auto

termination by (relation "measure (\<lambda>(cd, idx, _). length cd - idx)") auto

declare findJumpDestinations_loop.simps [simp del]

definition findJumpDestinations :: "bytes \<Rightarrow> jumpDestMap" where
  "findJumpDestinations cd =
     findJumpDestinations_loop cd 0 (newJumpDestMap (word_of_nat (length cd)))"

section \<open>The cache\<close>

text \<open>
  The cache \<open>lru.Cache\<close> is a package outside the repository; its two operations are a
  parameter over a cache state \<open>'s\<close>.
\<close>

record ('k, 'v, 's) lru =
  lru_Get :: "'k \<Rightarrow> 's \<Rightarrow> 'v option \<times> 's"
  lru_Add :: "'k \<Rightarrow> 'v \<Rightarrow> 's \<Rightarrow> 's"

text \<open>
  The documented behaviour: \<open>entries s\<close> are the key-value pairs that the state holds. A
  hit is an entry, a lookup keeps the entries and an insertion adds one entry (and may evict
  others).
\<close>

definition lru_laws :: "('k, 'v, 's) lru \<Rightarrow> ('s \<Rightarrow> 'k \<rightharpoonup> 'v) \<Rightarrow> bool" where
  "lru_laws L entries \<longleftrightarrow>
     (\<forall>k s. fst (lru_Get L k s) = entries s k \<and> entries (snd (lru_Get L k s)) = entries s) \<and>
     (\<forall>k v s. entries (lru_Add L k v s) \<subseteq>\<^sub>m (entries s)(k \<mapsto> v))"

text \<open>An \<open>analysis\<close> value: the cache may be \<open>nil\<close>.\<close>

record 's analysis =
  an_cache :: "'s option"
  maxCachedCodeSize :: nat

definition newAnalysis :: "(nat \<Rightarrow> 's option) \<Rightarrow> nat \<Rightarrow> nat \<Rightarrow> 's analysis go" where
  "newAnalysis lru_New sizeInByte maxSize =
     (let maxSize = max 1 (min maxSize sizeInByte);
          sz = (sizeInByte div maxSize) * 8 in
      case lru_New sz of
        None \<Rightarrow> Panic
      | Some s \<Rightarrow> Ret \<lparr>an_cache = Some s, maxCachedCodeSize = maxSize\<rparr>)"

definition analyzeJumpDest ::
  "(Hash, jumpDestMap, 's) lru \<Rightarrow> bytes \<Rightarrow> Hash option \<Rightarrow> 's analysis \<Rightarrow> jumpDestMap \<times> 's analysis" where
  "analyzeJumpDest L cd codehash a =
     (case (an_cache a, codehash) of
        (Some s, Some h) \<Rightarrow>
          (case lru_Get L h s of
             (Some m, s) \<Rightarrow> (m, a\<lparr>an_cache := Some s\<rparr>)
           | (None, s) \<Rightarrow>
               if maxCachedCodeSize a < length cd then (findJumpDestinations cd, a\<lparr>an_cache := Some s\<rparr>)
               else (let jumpDests = findJumpDestinations cd in
                 (jumpDests, a\<lparr>an_cache := Some (lru_Add L h jumpDests s)\<rparr>)))
      | _ \<Rightarrow> (findJumpDestinations cd, a))"

section \<open>Specification\<close>

text \<open>The positions at which an instruction starts.\<close>

inductive instr_start :: "bytes \<Rightarrow> nat \<Rightarrow> bool" for cd :: bytes where
  start: "instr_start cd 0"
| next_instr: "instr_start cd i \<Longrightarrow> i < length cd \<Longrightarrow> instr_start cd (i + Width (unat (cd ! i)))"

definition valid_dest :: "bytes \<Rightarrow> nat \<Rightarrow> bool" where
  "valid_dest cd i \<longleftrightarrow> i < length cd \<and> unat (cd ! i) = JUMPDEST \<and> instr_start cd i"

text \<open>The bits of a map, and the shape that \<open>newJumpDestMap\<close> gives it.\<close>

definition dests :: "jumpDestMap \<Rightarrow> nat set" where
  "dests a = {i. i < 64 * length (bitmap a) \<and> bit (bitmap a ! (i div 64)) (i mod 64)}"

definition map_for :: "nat \<Rightarrow> jumpDestMap \<Rightarrow> bool" where
  "map_for n a \<longleftrightarrow> unat (codeSize a) = n \<and> length (bitmap a) = (n + 63) div 64"

section \<open>Bitmap lemmas\<close>

lemma idx_unat:
  "unat (fst (idxToAnalysisIdxAndMask idx)) = unat idx div 64"
  "snd (idxToAnalysisIdxAndMask idx) = push_bit (unat idx mod 64) 1"
  by (simp_all add: idxToAnalysisIdxAndMask_def unat_div unat_mod)

lemma and_power_eq_0: "(and w (2 ^ n) = 0) \<longleftrightarrow> \<not> bit (w :: u64) n"
  by (cases "bit w n") (auto simp: and_exp_eq_0_iff_not_bit)

lemma isJumpDest_dests: "isJumpDest (Some a) idx \<longleftrightarrow> unat idx \<in> dests a"
  using idx_unat [of idx]
  by (auto simp: isJumpDest_def dests_def Let_def and_power_eq_0 not_le split: prod.splits)

lemma isJumpDest_None [simp]: "\<not> isJumpDest None idx"
  by (simp add: isJumpDest_def)

lemma dests_mark:
  assumes "map_for n a" and "unat idx < n"
  shows "dests (markJumpDest idx a) = insert (unat idx) (dests a)"
    and "map_for n (markJumpDest idx a)"
proof -
  have len: "unat idx div 64 < length (bitmap a)" using assms by (auto simp: map_for_def)
  have lt: "\<not> codeSize a \<le> idx" using assms by (simp add: map_for_def word_le_nat_alt)
  have eq: "markJumpDest idx a = a\<lparr>bitmap := (bitmap a)[unat idx div 64 :=
      or (bitmap a ! (unat idx div 64)) (push_bit (unat idx mod 64) 1)]\<rparr>"
    using len lt idx_unat [of idx] by (auto simp: markJumpDest_def Let_def split: prod.splits)
  show "map_for n (markJumpDest idx a)" using assms by (simp add: eq map_for_def)
  have "i = unat idx" if "i div 64 = unat idx div 64" "i mod 64 = unat idx mod 64" for i
    by (metis that div_mult_mod_eq)
  then show "dests (markJumpDest idx a) = insert (unat idx) (dests a)"
    using len by (auto simp: eq dests_def nth_list_update bit_simps)
qed

lemma newJumpDestMap_props:
  assumes "n < 18446744073709551616"
  shows "map_for n (newJumpDestMap (word_of_nat n))" "dests (newJumpDestMap (word_of_nat n)) = {}"
proof -
  have u: "unat (word_of_nat n :: u64) = n" using assms by (simp add: unat_of_nat)
  have "(n + 63) div 64 = (if n mod 64 = 0 then n div 64 else n div 64 + 1)"
    using div_mult_mod_eq [of n 64] by (simp; linarith)
  moreover have "(word_of_nat n mod 64 = (0 :: u64)) \<longleftrightarrow> n mod 64 = 0"
    by (simp add: word_unat_eq_iff unat_mod u)
  moreover have "unat (word_of_nat n div 64 + 1 :: u64) = n div 64 + 1"
    using assms by (simp add: unat_word_ariths unat_div u)
  ultimately show "map_for n (newJumpDestMap (word_of_nat n))"
    by (auto simp: map_for_def newJumpDestMap_def Let_def u unat_div)
  show "dests (newJumpDestMap (word_of_nat n)) = {}"
    by (auto simp: dests_def newJumpDestMap_def Let_def)
qed

section \<open>Correctness of the scan\<close>

text \<open>The positions at or after \<open>i\<close> that are reached by instruction steps from \<open>i\<close>.\<close>

inductive reached :: "bytes \<Rightarrow> nat \<Rightarrow> nat \<Rightarrow> bool" for cd :: bytes and i :: nat where
  here: "reached cd i i"
| onward: "reached cd i j \<Longrightarrow> j < length cd \<Longrightarrow> reached cd i (j + Width (unat (cd ! j)))"

lemma instr_start_reached: "instr_start cd j \<longleftrightarrow> reached cd 0 j"
proof
  show "instr_start cd j \<Longrightarrow> reached cd 0 j"
    by (induction rule: instr_start.induct) (auto intro: reached.intros)
  show "reached cd 0 j \<Longrightarrow> instr_start cd j"
    by (induction rule: reached.induct) (auto intro: instr_start.intros)
qed

lemma reached_front:
  assumes "i < length cd"
  shows "reached cd i j \<longleftrightarrow> j = i \<or> reached cd (i + Width (unat (cd ! i))) j"
proof
  show "reached cd i j \<Longrightarrow> j = i \<or> reached cd (i + Width (unat (cd ! i))) j"
    by (induction rule: reached.induct) (auto intro: reached.intros)
  have "reached cd (i + Width (unat (cd ! i))) j \<Longrightarrow> reached cd i j"
    by (induction rule: reached.induct) (auto intro: reached.intros assms)
  then show "j = i \<or> reached cd (i + Width (unat (cd ! i))) j \<Longrightarrow> reached cd i j"
    by (auto intro: reached.here)
qed

lemma reached_end: "length cd \<le> i \<Longrightarrow> reached cd i j \<Longrightarrow> j = i"
  by (rotate_tac, induction rule: reached.induct) auto

lemma findJumpDestinations_loop_dests:
  assumes "map_for (length cd) a" and "length cd < 18446744073709551616"
  shows "dests (findJumpDestinations_loop cd idx a) =
    dests a \<union> {j. j < length cd \<and> reached cd idx j \<and> unat (cd ! j) = JUMPDEST}"
  using assms
proof (induction cd idx a rule: findJumpDestinations_loop.induct)
  case (1 cd idx a)
  show ?case
  proof (cases "idx < length cd")
    case False
    then show ?thesis using reached_end [of cd idx]
      by (fastforce simp: findJumpDestinations_loop.simps [of cd idx] not_less)
  next
    case True
    define op where "op = unat (cd ! idx)"
    note front = reached_front [OF True]
    consider "PUSH1 \<le> op \<and> op \<le> PUSH32" | "op = JUMPDEST" | "\<not> (PUSH1 \<le> op \<and> op \<le> PUSH32)" "op \<noteq> JUMPDEST"
      by auto
    then show ?thesis
    proof cases
      case 1
      then have "Width op = op - PUSH1 + 1 + 1" by (simp add: Width_def)
      then show ?thesis using 1 True "1.IH"(1) [OF True op_def 1 refl "1.prems"] front
        by (auto simp: findJumpDestinations_loop.simps [of cd idx] op_def Let_def add.assoc)
    next
      case 2
      have idx: "unat (word_of_nat idx :: u64) = idx"
        using True "1.prems"(2) by (simp add: unat_of_nat)
      have mark: "dests (markJumpDest (word_of_nat idx) a) = insert idx (dests a)"
        "map_for (length cd) (markJumpDest (word_of_nat idx) a)"
        using dests_mark [OF "1.prems"(1), of "word_of_nat idx"] True by (simp_all add: idx)
      show ?thesis using 2 True "1.IH"(2) [OF True op_def _ _ mark(2) "1.prems"(2)] mark(1) front
        by (auto simp: findJumpDestinations_loop.simps [of cd idx] op_def Width_def)
    next
      case 3
      then show ?thesis using True "1.IH"(3) [OF True op_def 3 "1.prems"] front
        by (auto simp: findJumpDestinations_loop.simps [of cd idx] op_def Width_def)
    qed
  qed
qed

lemma dests_findJumpDestinations:
  assumes "length cd < 18446744073709551616"
  shows "dests (findJumpDestinations cd) = {i. valid_dest cd i}"
  using findJumpDestinations_loop_dests [OF newJumpDestMap_props(1) assms, of 0] assms
  by (simp add: findJumpDestinations_def newJumpDestMap_props valid_dest_def instr_start_reached)
    auto

text \<open>
  C17: the jump-destination bitmap is exact: the bit of an index is set if and only if the
  byte at that index is a \<open>JUMPDEST\<close> that starts an instruction, so a \<open>JUMPDEST\<close> byte
  inside the data of a \<open>PUSH\<close> is never a destination.
\<close>

theorem isJumpDest_correct:
  assumes "length cd < 18446744073709551616"
  shows "isJumpDest (Some (findJumpDestinations cd)) idx \<longleftrightarrow> valid_dest cd (unat idx)"
  by (simp add: isJumpDest_dests dests_findJumpDestinations [OF assms])

theorem isJumpDest_correct_witness:
  "isJumpDest (Some (findJumpDestinations [0x60, 0x5b, 0x5b])) 2 \<longleftrightarrow> valid_dest [0x60, 0x5b, 0x5b] 2"
  using isJumpDest_correct [of "[0x60, 0x5b, 0x5b]" 2] by simp

section \<open>Correctness of the cache\<close>

text \<open>
  The cached maps are the ones of the codes with the given hashes. \<open>code_of\<close> is the code
  of a hash: the caller provides the hash of the code.
\<close>

definition cache_ok :: "('s \<Rightarrow> Hash \<rightharpoonup> jumpDestMap) \<Rightarrow> (Hash \<Rightarrow> bytes) \<Rightarrow> 's analysis \<Rightarrow> bool" where
  "cache_ok entries code_of a \<longleftrightarrow>
     (\<forall>s h m. an_cache a = Some s \<longrightarrow> entries s h = Some m \<longrightarrow> m = findJumpDestinations (code_of h))"

lemma analyzeJumpDest_ok:
  assumes "lru_laws L entries" and "cache_ok entries code_of a"
    and "\<And>h. codehash = Some h \<Longrightarrow> code_of h = cd"
  shows "fst (analyzeJumpDest L cd codehash a) = findJumpDestinations cd \<and>
    cache_ok entries code_of (snd (analyzeJumpDest L cd codehash a))"
proof (cases "an_cache a")
  case None
  with assms(2) show ?thesis by (auto simp: analyzeJumpDest_def)
next
  case (Some s)
  show ?thesis
  proof (cases codehash)
    case None
    with assms(2) Some show ?thesis by (simp add: analyzeJumpDest_def)
  next
    case (Some h)
    obtain r s' where get: "lru_Get L h s = (r, s')" by fastforce
    have r: "entries s h = r" "entries s' = entries s"
      using assms(1) get unfolding lru_laws_def by (metis fst_conv snd_conv)+
    have add: "entries (lru_Add L h v s') \<subseteq>\<^sub>m (entries s')(h \<mapsto> v)" for v
      using assms(1) by (simp add: lru_laws_def)
    have ok: "entries s k = Some m \<Longrightarrow> m = findJumpDestinations (code_of k)" for k m
      using assms(2) \<open>an_cache a = Some s\<close> by (simp add: cache_ok_def)
    have new: "m = findJumpDestinations (code_of k)"
      if "entries (lru_Add L h (findJumpDestinations cd) s') k = Some m" for k m
      using add [of "findJumpDestinations cd"] that ok assms(3) [OF Some] by (auto simp: r map_le_def dom_def split: if_splits dest!: spec [of _ k])
    show ?thesis
      using get r ok new assms(3) [OF Some] \<open>an_cache a = Some s\<close> Some
      by (cases r) (auto simp: analyzeJumpDest_def cache_ok_def Let_def)
  qed
qed

text \<open>A cache without a limit, for examples.\<close>

definition map_lru :: "('k, 'v, 'k \<rightharpoonup> 'v) lru" where
  "map_lru = \<lparr>lru_Get = (\<lambda>k s. (s k, s)), lru_Add = (\<lambda>k v s. s(k \<mapsto> v))\<rparr>"

end
