(* ===== verification/Sfvm.thy ===== *)
theory Sfvm
  imports Exec_Logic Jump_Analysis
begin

text \<open>
  The short-form interpreter: its own instructions (\<open>sfvm/instructions.go\<close>: program
  counter, jumps, pushes), the dispatch and the loop of \<open>sfvm/interpreter.go\<close> and the
  entry point of \<open>sfvm/sfvm.go\<close>.
\<close>

section \<open>The context\<close>

record 'w sfvm_context = "'w ctxt" +
  code :: bytes
  analysis :: jumpDestMap

type_synonym 'w sf_cmd = "'w sfvm_context \<Rightarrow> ('w sfvm_context, unit) res"
type_synonym 'w sf_op = "'w sfvm_context \<Rightarrow> ('w sfvm_context, status) res"

section \<open>Program counter, jumps and pushes\<close>

definition opPc :: "'w sf_cmd" where
  "opPc c = push (SetUint64 (word_of_int (pc c))) c"

definition checkJumpDest :: "'w sf_cmd" where
  "checkJumpDest c =
     (let dest = int32 (pc c + 1) in
      if int (length (code c)) \<le> dest \<or> \<not> isJumpDest (Some (analysis c)) (word_of_int dest)
      then fail errInvalidJump c else ret () c)"

definition opJump :: "'w sf_cmd" where
  "opJump c =
     bind (pop c) (\<lambda>destination c.
     if \<not> IsUint64 destination \<or> 2147483647 < Uint64 destination then fail errInvalidJump c
     else checkJumpDest (c\<lparr>pc := int32 (int32 (uint (Uint64 destination)) - 1)\<rparr>))"

definition opJumpi :: "'w sf_cmd" where
  "opJumpi c =
     bind (pop c) (\<lambda>destination c.
     bind (pop c) (\<lambda>condition c.
     if condition \<noteq> 0 then
       (if \<not> IsUint64 destination \<or> 2147483647 < Uint64 destination then fail errInvalidJump c
        else checkJumpDest (c\<lparr>pc := int32 (int32 (uint (Uint64 destination)) - 1)\<rparr>))
     else ret () c))"

text \<open>Go's \<open>c.code[i]\<close> with an \<open>int32\<close> index.\<close>

definition code_at :: "int \<Rightarrow> 'w sfvm_context \<Rightarrow> ('w sfvm_context, byte) res" where
  "code_at i c = (if 0 \<le> i \<and> i < int (length (code c)) then ret (code c ! nat i) c
                  else fail GoPanic c)"

definition opPush :: "'w env \<Rightarrow> nat \<Rightarrow> 'w sf_cmd" where
  "opPush E n c =
     (let codeLength = int (length (code c));
          start = min codeLength (int32 (pc c + 1));
          end = min codeLength (start + int n) in
      if start < 0 \<or> end < start then fail GoPanic c
      else
        (let bs = take (nat (end - start)) (drop (nat start) (code c));
             missing = int n - (end - start);
             v = (if 0 < missing then u_Lsh (u256lib E) (of_be_bytes bs) (nat (8 * missing))
                  else of_be_bytes bs) in
         bind (push v c) (\<lambda>_ c.
         ret () (c\<lparr>pc := int32 (pc c + int n)\<rparr>))))"

definition opPush1 :: "'w sf_cmd" where
  "opPush1 c =
     bind (if int (length (code c)) \<le> pc c + 1 then ret 0 c
           else bind (code_at (int32 (pc c + 1)) c) (\<lambda>b c. ret (ucast b) c)) (\<lambda>z c.
     bind (push (SetUint64 z) c) (\<lambda>_ c.
     ret () (c\<lparr>pc := int32 (pc c + 1)\<rparr>)))"

definition opPush2 :: "'w sf_cmd" where
  "opPush2 c =
     bind (if int (length (code c)) \<le> pc c + 1 then ret 0 c
           else if int (length (code c)) \<le> pc c + 2 then
             bind (code_at (int32 (pc c + 1)) c) (\<lambda>b c. ret (push_bit 8 (ucast b)) c)
           else
             bind (code_at (int32 (pc c + 1)) c) (\<lambda>b1 c.
             bind (code_at (int32 (pc c + 2)) c) (\<lambda>b2 c.
             ret (or (push_bit 8 (ucast b1)) (ucast b2)) c))) (\<lambda>z c.
     bind (push (SetUint64 z) c) (\<lambda>_ c.
     ret () (c\<lparr>pc := int32 (pc c + 2)\<rparr>)))"

section \<open>Dispatch\<close>

text \<open>
  The cases of the switch in \<open>steps\<close>: an instruction that leaves the status at
  \<open>statusRunning\<close>, and one that sets it.
\<close>

definition cont :: "'w sf_cmd \<Rightarrow> 'w sf_op" where
  "cont f c = bind (f c) (\<lambda>_ c. ret statusRunning c)"

definition finish :: "status \<Rightarrow> 'w sf_cmd \<Rightarrow> 'w sf_op" where
  "finish st f c = bind (f c) (\<lambda>_ c. ret st c)"

definition sfvm_ops_hot :: "'w env \<Rightarrow> (OpCode \<times> 'w sf_op) list" where
  "sfvm_ops_hot E =
    [(POP, cont opPop), (PUSH0, cont opPush0), (PUSH1, cont opPush1), (PUSH2, cont opPush2),
     (PUSH3, cont (opPush E 3)), (PUSH4, cont (opPush E 4)), (PUSH5, cont (opPush E 5)),
     (PUSH31, cont (opPush E 31)), (PUSH32, cont (opPush E 32)), (JUMP, cont opJump),
     (JUMPDEST, cont (ret ())), (SWAP1, cont (opSwap 1)), (SWAP2, cont (opSwap 2)),
     (DUP3, cont (opDup 3)), (AND, cont (opAnd E)), (SWAP3, cont (opSwap 3)),
     (JUMPI, cont opJumpi), (GT, cont (opGt E)), (DUP4, cont (opDup 4)), (DUP2, cont (opDup 2)),
     (ISZERO, cont opIszero), (ADD, cont (opAdd E)), (OR, cont (opOr E)), (XOR, cont (opXor E)),
     (NOT, cont (opNot E)), (SUB, cont (opSub E)), (MUL, cont (opMul E)),
     (MULMOD, cont (opMulMod E)), (DIV, cont (opDiv E)), (SDIV, cont (opSDiv E)),
     (MOD, cont (opMod E)), (SMOD, cont (opSMod E)), (ADDMOD, cont (opAddMod E)),
     (EXP, cont (opExp E)), (DUP5, cont (opDup 5)), (DUP1, cont (opDup 1)), (EQ, cont (opEq E)),
     (PC, cont opPc), (CALLER, cont opCaller), (CALLDATALOAD, cont opCallDataload),
     (CALLDATASIZE, cont opCallDatasize),
     (CALLDATACOPY, cont (\<lambda>c. genericDataCopy (Input (params c)) c)),
     (MLOAD, cont opMload), (MSTORE, cont opMstore), (MSTORE8, cont opMstore8),
     (MSIZE, cont opMsize), (MCOPY, cont opMcopy), (LT, cont (opLt E)), (SLT, cont (opSlt E)),
     (SGT, cont (opSgt E)), (SHR, cont (opShr E)), (SHL, cont (opShl E)), (SAR, cont (opSar E)),
     (CLZ, cont (opClz E)), (SIGNEXTEND, cont (opSignExtend E)), (BYTE, cont (opByte E)),
     (SHA3, cont (opSha3 E)), (CALLVALUE, cont opCallvalue), (PUSH6, cont (opPush E 6)),
     (PUSH7, cont (opPush E 7)), (PUSH8, cont (opPush E 8)), (PUSH9, cont (opPush E 9)),
     (PUSH10, cont (opPush E 10)), (PUSH11, cont (opPush E 11)), (PUSH12, cont (opPush E 12)),
     (PUSH13, cont (opPush E 13)), (PUSH14, cont (opPush E 14)), (PUSH15, cont (opPush E 15)),
     (PUSH16, cont (opPush E 16)), (PUSH17, cont (opPush E 17)), (PUSH18, cont (opPush E 18)),
     (PUSH19, cont (opPush E 19)), (PUSH20, cont (opPush E 20)), (PUSH21, cont (opPush E 21))]"

definition sfvm_ops_rest :: "'w env \<Rightarrow> (OpCode \<times> 'w sf_op) list" where
  "sfvm_ops_rest E =
    [(PUSH22, cont (opPush E 22)), (PUSH23, cont (opPush E 23)), (PUSH24, cont (opPush E 24)),
     (PUSH25, cont (opPush E 25)), (PUSH26, cont (opPush E 26)), (PUSH27, cont (opPush E 27)),
     (PUSH28, cont (opPush E 28)), (PUSH29, cont (opPush E 29)), (PUSH30, cont (opPush E 30)),
     (SWAP4, cont (opSwap 4)), (SWAP5, cont (opSwap 5)), (SWAP6, cont (opSwap 6)),
     (SWAP7, cont (opSwap 7)), (SWAP8, cont (opSwap 8)), (SWAP9, cont (opSwap 9)),
     (SWAP10, cont (opSwap 10)), (SWAP11, cont (opSwap 11)), (SWAP12, cont (opSwap 12)),
     (SWAP13, cont (opSwap 13)), (SWAP14, cont (opSwap 14)), (SWAP15, cont (opSwap 15)),
     (SWAP16, cont (opSwap 16)), (DUP6, cont (opDup 6)), (DUP7, cont (opDup 7)),
     (DUP8, cont (opDup 8)), (DUP9, cont (opDup 9)), (DUP10, cont (opDup 10)),
     (DUP11, cont (opDup 11)), (DUP12, cont (opDup 12)), (DUP13, cont (opDup 13)),
     (DUP14, cont (opDup 14)), (DUP15, cont (opDup 15)), (DUP16, cont (opDup 16)),
     (RETURN, finish statusReturned opEndWithResult),
     (REVERT, finish statusReverted opEndWithResult), (SLOAD, cont (opSload E)),
     (SSTORE, cont (opSstore E)), (TLOAD, cont (opTload E)), (TSTORE, cont (opTstore E)),
     (CODESIZE, cont opCodeSize),
     (CODECOPY, cont (\<lambda>c. genericDataCopy (Code (params c)) c)),
     (EXTCODESIZE, cont (opExtcodesize E)), (EXTCODEHASH, cont (opExtcodehash E)),
     (EXTCODECOPY, cont (opExtCodeCopy E)), (BALANCE, cont (opBalance E)),
     (SELFBALANCE, cont (opSelfbalance E)), (BASEFEE, cont opBaseFee),
     (BLOBHASH, cont opBlobHash), (BLOBBASEFEE, cont opBlobBaseFee),
     (SELFDESTRUCT, opSelfdestruct E), (CHAINID, cont opChainId), (GAS, cont opGas),
     (PREVRANDAO, cont opPrevRandao), (TIMESTAMP, cont opTimestamp), (NUMBER, cont opNumber),
     (GASLIMIT, cont opGasLimit), (GASPRICE, cont opGasPrice), (CALL, cont (opCall E)),
     (CALLCODE, cont (opCallCode E)), (STATICCALL, cont (opStaticCall E)),
     (DELEGATECALL, cont (opDelegateCall E)), (RETURNDATASIZE, cont opReturnDataSize),
     (RETURNDATACOPY, cont opReturnDataCopy), (BLOCKHASH, cont (opBlockhash E)),
     (COINBASE, cont opCoinbase), (ORIGIN, cont opOrigin), (ADDRESS, cont opAddress),
     (STOP, ret opStop), (CREATE, cont (genericCreate E Create)),
     (CREATE2, cont (genericCreate E Create2)), (LOG0, cont (opLog E 0)),
     (LOG1, cont (opLog E 1)), (LOG2, cont (opLog E 2)), (LOG3, cont (opLog E 3)),
     (LOG4, cont (opLog E 4))]"

definition sfvm_ops :: "'w env \<Rightarrow> (OpCode \<times> 'w sf_op) list" where
  "sfvm_ops E = sfvm_ops_hot E @ sfvm_ops_rest E"

definition dispatch :: "'w env \<Rightarrow> OpCode \<Rightarrow> 'w sf_op" where
  "dispatch E op =
     (case map_of (sfvm_ops E) op of
        Some f \<Rightarrow> f
      | None \<Rightarrow> fail errInvalidOpCode)"

section \<open>The loop\<close>

text \<open>The body of the loop up to the increment of the program counter.\<close>

definition execInstr :: "'w env \<Rightarrow> 'w sf_op" where
  "execInstr E c =
     bind (code_at (pc c) c) (\<lambda>b c.
     let op = unat b in
     case checkStackLimits (length (stack c)) op of
       Some e \<Rightarrow> fail e c
     | None \<Rightarrow>
         bind (useGas (propertyMap_get (getStaticGasPrices (revision (BlockParams (params c)))) op) c)
           (\<lambda>_ c. dispatch E op c))"

partial_function (option) steps_loop ::
  "'w env \<Rightarrow> bool \<Rightarrow> status \<Rightarrow> 'w sfvm_context \<Rightarrow> ('w sfvm_context, status) res option" where
  "steps_loop E oneStepOnly st c =
     (if st \<noteq> statusRunning then Some (ret st c)
      else if int (length (code c)) \<le> pc c then Some (ret statusStopped c)
      else
        (case execInstr E c of
           (Inl e, c) \<Rightarrow> Some (fail e c)
         | (Inr st, c) \<Rightarrow>
             (let c = c\<lparr>pc := int32 (pc c + 1)\<rparr> in
              if oneStepOnly then Some (ret st c) else steps_loop E oneStepOnly st c)))"

declare steps_loop.simps [code]

definition steps ::
  "'w env \<Rightarrow> bool \<Rightarrow> 'w sfvm_context \<Rightarrow> ('w sfvm_context, status) res option" where
  "steps E oneStepOnly c = steps_loop E oneStepOnly statusRunning c"

text \<open>\<open>None\<close>: the loop does not end; \<open>Panic\<close>: a run-time panic.\<close>

definition execute :: "'w env \<Rightarrow> bool \<Rightarrow> 'w sfvm_context \<Rightarrow> (status \<times> 'w sfvm_context) go option" where
  "execute E oneStepOnly c =
     (case steps E oneStepOnly c of
        None \<Rightarrow> None
      | Some (Inl GoPanic, c) \<Rightarrow> Some Panic
      | Some (Inl e, c) \<Rightarrow> Some (Ret (statusFailed, c))
      | Some (Inr st, c) \<Rightarrow> Some (Ret (st, c)))"

section \<open>The entry point\<close>

record Config =
  WithShaCache :: bool

definition initial_context ::
  "Config \<Rightarrow> jumpDestMap \<Rightarrow> Parameters \<Rightarrow> 'w \<Rightarrow> 'w sfvm_context" where
  "initial_context config jd p w =
     \<lparr>params = p, world = w, pc = 0, gas = Gas p, refund = 0, stack = [],
      memory = NewMemory, returnData = [], withShaCache = WithShaCache config,
      code = Code p, analysis = jd\<rparr>"

text \<open>
  The result of \<open>Run\<close>: the Go result (\<open>None\<close> where the error is not nil) and the world
  state after the run.
\<close>

type_synonym 'w run_result = "(Result option \<times> 'w) go option"

definition run :: "'w env \<Rightarrow> jumpDestMap \<Rightarrow> Config \<Rightarrow> Parameters \<Rightarrow> 'w \<Rightarrow> 'w run_result" where
  "run E jd config p w =
     (if Code p = [] then
        Some (Ret (Some \<lparr>res_Success = True, res_Output = [], res_GasLeft = Gas p, res_GasRefund = 0\<rparr>, w))
      else
        (case execute E False (initial_context config jd p w) of
           None \<Rightarrow> None
         | Some Panic \<Rightarrow> Some Panic
         | Some (Ret (st, c)) \<Rightarrow> Some (Ret (generateResult st c, world c))))"

definition newestSupportedRevision :: Revision where
  "newestSupportedRevision = R15_Osaka"

text \<open>The analysis is the one of the code, cached or not.\<close>

definition Run ::
  "'w env \<Rightarrow> (Hash, jumpDestMap, 's) lru \<Rightarrow> Config \<Rightarrow> Parameters \<Rightarrow> 'w \<Rightarrow> 's analysis \<Rightarrow>
   'w run_result \<times> 's analysis" where
  "Run E L config p w a =
     (if newestSupportedRevision < revision (BlockParams p) then (Some (Ret (None, w)), a)
      else if Code p = [] then (run E (newJumpDestMap 0) config p w, a)
      else (let (jd, a) = analyzeJumpDest L (Code p) (CodeHash p) a in (run E jd config p w, a)))"

end
