(* ===== verification/Sfvm_Safety.thy ===== *)
theory Sfvm_Safety
  imports Sfvm
begin

text \<open>
  Safety and termination of the short-form interpreter: no instruction panics, the gas never
  grows and stays in its bounds, every step that keeps running consumes gas, so the loop
  ends.
\<close>

section \<open>Step relation of the interpreter\<close>

text \<open>
  The program counter is an \<open>int32\<close> that is advanced by at most 33; the bound on the code
  size keeps it from wrapping.
\<close>

definition maxCode :: nat where
  "maxCode = 2147483583"

definition sinv :: "'w sfvm_context \<Rightarrow> bool" where
  "sinv c \<longleftrightarrow> cinv c \<and> length (code c) \<le> maxCode \<and> 0 \<le> pc c \<and> pc c \<le> int (length (code c)) + 33"

definition frel :: "'w sfvm_context \<Rightarrow> 'w sfvm_context \<Rightarrow> bool" where
  "frel c c' \<longleftrightarrow>
     cinv c' \<and> gas c' \<le> gas c \<and> params c' = params c \<and> withShaCache c' = withShaCache c \<and>
     code c' = code c \<and> analysis c' = analysis c"

definition srel :: "'w sfvm_context \<Rightarrow> 'w sfvm_context \<Rightarrow> bool" where
  "srel c c' \<longleftrightarrow> frel c c' \<and> - 1 \<le> pc c' \<and> pc c' \<le> int (length (code c)) + 32"

definition handler_ok :: "(Revision \<Rightarrow> int) \<Rightarrow> nat \<Rightarrow> nat \<Rightarrow> 'w sf_op \<Rightarrow> bool" where
  "handler_ok k pops pushes f \<longleftrightarrow>
     (\<forall>c. sinv c \<and> pc c < int (length (code c)) \<and> pops \<le> length (stack c) \<and>
          length (stack c) + pushes \<le> maxStackSize + pops \<longrightarrow>
        wp (f c) (\<lambda>e c'. e \<noteq> GoPanic \<and> frel c c')
          (\<lambda>st c'. srel c c' \<and> length (stack c') + pops = length (stack c) + pushes \<and>
             (st = statusRunning \<longrightarrow> gas c' + k (revision (BlockParams (params c))) \<le> gas c)))"

lemma ctxt_more_sfvm:
  "ctxt.more c' = ctxt.more c \<longleftrightarrow> code c' = code c \<and> analysis c' = analysis (c :: 'w sfvm_context)"
  by (cases c, cases c') auto

lemma crel_srel:
  "crel c c' \<Longrightarrow> 0 \<le> pc c \<Longrightarrow> pc c \<le> int (length (code c)) + 32 \<Longrightarrow> srel c c'"
  by (auto simp: crel_def srel_def frel_def ctxt_more_sfvm)

lemma crel_frel: "crel c c' \<Longrightarrow> frel c c'"
  by (auto simp: crel_def frel_def ctxt_more_sfvm)

lemma handler_sound:
  assumes "sound k pops pushes g" and "\<And>c. f c = bind (g c) (\<lambda>a c. ret (st a) c)"
  shows "handler_ok k pops pushes f"
  unfolding handler_ok_def
proof (intro allI impI, elim conjE)
  fix c :: "'a sfvm_context"
  assume c: "sinv c" "pc c < int (length (code c))" "pops \<le> length (stack c)"
    "length (stack c) + pushes \<le> maxStackSize + pops"
  from soundD [OF assms(1) _ c(3,4)] c(1)
  have "wp (g c) (err_ok c) (\<lambda>_ c'. crel c c' \<and> gas c' + k (revision (BlockParams (params c))) \<le> gas c \<and>
      length (stack c') + pops = length (stack c) + pushes)"
    by (simp add: sinv_def)
  then show "wp (f c) (\<lambda>e c'. e \<noteq> GoPanic \<and> frel c c')
      (\<lambda>st c'. srel c c' \<and> length (stack c') + pops = length (stack c) + pushes \<and>
        (st = statusRunning \<longrightarrow> gas c' + k (revision (BlockParams (params c))) \<le> gas c))"
    unfolding assms(2) wp_bind wp_ret
    by (rule wp_conseq) (use c in \<open>auto simp: sinv_def intro: crel_srel crel_frel\<close>)
qed

text \<open>Jumps and pushes move the program counter.\<close>

lemma frel_stack_pc:
  assumes "c' = c\<lparr>stack := s, pc := p\<rparr>" and "cinv c" and "length s \<le> maxStackSize"
  shows "frel c c'"
  using assms by (auto simp: frel_def cinv_def)

lemma handlerI:
  assumes "\<And>c. sinv c \<Longrightarrow> pc c < int (length (code c)) \<Longrightarrow> pops \<le> length (stack c) \<Longrightarrow>
    length (stack c) + pushes \<le> maxStackSize + pops \<Longrightarrow> length (stack c) \<le> maxStackSize \<Longrightarrow>
    wp (f c) (\<lambda>e c'. e \<noteq> GoPanic \<and> c' = c\<lparr>stack := stack c', pc := pc c'\<rparr> \<and> length (stack c') \<le> maxStackSize)
      (\<lambda>_ c'. c' = c\<lparr>stack := stack c', pc := pc c'\<rparr> \<and> length (stack c') + pops = length (stack c) + pushes \<and>
        - 1 \<le> pc c' \<and> pc c' \<le> int (length (code c)) + 32)"
  shows "handler_ok free_op pops pushes (cont f)"
  unfolding handler_ok_def
proof (intro allI impI, elim conjE)
  fix c :: "'a sfvm_context"
  assume c: "sinv c" "pc c < int (length (code c))" "pops \<le> length (stack c)"
    "length (stack c) + pushes \<le> maxStackSize + pops"
  then have "length (stack c) \<le> maxStackSize" by (simp add: sinv_def cinv_def)
  from assms [OF c this]
  show "wp (cont f c) (\<lambda>e c'. e \<noteq> GoPanic \<and> frel c c')
      (\<lambda>st c'. srel c c' \<and> length (stack c') + pops = length (stack c) + pushes \<and>
        (st = statusRunning \<longrightarrow> gas c' + 0 \<le> gas c))"
    unfolding cont_def wp_bind wp_ret
    by (rule wp_conseq) (use c in \<open>auto simp: srel_def sinv_def dest!: frel_stack_pc simp: frel_def\<close>)
qed

lemma stack_pc_same [simp]:
  "(c :: 'w sfvm_context)\<lparr>stack := t, pc := pc c\<rparr> = c\<lparr>stack := t\<rparr>"
  "(c :: 'w sfvm_context)\<lparr>stack := stack c, pc := q\<rparr> = c\<lparr>pc := q\<rparr>"
  "(c :: 'w sfvm_context)\<lparr>pc := pc c\<rparr> = c"
  by (cases c; simp)+

section \<open>The instructions of the interpreter\<close>

lemma ok_opPc: "handler_ok free_op 0 1 (cont opPc)"
  by (rule handler_sound [OF sound_push]) (auto simp: cont_def opPc_def)

lemma ok_jumpdest: "handler_ok free_op 0 0 (cont (ret ()))"
  by (rule handlerI) (auto simp: wp_simps sinv_def)

lemma jump_dest_int32:
  assumes "\<not> 2147483647 < (x :: u64)"
  shows "int32 (uint x) = uint x" "int32 (uint x - 1) = uint x - 1" "uint x \<le> 2147483647"
proof -
  have "uint x \<le> 2147483647" using assms by (simp add: word_less_def)
  then show "uint x \<le> 2147483647" .
  with uint_ge_0 [of x] show "int32 (uint x) = uint x" "int32 (uint x - 1) = uint x - 1"
    by (intro int32_id; linarith)+
qed

lemma checkJumpDest_eq:
  assumes "\<not> 2147483647 < (x :: u64)" and "analysis c = findJumpDestinations (code c)"
    and "length (code c) < 18446744073709551616"
  shows "checkJumpDest (c\<lparr>pc := int32 (int32 (uint x) - 1)\<rparr>) =
    (if valid_dest (code c) (unat x) then ret () (c\<lparr>pc := uint x - 1\<rparr>)
     else fail errInvalidJump (c\<lparr>pc := uint x - 1\<rparr>))"
proof -
  have "valid_dest (code c) (unat x) \<Longrightarrow> uint x < int (length (code c))"
    by (simp add: valid_dest_def uint_nat del: of_nat_unat)
  then show ?thesis
    by (auto simp: checkJumpDest_def jump_dest_int32 [OF assms(1)] assms(2) Let_def
        isJumpDest_dests dests_findJumpDestinations [OF assms(3)])
qed

lemma wp_checkJumpDest:
  assumes "\<not> 2147483647 < (x :: u64)"
    and "E errInvalidJump (c\<lparr>pc := uint x - 1\<rparr>)"
    and "uint x < int (length (code c)) \<Longrightarrow> Q () (c\<lparr>pc := uint x - 1\<rparr>)"
  shows "wp (checkJumpDest (c\<lparr>pc := int32 (int32 (uint x) - 1)\<rparr>)) E Q"
  using assms(2,3) jump_dest_int32 [OF assms(1)]
  by (auto simp: checkJumpDest_def Let_def wp_simps)

lemma minus_1_less_uint [simp]: "- 1 < uint x"
  using uint_ge_0 [of x] by linarith

lemma ok_opJump: "handler_ok free_op 1 0 (cont opJump)"
  by (rule handlerI)
    (auto simp: opJump_def pure_simps intro!: wp_checkJumpDest)

lemma ok_opJumpi: "handler_ok free_op 2 0 (cont opJumpi)"
  by (rule handlerI)
    (auto simp: opJumpi_def pure_simps sinv_def intro!: wp_checkJumpDest)

lemma pc_int32:
  assumes "sinv c" and "0 \<le> n" and "n \<le> 32" and "pc c < int (length (code c))"
  shows "int32 (pc c + n) = pc c + n"
  using assms by (intro int32_id) (auto simp: sinv_def maxCode_def)

lemma ok_opPush: "n \<le> 32 \<Longrightarrow> handler_ok free_op 0 1 (cont (opPush E n))"
  by (rule handlerI)
    (auto simp: opPush_def pure_simps pc_int32, auto simp: sinv_def)

lemma ok_opPush1: "handler_ok free_op 0 1 (cont opPush1)"
  by (rule handlerI)
    (auto simp: opPush1_def code_at_def pure_simps pc_int32, auto simp: sinv_def)

lemma ok_opPush2: "handler_ok free_op 0 1 (cont opPush2)"
  by (rule handlerI)
    (auto simp: opPush2_def code_at_def pure_simps pc_int32, auto simp: sinv_def)

section \<open>The dispatch table\<close>

definition static_price :: "Revision \<Rightarrow> OpCode \<Rightarrow> Gas" where
  "static_price rv op = propertyMap_get (getStaticGasPrices rv) op"

lemma static_price_eq:
  "op < numOpCodes \<Longrightarrow> static_price rv op =
     (if R09_Berlin \<le> rv then getBerlinGasPriceInternal op else getStaticGasPriceInternal op)"
  by (simp add: static_price_def getStaticGasPrices_def)

text \<open>
  An entry is right if the handler is safe for the declared stack usage and the static and
  dynamic charges of a step that keeps running are positive together.
\<close>

definition entry_ok :: "OpCode \<times> 'w sf_op \<Rightarrow> bool" where
  "entry_ok e \<longleftrightarrow> (case e of (op, f) \<Rightarrow>
     op < numOpCodes \<and>
     (\<exists>k pops pushes. computeStackUsage op = makeUsage (int pops) (int pushes) \<and>
        handler_ok k pops pushes f \<and> (\<forall>rv. 1 \<le> static_price rv op + k rv)))"

lemma entry_okI:
  "handler_ok k pops pushes f \<Longrightarrow> op < numOpCodes \<Longrightarrow>
   computeStackUsage op = makeUsage (int pops) (int pushes) \<Longrightarrow>
   (\<And>rv. 1 \<le> static_price rv op + k rv) \<Longrightarrow> entry_ok (op, f)"
  by (auto simp: entry_ok_def)

lemma entry_cont:
  "sound k pops pushes f \<Longrightarrow> op < numOpCodes \<Longrightarrow>
   computeStackUsage op = makeUsage (int pops) (int pushes) \<Longrightarrow>
   (\<And>rv. 1 \<le> static_price rv op + k rv) \<Longrightarrow> entry_ok (op, cont f)"
  by (rule entry_okI [OF handler_sound]) (auto simp: cont_def)

text \<open>A handler that never keeps running needs no charge.\<close>

lemma handler_ok_terminal:
  assumes "handler_ok k pops pushes f" and "\<And>c st c'. f c = (Inr st, c') \<Longrightarrow> st \<noteq> statusRunning"
  shows "handler_ok (\<lambda>_. 1) pops pushes f"
  unfolding handler_ok_def
proof (intro allI impI)
  fix c :: "'a sfvm_context"
  assume "sinv c \<and> pc c < int (length (code c)) \<and> pops \<le> length (stack c) \<and>
    length (stack c) + pushes \<le> maxStackSize + pops"
  with assms(1) have "wp (f c) (\<lambda>e c'. e \<noteq> GoPanic \<and> frel c c')
      (\<lambda>st c'. srel c c' \<and> length (stack c') + pops = length (stack c) + pushes \<and>
        (st = statusRunning \<longrightarrow> gas c' + k (revision (BlockParams (params c))) \<le> gas c))"
    by (simp add: handler_ok_def)
  then show "wp (f c) (\<lambda>e c'. e \<noteq> GoPanic \<and> frel c c')
      (\<lambda>st c'. srel c c' \<and> length (stack c') + pops = length (stack c) + pushes \<and>
        (st = statusRunning \<longrightarrow> gas c' + 1 \<le> gas c))"
    using assms(2) [of c] by (auto simp: wp_def split: sum.splits prod.splits)
qed

lemma ok_end: "st \<noteq> statusRunning \<Longrightarrow> handler_ok (\<lambda>_. 1) 2 0 (finish st opEndWithResult)"
  by (rule handler_ok_terminal [OF handler_sound [OF sound_opEndWithResult]])
    (auto simp: finish_def bind_def ret_def split: sum.splits prod.splits)

lemma ok_stop: "handler_ok (\<lambda>_. 1) 0 0 (ret opStop)"
proof (rule handler_ok_terminal [OF handler_sound [where st = "\<lambda>_. opStop"]])
  show "sound free_op 0 0 (ret ())" by (rule sound_pure) (auto simp: wp_ret)
qed (auto simp: opStop_def ret_def bind_def)

lemma ok_selfdestruct: "handler_ok (\<lambda>_. 1) 1 0 (opSelfdestruct E)"
proof (rule handler_ok_terminal [OF handler_sound [OF sound_opSelfdestruct, where st = "\<lambda>s. s"]])
  show "opSelfdestruct E c = bind (opSelfdestruct E c) (\<lambda>a. ret a)" for c :: "'a sfvm_context"
    by (cases "opSelfdestruct E c") (auto simp: bind_def ret_def split: sum.splits)
  show "opSelfdestruct E c = (Inr st, c') \<Longrightarrow> st \<noteq> statusRunning" for c c' :: "'a sfvm_context" and st
    by (auto simp: opSelfdestruct_def bind_def ret_def fail_def useGas_def Let_def
        split: if_splits sum.splits prod.splits)
qed

context run_ctx
begin

lemmas sounds =
  sound_opPop sound_opPush0 sound_opDup sound_opSwap sound_opClz sound_opTload sound_opBlobHash
  sound_opBaseFee sound_opBlobBaseFee sound_opBlockhash sound_opNot sound_opIszero sound_opAnd
  sound_opOr sound_opXor sound_opEq sound_opLt sound_opGt sound_opSlt sound_opSgt sound_opShr
  sound_opShl sound_opSar sound_opSignExtend sound_opByte sound_opAdd sound_opSub sound_opMul
  sound_opDiv sound_opSDiv sound_opMod sound_opSMod sound_opMulMod sound_opAddMod sound_opMsize
  sound_opCaller sound_opCallvalue sound_opCallDatasize sound_opGas sound_opPrevRandao
  sound_opTimestamp sound_opNumber sound_opCoinbase sound_opGasLimit sound_opGasPrice
  sound_opSelfbalance sound_opChainId sound_opAddress sound_opOrigin sound_opCodeSize
  sound_opReturnDataSize sound_opMstore sound_opMstore8 sound_opMload sound_opMcopy
  sound_opReturnDataCopy sound_opExp sound_opSha3 sound_opCallDataload sound_opCallDataCopy
  sound_opCodeCopy sound_opBalance sound_opExtcodesize sound_opExtcodehash sound_opSload
  sound_opTstore sound_opSstore sound_opLog [simplified] sound_opExtCodeCopy sound_opCall sound_opCallCode
  sound_opStaticCall sound_opDelegateCall sound_opCreate sound_opCreate2

lemmas handlers = ok_opPc ok_jumpdest ok_opJump ok_opJumpi ok_opPush1 ok_opPush2 ok_opPush
  ok_end ok_stop ok_selfdestruct

lemmas entry_simps = static_price_eq getBerlinGasPriceInternal_def getStaticGasPriceInternal_def
  static_price_cases_def computeStackUsage_def berlin_access_def

lemma sfvm_ops_ok: "list_all entry_ok (sfvm_ops E)"
  unfolding sfvm_ops_def sfvm_ops_hot_def sfvm_ops_rest_def list_all_append list.pred_inject(2)
  apply (intro conjI list.pred_inject(1))
  apply ((rule entry_okI, rule handlers | rule entry_cont, rule sounds); simp add: entry_simps; fail)+
  done

lemma wp_dispatch:
  assumes "sinv c" and "pc c < int (length (code c))"
    and "checkStackLimits (length (stack c)) op = None" and "op < numOpCodes"
  shows "wp (dispatch E op c) (\<lambda>e c'. e \<noteq> GoPanic \<and> frel c c')
    (\<lambda>st c'. srel c c' \<and>
       (st = statusRunning \<longrightarrow> gas c' + 1 \<le> gas c + static_price (revision (BlockParams (params c))) op))"
proof (cases "map_of (sfvm_ops E) op")
  case None
  then show ?thesis using assms(1) by (simp add: dispatch_def wp_fail frel_def sinv_def)
next
  case (Some f)
  with map_of_SomeD [OF Some] sfvm_ops_ok have "entry_ok (op, f)" by (auto simp: list_all_iff)
  then obtain k pops pushes where u: "computeStackUsage op = makeUsage (int pops) (int pushes)"
    and h: "handler_ok k pops pushes f" and p: "\<And>rv. 1 \<le> static_price rv op + k rv"
    by (auto simp: entry_ok_def)
  have "pops \<le> length (stack c)" "length (stack c) + pushes \<le> maxStackSize + pops"
    using assms(1,3,4) unfolding checkStackLimits_def precomputedStackLimits_def
    by (auto simp: u check_limits_makeUsage sinv_def cinv_def)
  with h assms(1,2) have "wp (f c) (\<lambda>e c'. e \<noteq> GoPanic \<and> frel c c')
      (\<lambda>st c'. srel c c' \<and> length (stack c') + pops = length (stack c) + pushes \<and>
        (st = statusRunning \<longrightarrow> gas c' + k (revision (BlockParams (params c))) \<le> gas c))"
    by (simp add: handler_ok_def)
  then show ?thesis
    unfolding dispatch_def Some option.case
    by (rule wp_conseq) (use p [of "revision (BlockParams (params c))"] in auto)
qed

lemma sinv_step:
  assumes "sinv c" and "srel c c'"
  shows "sinv (c'\<lparr>pc := int32 (pc c' + 1)\<rparr>)"
proof -
  have "int32 (pc c' + 1) = pc c' + 1"
    using assms by (intro int32_id) (auto simp: sinv_def srel_def maxCode_def)
  with assms show ?thesis by (auto simp: sinv_def srel_def frel_def cinv_def)
qed

lemma wp_execInstr:
  assumes c: "sinv c" and pc: "pc c < int (length (code c))"
  shows "wp (execInstr E c) (\<lambda>e c'. e \<noteq> GoPanic \<and> frel c c')
    (\<lambda>st c'. srel c c' \<and> (st = statusRunning \<longrightarrow> gas c' < gas c))"
proof -
  define op where "op = unat (code c ! nat (pc c))"
  have op: "op < numOpCodes" by (simp add: op_def)
  have at: "code_at (pc c) c = ret (code c ! nat (pc c)) c"
    using assms by (simp add: code_at_def sinv_def)
  have refl: "frel c c" using c by (simp add: sinv_def frel_def)
  show ?thesis
  proof (cases "checkStackLimits (length (stack c)) op")
    case (Some e)
    then have "e \<noteq> GoPanic"
      by (auto simp: checkStackLimits_def check_limits_def split: if_splits)
    with Some refl show ?thesis by (simp add: execInstr_def at op_def [symmetric] wp_fail)
  next
    case None
    define p where "p = static_price (revision (BlockParams (params c))) op"
    have run: "execInstr E c = bind (useGas p c) (\<lambda>_ c. dispatch E op c)"
      using None by (simp add: execInstr_def at op_def [symmetric] p_def static_price_def)
    show ?thesis
    proof (cases "gas c < 0 \<or> p < 0 \<or> gas c < p")
      case True
      with refl show ?thesis by (simp add: run useGas_def wp_fail)
    next
      case False
      define d where "d = c\<lparr>gas := gas c - p\<rparr>"
      have d: "sinv d" "pc d < int (length (code d))" "stack d = stack c"
        using assms False by (auto simp: d_def sinv_def cinv_def)
      have "srel d c' \<Longrightarrow> srel c c'" "frel d c' \<Longrightarrow> frel c c'" for c'
        using False by (auto simp: srel_def frel_def d_def)
      with wp_dispatch [OF d(1,2) _ op] None d(3) False
      have "wp (dispatch E op d) (\<lambda>e c'. e \<noteq> GoPanic \<and> frel c c')
          (\<lambda>st c'. srel c c' \<and> (st = statusRunning \<longrightarrow> gas c' < gas c))"
        by (auto simp: d_def p_def elim!: wp_conseq)
      then show ?thesis using False by (simp add: run useGas_def d_def)
    qed
  qed
qed

lemma steps_loop_total:
  assumes "sinv c"
  shows "\<exists>r. steps_loop E one st c = Some r \<and>
    wp r (\<lambda>e c'. e \<noteq> GoPanic \<and> frel c c')
      (\<lambda>st' c'. frel c c' \<and> (\<not> one \<longrightarrow> st' \<noteq> statusRunning))"
  using assms
proof (induction "nat (gas c)" arbitrary: c st rule: less_induct)
  case less
  have refl: "frel c c" using less.prems by (simp add: sinv_def frel_def)
  show ?case
  proof (cases "st = statusRunning \<and> pc c < int (length (code c))")
    case False
    then show ?thesis using refl
      by (auto simp: steps_loop.simps [of E one st c] ret_def wp_def)
  next
    case True
    note step = wp_execInstr [OF less.prems conjunct2 [OF True]]
    obtain r c' where r: "execInstr E c = (r, c')" by fastforce
    show ?thesis
    proof (cases r)
      case (Inl e)
      with r True step show ?thesis
        by (simp add: steps_loop.simps [of E one statusRunning c] wp_def fail_def)
    next
      case (Inr st')
      with r step have s: "srel c c'" "st' = statusRunning \<Longrightarrow> gas c' < gas c"
        by (auto simp: wp_def)
      define d where "d = c'\<lparr>pc := int32 (pc c' + 1)\<rparr>"
      have run: "steps_loop E one st c =
          (if one then Some (ret st' d) else steps_loop E one st' d)"
        using True r Inr by (simp add: steps_loop.simps [of E one statusRunning c] d_def Let_def)
      have d: "frel c d" using s(1) by (auto simp: srel_def frel_def d_def cinv_def)
      have sd: "sinv d" unfolding d_def using less.prems s(1) by (rule sinv_step)
      show ?thesis
      proof (cases "one \<or> st' \<noteq> statusRunning")
        case True
        then show ?thesis using d run
          by (auto simp: ret_def wp_def steps_loop.simps [of E False st' d])
      next
        case False
        then have "nat (gas d) < nat (gas c)"
          using s sd less.prems by (auto simp: d_def sinv_def cinv_def)
        from less.hyps [OF this sd, of st'] obtain q where q: "steps_loop E one st' d = Some q"
          "wp q (\<lambda>e c'. e \<noteq> GoPanic \<and> frel d c') (\<lambda>st' c'. frel d c' \<and> (\<not> one \<longrightarrow> st' \<noteq> statusRunning))"
          by auto
        have "frel d x \<Longrightarrow> frel c x" for x using d by (auto simp: frel_def)
        then show ?thesis using q run False by (auto elim!: wp_conseq)
      qed
    qed
  qed
qed

lemma execute_total:
  assumes "sinv c"
  shows "\<exists>st c'. execute E one c = Some (Ret (st, c')) \<and> frel c c' \<and> (\<not> one \<longrightarrow> st \<noteq> statusRunning)"
proof -
  from steps_loop_total [OF assms, of one statusRunning] obtain r c' where
    r: "steps_loop E one statusRunning c = Some (r, c')"
    "wp (r, c') (\<lambda>e c'. e \<noteq> GoPanic \<and> frel c c') (\<lambda>st' c'. frel c c' \<and> (\<not> one \<longrightarrow> st' \<noteq> statusRunning))"
    by (metis surj_pair)
  then show ?thesis
    by (cases r) (auto simp: execute_def steps_def wp_def split: error.splits)
qed

end

section \<open>A run context without accounts\<close>

text \<open>
  A run context over an empty state, for the concrete runs below: every account is empty and
  nested calls return at once.
\<close>

definition empty_rc :: "unit RunContext" where
  "empty_rc =
     \<lparr>AccountExists = (\<lambda>_ _. False), CreateContract = (\<lambda>_ w. w), IsNewContract = (\<lambda>_ _. False),
      GetBalance = (\<lambda>_ _. 0), SetBalance = (\<lambda>_ _ w. w), GetNonce = (\<lambda>_ _. 0),
      SetNonce = (\<lambda>_ _ w. w), GetCode = (\<lambda>_ _. []), GetCodeHash = (\<lambda>_ _. 0),
      GetCodeSize = (\<lambda>_ _. 0), SetCode = (\<lambda>_ _ w. w), HasEmptyStorage = (\<lambda>_ _. True),
      GetStorage = (\<lambda>_ _ _. 0), SetStorage = (\<lambda>_ _ _ w. (StorageAssigned, w)),
      SelfDestruct = (\<lambda>_ _ w. (False, w)), CreateSnapshot = (\<lambda>w. (0, w)),
      RestoreSnapshot = (\<lambda>_ w. w), GetTransientStorage = (\<lambda>_ _ _. 0),
      SetTransientStorage = (\<lambda>_ _ _ w. w), AccessAccount = (\<lambda>_ w. (WarmAccess, w)),
      AccessStorage = (\<lambda>_ _ w. (WarmAccess, w)), EmitLog = (\<lambda>_ w. w), GetLogs = (\<lambda>_. []),
      GetBlockHash = (\<lambda>_ _. 0),
      CallOp = (\<lambda>_ p w. ((\<lparr>cr_Output = [], cr_GasLeft = cp_Gas p, cr_GasRefund = 0,
                           cr_CreatedAddress = 0, cr_Success = True\<rparr>, False), w))\<rparr>"

definition empty_env :: "unit env" where
  "empty_env = \<lparr>rc = empty_rc, u256lib = word_uint256, Keccak256 = (\<lambda>_. 0), sha3Cache_hash = (\<lambda>_. 0)\<rparr>"

definition demo_params :: "bytes \<Rightarrow> Parameters" where
  "demo_params cd =
     \<lparr>BlockParams = \<lparr>ChainID = 1, BlockNumber = 5, Timestamp = 0, Coinbase = 0, GasLimit = 0,
        PrevRandao = 0, BaseFee = 0, BlobBaseFee = 0, revision = R13_Cancun\<rparr>,
      TransactionParams = \<lparr>Origin = 0, GasPrice = 0, BlobHashes = []\<rparr>,
      Kind = Call, Static = False, Depth = 0, Gas = 1000, Recipient = 0, Sender = 0, Input = [],
      Value = 0, CodeHash = None, Code = cd\<rparr>"

definition demo_ctx :: "bytes \<Rightarrow> unit sfvm_context" where
  "demo_ctx cd = initial_context \<lparr>WithShaCache = False\<rparr> (findJumpDestinations cd) (demo_params cd) ()"

lemma demo_ctx_simps [simp]:
  "gas (demo_ctx cd) = 1000" "stack (demo_ctx cd) = []" "pc (demo_ctx cd) = 0"
  "code (demo_ctx cd) = cd" "analysis (demo_ctx cd) = findJumpDestinations cd"
  "params (demo_ctx cd) = demo_params cd" "memory (demo_ctx cd) = NewMemory" "world (demo_ctx cd) = ()"
  "withShaCache (demo_ctx cd) = False" "returnData (demo_ctx cd) = []"
  by (simp_all add: demo_ctx_def initial_context_def demo_params_def)

lemma sinv_demo_ctx: "length cd \<le> maxCode \<Longrightarrow> sinv (demo_ctx cd)"
  by (simp add: sinv_def cinv_def maxCode_def) (simp add: demo_params_def)

lemma run_ctx_empty_env: "run_ctx empty_env"
  by unfold_locales (auto simp: empty_env_def empty_rc_def)

lemma run_total:
  assumes "run_ctx E" and "0 \<le> Gas p" and "Gas p < 9223372036854775808"
    and "length (Code p) \<le> maxCode" and "length (Input p) < 9223372036854775808"
  shows "\<exists>r w'. run E jd config p w = Some (Ret (Some r, w')) \<and>
    0 \<le> res_GasLeft r \<and> res_GasLeft r \<le> Gas p"
proof (cases "Code p = []")
  case True
  then show ?thesis using assms(2) by (simp add: run_def)
next
  case False
  define c where "c = initial_context config jd p w"
  have "sinv c"
    using assms(2-5) by (simp add: c_def initial_context_def sinv_def cinv_def maxCode_def)
  from run_ctx.execute_total [OF assms(1) this, of False] obtain st c' where
    x: "execute E False c = Some (Ret (st, c'))" "frel c c'" "st \<noteq> statusRunning" by auto
  then have "0 \<le> gas c'" "gas c' \<le> Gas p"
    by (auto simp: frel_def cinv_def c_def initial_context_def)
  with x False assms(2) show ?thesis
    by (cases st) (auto simp: run_def c_def [symmetric] generateResult_def)
qed

section \<open>Properties\<close>

text \<open>
  C5: a run of the short-form interpreter always ends, without a panic and without an
  internal error; the gas it returns is between zero and the gas it was given, whatever the
  code and the results of nested calls are.
\<close>

theorem sfvm_run_total:
  assumes "run_ctx E" and "0 \<le> Gas p" and "Gas p < 9223372036854775808"
    and "length (Code p) \<le> maxCode" and "length (Input p) < 9223372036854775808"
  shows "\<exists>r w'. run E jd config p w = Some (Ret (Some r, w')) \<and>
    0 \<le> res_GasLeft r \<and> res_GasLeft r \<le> Gas p"
  using assms by (rule run_total)

theorem sfvm_run_total_witness:
  "\<exists>r w'. run empty_env (findJumpDestinations [0x5b, 0x60, 0x00, 0x56]) \<lparr>WithShaCache = True\<rparr>
      (demo_params [0x5b, 0x60, 0x00, 0x56]) () = Some (Ret (Some r, w')) \<and>
    0 \<le> res_GasLeft r \<and> res_GasLeft r \<le> 1000"
  using sfvm_run_total [OF run_ctx_empty_env, of "demo_params [0x5b, 0x60, 0x00, 0x56]"]
  by (simp add: demo_params_def maxCode_def)

text \<open>
  C15: progress: an iteration of the loop never panics, keeps the invariant of the context,
  and if the interpreter keeps running, the gas has strictly decreased.
\<close>

theorem sfvm_step_progress:
  assumes "run_ctx E" and "sinv c" and "pc c < int (length (code c))"
  shows "wp (execInstr E c) (\<lambda>e _. e \<noteq> GoPanic)
    (\<lambda>st c'. sinv (c'\<lparr>pc := int32 (pc c' + 1)\<rparr>) \<and> gas c' \<le> gas c \<and>
       (st = statusRunning \<longrightarrow> gas c' < gas c))"
  using run_ctx.wp_execInstr [OF assms]
  by (rule wp_conseq) (auto simp: srel_def frel_def intro: run_ctx.sinv_step [OF assms(1,2)])

theorem sfvm_step_progress_witness:
  "wp (execInstr empty_env (demo_ctx [0x5b])) (\<lambda>e _. e \<noteq> GoPanic)
    (\<lambda>st c'. sinv (c'\<lparr>pc := int32 (pc c' + 1)\<rparr>) \<and> gas c' \<le> 1000 \<and>
       (st = statusRunning \<longrightarrow> gas c' < 1000))"
  using sfvm_step_progress [OF run_ctx_empty_env sinv_demo_ctx, of "[0x5b]"] by (simp add: maxCode_def)

text \<open>
  C16: the table of stack usages is right for every op-code: if the check against it passes,
  the instruction makes no access outside the stack and changes its height by exactly the
  declared difference.
\<close>

theorem sfvm_stack_usage:
  assumes "run_ctx E" and "sinv c" and "pc c < int (length (code c))" and "op < numOpCodes"
    and "checkStackLimits (length (stack c)) op = None"
  shows "wp (dispatch E op c) (\<lambda>e _. e \<noteq> GoPanic)
    (\<lambda>_ c'. int (length (stack c')) = int (length (stack c)) + su_delta (computeStackUsage op))"
proof (cases "map_of (sfvm_ops E) op")
  case None
  then show ?thesis by (simp add: dispatch_def wp_fail)
next
  case (Some f)
  with map_of_SomeD [OF Some] run_ctx.sfvm_ops_ok [OF assms(1)] have "entry_ok (op, f)"
    by (auto simp: list_all_iff)
  then obtain k pops pushes where u: "computeStackUsage op = makeUsage (int pops) (int pushes)"
    and h: "handler_ok k pops pushes f"
    by (auto simp: entry_ok_def)
  have "pops \<le> length (stack c)" "length (stack c) + pushes \<le> maxStackSize + pops"
    using assms(2,4,5) unfolding checkStackLimits_def precomputedStackLimits_def
    by (auto simp: u check_limits_makeUsage sinv_def cinv_def)
  with h assms(2,3) have "wp (f c) (\<lambda>e c'. e \<noteq> GoPanic \<and> frel c c')
      (\<lambda>st c'. srel c c' \<and> length (stack c') + pops = length (stack c) + pushes \<and>
        (st = statusRunning \<longrightarrow> gas c' + k (revision (BlockParams (params c))) \<le> gas c))"
    by (simp add: handler_ok_def)
  then show ?thesis
    unfolding dispatch_def Some option.case u
    by (rule wp_conseq) auto
qed

theorem sfvm_stack_usage_witness:
  "wp (dispatch empty_env ADDRESS (demo_ctx [0x30])) (\<lambda>e _. e \<noteq> GoPanic)
     (\<lambda>_ c'. int (length (stack c')) = 1)"
  using sfvm_stack_usage [OF run_ctx_empty_env sinv_demo_ctx, of "[0x30]" ADDRESS]
  by (simp add: maxCode_def computeStackUsage_def checkStackLimits_def precomputedStackLimits_def
      check_limits_makeUsage)

text \<open>The switch of the interpreter handles exactly the valid op-codes of the op-code table.\<close>

lemma sfvm_dispatch_valid: "map_of (sfvm_ops E) op \<noteq> None \<longleftrightarrow> IsValid op"
proof -
  have "map_of (sfvm_ops E) op \<noteq> None \<longleftrightarrow> op \<in> set (map fst (sfvm_ops E))"
    by (simp add: map_of_eq_None_iff)
  also have "set (map fst (sfvm_ops E)) = set initValidOpCodes"
    unfolding sfvm_ops_def sfvm_ops_hot_def sfvm_ops_rest_def initValidOpCodes_def list.map fst_conv
      map_append set_append list.set by blast
  finally show ?thesis by (simp add: IsValid_def)
qed

end
