(* ===== verification/Sfvm_Functional.thy ===== *)
theory Sfvm_Functional
  imports Sfvm_Safety
begin

text \<open>
  Functional properties of the instructions of the short-form interpreter: jumps reach
  exactly the valid destinations, and the pushes read the immediate data, padded with zeroes
  at the end of the code.
\<close>

section \<open>Jumps\<close>

text \<open>
  C23: a jump succeeds if and only if its operand is a \<open>JUMPDEST\<close> on an instruction
  boundary of the code; it then leaves the program counter just before the destination.
\<close>

theorem opJump_correct:
  assumes "stack c = d # zs" and "analysis c = findJumpDestinations (code c)"
    and "length (code c) \<le> maxCode"
  shows "if valid_dest (code c) (unat d)
    then opJump c = ret () (c\<lparr>stack := zs, pc := int (unat d) - 1\<rparr>)
    else \<exists>c'. opJump c = fail errInvalidJump c'"
proof (cases "IsUint64 d \<and> \<not> 2147483647 < Uint64 d")
  case True
  then have u: "unat (Uint64 d) = unat d" "uint (Uint64 d) = int (unat d)"
    by (simp_all add: unat_Uint64 uint_nat del: of_nat_unat)
  have "opJump c = checkJumpDest (c\<lparr>stack := zs, pc := int32 (int32 (uint (Uint64 d)) - 1)\<rparr>)"
    using assms(1) True by (simp add: opJump_def)
  also have "\<dots> = (if valid_dest (code c) (unat d) then ret () (c\<lparr>stack := zs, pc := int (unat d) - 1\<rparr>)
      else fail errInvalidJump (c\<lparr>stack := zs, pc := int (unat d) - 1\<rparr>))"
    using checkJumpDest_eq [of "Uint64 d" "c\<lparr>stack := zs\<rparr>"] True assms(2,3) u
    by (simp add: maxCode_def del: of_nat_unat)
  finally show ?thesis by auto
next
  case False
  then have "\<not> valid_dest (code c) (unat d)"
    using assms(3)
    by (auto simp: valid_dest_def maxCode_def IsUint64_def word_less_nat_alt unat_Uint64)
  then show ?thesis using False assms(1) by (auto simp: opJump_def)
qed

theorem opJump_correct_witness:
  "opJump ((demo_ctx [0x60, 0x5b, 0x5b])\<lparr>stack := [2]\<rparr>) = ret () ((demo_ctx [0x60, 0x5b, 0x5b])\<lparr>stack := [], pc := 1\<rparr>)"
proof -
  have w: "0 + Width (unat ([0x60, 0x5b, 0x5b :: byte] ! 0)) = 2" by (simp add: Width_def)
  have "instr_start [0x60, 0x5b, 0x5b] 2"
    using instr_start.next_instr [OF instr_start.start, of "[0x60, 0x5b, 0x5b]"] unfolding w by simp
  then have "valid_dest [0x60, 0x5b, 0x5b] 2" by (simp add: valid_dest_def)
  then show ?thesis
    using opJump_correct [of "(demo_ctx [0x60, 0x5b, 0x5b])\<lparr>stack := [2]\<rparr>" 2 "[]"]
    by (simp add: maxCode_def)
qed

section \<open>Pushes\<close>

definition push_data :: "bytes \<Rightarrow> nat \<Rightarrow> nat \<Rightarrow> bytes" where
  "push_data cd i n = take n (drop i cd @ replicate n 0)"

lemma length_push_data [simp]: "length (push_data cd i n) = n"
  by (simp add: push_data_def)

lemma of_be_bytes_pad: "push_bit (8 * m) (of_be_bytes bs :: u256) = of_be_bytes (bs @ replicate m 0)"
proof -
  have "(256 :: u256) ^ m = 2 ^ (8 * m)" by (simp add: power_mult)
  then show ?thesis by (simp add: of_be_bytes_def nat_of_be_append push_bit_eq_mult)
qed

lemma push_data_split:
  assumes "p \<le> length cd" and "k = min (length cd) (p + n) - p"
  shows "push_data cd p n = take k (drop p cd) @ replicate (n - k) 0"
  using assms by (auto simp: push_data_def min_def)

lemma opPush_eq:
  assumes "uint256_arith (u256lib E)" and "sinv c" and "pc c < int (length (code c))" and "n \<le> 32"
  shows "opPush E n c =
    bind (push (of_be_bytes (push_data (code c) (nat (pc c + 1)) n)) c)
      (\<lambda>_ c. ret () (c\<lparr>pc := int32 (pc c + int n)\<rparr>))"
proof -
  define p where "p = nat (pc c + 1)"
  define k where "k = min (length (code c)) (p + n) - p"
  have pc: "int32 (pc c + 1) = int p" "p \<le> length (code c)"
    using assms(2,3) pc_int32 [OF assms(2), of 1] by (auto simp: p_def sinv_def)
  then have k: "min (int (length (code c))) (int p) = int p"
    "min (int (length (code c))) (int p + int n) - int p = int k" "k \<le> n"
    by (auto simp: k_def min_def)
  have v: "(if 0 < int n - int k then u_Lsh (u256lib E) (of_be_bytes bs) (nat (8 * (int n - int k)))
      else of_be_bytes bs) = of_be_bytes (bs @ replicate (n - k) 0)" for bs
  proof -
    have "nat (8 * (int n - int k)) = 8 * (n - k)" using k(3) by auto
    then show ?thesis using k(3) by (auto simp: uint256_arith.Lsh [OF assms(1)] of_be_bytes_pad)
  qed
  have "\<not> (int p < 0 \<or> min (int (length (code c))) (int p + int n) < int p)"
    using k(2) by linarith
  then show ?thesis
    unfolding opPush_def Let_def pc(1) k(1) k(2) v
    by (simp add: push_data_split [OF pc(2) k_def] p_def [symmetric])
qed

lemma push_data_small:
  "push_data cd i (Suc 0) = [if i < length cd then cd ! i else 0]"
  "push_data cd i 2 = [if i < length cd then cd ! i else 0, if i + 1 < length cd then cd ! (i + 1) else 0]"
proof -
  have d: "drop j cd = (if j < length cd then cd ! j # drop (Suc j) cd else [])" for j
    by (simp add: Cons_nth_drop_Suc)
  show "push_data cd i (Suc 0) = [if i < length cd then cd ! i else 0]"
    by (subst push_data_def, subst d) simp
  show "push_data cd i 2 = [if i < length cd then cd ! i else 0, if i + 1 < length cd then cd ! (i + 1) else 0]"
    by (subst push_data_def, subst d, subst d) (simp add: numeral_2_eq_2)
qed

lemma unat_ucast_byte: "unat (ucast (b :: byte) :: u64) = unat b"
  unfolding unsigned_ucast_eq
  by (rule take_bit_nat_eq_self) (rule less_trans [OF unat_byte_bound], simp)

lemma SetUint64_be1: "SetUint64 (ucast (b :: byte)) = of_be_bytes [b]"
  by (simp add: word_unat_eq_iff unat_of_be_bytes unat_ucast_byte nat_of_be_def)

lemma SetUint64_be2:
  "SetUint64 (or (push_bit 8 (ucast (a :: byte))) (ucast (b :: byte))) = of_be_bytes [a, b]"
proof -
  have "or (push_bit 8 (ucast a)) (ucast b :: u64) = push_bit 8 (ucast a) + ucast b"
    by (rule disjunctive_add [symmetric]) (auto simp: bit_simps dest: bit_imp_le_length)
  moreover have "unat (push_bit 8 (ucast a) + ucast b :: u64) = unat a * 256 + unat b"
  proof -
    have "unat a * 256 < 18446744073709551616" "unat a * 256 + unat b < 18446744073709551616"
      using unat_byte_bound [of a] unat_byte_bound [of b] by linarith+
    then show ?thesis by (simp add: push_bit_eq_mult unat_word_ariths unat_ucast_byte)
  qed
  ultimately show ?thesis
    by (simp add: word_unat_eq_iff unat_of_be_bytes nat_of_be_def)
qed

lemma SetUint64_zero: "SetUint64 0 = of_be_bytes [0]" "SetUint64 0 = of_be_bytes [0, 0]"
  using SetUint64_be1 [of 0] SetUint64_be2 [of 0 0] by simp_all

lemma SetUint64_be2_end: "SetUint64 (push_bit 8 (ucast (a :: byte))) = of_be_bytes [a, 0]"
  using SetUint64_be2 [of a 0] by simp

lemma opPush12_eq:
  assumes "uint256_arith (u256lib E)" and "sinv c" and "pc c < int (length (code c))"
  shows "opPush1 c = opPush E 1 c" "opPush2 c = opPush E 2 c"
proof -
  have i: "int32 (pc c + 1) = pc c + 1" "int32 (pc c + 2) = pc c + 2" "0 \<le> pc c"
    "0 \<le> pc c \<Longrightarrow> nat (pc c + 2) = Suc (nat (pc c + 1))"
    using assms(2,3) pc_int32 [OF assms(2)] by (auto simp: sinv_def)
  show "opPush1 c = opPush E 1 c"
    using assms i by (auto simp: opPush_eq push_data_small opPush1_def code_at_def SetUint64_be1 SetUint64_zero(1))
  show "opPush2 c = opPush E 2 c"
    using assms i
    by (auto simp: opPush_eq push_data_small opPush2_def code_at_def SetUint64_be2 SetUint64_be2_end
        SetUint64_zero(2))
qed

text \<open>
  C28: every push instruction, the specialised ones for one and two bytes included, pushes
  the big-endian number of the bytes after it, with zeroes for the bytes beyond the end of
  the code, and moves the program counter over them.
\<close>

theorem opPush_correct:
  assumes "uint256_arith (u256lib E)" and "sinv c" and "pc c < int (length (code c))"
    and "length (stack c) < maxStackSize" and "n \<le> 32"
  shows "opPush E n c = ret () (c\<lparr>stack := of_be_bytes (push_data (code c) (nat (pc c + 1)) n) # stack c,
      pc := pc c + int n\<rparr>) \<and>
    opPush1 c = opPush E 1 c \<and> opPush2 c = opPush E 2 c"
proof (intro conjI)
  show "opPush E n c = ret () (c\<lparr>stack := of_be_bytes (push_data (code c) (nat (pc c + 1)) n) # stack c,
      pc := pc c + int n\<rparr>)"
    using assms pc_int32 [OF assms(2) _ _ assms(3), of "int n"] by (simp add: opPush_eq)
qed (use opPush12_eq [OF assms(1-3)] in auto)

theorem opPush_correct_witness:
  "opPush empty_env 2 (demo_ctx [0x61, 0x01]) = ret () ((demo_ctx [0x61, 0x01])\<lparr>stack := [256], pc := 2\<rparr>)"
proof -
  have "of_be_bytes (push_data [0x61, 0x01] 1 2) = (256 :: u256)"
    by (simp add: push_data_def of_be_bytes_def nat_of_be_def)
  then show ?thesis
    using opPush_correct [of empty_env "demo_ctx [0x61, 0x01]" 2] sinv_demo_ctx [of "[0x61, 0x01]"]
      word_uint256.uint256_arith_axioms
    by (simp add: maxCode_def empty_env_def)
qed

end
