(* ===== verification/Lfvm_Code.thy ===== *)
theory Lfvm_Code
  imports Evm_Gas Jump_Analysis
begin

text \<open>
  The code of the long-form interpreter: its extended op-codes (\<open>lfvm/opcode.go\<close>), its
  instructions (\<open>lfvm/instruction.go\<close>), the prices and stack usages of the extended
  op-codes (\<open>lfvm/gas.go\<close>, \<open>lfvm/stack_usage.go\<close>) and the converter from EVM byte code
  (\<open>lfvm/converter.go\<close>).
\<close>

section \<open>Extended op-codes\<close>

abbreviation (input) JUMP_TO :: OpCode where "JUMP_TO \<equiv> 0x100"
abbreviation (input) NOOP :: OpCode where "NOOP \<equiv> 0x101"
abbreviation (input) DATA :: OpCode where "DATA \<equiv> 0x102"
abbreviation (input) SWAP2_SWAP1_POP_JUMP :: OpCode where "SWAP2_SWAP1_POP_JUMP \<equiv> 0x103"
abbreviation (input) SWAP1_POP_SWAP2_SWAP1 :: OpCode where "SWAP1_POP_SWAP2_SWAP1 \<equiv> 0x104"
abbreviation (input) POP_SWAP2_SWAP1_POP :: OpCode where "POP_SWAP2_SWAP1_POP \<equiv> 0x105"
abbreviation (input) POP_POP :: OpCode where "POP_POP \<equiv> 0x106"
abbreviation (input) PUSH1_SHL :: OpCode where "PUSH1_SHL \<equiv> 0x107"
abbreviation (input) PUSH1_ADD :: OpCode where "PUSH1_ADD \<equiv> 0x108"
abbreviation (input) PUSH1_DUP1 :: OpCode where "PUSH1_DUP1 \<equiv> 0x109"
abbreviation (input) PUSH2_JUMP :: OpCode where "PUSH2_JUMP \<equiv> 0x10a"
abbreviation (input) PUSH2_JUMPI :: OpCode where "PUSH2_JUMPI \<equiv> 0x10b"
abbreviation (input) PUSH1_PUSH1 :: OpCode where "PUSH1_PUSH1 \<equiv> 0x10c"
abbreviation (input) SWAP1_POP :: OpCode where "SWAP1_POP \<equiv> 0x10d"
abbreviation (input) POP_JUMP :: OpCode where "POP_JUMP \<equiv> 0x10e"
abbreviation (input) SWAP2_SWAP1 :: OpCode where "SWAP2_SWAP1 \<equiv> 0x10f"
abbreviation (input) SWAP2_POP :: OpCode where "SWAP2_POP \<equiv> 0x110"
abbreviation (input) DUP2_MSTORE :: OpCode where "DUP2_MSTORE \<equiv> 0x111"
abbreviation (input) DUP2_LT :: OpCode where "DUP2_LT \<equiv> 0x112"
abbreviation (input) ISZERO_PUSH2_JUMPI :: OpCode where "ISZERO_PUSH2_JUMPI \<equiv> 0x113"
abbreviation (input) PUSH1_PUSH4_DUP3 :: OpCode where "PUSH1_PUSH4_DUP3 \<equiv> 0x114"
abbreviation (input) AND_SWAP1_POP_SWAP2_SWAP1 :: OpCode where
  "AND_SWAP1_POP_SWAP2_SWAP1 \<equiv> 0x115"
abbreviation (input) PUSH1_PUSH1_PUSH1_SHL_SUB :: OpCode where
  "PUSH1_PUSH1_PUSH1_SHL_SUB \<equiv> 0x116"

abbreviation (input) lf_numOpCodes :: nat where "lf_numOpCodes \<equiv> 512"

definition decompose :: "OpCode \<Rightarrow> OpCode list" where
  "decompose op =
     (if op = SWAP2_SWAP1_POP_JUMP then [SWAP2, SWAP1, POP, JUMP]
      else if op = SWAP1_POP_SWAP2_SWAP1 then [SWAP1, POP, SWAP2, SWAP1]
      else if op = POP_SWAP2_SWAP1_POP then [POP, SWAP2, SWAP1, POP]
      else if op = POP_POP then [POP, POP]
      else if op = PUSH1_SHL then [PUSH1, SHL]
      else if op = PUSH1_ADD then [PUSH1, ADD]
      else if op = PUSH1_DUP1 then [PUSH1, DUP1]
      else if op = PUSH2_JUMP then [PUSH2, JUMP]
      else if op = PUSH2_JUMPI then [PUSH2, JUMPI]
      else if op = PUSH1_PUSH1 then [PUSH1, PUSH1]
      else if op = SWAP1_POP then [SWAP1, POP]
      else if op = POP_JUMP then [POP, JUMP]
      else if op = SWAP2_SWAP1 then [SWAP2, SWAP1]
      else if op = SWAP2_POP then [SWAP2, POP]
      else if op = DUP2_MSTORE then [DUP2, MSTORE]
      else if op = DUP2_LT then [DUP2, LT]
      else if op = ISZERO_PUSH2_JUMPI then [ISZERO, PUSH2, JUMPI]
      else if op = PUSH1_PUSH4_DUP3 then [PUSH1, PUSH4, DUP3]
      else if op = AND_SWAP1_POP_SWAP2_SWAP1 then [AND, SWAP1, POP, SWAP2, SWAP1]
      else if op = PUSH1_PUSH1_PUSH1_SHL_SUB then [PUSH1, PUSH1, PUSH1, SHL, SUB]
      else [])"

definition isSuperInstruction :: "OpCode \<Rightarrow> bool" where
  "isSuperInstruction op \<longleftrightarrow> decompose op \<noteq> []"

definition isBaseInstruction :: "OpCode \<Rightarrow> bool" where
  "isBaseInstruction op \<longleftrightarrow> op < 0x100"

text \<open>The sub-instructions of a super instruction are base instructions.\<close>

definition HasArgument :: "OpCode \<Rightarrow> bool" where
  "HasArgument op \<longleftrightarrow>
     (PUSH1 \<le> op \<and> op \<le> PUSH32) \<or> op = DATA \<or> op = JUMP_TO \<or>
     (isSuperInstruction op \<and> (\<exists>subOp \<in> set (decompose op). PUSH1 \<le> subOp \<and> subOp \<le> PUSH32))"

section \<open>Prices and stack usage\<close>

text \<open>
  On base op-codes the functions are those of theory \<open>Evm_Gas\<close> (the two source files have
  the same cases); \<open>JUMP_TO\<close> is free and a super instruction costs the sum of its parts.
\<close>

definition lf_getStaticGasPriceInternal :: "OpCode \<Rightarrow> Gas" where
  "lf_getStaticGasPriceInternal op =
     (if op = JUMP_TO then 0
      else if isSuperInstruction op then sum_list (map getStaticGasPriceInternal (decompose op))
      else getStaticGasPriceInternal op)"

definition lf_getBerlinGasPriceInternal :: "OpCode \<Rightarrow> Gas" where
  "lf_getBerlinGasPriceInternal op =
     (if op \<in> {SLOAD, EXTCODECOPY, EXTCODESIZE, EXTCODEHASH, BALANCE, CALL, CALLCODE,
             STATICCALL, DELEGATECALL} then 0
      else lf_getStaticGasPriceInternal op)"

definition lf_newOpCodePropertyMap :: "(OpCode \<Rightarrow> 'a) \<Rightarrow> 'a list" where
  "lf_newOpCodePropertyMap property = map property [0..<lf_numOpCodes]"

text \<open>\<open>op & opCodeMask\<close> with the mask \<open>0x1ff\<close>.\<close>

definition lf_propertyMap_get :: "'a list \<Rightarrow> OpCode \<Rightarrow> 'a" where
  "lf_propertyMap_get lookup op = lookup ! (op mod lf_numOpCodes)"

definition lf_getStaticGasPrices :: "Revision \<Rightarrow> Gas list" where
  "lf_getStaticGasPrices rv =
     (if R09_Berlin \<le> rv then lf_newOpCodePropertyMap lf_getBerlinGasPriceInternal
      else lf_newOpCodePropertyMap lf_getStaticGasPriceInternal)"

definition combine_step :: "stackUsage \<Rightarrow> stackUsage \<Rightarrow> stackUsage" where
  "combine_step res usage =
     (let from = su_from usage + su_delta res; to = su_to usage + su_delta res in
      \<lparr>su_from = (if from < su_from res then from else su_from res),
       su_to = (if su_to res < to then to else su_to res),
       su_delta = su_delta res + su_delta usage\<rparr>)"

definition combineStackUsage :: "stackUsage list \<Rightarrow> stackUsage" where
  "combineStackUsage usages = foldl combine_step \<lparr>su_from = 0, su_to = 0, su_delta = 0\<rparr> usages"

definition lf_computeStackUsage :: "OpCode \<Rightarrow> stackUsage" where
  "lf_computeStackUsage op =
     (if op = JUMP_TO then makeUsage 0 0
      else if isSuperInstruction op then combineStackUsage (map computeStackUsage (decompose op))
      else computeStackUsage op)"

definition lf_precomputedStackLimits :: "stackLimits list" where
  "lf_precomputedStackLimits =
     lf_newOpCodePropertyMap (\<lambda>op. usage_limits (lf_computeStackUsage op))"

definition lf_checkStackLimits :: "nat \<Rightarrow> OpCode \<Rightarrow> error option" where
  "lf_checkStackLimits stackLen op =
     check_limits stackLen (lf_propertyMap_get lf_precomputedStackLimits op)"

section \<open>Instructions and the code builder\<close>

record Instruction =
  opcode :: OpCode
  arg :: u16

definition zero_instr :: Instruction where
  "zero_instr = \<lparr>opcode = 0, arg = 0\<rparr>"

text \<open>\<open>uint16(a)<<8 | uint16(b)\<close>.\<close>

definition pack16 :: "byte \<Rightarrow> byte \<Rightarrow> u16" where
  "pack16 a b = or (push_bit 8 (ucast a)) (ucast b)"

record codeBuilder =
  cb_code :: "Instruction list"
  nextPos :: nat

definition newCodeBuilder :: "nat \<Rightarrow> codeBuilder" where
  "newCodeBuilder codelength = \<lparr>cb_code = replicate codelength zero_instr, nextPos = 0\<rparr>"

definition appendOp :: "OpCode \<Rightarrow> u16 \<Rightarrow> codeBuilder \<Rightarrow> codeBuilder go" where
  "appendOp op a b =
     (if nextPos b < length (cb_code b) then
        Ret \<lparr>cb_code = (cb_code b)[nextPos b := \<lparr>opcode = op, arg = a\<rparr>], nextPos = nextPos b + 1\<rparr>
      else Panic)"

definition appendCode :: "OpCode \<Rightarrow> codeBuilder \<Rightarrow> codeBuilder go" where
  "appendCode op b =
     (if nextPos b < length (cb_code b) then
        Ret \<lparr>cb_code = (cb_code b)[nextPos b := (cb_code b ! nextPos b)\<lparr>opcode := op\<rparr>],
             nextPos = nextPos b + 1\<rparr>
      else Panic)"

definition appendData :: "u16 \<Rightarrow> codeBuilder \<Rightarrow> codeBuilder go" where
  "appendData d b = appendOp DATA d b"

text \<open>The loop writes \<open>NOOP\<close> to the positions from \<open>nextPos\<close> to \<open>pos - 1\<close>.\<close>

fun pad_loop :: "nat \<Rightarrow> nat \<Rightarrow> Instruction list \<Rightarrow> Instruction list go" where
  "pad_loop 0 i cd = Ret cd"
| "pad_loop (Suc n) i cd =
     (if i < length cd then pad_loop n (i + 1) (cd[i := (cd ! i)\<lparr>opcode := NOOP\<rparr>]) else Panic)"

definition padNoOpsUntil :: "nat \<Rightarrow> codeBuilder \<Rightarrow> codeBuilder go" where
  "padNoOpsUntil pos b =
     (case pad_loop (pos - nextPos b) (nextPos b) (cb_code b) of
        Panic \<Rightarrow> Panic
      | Ret cd \<Rightarrow> Ret \<lparr>cb_code = cd, nextPos = pos\<rparr>)"

definition toCode :: "codeBuilder \<Rightarrow> Instruction list" where
  "toCode b = take (nextPos b) (cb_code b)"

text \<open>\<open>common.RightPadSlice\<close>: the target slice of the given size, zero beyond the source.\<close>

definition RightPadSlice :: "'a \<Rightarrow> 'a list \<Rightarrow> nat \<Rightarrow> 'a list" where
  "RightPadSlice z source sz = take sz source @ replicate (sz - length source) z"

section \<open>Conversion\<close>

text \<open>The data instructions of a push: pairs of bytes from index \<open>i\<close> on.\<close>

function appendPairs :: "nat \<Rightarrow> nat \<Rightarrow> bytes \<Rightarrow> codeBuilder \<Rightarrow> codeBuilder go" where
  "appendPairs i numBytes data b =
     (if i < numBytes - 1 then
        go_bind (appendData (pack16 (data ! i) (data ! (i + 1))) b)
          (\<lambda>b. appendPairs (i + 2) numBytes data b)
      else Ret b)"
  by pat_completeness auto

termination by (relation "measure (\<lambda>(i, n, _). n - i)") auto

declare appendPairs.simps [simp del]

definition appendPushData :: "nat \<Rightarrow> bytes \<Rightarrow> codeBuilder \<Rightarrow> codeBuilder go" where
  "appendPushData numBytes data b =
     go_bind (if numBytes = 1 then appendOp PUSH1 (push_bit 8 (ucast (data ! 0))) b
              else appendOp (PUSH1 + (numBytes - 1)) (pack16 (data ! 0) (data ! 1)) b) (\<lambda>b.
     go_bind (appendPairs 2 numBytes data b) (\<lambda>b.
     if 1 < numBytes \<and> numBytes mod 2 = 1
     then appendData (push_bit 8 (ucast (data ! (numBytes - 1)))) b
     else Ret b))"

definition appendPush :: "nat \<Rightarrow> nat \<Rightarrow> bytes \<Rightarrow> codeBuilder \<Rightarrow> codeBuilder go" where
  "appendPush pos numBytes cd b =
     (if length cd < pos + numBytes + 2 then
        (let d = pos + numBytes + 2 - length cd;
             extension = (if 0 < d mod 2 then d div 2 + 1 else d div 2);
             b = (if 0 < extension
                  then b\<lparr>cb_code := RightPadSlice zero_instr (cb_code b) (length (cb_code b) + extension)\<rparr>
                  else b) in
         appendPushData numBytes (RightPadSlice 0 (drop (pos + 1) cd) (numBytes + 1)) b)
      else appendPushData numBytes (take numBytes (drop (pos + 1) cd)) b)"

text \<open>
  \<open>appendSuperInstructions\<close> tries the patterns in order; the result is the number of extra
  bytes consumed, 0 if no pattern matches. \<open>at k\<close> is the op-code at \<open>pos + k\<close>.
\<close>

definition appendSuperInstructions :: "nat \<Rightarrow> bytes \<Rightarrow> codeBuilder \<Rightarrow> (nat \<times> codeBuilder) go" where
  "appendSuperInstructions pos cd b =
     (let at = (\<lambda>k. unat (cd ! (pos + k)));
          byt = (\<lambda>k. cd ! (pos + k));
          long = (\<lambda>k. pos + k < length cd);
          done = (\<lambda>n r. go_bind r (\<lambda>b. Ret (n, b))) in
      if long 7 \<and> at 0 = PUSH1 \<and> at 2 = PUSH4 \<and> at 7 = DUP3 then
        done 7 (go_bind (appendOp PUSH1_PUSH4_DUP3 (push_bit 8 (ucast (byt 1))) b) (\<lambda>b.
                go_bind (appendData (pack16 (byt 3) (byt 4)) b) (\<lambda>b.
                appendData (pack16 (byt 5) (byt 6)) b)))
      else if long 7 \<and> at 0 = PUSH1 \<and> at 2 = PUSH1 \<and> at 4 = PUSH1 \<and> at 6 = SHL \<and> at 7 = SUB then
        done 7 (go_bind (appendOp PUSH1_PUSH1_PUSH1_SHL_SUB (pack16 (byt 1) (byt 3)) b) (\<lambda>b.
                appendData (ucast (byt 5)) b))
      else if long 4 \<and> at 0 = AND \<and> at 1 = SWAP1 \<and> at 2 = POP \<and> at 3 = SWAP2 \<and> at 4 = SWAP1 then
        done 4 (appendCode AND_SWAP1_POP_SWAP2_SWAP1 b)
      else if long 4 \<and> at 0 = ISZERO \<and> at 1 = PUSH2 \<and> at 4 = JUMPI then
        done 4 (appendOp ISZERO_PUSH2_JUMPI (pack16 (byt 2) (byt 3)) b)
      else if long 3 \<and> at 0 = SWAP2 \<and> at 1 = SWAP1 \<and> at 2 = POP \<and> at 3 = JUMP then
        done 3 (appendCode SWAP2_SWAP1_POP_JUMP b)
      else if long 3 \<and> at 0 = SWAP1 \<and> at 1 = POP \<and> at 2 = SWAP2 \<and> at 3 = SWAP1 then
        done 3 (appendCode SWAP1_POP_SWAP2_SWAP1 b)
      else if long 3 \<and> at 0 = POP \<and> at 1 = SWAP2 \<and> at 2 = SWAP1 \<and> at 3 = POP then
        done 3 (appendCode POP_SWAP2_SWAP1_POP b)
      else if long 3 \<and> at 0 = PUSH2 \<and> at 3 = JUMP then
        done 3 (appendOp PUSH2_JUMP (pack16 (byt 1) (byt 2)) b)
      else if long 3 \<and> at 0 = PUSH2 \<and> at 3 = JUMPI then
        done 3 (appendOp PUSH2_JUMPI (pack16 (byt 1) (byt 2)) b)
      else if long 3 \<and> at 0 = PUSH1 \<and> at 2 = PUSH1 then
        done 3 (appendOp PUSH1_PUSH1 (pack16 (byt 1) (byt 3)) b)
      else if long 2 \<and> at 0 = PUSH1 \<and> at 2 = ADD then done 2 (appendOp PUSH1_ADD (ucast (byt 1)) b)
      else if long 2 \<and> at 0 = PUSH1 \<and> at 2 = SHL then done 2 (appendOp PUSH1_SHL (ucast (byt 1)) b)
      else if long 2 \<and> at 0 = PUSH1 \<and> at 2 = DUP1 then done 2 (appendOp PUSH1_DUP1 (ucast (byt 1)) b)
      else if long 1 \<and> at 0 = SWAP1 \<and> at 1 = POP then done 1 (appendCode SWAP1_POP b)
      else if long 1 \<and> at 0 = POP \<and> at 1 = JUMP then done 1 (appendCode POP_JUMP b)
      else if long 1 \<and> at 0 = POP \<and> at 1 = POP then done 1 (appendCode POP_POP b)
      else if long 1 \<and> at 0 = SWAP2 \<and> at 1 = SWAP1 then done 1 (appendCode SWAP2_SWAP1 b)
      else if long 1 \<and> at 0 = SWAP2 \<and> at 1 = POP then done 1 (appendCode SWAP2_POP b)
      else if long 1 \<and> at 0 = DUP2 \<and> at 1 = MSTORE then done 1 (appendCode DUP2_MSTORE b)
      else if long 1 \<and> at 0 = DUP2 \<and> at 1 = LT then done 1 (appendCode DUP2_LT b)
      else Ret (0, b))"

definition appendInstruction :: "nat \<Rightarrow> bytes \<Rightarrow> codeBuilder \<Rightarrow> (nat \<times> codeBuilder) go" where
  "appendInstruction pos cd b =
     (let toscaOpCode = unat (cd ! pos) in
      if toscaOpCode = PC then
        (if 65535 < pos then go_bind (appendCode INVALID b) (\<lambda>b. Ret (1, b))
         else go_bind (appendOp PC (word_of_nat pos) b) (\<lambda>b. Ret (0, b)))
      else if PUSH1 \<le> toscaOpCode \<and> toscaOpCode \<le> PUSH32 then
        (let numBytes = toscaOpCode - PUSH1 + 1 in
         go_bind (appendPush pos numBytes cd b) (\<lambda>b. Ret (numBytes, b)))
      else go_bind (appendCode toscaOpCode b) (\<lambda>b. Ret (0, b)))"

definition appendInstructions :: "nat \<Rightarrow> bytes \<Rightarrow> bool \<Rightarrow> codeBuilder \<Rightarrow> (nat \<times> codeBuilder) go" where
  "appendInstructions pos cd withSuperInstructions b =
     (if withSuperInstructions then
        go_bind (appendSuperInstructions pos cd b) (\<lambda>(n, b').
          if 0 < n then Ret (n, b') else appendInstruction pos cd b')
      else appendInstruction pos cd b)"

text \<open>The observer of \<open>convertWithObserver\<close> only watches and is left out.\<close>

function convert_loop :: "bytes \<Rightarrow> bool \<Rightarrow> nat \<Rightarrow> codeBuilder \<Rightarrow> codeBuilder go" where
  "convert_loop cd super i b =
     (if i < length cd then
        (if unat (cd ! i) = JUMPDEST then
           go_bind (if nextPos b < i then appendOp JUMP_TO (word_of_nat i) b else Ret b) (\<lambda>b.
           go_bind (padNoOpsUntil i b) (\<lambda>b.
           go_bind (appendCode JUMPDEST b) (\<lambda>b.
           convert_loop cd super (i + 1) b)))
         else
           go_bind (appendInstructions i cd super b) (\<lambda>(inc, b).
           convert_loop cd super (i + inc + 1) b))
      else Ret b)"
  by pat_completeness auto

termination by (relation "measure (\<lambda>(cd, _, i, _). length cd - i)") auto

declare convert_loop.simps [simp del]

definition convert :: "bytes \<Rightarrow> bool \<Rightarrow> Instruction list go" where
  "convert cd super = go_bind (convert_loop cd super 0 (newCodeBuilder (length cd))) (\<lambda>b. Ret (toCode b))"

section \<open>The converter with its cache\<close>

abbreviation (input) maxCachedCodeLength :: nat where "maxCachedCodeLength \<equiv> 24576"

record ConversionConfig =
  CacheSize :: int
  WithSuperInstructions :: bool

record 's Converter =
  cv_config :: ConversionConfig
  cv_cache :: "'s option"

text \<open>\<open>lru.New\<close> is a parameter: \<open>None\<close> is its error. The size of an instruction is 4 bytes.\<close>

definition NewConverter :: "(int \<Rightarrow> 's option) \<Rightarrow> ConversionConfig \<Rightarrow> 's Converter option" where
  "NewConverter lru_New config =
     (let config = (if CacheSize config = 0 then config\<lparr>CacheSize := 2 ^ 30\<rparr> else config) in
      if 0 < CacheSize config then
        (case lru_New (go_quot (go_quot (CacheSize config) (int maxCachedCodeLength)) 4) of
           None \<Rightarrow> None
         | Some s \<Rightarrow> Some \<lparr>cv_config = config, cv_cache = Some s\<rparr>)
      else Some \<lparr>cv_config = config, cv_cache = None\<rparr>)"

definition Convert ::
  "(Hash, Instruction list, 's) lru \<Rightarrow> bytes \<Rightarrow> Hash option \<Rightarrow> 's Converter \<Rightarrow>
   (error + Instruction list) go \<times> 's Converter" where
  "Convert L cd codeHash c =
     (let conv = (\<lambda>_::unit. convert cd (WithSuperInstructions (cv_config c)));
          result = (\<lambda>r. case r of Panic \<Rightarrow> Panic | Ret x \<Rightarrow> Ret (Inr x)) in
      if 65535 < length cd then (Ret (Inl errCodeSizeExceeded), c)
      else
        (case (cv_cache c, codeHash) of
           (Some s, Some h) \<Rightarrow>
             (case lru_Get L h s of
                (Some res, s) \<Rightarrow> (Ret (Inr res), c\<lparr>cv_cache := Some s\<rparr>)
              | (None, s) \<Rightarrow>
                  (case conv () of
                     Panic \<Rightarrow> (Panic, c\<lparr>cv_cache := Some s\<rparr>)
                   | Ret res \<Rightarrow>
                       if maxCachedCodeLength < length res then (Ret (Inr res), c\<lparr>cv_cache := Some s\<rparr>)
                       else (Ret (Inr res), c\<lparr>cv_cache := Some (lru_Add L h res s)\<rparr>)))
         | _ \<Rightarrow> (result (conv ()), c)))"

end
