(* ===== verification/Lfvm.thy ===== *)
theory Lfvm
  imports Exec_Logic Lfvm_Code
begin

text \<open>
  The long-form interpreter: the instructions that read the converted code
  (\<open>lfvm/instructions.go\<close>), the super instructions (\<open>lfvm/super_instructions.go\<close>), the
  dispatch and the loop (\<open>lfvm/interpreter.go\<close>) and the entry point (\<open>lfvm/lfvm.go\<close>).
  All other instructions are those of theory \<open>Instructions\<close>.
\<close>

section \<open>The context\<close>

record 'w lfvm_context = "'w ctxt" +
  lf_code :: "Instruction list"

type_synonym 'w lf_cmd = "'w lfvm_context \<Rightarrow> ('w lfvm_context, unit) res"
type_synonym 'w lf_op = "'w lfvm_context \<Rightarrow> ('w lfvm_context, status) res"

text \<open>Go's \<open>c.code[i]\<close> with an \<open>int32\<close> index, and \<open>c.code[c.pc : c.pc+n]\<close>.\<close>

definition instr_at :: "int \<Rightarrow> 'w lfvm_context \<Rightarrow> ('w lfvm_context, Instruction) res" where
  "instr_at i c = (if 0 \<le> i \<and> i < int (length (lf_code c)) then ret (lf_code c ! nat i) c
                   else fail GoPanic c)"

definition code_slice :: "nat \<Rightarrow> 'w lfvm_context \<Rightarrow> ('w lfvm_context, Instruction list) res" where
  "code_slice n c =
     (let stop = int32 (pc c + int n) in
      if 0 \<le> pc c \<and> pc c \<le> stop \<and> stop \<le> int (length (lf_code c))
      then ret (take (nat (stop - pc c)) (drop (nat (pc c)) (lf_code c))) c
      else fail GoPanic c)"

section \<open>Program counter, jumps and pushes\<close>

definition lf_opPc :: "'w lf_cmd" where
  "lf_opPc c = bind (instr_at (pc c) c) (\<lambda>i c. push (SetUint64 (ucast (arg i))) c)"

definition lf_checkJumpDest :: "'w lf_cmd" where
  "lf_checkJumpDest c =
     (let dest = int32 (pc c + 1) in
      if int (length (lf_code c)) \<le> dest then fail errInvalidJump c
      else bind (instr_at dest c) (\<lambda>i c.
        if opcode i \<noteq> JUMPDEST then fail errInvalidJump c else ret () c))"

definition lf_opJump :: "'w lf_cmd" where
  "lf_opJump c =
     bind (pop c) (\<lambda>destination c.
     if \<not> IsUint64 destination \<or> 2147483647 < Uint64 destination then fail errInvalidJump c
     else lf_checkJumpDest (c\<lparr>pc := int32 (int32 (uint (Uint64 destination)) - 1)\<rparr>))"

definition lf_opJumpi :: "'w lf_cmd" where
  "lf_opJumpi c =
     bind (pop c) (\<lambda>destination c.
     bind (pop c) (\<lambda>condition c.
     if condition \<noteq> 0 then
       (if \<not> IsUint64 destination \<or> 2147483647 < Uint64 destination then fail errInvalidJump c
        else lf_checkJumpDest (c\<lparr>pc := int32 (int32 (uint (Uint64 destination)) - 1)\<rparr>))
     else ret () c))"

definition opJumpTo :: "'w lf_cmd" where
  "opJumpTo c = bind (instr_at (pc c) c) (\<lambda>i c. ret () (c\<lparr>pc := int32 (uint (arg i) - 1)\<rparr>))"

text \<open>The bytes that \<open>opPush\<close> collects from the arguments: high byte first.\<close>

definition push_bytes :: "Instruction list \<Rightarrow> nat \<Rightarrow> bytes" where
  "push_bytes data n =
     map (\<lambda>i. if i mod 2 = 0 then ucast (drop_bit 8 (arg (data ! (i div 2))))
              else ucast (arg (data ! (i div 2)))) [0..<n]"

definition lf_opPush :: "nat \<Rightarrow> 'w lf_cmd" where
  "lf_opPush n c =
     (let num_instructions = n div 2 + n mod 2 in
      bind (code_slice num_instructions c) (\<lambda>data c.
      bind (push (of_be_bytes (push_bytes data n)) c) (\<lambda>_ c.
      ret () (c\<lparr>pc := int32 (pc c + (int num_instructions - 1))\<rparr>))))"

definition lf_opPush1 :: "'w lf_cmd" where
  "lf_opPush1 c =
     bind (instr_at (pc c) c) (\<lambda>i c. push (SetUint64 (ucast (drop_bit 8 (arg i)))) c)"

definition lf_opPush2 :: "'w lf_cmd" where
  "lf_opPush2 c = bind (instr_at (pc c) c) (\<lambda>i c. push (SetUint64 (ucast (arg i))) c)"

definition opPush3 :: "'w lf_cmd" where
  "opPush3 c =
     bind (code_slice 2 c) (\<lambda>data c.
     bind (push (SetUint64 (or (push_bit 8 (ucast (arg (data ! 0))))
                               (ucast (drop_bit 8 (arg (data ! 1)))))) c) (\<lambda>_ c.
     ret () (c\<lparr>pc := int32 (pc c + 1)\<rparr>)))"

definition opPush4 :: "'w lf_cmd" where
  "opPush4 c =
     bind (code_slice 2 c) (\<lambda>data c.
     bind (push (SetUint64 (or (push_bit 16 (ucast (arg (data ! 0)))) (ucast (arg (data ! 1))))) c) (\<lambda>_ c.
     ret () (c\<lparr>pc := int32 (pc c + 1)\<rparr>)))"

text \<open>A limb of four 16-bit arguments, and the word of four limbs (\<open>uint256.Int\<close>).\<close>

definition arg_limb :: "Instruction list \<Rightarrow> nat \<Rightarrow> u64" where
  "arg_limb data k =
     or (or (or (push_bit 48 (ucast (arg (data ! k)))) (push_bit 32 (ucast (arg (data ! (k + 1))))))
       (push_bit 16 (ucast (arg (data ! (k + 2)))))) (ucast (arg (data ! (k + 3))))"

definition of_limbs :: "u64 \<Rightarrow> u64 \<Rightarrow> u64 \<Rightarrow> u64 \<Rightarrow> u256" where
  "of_limbs z3 z2 z1 z0 =
     or (or (or (push_bit 192 (ucast z3)) (push_bit 128 (ucast z2))) (push_bit 64 (ucast z1))) (ucast z0)"

definition opPush32 :: "'w lf_cmd" where
  "opPush32 c =
     bind (code_slice 16 c) (\<lambda>data c.
     bind (push (of_limbs (arg_limb data 0) (arg_limb data 4) (arg_limb data 8) (arg_limb data 12)) c) (\<lambda>_ c.
     ret () (c\<lparr>pc := int32 (pc c + 15)\<rparr>)))"

section \<open>Super instructions\<close>

definition opSwap1_Pop :: "'w lf_cmd" where
  "opSwap1_Pop c = bind (pop c) (\<lambda>a1 c. bind (peek c) (\<lambda>_ c. setN 0 a1 c))"

definition opSwap2_Pop :: "'w lf_cmd" where
  "opSwap2_Pop c = bind (pop c) (\<lambda>a1 c. setN 1 a1 c)"

text \<open>
  \<open>c.stack.stackPointer += 2\<close> followed by writes to the two new top cells, which panic if
  the pointer is out of range.
\<close>

definition push2 :: "u256 \<Rightarrow> u256 \<Rightarrow> 'w lf_cmd" where
  "push2 first second c =
     (if length (stack c) + 2 \<le> maxStackSize then ret () (c\<lparr>stack := first # second # stack c\<rparr>)
      else fail GoPanic c)"

definition opPush1_Push1 :: "'w lf_cmd" where
  "opPush1_Push1 c =
     bind (instr_at (pc c) c) (\<lambda>i c.
     push2 (SetUint64 (ucast (and (arg i) 0xFF))) (SetUint64 (ucast (drop_bit 8 (arg i)))) c)"

text \<open>The limb-wise addition with carries of \<open>opPush1_Add\<close>.\<close>

definition limb :: "nat \<Rightarrow> u256 \<Rightarrow> u64" where
  "limb k x = ucast (drop_bit (64 * k) x)"

definition add_limbs :: "u256 \<Rightarrow> u64 \<Rightarrow> u256" where
  "add_limbs trg a =
     (let (t0, carry) = Add64 (limb 0 trg) a 0;
          (t1, carry) = Add64 (limb 1 trg) 0 carry;
          (t2, carry) = Add64 (limb 2 trg) 0 carry;
          (t3, _) = Add64 (limb 3 trg) 0 carry in
      of_limbs t3 t2 t1 t0)"

definition opPush1_Add :: "'w lf_cmd" where
  "opPush1_Add c =
     bind (instr_at (pc c) c) (\<lambda>i c.
     bind (peek c) (\<lambda>trg c. setN 0 (add_limbs trg (ucast (arg i))) c))"

definition opPush1_Shl :: "'w env \<Rightarrow> 'w lf_cmd" where
  "opPush1_Shl E c =
     bind (instr_at (pc c) c) (\<lambda>i c.
     bind (peek c) (\<lambda>trg c. setN 0 (u_Lsh (u256lib E) trg (unat (arg i))) c))"

definition opPush1_Dup1 :: "'w lf_cmd" where
  "opPush1_Dup1 c =
     bind (instr_at (pc c) c) (\<lambda>i c.
     push2 (SetUint64 (ucast (arg i))) (SetUint64 (ucast (arg i))) c)"

definition opPush2_Jump :: "'w lf_cmd" where
  "opPush2_Jump c =
     bind (instr_at (pc c) c) (\<lambda>i c. lf_checkJumpDest (c\<lparr>pc := int32 (uint (arg i) - 1)\<rparr>))"

definition opPush2_Jumpi :: "'w lf_cmd" where
  "opPush2_Jumpi c =
     bind (pop c) (\<lambda>condition c.
     if condition \<noteq> 0 then
       bind (instr_at (pc c) c) (\<lambda>i c. lf_checkJumpDest (c\<lparr>pc := int32 (uint (arg i) - 1)\<rparr>))
     else ret () c)"

definition opSwap2_Swap1 :: "'w lf_cmd" where
  "opSwap2_Swap1 c =
     bind (peekN 0 c) (\<lambda>a1 c. bind (peekN 1 c) (\<lambda>a2 c. bind (peekN 2 c) (\<lambda>a3 c.
     bind (setN 0 a2 c) (\<lambda>_ c. bind (setN 1 a3 c) (\<lambda>_ c. setN 2 a1 c)))))"

definition opDup2_Mstore :: "'w lf_cmd" where
  "opDup2_Mstore c =
     bind (pop c) (\<lambda>v c. bind (peek c) (\<lambda>offset c. mem_set offset (be_bytes 32 v) c))"

definition opDup2_Lt :: "'w env \<Rightarrow> 'w lf_cmd" where
  "opDup2_Lt E c =
     bind (peekN 0 c) (\<lambda>b c. bind (peekN 1 c) (\<lambda>a c.
     setN 0 (if u_Lt (u256lib E) a b then 1 else 0) c))"

text \<open>
  \<open>opPopPop\<close> only moves the stack pointer; with fewer than two operands the pointer would
  leave the array, which the model reports as a panic.
\<close>

definition opPopPop :: "'w lf_cmd" where
  "opPopPop c = (if 2 \<le> length (stack c) then ret () (c\<lparr>stack := drop 2 (stack c)\<rparr>) else fail GoPanic c)"

definition opPop_Jump :: "'w lf_cmd" where
  "opPop_Jump c = bind (opPop c) (\<lambda>_ c. lf_opJump c)"

definition opIsZero_Push2_Jumpi :: "'w lf_cmd" where
  "opIsZero_Push2_Jumpi c =
     bind (pop c) (\<lambda>condition c.
     if condition = 0 then
       bind (instr_at (pc c) c) (\<lambda>i c. lf_checkJumpDest (c\<lparr>pc := int32 (uint (arg i) - 1)\<rparr>))
     else ret () c)"

definition opSwap2_Swap1_Pop_Jump :: "'w lf_cmd" where
  "opSwap2_Swap1_Pop_Jump c =
     bind (pop c) (\<lambda>top c.
     bind (pop c) (\<lambda>_ c.
     bind (peek c) (\<lambda>trg c.
     bind (setN 0 top (c\<lparr>pc := int32 (int32 (uint (Uint64 trg)) - 1)\<rparr>)) (\<lambda>_ c.
     lf_checkJumpDest c))))"

definition opSwap1_Pop_Swap2_Swap1 :: "'w lf_cmd" where
  "opSwap1_Pop_Swap2_Swap1 c =
     bind (pop c) (\<lambda>a1 c. bind (peekN 0 c) (\<lambda>a2 c. bind (peekN 1 c) (\<lambda>a3 c. bind (peekN 2 c) (\<lambda>a4 c.
     bind (setN 0 a3 c) (\<lambda>_ c. bind (setN 1 a4 c) (\<lambda>_ c. setN 2 a1 c))))))"

definition opPop_Swap2_Swap1_Pop :: "'w lf_cmd" where
  "opPop_Swap2_Swap1_Pop c =
     bind (pop c) (\<lambda>_ c. bind (pop c) (\<lambda>a2 c. bind (peekN 0 c) (\<lambda>a3 c. bind (peekN 1 c) (\<lambda>a4 c.
     bind (setN 0 a4 c) (\<lambda>_ c. setN 1 a2 c)))))"

definition opPush1_Push4_Dup3 :: "'w lf_cmd" where
  "opPush1_Push4_Dup3 c =
     bind (lf_opPush1 c) (\<lambda>_ c.
     bind (opPush4 (c\<lparr>pc := int32 (pc c + 1)\<rparr>)) (\<lambda>_ c.
     opDup 3 c))"

definition opAnd_Swap1_Pop_Swap2_Swap1 :: "'w env \<Rightarrow> 'w lf_cmd" where
  "opAnd_Swap1_Pop_Swap2_Swap1 E c = bind (opAnd E c) (\<lambda>_ c. opSwap1_Pop_Swap2_Swap1 c)"

definition opPush1_Push1_Push1_Shl_Sub :: "'w env \<Rightarrow> 'w lf_cmd" where
  "opPush1_Push1_Push1_Shl_Sub E c =
     bind (instr_at (pc c) c) (\<lambda>i1 c.
     bind (instr_at (int32 (pc c + 1)) c) (\<lambda>i2 c.
     let shift = ucast (arg i2) :: byte;
         value = ucast (and (arg i1) 0xFF) :: byte;
         delta = ucast (drop_bit 8 (arg i1)) :: byte in
     bind (push (u_Sub (u256lib E) (u_Lsh (u256lib E) (SetUint64 (ucast value)) (unat shift))
                  (SetUint64 (ucast delta))) c) (\<lambda>_ c.
     ret () (c\<lparr>pc := int32 (pc c + 1)\<rparr>))))"

section \<open>Dispatch\<close>

definition lf_cont :: "'w lf_cmd \<Rightarrow> 'w lf_op" where
  "lf_cont f c = bind (f c) (\<lambda>_ c. ret statusRunning c)"

definition lf_finish :: "status \<Rightarrow> 'w lf_cmd \<Rightarrow> 'w lf_op" where
  "lf_finish st f c = bind (f c) (\<lambda>_ c. ret st c)"

definition lfvm_ops_hot :: "'w env \<Rightarrow> (OpCode \<times> 'w lf_op) list" where
  "lfvm_ops_hot E =
    [(POP, lf_cont opPop), (PUSH0, lf_cont opPush0), (PUSH1, lf_cont lf_opPush1),
     (PUSH2, lf_cont lf_opPush2), (PUSH3, lf_cont opPush3), (PUSH4, lf_cont opPush4),
     (PUSH5, lf_cont (lf_opPush 5)), (PUSH31, lf_cont (lf_opPush 31)),
     (PUSH32, lf_cont opPush32), (JUMP, lf_cont lf_opJump), (JUMPDEST, lf_cont (ret ())),
     (SWAP1, lf_cont (opSwap 1)), (SWAP2, lf_cont (opSwap 2)), (DUP3, lf_cont (opDup 3)),
     (AND, lf_cont (opAnd E)), (SWAP3, lf_cont (opSwap 3)), (JUMPI, lf_cont lf_opJumpi),
     (GT, lf_cont (opGt E)), (DUP4, lf_cont (opDup 4)), (DUP2, lf_cont (opDup 2)),
     (ISZERO, lf_cont opIszero), (ADD, lf_cont (opAdd E)), (OR, lf_cont (opOr E)),
     (XOR, lf_cont (opXor E)), (NOT, lf_cont (opNot E)), (SUB, lf_cont (opSub E)),
     (MUL, lf_cont (opMul E)), (MULMOD, lf_cont (opMulMod E)), (DIV, lf_cont (opDiv E)),
     (SDIV, lf_cont (opSDiv E)), (MOD, lf_cont (opMod E)), (SMOD, lf_cont (opSMod E)),
     (ADDMOD, lf_cont (opAddMod E)), (EXP, lf_cont (opExp E)), (DUP5, lf_cont (opDup 5)),
     (DUP1, lf_cont (opDup 1)), (EQ, lf_cont (opEq E)), (PC, lf_cont lf_opPc),
     (CALLER, lf_cont opCaller), (CALLDATALOAD, lf_cont opCallDataload),
     (CALLDATASIZE, lf_cont opCallDatasize),
     (CALLDATACOPY, lf_cont (\<lambda>c. genericDataCopy (Input (params c)) c)),
     (MLOAD, lf_cont opMload), (MSTORE, lf_cont opMstore), (MSTORE8, lf_cont opMstore8),
     (MSIZE, lf_cont opMsize), (MCOPY, lf_cont opMcopy), (LT, lf_cont (opLt E)),
     (SLT, lf_cont (opSlt E)), (SGT, lf_cont (opSgt E)), (SHR, lf_cont (opShr E)),
     (SHL, lf_cont (opShl E)), (SAR, lf_cont (opSar E)), (CLZ, lf_cont (opClz E)),
     (SIGNEXTEND, lf_cont (opSignExtend E)), (BYTE, lf_cont (opByte E)),
     (SHA3, lf_cont (opSha3 E)), (CALLVALUE, lf_cont opCallvalue),
     (PUSH6, lf_cont (lf_opPush 6)), (PUSH7, lf_cont (lf_opPush 7)),
     (PUSH8, lf_cont (lf_opPush 8)), (PUSH9, lf_cont (lf_opPush 9)),
     (PUSH10, lf_cont (lf_opPush 10)), (PUSH11, lf_cont (lf_opPush 11)),
     (PUSH12, lf_cont (lf_opPush 12)), (PUSH13, lf_cont (lf_opPush 13)),
     (PUSH14, lf_cont (lf_opPush 14)), (PUSH15, lf_cont (lf_opPush 15)),
     (PUSH16, lf_cont (lf_opPush 16)), (PUSH17, lf_cont (lf_opPush 17)),
     (PUSH18, lf_cont (lf_opPush 18)), (PUSH19, lf_cont (lf_opPush 19)),
     (PUSH20, lf_cont (lf_opPush 20)), (PUSH21, lf_cont (lf_opPush 21))]"

definition lfvm_ops_rest :: "'w env \<Rightarrow> (OpCode \<times> 'w lf_op) list" where
  "lfvm_ops_rest E =
    [(PUSH22, lf_cont (lf_opPush 22)), (PUSH23, lf_cont (lf_opPush 23)),
     (PUSH24, lf_cont (lf_opPush 24)), (PUSH25, lf_cont (lf_opPush 25)),
     (PUSH26, lf_cont (lf_opPush 26)), (PUSH27, lf_cont (lf_opPush 27)),
     (PUSH28, lf_cont (lf_opPush 28)), (PUSH29, lf_cont (lf_opPush 29)),
     (PUSH30, lf_cont (lf_opPush 30)), (SWAP4, lf_cont (opSwap 4)), (SWAP5, lf_cont (opSwap 5)),
     (SWAP6, lf_cont (opSwap 6)), (SWAP7, lf_cont (opSwap 7)), (SWAP8, lf_cont (opSwap 8)),
     (SWAP9, lf_cont (opSwap 9)), (SWAP10, lf_cont (opSwap 10)), (SWAP11, lf_cont (opSwap 11)),
     (SWAP12, lf_cont (opSwap 12)), (SWAP13, lf_cont (opSwap 13)), (SWAP14, lf_cont (opSwap 14)),
     (SWAP15, lf_cont (opSwap 15)), (SWAP16, lf_cont (opSwap 16)), (DUP6, lf_cont (opDup 6)),
     (DUP7, lf_cont (opDup 7)), (DUP8, lf_cont (opDup 8)), (DUP9, lf_cont (opDup 9)),
     (DUP10, lf_cont (opDup 10)), (DUP11, lf_cont (opDup 11)), (DUP12, lf_cont (opDup 12)),
     (DUP13, lf_cont (opDup 13)), (DUP14, lf_cont (opDup 14)), (DUP15, lf_cont (opDup 15)),
     (DUP16, lf_cont (opDup 16)), (RETURN, lf_finish statusReturned opEndWithResult),
     (REVERT, lf_finish statusReverted opEndWithResult), (JUMP_TO, lf_cont opJumpTo),
     (SLOAD, lf_cont (opSload E)), (SSTORE, lf_cont (opSstore E)), (TLOAD, lf_cont (opTload E)),
     (TSTORE, lf_cont (opTstore E)), (CODESIZE, lf_cont opCodeSize),
     (CODECOPY, lf_cont (\<lambda>c. genericDataCopy (Code (params c)) c)),
     (EXTCODESIZE, lf_cont (opExtcodesize E)), (EXTCODEHASH, lf_cont (opExtcodehash E)),
     (EXTCODECOPY, lf_cont (opExtCodeCopy E)), (BALANCE, lf_cont (opBalance E)),
     (SELFBALANCE, lf_cont (opSelfbalance E)), (BASEFEE, lf_cont opBaseFee),
     (BLOBHASH, lf_cont opBlobHash), (BLOBBASEFEE, lf_cont opBlobBaseFee),
     (SELFDESTRUCT, opSelfdestruct E), (CHAINID, lf_cont opChainId), (GAS, lf_cont opGas),
     (PREVRANDAO, lf_cont opPrevRandao), (TIMESTAMP, lf_cont opTimestamp),
     (NUMBER, lf_cont opNumber), (GASLIMIT, lf_cont opGasLimit), (GASPRICE, lf_cont opGasPrice),
     (CALL, lf_cont (opCall E)), (CALLCODE, lf_cont (opCallCode E)),
     (STATICCALL, lf_cont (opStaticCall E)), (DELEGATECALL, lf_cont (opDelegateCall E)),
     (RETURNDATASIZE, lf_cont opReturnDataSize), (RETURNDATACOPY, lf_cont opReturnDataCopy),
     (BLOCKHASH, lf_cont (opBlockhash E)), (COINBASE, lf_cont opCoinbase),
     (ORIGIN, lf_cont opOrigin), (ADDRESS, lf_cont opAddress), (STOP, ret opStop),
     (CREATE, lf_cont (genericCreate E Create)), (CREATE2, lf_cont (genericCreate E Create2)),
     (LOG0, lf_cont (opLog E 0)), (LOG1, lf_cont (opLog E 1)), (LOG2, lf_cont (opLog E 2)),
     (LOG3, lf_cont (opLog E 3)), (LOG4, lf_cont (opLog E 4))]"

definition lfvm_ops_super :: "'w env \<Rightarrow> (OpCode \<times> 'w lf_op) list" where
  "lfvm_ops_super E =
    [(SWAP2_SWAP1_POP_JUMP, lf_cont opSwap2_Swap1_Pop_Jump),
     (SWAP1_POP_SWAP2_SWAP1, lf_cont opSwap1_Pop_Swap2_Swap1),
     (POP_SWAP2_SWAP1_POP, lf_cont opPop_Swap2_Swap1_Pop), (POP_POP, lf_cont opPopPop),
     (PUSH1_SHL, lf_cont (opPush1_Shl E)), (PUSH1_ADD, lf_cont opPush1_Add),
     (PUSH1_DUP1, lf_cont opPush1_Dup1), (PUSH2_JUMP, lf_cont opPush2_Jump),
     (PUSH2_JUMPI, lf_cont opPush2_Jumpi), (PUSH1_PUSH1, lf_cont opPush1_Push1),
     (SWAP1_POP, lf_cont opSwap1_Pop), (POP_JUMP, lf_cont opPop_Jump),
     (SWAP2_SWAP1, lf_cont opSwap2_Swap1), (SWAP2_POP, lf_cont opSwap2_Pop),
     (DUP2_MSTORE, lf_cont opDup2_Mstore), (DUP2_LT, lf_cont (opDup2_Lt E)),
     (ISZERO_PUSH2_JUMPI, lf_cont opIsZero_Push2_Jumpi),
     (PUSH1_PUSH4_DUP3, lf_cont opPush1_Push4_Dup3),
     (AND_SWAP1_POP_SWAP2_SWAP1, lf_cont (opAnd_Swap1_Pop_Swap2_Swap1 E)),
     (PUSH1_PUSH1_PUSH1_SHL_SUB, lf_cont (opPush1_Push1_Push1_Shl_Sub E))]"

definition lfvm_ops :: "'w env \<Rightarrow> (OpCode \<times> 'w lf_op) list" where
  "lfvm_ops E = lfvm_ops_hot E @ lfvm_ops_rest E @ lfvm_ops_super E"

definition lf_dispatch :: "'w env \<Rightarrow> OpCode \<Rightarrow> 'w lf_op" where
  "lf_dispatch E op =
     (case map_of (lfvm_ops E) op of
        Some f \<Rightarrow> f
      | None \<Rightarrow> fail errInvalidOpCode)"

section \<open>The loop\<close>

definition lf_execInstr :: "'w env \<Rightarrow> 'w lf_op" where
  "lf_execInstr E c =
     bind (instr_at (pc c) c) (\<lambda>i c.
     let op = opcode i in
     case lf_checkStackLimits (length (stack c)) op of
       Some e \<Rightarrow> fail e c
     | None \<Rightarrow>
         bind (useGas (lf_propertyMap_get (lf_getStaticGasPrices (revision (BlockParams (params c)))) op) c)
           (\<lambda>_ c. lf_dispatch E op c))"

partial_function (option) lf_steps_loop ::
  "'w env \<Rightarrow> bool \<Rightarrow> status \<Rightarrow> 'w lfvm_context \<Rightarrow> ('w lfvm_context, status) res option" where
  "lf_steps_loop E oneStepOnly st c =
     (if st \<noteq> statusRunning then Some (ret st c)
      else if int (length (lf_code c)) \<le> pc c then Some (ret statusStopped c)
      else
        (case lf_execInstr E c of
           (Inl e, c) \<Rightarrow> Some (fail e c)
         | (Inr st, c) \<Rightarrow>
             (let c = c\<lparr>pc := int32 (pc c + 1)\<rparr> in
              if oneStepOnly then Some (ret st c) else lf_steps_loop E oneStepOnly st c)))"

declare lf_steps_loop.simps [code]

definition lf_steps ::
  "'w env \<Rightarrow> bool \<Rightarrow> 'w lfvm_context \<Rightarrow> ('w lfvm_context, status) res option" where
  "lf_steps E oneStepOnly c = lf_steps_loop E oneStepOnly statusRunning c"

definition lf_execute :: "'w env \<Rightarrow> bool \<Rightarrow> 'w lfvm_context \<Rightarrow> (status \<times> 'w lfvm_context) go option" where
  "lf_execute E oneStepOnly c =
     (case lf_steps E oneStepOnly c of
        None \<Rightarrow> None
      | Some (Inl GoPanic, c) \<Rightarrow> Some Panic
      | Some (Inl e, c) \<Rightarrow> Some (Ret (statusFailed, c))
      | Some (Inr st, c) \<Rightarrow> Some (Ret (st, c)))"

section \<open>The entry point\<close>

record lf_config = ConversionConfig +
  lf_WithShaCache :: bool

definition lf_initial_context ::
  "bool \<Rightarrow> Instruction list \<Rightarrow> Parameters \<Rightarrow> 'w \<Rightarrow> 'w lfvm_context" where
  "lf_initial_context shaCache cd p w =
     \<lparr>params = p, world = w, pc = 0, gas = Gas p, refund = 0, stack = [],
      memory = NewMemory, returnData = [], withShaCache = shaCache, lf_code = cd\<rparr>"

text \<open>\<open>run\<close> with the \<open>vanillaRunner\<close>, which is the default.\<close>

definition lf_run ::
  "'w env \<Rightarrow> bool \<Rightarrow> Parameters \<Rightarrow> Instruction list \<Rightarrow> 'w \<Rightarrow> (Result option \<times> 'w) go option" where
  "lf_run E shaCache p cd w =
     (if cd = [] then
        Some (Ret (Some \<lparr>res_Success = True, res_Output = [], res_GasLeft = Gas p, res_GasRefund = 0\<rparr>, w))
      else
        (case lf_execute E False (lf_initial_context shaCache cd p w) of
           None \<Rightarrow> None
         | Some Panic \<Rightarrow> Some Panic
         | Some (Ret (st, c)) \<Rightarrow> Some (Ret (generateResult st c, world c))))"

definition lf_Run ::
  "'w env \<Rightarrow> (Hash, Instruction list, 's) lru \<Rightarrow> bool \<Rightarrow> Parameters \<Rightarrow> 'w \<Rightarrow> 's Converter \<Rightarrow>
   (Result option \<times> 'w) go option \<times> 's Converter" where
  "lf_Run E L shaCache p w cv =
     (if R15_Osaka < revision (BlockParams p) then (Some (Ret (None, w)), cv)
      else
        (case Convert L (Code p) (CodeHash p) cv of
           (Panic, cv) \<Rightarrow> (Some Panic, cv)
         | (Ret (Inl _), cv) \<Rightarrow> (Some (Ret (None, w)), cv)
         | (Ret (Inr converted), cv) \<Rightarrow> (lf_run E shaCache p converted w, cv)))"

end
