(* ===== verification/Lfvm_Layout.thy ===== *)
theory Lfvm_Layout
  imports Lfvm_Code Sfvm_Functional
begin

text \<open>
  Correctness of the conversion: the code builder never writes outside its slice, the
  position of every jump destination is kept, and without super instructions the converted
  code is the one of a recursive specification.
\<close>

section \<open>Code builder\<close>

text \<open>The builder holds \<open>out\<close> in front of unused zero instructions.\<close>

definition built :: "codeBuilder \<Rightarrow> Instruction list \<Rightarrow> bool" where
  "built b out \<longleftrightarrow>
     nextPos b = length out \<and> length out \<le> length (cb_code b) \<and>
     cb_code b = out @ replicate (length (cb_code b) - length out) zero_instr"

text \<open>\<open>f\<close> appends the instructions \<open>xs\<close> if there is room for them.\<close>

definition emits :: "(codeBuilder \<Rightarrow> codeBuilder go) \<Rightarrow> Instruction list \<Rightarrow> bool" where
  "emits f xs \<longleftrightarrow>
     (\<forall>b out. built b out \<and> length out + length xs \<le> length (cb_code b) \<longrightarrow>
        (\<exists>b'. f b = Ret b' \<and> built b' (out @ xs) \<and> length (cb_code b') = length (cb_code b)))"

lemma built_update:
  assumes "built b out" and "length out < length (cb_code b)"
  shows "cb_code b ! nextPos b = zero_instr"
    and "built \<lparr>cb_code = (cb_code b)[nextPos b := x], nextPos = nextPos b + 1\<rparr> (out @ [x])"
proof -
  obtain k where k: "cb_code b = out @ replicate (Suc k) zero_instr" "nextPos b = length out"
    using assms unfolding built_def by (metis Suc_diff_Suc)
  show "cb_code b ! nextPos b = zero_instr" by (simp add: k nth_append)
  show "built \<lparr>cb_code = (cb_code b)[nextPos b := x], nextPos = nextPos b + 1\<rparr> (out @ [x])"
    by (simp add: built_def k list_update_append)
qed

lemma emits_appendOp: "emits (appendOp op a) [\<lparr>opcode = op, arg = a\<rparr>]"
  unfolding emits_def
  by (auto simp: appendOp_def built_update(2) dest: built_update(2)) (auto simp: built_def)

lemma emits_appendCode: "emits (appendCode op) [\<lparr>opcode = op, arg = 0\<rparr>]"
proof -
  have "appendCode op b = appendOp op 0 b" if "built b out" "length out < length (cb_code b)" for b out
    using built_update(1) [OF that] by (simp add: appendCode_def appendOp_def zero_instr_def)
  then show ?thesis using emits_appendOp [of op 0] unfolding emits_def by fastforce
qed

lemma emits_appendData: "emits (appendData a) [\<lparr>opcode = DATA, arg = a\<rparr>]"
  using emits_appendOp [of DATA a] by (simp add: appendData_def [abs_def])

lemma go_bind_Ret_iff: "go_bind m f = Ret y \<longleftrightarrow> (\<exists>x. m = Ret x \<and> f x = Ret y)"
  by (cases m) auto

lemma emits_Ret: "emits Ret []"
  by (auto simp: emits_def)

lemma emitsD:
  "emits f xs \<Longrightarrow> built b out \<Longrightarrow> length out + length xs \<le> length (cb_code b) \<Longrightarrow>
   \<exists>b'. f b = Ret b' \<and> built b' (out @ xs) \<and> length (cb_code b') = length (cb_code b)"
  by (auto simp: emits_def)

lemma emits_bind:
  assumes "emits f xs" and "emits g ys"
  shows "emits (\<lambda>b. go_bind (f b) g) (xs @ ys)"
  unfolding emits_def
proof (intro allI impI, elim conjE)
  fix b out
  assume b: "built b out" "length out + length (xs @ ys) \<le> length (cb_code b)"
  obtain b1 where 1: "f b = Ret b1" "built b1 (out @ xs)" "length (cb_code b1) = length (cb_code b)"
    using emitsD [OF assms(1) b(1)] b(2) by auto
  from emitsD [OF assms(2) 1(2)] b(2) 1(3) obtain b2 where
    "g b1 = Ret b2" "built b2 (out @ xs @ ys)" "length (cb_code b2) = length (cb_code b)" by auto
  with 1(1) show "\<exists>b'. go_bind (f b) g = Ret b' \<and> built b' (out @ xs @ ys) \<and>
      length (cb_code b') = length (cb_code b)" by auto
qed

lemma pad_loop_Ret:
  assumes "cd = out @ replicate (n + k) zero_instr"
  shows "pad_loop n (length out) cd =
    Ret (out @ replicate n \<lparr>opcode = NOOP, arg = 0\<rparr> @ replicate k zero_instr)"
  using assms
proof (induction n arbitrary: out cd)
  case (Suc n)
  have "cd[length out := (cd ! length out)\<lparr>opcode := NOOP\<rparr>]
      = (out @ [\<lparr>opcode = NOOP, arg = 0\<rparr>]) @ replicate (n + k) zero_instr"
    by (simp add: Suc.prems nth_append list_update_append zero_instr_def)
  from Suc.IH [OF this] show ?case by (simp add: Suc.prems)
qed simp

lemma emits_pad:
  assumes "built b out" and "length out \<le> pos" and "pos \<le> length (cb_code b)"
  shows "\<exists>b'. padNoOpsUntil pos b = Ret b' \<and>
    built b' (out @ replicate (pos - length out) \<lparr>opcode = NOOP, arg = 0\<rparr>) \<and>
    length (cb_code b') = length (cb_code b)"
proof -
  let ?n = "pos - length out" and ?k = "length (cb_code b) - pos"
  have "cb_code b = out @ replicate (?n + ?k) zero_instr" "nextPos b = length out"
    using assms by (auto simp: built_def)
  from pad_loop_Ret [OF this(1)] this(2) show ?thesis
    using assms by (auto simp: padNoOpsUntil_def built_def)
qed

section \<open>Pushes\<close>

text \<open>The instructions of a push of \<open>n\<close> bytes \<open>data\<close>: the bytes in pairs.\<close>

definition push_pair :: "nat \<Rightarrow> bytes \<Rightarrow> nat \<Rightarrow> Instruction" where
  "push_pair n data k =
     \<lparr>opcode = (if k = 0 then PUSH1 + (n - 1) else DATA),
      arg = pack16 (data ! (2 * k)) (if 2 * k + 1 < n then data ! (2 * k + 1) else 0)\<rparr>"

definition push_instrs :: "nat \<Rightarrow> bytes \<Rightarrow> Instruction list" where
  "push_instrs n data = map (push_pair n data) [0..<(n + 1) div 2]"

lemma pack16_0: "pack16 a 0 = push_bit 8 (ucast a)"
  by (simp add: pack16_def)

lemma emits_appendPairs:
  "0 < k \<Longrightarrow> k \<le> n div 2 \<Longrightarrow> emits (appendPairs (2 * k) n data) (map (push_pair n data) [k..<n div 2])"
proof (induction "n div 2 - k" arbitrary: k)
  case 0
  then have "\<not> 2 * k < n - 1" by presburger
  then have "appendPairs (2 * k) n data = Ret" by (intro ext, subst appendPairs.simps) simp
  with 0 show ?case by (simp add: emits_Ret)
next
  case (Suc d)
  have lt: "2 * k < n - 1" "k < n div 2" using Suc by auto
  have data: "pack16 (data ! (2 * k)) (data ! (2 * k + 1)) = arg (push_pair n data k)"
    "push_pair n data k = \<lparr>opcode = DATA, arg = pack16 (data ! (2 * k)) (data ! (2 * k + 1))\<rparr>"
    using lt Suc.prems by (auto simp: push_pair_def)
  have "appendPairs (2 * k) n data = (\<lambda>b. go_bind
      (appendData (pack16 (data ! (2 * k)) (data ! (2 * k + 1))) b) (appendPairs (2 * Suc k) n data))"
    using lt(1) by (intro ext, subst appendPairs.simps) simp
  moreover have "emits (appendPairs (2 * Suc k) n data) (map (push_pair n data) [Suc k..<n div 2])"
    using Suc lt by (intro Suc.hyps(1)) auto
  ultimately show ?case
    using emits_bind [OF emits_appendData] lt(2) data(2) by (simp add: upt_conv_Cons)
qed

lemma push_instrs_split:
  assumes "1 < n"
  shows "push_instrs n data = \<lparr>opcode = PUSH1 + (n - 1), arg = pack16 (data ! 0) (data ! 1)\<rparr>
    # map (push_pair n data) [1..<n div 2] @
    (if n mod 2 = 1 then [\<lparr>opcode = DATA, arg = push_bit 8 (ucast (data ! (n - 1)))\<rparr>] else [])"
proof -
  have "[0..<(n + 1) div 2] = 0 # [1..<n div 2] @ (if n mod 2 = 1 then [n div 2] else [])"
  proof (cases "n mod 2 = 1")
    case True
    then have "(n + 1) div 2 = Suc (n div 2)" "0 < n div 2" using assms by presburger+
    then show ?thesis using True by (simp add: upt_conv_Cons)
  next
    case False
    then have "(n + 1) div 2 = n div 2" "0 < n div 2" using assms by presburger+
    then show ?thesis using False by (simp add: upt_conv_Cons)
  qed
  moreover have "n mod 2 = 1 \<Longrightarrow> push_pair n data (n div 2) = \<lparr>opcode = DATA, arg = push_bit 8 (ucast (data ! (n - 1)))\<rparr>"
  proof -
    assume odd: "n mod 2 = 1"
    then have "2 * (n div 2) = n - 1" "n div 2 \<noteq> 0" using assms by presburger+
    then show ?thesis using assms by (simp add: push_pair_def pack16_0)
  qed
  ultimately show ?thesis using assms by (auto simp: push_instrs_def push_pair_def)
qed

lemma push_instrs_1: "push_instrs 1 data = [\<lparr>opcode = PUSH1, arg = push_bit 8 (ucast (data ! 0))\<rparr>]"
  by (simp add: push_instrs_def push_pair_def pack16_0)

lemma emits_push:
  assumes "0 < n"
  shows "emits (appendPushData n data) (push_instrs n data)"
proof (cases "n = 1")
  case True
  have "appendPairs 2 1 data = Ret" by (intro ext, subst appendPairs.simps) simp
  moreover have "emits (\<lambda>b. go_bind (appendOp PUSH1 (push_bit 8 (ucast (data ! 0))) b) Ret)
      ([\<lparr>opcode = PUSH1, arg = push_bit 8 (ucast (data ! 0))\<rparr>] @ [])"
    by (rule emits_bind [OF emits_appendOp emits_Ret])
  ultimately show ?thesis using True push_instrs_1 [of data] by (simp add: appendPushData_def [abs_def])
next
  case False
  then have n: "1 < n" using assms by simp
  then have "emits (appendPairs 2 n data) (map (push_pair n data) [1..<n div 2])"
    using emits_appendPairs [of 1 n data] by simp
  moreover have "emits (\<lambda>b. if n mod 2 = 1 then appendData (push_bit 8 (ucast (data ! (n - 1)))) b else Ret b)
      (if n mod 2 = 1 then [\<lparr>opcode = DATA, arg = push_bit 8 (ucast (data ! (n - 1)))\<rparr>] else [])"
    using emits_appendData emits_Ret by simp
  ultimately show ?thesis
    using emits_bind [OF emits_appendOp emits_bind] n
    by (simp add: push_instrs_split [OF n] appendPushData_def [abs_def])
qed

lemma length_push_instrs [simp]: "length (push_instrs n data) = (n + 1) div 2"
  by (simp add: push_instrs_def)

lemma push_instrs_cong:
  "(\<And>i. i < n \<Longrightarrow> d ! i = d' ! i) \<Longrightarrow> push_instrs n d = push_instrs n d'"
  by (auto simp: push_instrs_def push_pair_def)

lemma appendPush_ok:
  assumes b: "built b out" and pos: "length out \<le> pos" "pos < length cd" "length cd \<le> length (cb_code b)"
    and n: "0 < n"
  shows "\<exists>b'. appendPush pos n cd b = Ret b' \<and> built b' (out @ push_instrs n (push_data cd (pos + 1) n)) \<and>
    length cd \<le> length (cb_code b')"
proof (cases "length cd < pos + n + 2")
  case False
  have "push_instrs n (push_data cd (pos + 1) n) = push_instrs n (take n (drop (pos + 1) cd))"
    using False by (intro push_instrs_cong) (simp add: push_data_def)
  moreover have "length out + length (push_instrs n (take n (drop (pos + 1) cd))) \<le> length (cb_code b)"
    using False pos by simp
  ultimately show ?thesis
    using False emitsD [OF emits_push [OF n, of "take n (drop (pos + 1) cd)"] b] pos(3)
    by (auto simp: appendPush_def)
next
  case True
  define d where "d = pos + n + 2 - length cd"
  define ext where "ext = (if 0 < d mod 2 then d div 2 + 1 else d div 2)"
  define b2 where "b2 = b\<lparr>cb_code := RightPadSlice zero_instr (cb_code b) (length (cb_code b) + ext)\<rparr>"
  have d: "0 < d" using True by (simp add: d_def)
  then have ext: "0 < ext" "d \<le> 2 * ext" by (auto simp: ext_def)
  have b2: "built b2 out" "length (cb_code b2) = length (cb_code b) + ext"
  proof -
    show "length (cb_code b2) = length (cb_code b) + ext" by (simp add: b2_def RightPadSlice_def)
    have "replicate (length (cb_code b) + ext - length out) zero_instr =
        replicate (length (cb_code b) - length out) zero_instr @ replicate ext zero_instr"
      using b by (simp add: built_def replicate_add [symmetric])
    then show "built b2 out" using b by (simp add: built_def b2_def RightPadSlice_def)
  qed
  have "length out + (n + 1) div 2 \<le> length (cb_code b2)"
    using pos ext(2) b2(2) by (simp add: d_def)
  moreover have "push_instrs n (push_data cd (pos + 1) n)
      = push_instrs n (RightPadSlice 0 (drop (pos + 1) cd) (n + 1))"
    by (intro push_instrs_cong) (auto simp: push_data_def RightPadSlice_def nth_append)
  moreover have "appendPush pos n cd b = appendPushData n (RightPadSlice 0 (drop (pos + 1) cd) (n + 1)) b2"
    using True ext(1)
    by (simp only: appendPush_def Let_def d_def [symmetric] ext_def [symmetric] b2_def if_True)
  ultimately show ?thesis
    using emitsD [OF emits_push [OF n, of "RightPadSlice 0 (drop (pos + 1) cd) (n + 1)"] b2(1)]
      pos(3) b2(2)
    by auto
qed

section \<open>One step of the conversion\<close>

text \<open>
  What an instruction (or super instruction) at \<open>i\<close> contributes: instructions that are no
  jump destinations, no more than the bytes consumed, which end at the start of an
  instruction and contain no jump destination.
\<close>

definition no_dest :: "bytes \<Rightarrow> nat \<Rightarrow> nat \<Rightarrow> bool" where
  "no_dest cd i k \<longleftrightarrow>
     reached cd i (i + k) \<and>
     (\<forall>j < i + k. reached cd i j \<longrightarrow> j < length cd \<longrightarrow> unat (cd ! j) \<noteq> JUMPDEST)"

definition step_ok :: "bytes \<Rightarrow> nat \<Rightarrow> nat \<Rightarrow> Instruction list \<Rightarrow> bool" where
  "step_ok cd i inc xs \<longleftrightarrow>
     length xs \<le> inc + 1 \<and> list_all (\<lambda>x. opcode x \<noteq> JUMPDEST) xs \<and> no_dest cd i (inc + 1)"

lemma reached_le: "reached cd i j \<Longrightarrow> i \<le> j"
  by (induction rule: reached.induct) auto

lemma no_dest_0: "no_dest cd i 0"
  using reached_le by (fastforce simp: no_dest_def intro: reached.here)

lemma no_dest_cons:
  assumes "i < length cd" and "unat (cd ! i) \<noteq> JUMPDEST" and "no_dest cd (i + Width (unat (cd ! i))) k"
  shows "no_dest cd i (Width (unat (cd ! i)) + k)"
  using assms reached_front [OF assms(1)] by (auto simp: no_dest_def add.assoc)

text \<open>A sequence of instructions in the code.\<close>

fun ops_at :: "bytes \<Rightarrow> nat \<Rightarrow> OpCode list \<Rightarrow> bool" where
  "ops_at cd i [] \<longleftrightarrow> True"
| "ops_at cd i (op # ops) \<longleftrightarrow>
     i < length cd \<and> unat (cd ! i) = op \<and> op \<noteq> JUMPDEST \<and> ops_at cd (i + Width op) ops"

lemma ops_at_no_dest: "ops_at cd i ops \<Longrightarrow> no_dest cd i (sum_list (map Width ops))"
proof (induction ops arbitrary: i)
  case Nil
  then show ?case by (simp add: no_dest_0)
next
  case (Cons op ops)
  then show ?case using no_dest_cons [of i cd "sum_list (map Width ops)"] by auto
qed

text \<open>The instructions of a base instruction.\<close>

definition instrs_of :: "bytes \<Rightarrow> nat \<Rightarrow> Instruction list" where
  "instrs_of cd i =
     (let op = unat (cd ! i) in
      if op = PC then [\<lparr>opcode = PC, arg = word_of_nat i\<rparr>]
      else if PUSH1 \<le> op \<and> op \<le> PUSH32
        then push_instrs (op - PUSH1 + 1) (push_data cd (i + 1) (op - PUSH1 + 1))
      else [\<lparr>opcode = op, arg = 0\<rparr>])"

lemma appendInstruction_ok:
  assumes b: "built b out" and pos: "length out \<le> i" "i < length cd" "length cd \<le> length (cb_code b)"
    and i: "i \<le> 65535"
  shows "\<exists>b'. appendInstruction i cd b = Ret (Width (unat (cd ! i)) - 1, b') \<and>
    built b' (out @ instrs_of cd i) \<and> length cd \<le> length (cb_code b')"
proof -
  define op where "op = unat (cd ! i)"
  have room: "length out + 1 \<le> length (cb_code b)" using pos by simp
  consider "op = PC" | "PUSH1 \<le> op \<and> op \<le> PUSH32" | "op \<noteq> PC" "\<not> (PUSH1 \<le> op \<and> op \<le> PUSH32)"
    by auto
  then show ?thesis
  proof cases
    case 1
    then show ?thesis using emitsD [OF emits_appendOp b, of PC "word_of_nat i"] room i pos(3)
      by (auto simp: appendInstruction_def instrs_of_def op_def [symmetric] Width_def)
  next
    case 2
    then have "0 < op - PUSH1 + 1" "op \<noteq> PC" by auto
    from appendPush_ok [OF b pos this(1)] 2 this(2) show ?thesis
      by (auto simp: appendInstruction_def instrs_of_def op_def [symmetric] Width_def)
  next
    case 3
    then show ?thesis using emitsD [OF emits_appendCode b, of op] room pos(3)
      by (auto simp: appendInstruction_def instrs_of_def op_def [symmetric] Width_def)
  qed
qed

lemma instrs_of_step:
  assumes "i < length cd" and "unat (cd ! i) \<noteq> JUMPDEST"
  shows "step_ok cd i (Width (unat (cd ! i)) - 1) (instrs_of cd i)"
proof -
  have "no_dest cd i (Width (unat (cd ! i)) - 1 + 1)"
    using no_dest_cons [OF assms no_dest_0] Width_pos [of "unat (cd ! i)"] by simp
  with assms show ?thesis
    by (auto simp: step_ok_def instrs_of_def Let_def Width_def push_instrs_def push_pair_def list_all_iff)
qed

section \<open>Super instructions\<close>

definition super_ok ::
  "bytes \<Rightarrow> nat \<Rightarrow> Instruction list \<Rightarrow> codeBuilder \<Rightarrow> (nat \<times> codeBuilder) go \<Rightarrow> bool" where
  "super_ok cd i out b r \<longleftrightarrow>
     r = Ret (0, b) \<or>
     (\<exists>n xs b'. r = Ret (n, b') \<and> 0 < n \<and> built b' (out @ xs) \<and> step_ok cd i n xs \<and>
        length (cb_code b') = length (cb_code b))"

lemma super_if:
  "(P \<Longrightarrow> super_ok cd i out b x) \<Longrightarrow> super_ok cd i out b y \<Longrightarrow> super_ok cd i out b (if P then x else y)"
  by simp

lemma super_case:
  assumes "emits f (x # xs)" and "built b out" and "length out \<le> i" and "length cd \<le> length (cb_code b)"
    and ops: "ops_at cd i (decompose (opcode x))" and n: "n + 1 = sum_list (map Width (decompose (opcode x)))"
    and "i + n < length cd"
    and xs: "length xs < n + 1" "list_all (\<lambda>x. opcode x \<noteq> JUMPDEST) (x # xs)" and "0 < n"
  shows "super_ok cd i out b (go_bind (f b) (\<lambda>b. Ret (n, b)))"
proof -
  have "step_ok cd i n (x # xs)" using ops_at_no_dest [OF ops] n xs by (simp add: step_ok_def)
  moreover have "length out + length (x # xs) \<le> length (cb_code b)" using assms(3,4,7) xs by simp
  ultimately show ?thesis
    using emitsD [OF assms(1,2)] \<open>0 < n\<close> by (auto simp: super_ok_def)
qed

lemma emits_two: "emits (\<lambda>b. go_bind (appendOp p a b) (appendData d))
    [\<lparr>opcode = p, arg = a\<rparr>, \<lparr>opcode = DATA, arg = d\<rparr>]"
  using emits_bind [OF emits_appendOp emits_appendData] by simp

lemma emits_three: "emits (\<lambda>b. go_bind (appendOp p a b) (\<lambda>b. go_bind (appendData d b) (appendData e)))
    [\<lparr>opcode = p, arg = a\<rparr>, \<lparr>opcode = DATA, arg = d\<rparr>, \<lparr>opcode = DATA, arg = e\<rparr>]"
  using emits_bind [OF emits_appendOp emits_bind [OF emits_appendData emits_appendData]] by simp

text \<open>The sequence at an offset \<open>k\<close> from \<open>i\<close>, the form of the conditions of the code.\<close>

fun ops_off :: "bytes \<Rightarrow> nat \<Rightarrow> nat \<Rightarrow> OpCode list \<Rightarrow> bool" where
  "ops_off cd i k [] \<longleftrightarrow> True"
| "ops_off cd i k (op # ops) \<longleftrightarrow>
     unat (cd ! (i + k)) = op \<and> op \<noteq> JUMPDEST \<and> ops_off cd i (k + Width op) ops"

lemma ops_off_at:
  "ops_off cd i k ops \<Longrightarrow> i + k + sum_list (map Width ops) \<le> length cd \<Longrightarrow> ops_at cd (i + k) ops"
proof (induction ops arbitrary: k)
  case (Cons op ops)
  from Cons.prems(2) Width_pos [of op] have "i + k < length cd" by (simp only: list.map sum_list.Cons)
  with Cons show ?case using Cons.IH [of "k + Width op"] by (auto simp: add.assoc)
qed simp

lemma super_step:
  assumes "built b out" and "length out \<le> i" and "length cd \<le> length (cb_code b)"
    and "emits f (x # xs)" and "super_ok cd i out b y"
    and "P \<Longrightarrow> i + n < length cd \<and> ops_off cd i 0 (decompose (opcode x))"
    and "n + 1 = sum_list (map Width (decompose (opcode x)))"
    and "length xs < n + 1" "list_all (\<lambda>x. opcode x \<noteq> JUMPDEST) (x # xs)" and "0 < n"
  shows "super_ok cd i out b (if P then go_bind (f b) (\<lambda>b. Ret (n, b)) else y)"
proof (cases P)
  case True
  then have "ops_at cd i (decompose (opcode x))" "i + n < length cd"
    using ops_off_at [of cd i 0] assms(6,7) by auto
  from super_case [OF assms(4,1-3) this(1) assms(7) this(2) assms(8-10)] True show ?thesis by simp
qed (simp add: assms(5))

lemma appendSuperInstructions_ok:
  assumes "built b out" and "length out \<le> i" and "length cd \<le> length (cb_code b)"
  shows "super_ok cd i out b (appendSuperInstructions i cd b)"
  unfolding appendSuperInstructions_def Let_def
  apply (rule super_step [OF assms emits_three])
  apply (rule super_step [OF assms emits_two])
  apply ((rule super_step [OF assms emits_appendCode] super_step [OF assms emits_appendOp])+)
  apply (simp add: super_ok_def)
  apply (simp_all add: decompose_def Width_def del: One_nat_def add_Suc_right add_2_eq_Suc add_2_eq_Suc')
  done

section \<open>The layout of the converted code\<close>

text \<open>
  \<open>unit_at cd super i n xs\<close>: the instruction at \<open>i\<close> (with super instructions, the sequence of
  instructions) takes \<open>n + 1\<close> bytes and is converted to \<open>xs\<close>.
\<close>

definition unit_at :: "bytes \<Rightarrow> bool \<Rightarrow> nat \<Rightarrow> nat \<Rightarrow> Instruction list \<Rightarrow> bool" where
  "unit_at cd super i n xs \<longleftrightarrow>
     n + 1 = Width (unat (cd ! i)) \<and> xs = instrs_of cd i \<or> super \<and> step_ok cd i n xs"

lemma super_unit:
  assumes "super_ok cd i out b r" and "r = Ret (n, b')" and "0 < n"
  shows "\<exists>xs. built b' (out @ xs) \<and> step_ok cd i n xs \<and> length (cb_code b') = length (cb_code b)"
  using assms by (auto simp: super_ok_def)

lemma appendInstructions_ok:
  assumes b: "built b out" and pos: "length out \<le> i" "i < length cd" "length cd \<le> length (cb_code b)"
    and i: "i \<le> 65535" and dest: "unat (cd ! i) \<noteq> JUMPDEST"
  shows "\<exists>n xs b'. appendInstructions i cd super b = Ret (n, b') \<and> built b' (out @ xs) \<and>
    unit_at cd super i n xs \<and> step_ok cd i n xs \<and> length cd \<le> length (cb_code b')"
proof -
  obtain b1 where 1: "appendInstruction i cd b = Ret (Width (unat (cd ! i)) - 1, b1)"
    "built b1 (out @ instrs_of cd i)" "length cd \<le> length (cb_code b1)"
    using appendInstruction_ok [OF b pos i] by auto
  have base: "unit_at cd super i (Width (unat (cd ! i)) - 1) (instrs_of cd i)"
    using Width_pos [of "unat (cd ! i)"] by (simp add: unit_at_def)
  note step = instrs_of_step [OF pos(2) dest]
  have sup: "super_ok cd i out b (appendSuperInstructions i cd b)"
    by (rule appendSuperInstructions_ok [OF b pos(1,3)])
  show ?thesis
  proof (cases "super \<and> appendSuperInstructions i cd b \<noteq> Ret (0, b)")
    case True
    with sup obtain n xs b' where "appendSuperInstructions i cd b = Ret (n, b')" "0 < n"
      "built b' (out @ xs)" "step_ok cd i n xs" "length (cb_code b') = length (cb_code b)"
      by (auto simp: super_ok_def)
    with True pos(3) show ?thesis by (auto simp: appendInstructions_def unit_at_def)
  next
    case False
    with 1 base step show ?thesis by (cases super) (auto simp: appendInstructions_def)
  qed
qed

text \<open>
  A placement \<open>M\<close> gives for the start of a converted unit its position in the long form and
  its extra bytes. Continuing at \<open>q\<close> in the long form stands for continuing at \<open>j\<close> in the
  byte code, either directly or over a \<open>JUMP_TO\<close>.
\<close>

definition linked :: "bytes \<Rightarrow> Instruction list \<Rightarrow> (nat \<rightharpoonup> nat \<times> nat) \<Rightarrow> nat \<Rightarrow> nat \<Rightarrow> bool" where
  "linked cd out M j q \<longleftrightarrow>
     (\<exists>p n. M j = Some (p, n) \<and>
        (p = q \<or> unat (cd ! j) = JUMPDEST \<and> q < j \<and> q < length out \<and>
                 out ! q = \<lparr>opcode = JUMP_TO, arg = word_of_nat j\<rparr>))"

definition placed :: "bytes \<Rightarrow> bool \<Rightarrow> Instruction list \<Rightarrow> nat \<Rightarrow> (nat \<rightharpoonup> nat \<times> nat) \<Rightarrow> nat \<Rightarrow> nat \<Rightarrow> nat \<Rightarrow> bool"
  where
  "placed cd super out cur M i p n \<longleftrightarrow>
     i < length cd \<and> i < cur \<and> instr_start cd i \<and> (unat (cd ! i) = JUMPDEST \<longrightarrow> p = i \<and> n = 0) \<and>
     (\<exists>xs. unit_at cd super i n xs \<and> p + length xs \<le> length out \<and> take (length xs) (drop p out) = xs \<and>
        (i + n + 1 = cur \<and> p + length xs = length out \<or> linked cd out M (i + n + 1) (p + length xs)))"

definition layout :: "bytes \<Rightarrow> bool \<Rightarrow> Instruction list \<Rightarrow> nat \<Rightarrow> (nat \<rightharpoonup> nat \<times> nat) \<Rightarrow> bool" where
  "layout cd super out cur M \<longleftrightarrow>
     length out \<le> cur \<and> instr_start cd cur \<and>
     (cur = 0 \<and> out = [] \<or> linked cd out M 0 0) \<and>
     (\<forall>i p n. M i = Some (p, n) \<longrightarrow> placed cd super out cur M i p n) \<and>
     (\<forall>d. d < length out \<and> opcode (out ! d) = JUMPDEST \<longleftrightarrow> valid_dest cd d \<and> d < cur) \<and>
     (\<forall>d. valid_dest cd d \<and> d < cur \<longrightarrow> d \<in> dom M)"

lemma reached_between:
  "reached cd 0 i \<Longrightarrow> reached cd 0 j \<Longrightarrow> i \<le> j \<Longrightarrow> reached cd i j"
proof (induction rule: reached.induct)
  case (onward i)
  have "i < j" using onward.prems(2) Width_pos [of "unat (cd ! i)"] by linarith
  then have "reached cd i j" "i \<noteq> j" using onward by auto
  with reached_front [OF onward.hyps(2)] show ?case by simp
qed simp

lemma reached_trans: "reached cd i j \<Longrightarrow> reached cd k i \<Longrightarrow> reached cd k j"
  by (induction rule: reached.induct) (auto intro: reached.intros)

lemma layout_start: "layout cd super [] 0 Map.empty"
  by (simp add: layout_def instr_start.start)

lemma linked_mono:
  assumes "linked cd out M j q" and "cur \<notin> dom M"
  shows "linked cd (out @ ys) (M(cur \<mapsto> v)) j q"
  using assms by (auto simp: linked_def nth_append)

text \<open>Placing one more unit, after the fillers that lead to a jump destination.\<close>

lemma placed_mono:
  assumes pl: "placed cd super out cur M i p n" and cur: "cur \<notin> dom M"
    and link: "linked cd (out @ ys) (M(cur \<mapsto> v)) cur (length out)" and "cur < cur'"
  shows "placed cd super (out @ ys) cur' (M(cur \<mapsto> v)) i p n"
proof -
  from pl obtain xs where xs: "unit_at cd super i n xs" "p + length xs \<le> length out"
    "take (length xs) (drop p out) = xs"
    "i + n + 1 = cur \<and> p + length xs = length out \<or> linked cd out M (i + n + 1) (p + length xs)"
    by (auto simp: placed_def)
  have "linked cd (out @ ys) (M(cur \<mapsto> v)) (i + n + 1) (p + length xs)"
    using xs(4) link linked_mono [OF _ cur] by metis
  then show ?thesis using pl xs \<open>cur < cur'\<close> by (auto simp: placed_def)
qed

lemma layout_extend:
  assumes lay: "layout cd super out cur M" and cur: "cur < length cd"
    and fill: "linked cd (out @ fs @ xs) (M(cur \<mapsto> (length (out @ fs), n))) cur (length out)"
    and unit: "unit_at cd super cur n xs" "length (out @ fs @ xs) \<le> cur + n + 1"
    and start: "instr_start cd (cur + n + 1)"
    and jd: "unat (cd ! cur) = JUMPDEST \<Longrightarrow> length (out @ fs) = cur \<and> n = 0"
    and dest: "\<And>d. d < length (out @ fs @ xs) \<and> length out \<le> d \<and> opcode ((out @ fs @ xs) ! d) = JUMPDEST
      \<longleftrightarrow> valid_dest cd d \<and> cur \<le> d \<and> d < cur + n + 1"
    and dom: "\<And>d. valid_dest cd d \<Longrightarrow> cur \<le> d \<Longrightarrow> d < cur + n + 1 \<Longrightarrow> d = cur"
  shows "layout cd super (out @ fs @ xs) (cur + n + 1) (M(cur \<mapsto> (length (out @ fs), n)))"
proof -
  let ?M = "M(cur \<mapsto> (length (out @ fs), n))" and ?out = "out @ fs @ xs"
  from lay have old: "\<And>i p n. M i = Some (p, n) \<Longrightarrow> placed cd super out cur M i p n"
    and len: "length out \<le> cur" and here: "instr_start cd cur"
    and d0: "\<And>d. d < length out \<and> opcode (out ! d) = JUMPDEST \<longleftrightarrow> valid_dest cd d \<and> d < cur"
    and dm: "\<And>d. valid_dest cd d \<and> d < cur \<Longrightarrow> d \<in> dom M"
    and l0: "cur = 0 \<and> out = [] \<or> linked cd out M 0 0"
    unfolding layout_def by blast+
  have nin: "cur \<notin> dom M" using old by (fastforce simp: placed_def)
  have "linked cd ?out ?M 0 0" using l0 fill linked_mono [OF _ nin] by auto
  moreover have "placed cd super ?out (cur + n + 1) ?M i p k" if "?M i = Some (p, k)" for i p k
  proof (cases "i = cur")
    case True
    then show ?thesis using that unit cur here jd by (auto simp: placed_def)
  next
    case False
    then show ?thesis using that old by (intro placed_mono [OF _ nin fill]) auto
  qed
  moreover have "d < length ?out \<and> opcode (?out ! d) = JUMPDEST \<longleftrightarrow> valid_dest cd d \<and> d < cur + n + 1" for d
    using d0 [of d] dest [of d] len by (cases "d < length out") (auto simp: nth_append)
  moreover have "d \<in> dom ?M" if "valid_dest cd d" "d < cur + n + 1" for d
    using that dm dom [of d] by (cases "d < cur") auto
  ultimately show ?thesis using unit(2) start unfolding layout_def by blast
qed

text \<open>The two kinds of iterations of the loop keep the layout.\<close>

lemma layout_unit:
  assumes lay: "layout cd super out i M" and i: "i < length cd" and dest: "unat (cd ! i) \<noteq> JUMPDEST"
    and unit: "unit_at cd super i n xs" and step: "step_ok cd i n xs"
  shows "layout cd super (out @ xs) (i + n + 1) (M(i \<mapsto> (length out, n)))"
proof -
  from lay have start: "instr_start cd i" and len: "length out \<le> i" by (auto simp: layout_def)
  have no: "\<not> (valid_dest cd d \<and> i \<le> d \<and> d < i + n + 1)" for d
    using step reached_between [of cd i d] start
    by (auto simp: step_ok_def no_dest_def valid_dest_def instr_start_reached)
  have "instr_start cd (i + n + 1)"
    using step start reached_trans [of cd i "i + n + 1" 0]
    by (simp add: step_ok_def no_dest_def instr_start_reached)
  moreover have "opcode ((out @ xs) ! d) \<noteq> JUMPDEST" if "length out \<le> d" "d < length (out @ xs)" for d
    using that step by (auto simp: step_ok_def list_all_length nth_append)
  moreover have "length (out @ xs) \<le> i + n + 1" using step len by (simp add: step_ok_def)
  ultimately show ?thesis
    using layout_extend [OF lay i, of "[]" xs n] unit dest no by (simp add: linked_def) metis
qed

definition fillers :: "nat \<Rightarrow> nat \<Rightarrow> Instruction list" where
  "fillers k i = (if k < i then \<lparr>opcode = JUMP_TO, arg = word_of_nat i\<rparr> #
     replicate (i - k - 1) \<lparr>opcode = NOOP, arg = 0\<rparr> else [])"

lemma layout_dest:
  assumes lay: "layout cd super out i M" and i: "i < length cd" and dest: "unat (cd ! i) = JUMPDEST"
  shows "layout cd super (out @ fillers (length out) i @ [\<lparr>opcode = JUMPDEST, arg = 0\<rparr>]) (i + 1) (M(i \<mapsto> (i, 0)))"
proof -
  let ?f = "fillers (length out) i"
  from lay have start: "instr_start cd i" and len: "length out \<le> i" by (auto simp: layout_def)
  have lf: "length (out @ ?f) = i" using len by (simp add: fillers_def)
  have nf: "opcode (?f ! k) \<noteq> JUMPDEST" if "k < length ?f" for k
    using that by (auto simp: fillers_def nth_Cons split: if_splits nat.splits)
  have "instr_start cd (i + 0 + 1)" using instr_start.next_instr [OF start i] dest by (simp add: Width_def)
  moreover have "linked cd (out @ ?f @ [\<lparr>opcode = JUMPDEST, arg = 0\<rparr>]) (M(i \<mapsto> (i, 0))) i (length out)"
    using dest len by (auto simp: linked_def fillers_def nth_append)
  moreover have "unit_at cd super i 0 [\<lparr>opcode = JUMPDEST, arg = 0\<rparr>]"
    using dest by (simp add: unit_at_def instrs_of_def Width_def)
  moreover have "d < length (out @ ?f @ [\<lparr>opcode = JUMPDEST, arg = 0\<rparr>]) \<and> length out \<le> d \<and>
      opcode ((out @ ?f @ [\<lparr>opcode = JUMPDEST, arg = 0\<rparr>]) ! d) = JUMPDEST
      \<longleftrightarrow> valid_dest cd d \<and> i \<le> d \<and> d < i + 0 + 1" for d
    using lf nf [of "d - length out"] start i dest
    by (cases "d = i") (auto simp: nth_append valid_dest_def)
  ultimately show ?thesis using layout_extend [OF lay i, of ?f "[\<lparr>opcode = JUMPDEST, arg = 0\<rparr>]" 0] lf by simp
qed

lemma append_dest:
  assumes b: "built b out" and pos: "length out \<le> i" "i < length (cb_code b)"
  shows "\<exists>b'. go_bind (if nextPos b < i then appendOp JUMP_TO (word_of_nat i) b else Ret b) (\<lambda>b.
      go_bind (padNoOpsUntil i b) (\<lambda>b. appendCode JUMPDEST b)) = Ret b' \<and>
    built b' (out @ fillers (length out) i @ [\<lparr>opcode = JUMPDEST, arg = 0\<rparr>]) \<and>
    length (cb_code b') = length (cb_code b)"
proof -
  let ?f = "if length out < i then [\<lparr>opcode = JUMP_TO, arg = word_of_nat i\<rparr>] else []"
  have "nextPos b = length out" using b by (simp add: built_def)
  then obtain b1 where 1: "(if nextPos b < i then appendOp JUMP_TO (word_of_nat i) b else Ret b) = Ret b1"
    "built b1 (out @ ?f)" "length (cb_code b1) = length (cb_code b)"
    using emitsD [OF emits_appendOp b, of JUMP_TO "word_of_nat i"] pos b by (cases "length out < i") auto
  have "length (out @ ?f) \<le> i" "i \<le> length (cb_code b1)" using pos 1(3) by auto
  from emits_pad [OF 1(2) this] obtain b2 where 2: "padNoOpsUntil i b1 = Ret b2" "length (cb_code b2) = length (cb_code b)"
    "built b2 ((out @ ?f) @ replicate (i - length (out @ ?f)) \<lparr>opcode = NOOP, arg = 0\<rparr>)"
    using 1(3) by auto
  then have b2: "built b2 (out @ fillers (length out) i)" "length (out @ fillers (length out) i) = i"
    using pos by (auto simp: fillers_def)
  show ?thesis using 1(1) 2(1,2) emitsD [OF emits_appendCode b2(1), of JUMPDEST] pos(2) b2(2)
    by auto
qed

lemma convert_loop_layout:
  assumes "built b out" and "layout cd super out i M" and "length cd \<le> length (cb_code b)"
    and "length cd \<le> 65536"
  shows "\<exists>b' out' cur M'. convert_loop cd super i b = Ret b' \<and> built b' out' \<and>
    layout cd super out' cur M' \<and> length cd \<le> cur"
  using assms
proof (induction "length cd - i" arbitrary: i b out M rule: less_induct)
  case less
  note b = less.prems(1) and lay = less.prems(2)
  have len: "length out \<le> i" using lay by (simp add: layout_def)
  consider "length cd \<le> i" | "i < length cd" "unat (cd ! i) = JUMPDEST" | "i < length cd" "unat (cd ! i) \<noteq> JUMPDEST"
    by linarith
  then show ?case
  proof cases
    case 1
    then have "convert_loop cd super i b = Ret b" by (subst convert_loop.simps) simp
    with b lay 1 show ?thesis by blast
  next
    case 2
    from append_dest [OF b len] 2 less.prems(3) obtain b' where b':
      "go_bind (if nextPos b < i then appendOp JUMP_TO (word_of_nat i) b else Ret b) (\<lambda>b.
        go_bind (padNoOpsUntil i b) (\<lambda>b. appendCode JUMPDEST b)) = Ret b'"
      "built b' (out @ fillers (length out) i @ [\<lparr>opcode = JUMPDEST, arg = 0\<rparr>])"
      "length (cb_code b') = length (cb_code b)" by auto
    have "convert_loop cd super i b = convert_loop cd super (i + 1) b'"
      using b'(1) 2 by (subst convert_loop.simps) (auto simp: go_bind_Ret_iff)
    moreover have "\<exists>b'' out' cur M'. convert_loop cd super (i + 1) b' = Ret b'' \<and> built b'' out' \<and>
        layout cd super out' cur M' \<and> length cd \<le> cur"
      using 2 b'(3) less.prems(3,4) by (intro less.hyps [OF _ b'(2) layout_dest [OF lay 2]]) auto
    ultimately show ?thesis by simp
  next
    case 3
    obtain n xs b' where s: "appendInstructions i cd super b = Ret (n, b')" "built b' (out @ xs)"
      "unit_at cd super i n xs" "step_ok cd i n xs" "length cd \<le> length (cb_code b')"
      using appendInstructions_ok [OF b len 3(1) less.prems(3) _ 3(2)] 3(1) less.prems(4) by fastforce
    have "convert_loop cd super i b = convert_loop cd super (i + n + 1) b'"
      using s(1) 3 by (subst convert_loop.simps) simp
    moreover have "\<exists>b'' out' cur M'. convert_loop cd super (i + n + 1) b' = Ret b'' \<and> built b'' out' \<and>
        layout cd super out' cur M' \<and> length cd \<le> cur"
      using 3 less.prems(4) by (intro less.hyps [OF _ s(2) layout_unit [OF lay 3 s(3,4)] s(5)]) auto
    ultimately show ?thesis by simp
  qed
qed

lemma toCode_built: "built b out \<Longrightarrow> toCode b = out"
  by (metis append_eq_conv_conj built_def toCode_def)

lemma convert_layout:
  assumes "length cd \<le> 65536"
  shows "\<exists>code cur M. convert cd super = Ret code \<and> layout cd super code cur M \<and> length cd \<le> cur"
proof -
  have "built (newCodeBuilder (length cd)) []" "length cd \<le> length (cb_code (newCodeBuilder (length cd)))"
    by (auto simp: newCodeBuilder_def built_def)
  then obtain b out cur M where "convert_loop cd super 0 (newCodeBuilder (length cd)) = Ret b"
    "built b out" "layout cd super out cur M" "length cd \<le> cur"
    using convert_loop_layout [OF _ layout_start _ assms] by metis
  then show ?thesis by (auto simp: convert_def toCode_built)
qed

end
