(* ===== verification/Uniformity.thy ===== *)
theory Uniformity
  imports Exec_Logic
begin

text \<open>
  The shared instructions do not look at the program counter nor at the extension of the
  context record, and they use the world state through the run context only. So on contexts
  that agree on all other fields, whose world states are related by a relation that the
  operations of the run contexts respect, they return the same value or error and contexts
  that agree again. The facts are transfer rules, proved along the structure of the
  definitions.
\<close>

section \<open>Related run contexts\<close>

text \<open>
  The methods of the run context that the instructions call: they read accounts, storage and
  block hashes, write storage and transient storage, emit logs, mark accesses, destruct
  accounts and make nested calls. They do not set balances, nonces or codes, create accounts
  or use snapshots.
\<close>

definition rc_rel :: "('v \<Rightarrow> 'w \<Rightarrow> bool) \<Rightarrow> 'v RunContext \<Rightarrow> 'w RunContext \<Rightarrow> bool" where
  "rc_rel A r s \<longleftrightarrow>
     rel_fun A (rel_fun (=) (=)) (GetBalance r) (GetBalance s) \<and>
     rel_fun A (rel_fun (=) (=)) (GetNonce r) (GetNonce s) \<and>
     rel_fun A (rel_fun (=) (=)) (GetCode r) (GetCode s) \<and>
     rel_fun A (rel_fun (=) (=)) (GetCodeHash r) (GetCodeHash s) \<and>
     rel_fun A (rel_fun (=) (=)) (GetCodeSize r) (GetCodeSize s) \<and>
     rel_fun A (rel_fun (=) (rel_fun (=) (=))) (GetStorage r) (GetStorage s) \<and>
     rel_fun (=) (rel_fun (=) (rel_fun (=) (rel_fun A (rel_prod (=) A)))) (SetStorage r) (SetStorage s) \<and>
     rel_fun (=) (rel_fun (=) (rel_fun A (rel_prod (=) A))) (SelfDestruct r) (SelfDestruct s) \<and>
     rel_fun A (rel_fun (=) (rel_fun (=) (=))) (GetTransientStorage r) (GetTransientStorage s) \<and>
     rel_fun (=) (rel_fun (=) (rel_fun (=) (rel_fun A A))) (SetTransientStorage r) (SetTransientStorage s) \<and>
     rel_fun (=) (rel_fun A (rel_prod (=) A)) (AccessAccount r) (AccessAccount s) \<and>
     rel_fun (=) (rel_fun (=) (rel_fun A (rel_prod (=) A))) (AccessStorage r) (AccessStorage s) \<and>
     rel_fun (=) (rel_fun A A) (EmitLog r) (EmitLog s) \<and>
     rel_fun A (rel_fun (=) (=)) (GetBlockHash r) (GetBlockHash s) \<and>
     rel_fun (=) (rel_fun (=) (rel_fun A (rel_prod (=) A))) (CallOp r) (CallOp s)"

lemma rc_rel_fields [transfer_rule]:
  "rel_fun (rc_rel A) (rel_fun A (rel_fun (=) (=))) GetBalance GetBalance"
  "rel_fun (rc_rel A) (rel_fun A (rel_fun (=) (=))) GetNonce GetNonce"
  "rel_fun (rc_rel A) (rel_fun A (rel_fun (=) (=))) GetCode GetCode"
  "rel_fun (rc_rel A) (rel_fun A (rel_fun (=) (=))) GetCodeHash GetCodeHash"
  "rel_fun (rc_rel A) (rel_fun A (rel_fun (=) (=))) GetCodeSize GetCodeSize"
  "rel_fun (rc_rel A) (rel_fun A (rel_fun (=) (rel_fun (=) (=)))) GetStorage GetStorage"
  "rel_fun (rc_rel A) (rel_fun (=) (rel_fun (=) (rel_fun (=) (rel_fun A (rel_prod (=) A))))) SetStorage SetStorage"
  "rel_fun (rc_rel A) (rel_fun (=) (rel_fun (=) (rel_fun A (rel_prod (=) A)))) SelfDestruct SelfDestruct"
  "rel_fun (rc_rel A) (rel_fun A (rel_fun (=) (rel_fun (=) (=)))) GetTransientStorage GetTransientStorage"
  "rel_fun (rc_rel A) (rel_fun (=) (rel_fun (=) (rel_fun (=) (rel_fun A A)))) SetTransientStorage SetTransientStorage"
  "rel_fun (rc_rel A) (rel_fun (=) (rel_fun A (rel_prod (=) A))) AccessAccount AccessAccount"
  "rel_fun (rc_rel A) (rel_fun (=) (rel_fun (=) (rel_fun A (rel_prod (=) A)))) AccessStorage AccessStorage"
  "rel_fun (rc_rel A) (rel_fun (=) (rel_fun A A)) EmitLog EmitLog"
  "rel_fun (rc_rel A) (rel_fun A (rel_fun (=) (=))) GetBlockHash GetBlockHash"
  "rel_fun (rc_rel A) (rel_fun (=) (rel_fun (=) (rel_fun A (rel_prod (=) A)))) CallOp CallOp"
  by (rule rel_funI, simp only: rc_rel_def)+

definition env_rel :: "('v \<Rightarrow> 'w \<Rightarrow> bool) \<Rightarrow> 'v env \<Rightarrow> 'w env \<Rightarrow> bool" where
  "env_rel A E F \<longleftrightarrow>
     rc_rel A (rc E) (rc F) \<and> u256lib E = u256lib F \<and> Keccak256 E = Keccak256 F \<and>
     sha3Cache_hash E = sha3Cache_hash F"

lemma env_rel_fields [transfer_rule]:
  "rel_fun (env_rel A) (rc_rel A) rc rc" "rel_fun (env_rel A) (=) u256lib u256lib"
  "rel_fun (env_rel A) (=) Keccak256 Keccak256" "rel_fun (env_rel A) (=) sha3Cache_hash sha3Cache_hash"
  by (simp_all add: env_rel_def rel_fun_def)

lemma env_rel_refl: "env_rel (=) E E"
  by (simp add: env_rel_def rc_rel_def rel_fun_def rel_prod_conv split: prod.splits)

section \<open>Contexts that agree\<close>

text \<open>
  \<open>P\<close> relates the parts that the instructions do not touch, the program counters and the
  extensions.
\<close>

definition alike ::
  "('v \<Rightarrow> 'w \<Rightarrow> bool) \<Rightarrow> (int \<times> 'y \<Rightarrow> int \<times> 'z \<Rightarrow> bool) \<Rightarrow> ('v, 'y) ctxt_scheme \<Rightarrow> ('w, 'z) ctxt_scheme \<Rightarrow> bool" where
  "alike A P c d \<longleftrightarrow>
     params c = params d \<and> A (world c) (world d) \<and> gas c = gas d \<and> refund c = refund d \<and>
     stack c = stack d \<and> memory c = memory d \<and> returnData c = returnData d \<and>
     withShaCache c = withShaCache d \<and> P (pc c, ctxt.more c) (pc d, ctxt.more d)"

abbreviation alike_res ::
  "('v \<Rightarrow> 'w \<Rightarrow> bool) \<Rightarrow> (int \<times> 'y \<Rightarrow> int \<times> 'z \<Rightarrow> bool) \<Rightarrow>
   (('v, 'y) ctxt_scheme, 'a) res \<Rightarrow> (('w, 'z) ctxt_scheme, 'a) res \<Rightarrow> bool" where
  "alike_res A P \<equiv> rel_prod (=) (alike A P)"

lemma alike_fields [transfer_rule]:
  "rel_fun (alike A P) (=) params params" "rel_fun (alike A P) A world world"
  "rel_fun (alike A P) (=) gas gas" "rel_fun (alike A P) (=) refund refund"
  "rel_fun (alike A P) (=) stack stack" "rel_fun (alike A P) (=) memory memory"
  "rel_fun (alike A P) (=) returnData returnData" "rel_fun (alike A P) (=) withShaCache withShaCache"
  by (simp_all add: alike_def rel_fun_def)

lemma alike_updates [transfer_rule]:
  "rel_fun (rel_fun A A) (rel_fun (alike A P) (alike A P)) world_update world_update"
  "rel_fun (=) (rel_fun (alike A P) (alike A P)) gas_update gas_update"
  "rel_fun (=) (rel_fun (alike A P) (alike A P)) refund_update refund_update"
  "rel_fun (=) (rel_fun (alike A P) (alike A P)) stack_update stack_update"
  "rel_fun (=) (rel_fun (alike A P) (alike A P)) memory_update memory_update"
  "rel_fun (=) (rel_fun (alike A P) (alike A P)) returnData_update returnData_update"
  by (simp_all add: alike_def rel_fun_def)

lemma alike_ret [transfer_rule]: "rel_fun (=) (rel_fun (alike A P) (alike_res A P)) ret ret"
  by (simp add: ret_def rel_fun_def)

lemma alike_fail [transfer_rule]: "rel_fun (=) (rel_fun (alike A P) (alike_res A P)) fail fail"
  by (simp add: fail_def rel_fun_def)

lemma alike_bind [transfer_rule]:
  "rel_fun (alike_res A P) (rel_fun (rel_fun (=) (rel_fun (alike A P) (alike_res A P))) (alike_res A P)) bind bind"
  by (auto simp: bind_def rel_fun_def split: sum.splits)

lemma alike_on_error [transfer_rule]:
  "rel_fun (rel_fun (alike A P) (alike A P)) (rel_fun (alike_res A P) (alike_res A P)) on_error on_error"
  by (auto simp: on_error_def rel_fun_def split: sum.splits)

lemma alike_bindI:
  "alike_res A P m m' \<Longrightarrow> (\<And>a c d. alike A P c d \<Longrightarrow> alike_res A P (f a c) (f' a d)) \<Longrightarrow>
   alike_res A P (bind m f) (bind m' f')"
  by (rule alike_bind [THEN rel_funD, THEN rel_funD]) (auto simp: rel_fun_def)

lemma alike_case_go [transfer_rule]:
  "rel_fun R (rel_fun (rel_fun (=) R) (rel_fun (=) R)) case_go case_go"
  by (auto simp: rel_fun_def split: go.splits)

lemma alike_case_sum [transfer_rule]:
  "rel_fun (rel_fun (=) R) (rel_fun (rel_fun (=) R) (rel_fun (=) R)) case_sum case_sum"
  by (auto simp: rel_fun_def split: sum.splits)

lemma alike_case_bool [transfer_rule]:
  "rel_fun R (rel_fun R (rel_fun (=) R)) case_bool case_bool"
  by (auto simp: rel_fun_def split: bool.splits)

lemma alike_case_access [transfer_rule]:
  "rel_fun R (rel_fun R (rel_fun (=) R)) case_AccessStatus case_AccessStatus"
  by (auto simp: rel_fun_def split: AccessStatus.splits)

section \<open>Stack, gas and memory\<close>

lemma alike_useGas [transfer_rule]: "rel_fun (=) (rel_fun (alike A P) (alike_res A P)) useGas useGas"
  unfolding useGas_def by transfer_prover

lemma alike_isAtLeast [transfer_rule]: "rel_fun (alike A P) (rel_fun (=) (=)) isAtLeast isAtLeast"
  unfolding isAtLeast_def by transfer_prover

lemma alike_pop [transfer_rule]: "rel_fun (alike A P) (alike_res A P) pop pop"
  unfolding pop_def by transfer_prover

lemma alike_push [transfer_rule]: "rel_fun (=) (rel_fun (alike A P) (alike_res A P)) push push"
  unfolding push_def by transfer_prover

lemma alike_peekN [transfer_rule]: "rel_fun (=) (rel_fun (alike A P) (alike_res A P)) peekN peekN"
  unfolding peekN_def by transfer_prover

lemma alike_setN [transfer_rule]: "rel_fun (=) (rel_fun (=) (rel_fun (alike A P) (alike_res A P))) setN setN"
  unfolding setN_def by transfer_prover

lemma alike_swap [transfer_rule]: "rel_fun (=) (rel_fun (alike A P) (alike_res A P)) swap swap"
  unfolding swap_def by transfer_prover

lemma alike_dup [transfer_rule]: "rel_fun (=) (rel_fun (alike A P) (alike_res A P)) dup dup"
  unfolding dup_def by transfer_prover

lemma alike_expandMemory [transfer_rule]:
  "rel_fun (=) (rel_fun (=) (rel_fun (alike A P) (alike_res A P))) expandMemory expandMemory"
  unfolding expandMemory_def by transfer_prover

lemma alike_getSlice [transfer_rule]: "rel_fun (=) (rel_fun (=) (rel_fun (alike A P) (alike_res A P))) getSlice getSlice"
  unfolding getSlice_def by transfer_prover

section \<open>Instructions\<close>

lemma alike_readWord [transfer_rule]: "rel_fun (=) (rel_fun (alike A P) (alike_res A P)) readWord readWord"
  unfolding readWord_def by transfer_prover

lemma alike_mem_set [transfer_rule]: "rel_fun (=) (rel_fun (=) (rel_fun (alike A P) (alike_res A P))) mem_set mem_set"
  unfolding mem_set_def by transfer_prover

lemma alike_stack_memory_ops [transfer_rule]:
  "rel_fun (alike A P) (alike_res A P) opEndWithResult opEndWithResult"
  "rel_fun (alike A P) (alike_res A P) opPop opPop"
  "rel_fun (alike A P) (alike_res A P) opPush0 opPush0"
  "rel_fun (=) (rel_fun (alike A P) (alike_res A P)) opDup opDup"
  "rel_fun (=) (rel_fun (alike A P) (alike_res A P)) opSwap opSwap"
  "rel_fun (alike A P) (alike_res A P) opMstore opMstore"
  "rel_fun (alike A P) (alike_res A P) opMstore8 opMstore8"
  "rel_fun (alike A P) (alike_res A P) opMcopy opMcopy"
  "rel_fun (alike A P) (alike_res A P) opMload opMload"
  "rel_fun (alike A P) (alike_res A P) opMsize opMsize"
  unfolding opEndWithResult_def opPop_def opPush0_def opDup_def opSwap_def opMstore_def opMstore8_def opMcopy_def opMload_def opMsize_def
  by transfer_prover+

lemma alike_storage_ops [transfer_rule]:
  "rel_fun (env_rel A) (rel_fun (alike A P) (alike_res A P)) opSstore opSstore"
  "rel_fun (env_rel A) (rel_fun (alike A P) (alike_res A P)) opSload opSload"
  "rel_fun (env_rel A) (rel_fun (alike A P) (alike_res A P)) opTstore opTstore"
  "rel_fun (env_rel A) (rel_fun (alike A P) (alike_res A P)) opTload opTload"
  unfolding opSstore_def opSload_def opTstore_def opTload_def
  by transfer_prover+

lemma alike_data_ops [transfer_rule]:
  "rel_fun (alike A P) (alike_res A P) opCaller opCaller"
  "rel_fun (alike A P) (alike_res A P) opCallvalue opCallvalue"
  "rel_fun (alike A P) (alike_res A P) opCallDatasize opCallDatasize"
  "rel_fun (alike A P) (alike_res A P) opCallDataload opCallDataload"
  unfolding opCaller_def opCallvalue_def opCallDatasize_def opCallDataload_def
  by transfer_prover+

lemma alike_genericDataCopy [transfer_rule]: "rel_fun (=) (rel_fun (alike A P) (alike_res A P)) genericDataCopy genericDataCopy"
  unfolding genericDataCopy_def by transfer_prover

lemma alike_logic_ops [transfer_rule]:
  "rel_fun (env_rel A) (rel_fun (alike A P) (alike_res A P)) opAnd opAnd"
  "rel_fun (env_rel A) (rel_fun (alike A P) (alike_res A P)) opOr opOr"
  "rel_fun (env_rel A) (rel_fun (alike A P) (alike_res A P)) opNot opNot"
  "rel_fun (env_rel A) (rel_fun (alike A P) (alike_res A P)) opXor opXor"
  "rel_fun (alike A P) (alike_res A P) opIszero opIszero"
  "rel_fun (env_rel A) (rel_fun (alike A P) (alike_res A P)) opEq opEq"
  "rel_fun (env_rel A) (rel_fun (alike A P) (alike_res A P)) opLt opLt"
  "rel_fun (env_rel A) (rel_fun (alike A P) (alike_res A P)) opGt opGt"
  "rel_fun (env_rel A) (rel_fun (alike A P) (alike_res A P)) opSlt opSlt"
  "rel_fun (env_rel A) (rel_fun (alike A P) (alike_res A P)) opSgt opSgt"
  unfolding opAnd_def opOr_def opNot_def opXor_def opIszero_def opEq_def opLt_def opGt_def opSlt_def opSgt_def
  by transfer_prover+

lemma alike_bits_ops [transfer_rule]:
  "rel_fun (env_rel A) (rel_fun (alike A P) (alike_res A P)) opShr opShr"
  "rel_fun (env_rel A) (rel_fun (alike A P) (alike_res A P)) opShl opShl"
  "rel_fun (env_rel A) (rel_fun (alike A P) (alike_res A P)) opSar opSar"
  "rel_fun (env_rel A) (rel_fun (alike A P) (alike_res A P)) opClz opClz"
  "rel_fun (env_rel A) (rel_fun (alike A P) (alike_res A P)) opSignExtend opSignExtend"
  "rel_fun (env_rel A) (rel_fun (alike A P) (alike_res A P)) opByte opByte"
  unfolding opShr_def opShl_def opSar_def opClz_def opSignExtend_def opByte_def
  by transfer_prover+

lemma alike_arith_ops [transfer_rule]:
  "rel_fun (env_rel A) (rel_fun (alike A P) (alike_res A P)) opAdd opAdd"
  "rel_fun (env_rel A) (rel_fun (alike A P) (alike_res A P)) opSub opSub"
  "rel_fun (env_rel A) (rel_fun (alike A P) (alike_res A P)) opMul opMul"
  "rel_fun (env_rel A) (rel_fun (alike A P) (alike_res A P)) opMulMod opMulMod"
  "rel_fun (env_rel A) (rel_fun (alike A P) (alike_res A P)) opDiv opDiv"
  "rel_fun (env_rel A) (rel_fun (alike A P) (alike_res A P)) opSDiv opSDiv"
  "rel_fun (env_rel A) (rel_fun (alike A P) (alike_res A P)) opMod opMod"
  "rel_fun (env_rel A) (rel_fun (alike A P) (alike_res A P)) opAddMod opAddMod"
  "rel_fun (env_rel A) (rel_fun (alike A P) (alike_res A P)) opSMod opSMod"
  "rel_fun (env_rel A) (rel_fun (alike A P) (alike_res A P)) opExp opExp"
  "rel_fun (env_rel A) (rel_fun (alike A P) (alike_res A P)) opSha3 opSha3"
  unfolding opAdd_def opSub_def opMul_def opMulMod_def opDiv_def opSDiv_def opMod_def opAddMod_def opSMod_def opExp_def opSha3_def
  by transfer_prover+

lemma alike_useAccessGas [transfer_rule]: "rel_fun (env_rel A) (rel_fun (=) (rel_fun (alike A P) (alike_res A P))) useAccessGas useAccessGas"
  unfolding useAccessGas_def by transfer_prover

lemma alike_isEmpty [transfer_rule]: "rel_fun (rc_rel A) (rel_fun A (rel_fun (=) (=))) isEmpty isEmpty"
  unfolding isEmpty_def by transfer_prover

lemma alike_account_ops [transfer_rule]:
  "rel_fun (env_rel A) (rel_fun (alike A P) (alike_res A P)) opBalance opBalance"
  "rel_fun (env_rel A) (rel_fun (alike A P) (alike_res A P)) opSelfbalance opSelfbalance"
  "rel_fun (env_rel A) (rel_fun (alike A P) (alike_res A P)) opExtcodesize opExtcodesize"
  "rel_fun (env_rel A) (rel_fun (alike A P) (alike_res A P)) opExtcodehash opExtcodehash"
  "rel_fun (env_rel A) (rel_fun (alike A P) (alike_res A P)) opExtCodeCopy opExtCodeCopy"
  "rel_fun (env_rel A) (rel_fun (alike A P) (alike_res A P)) opSelfdestruct opSelfdestruct"
  unfolding opBalance_def opSelfbalance_def opExtcodesize_def opExtcodehash_def opExtCodeCopy_def opSelfdestruct_def
  by transfer_prover+

lemma alike_forwardCreate [transfer_rule]: "rel_fun (env_rel A) (rel_fun (=) (rel_fun (=) (rel_fun (=) (rel_fun (=) (rel_fun (alike A P) (alike_res A P)))))) forwardCreate forwardCreate"
  unfolding forwardCreate_def by transfer_prover

lemma alike_genericCreate [transfer_rule]: "rel_fun (env_rel A) (rel_fun (=) (rel_fun (alike A P) (alike_res A P))) genericCreate genericCreate"
  unfolding genericCreate_def by transfer_prover

lemma alike_chargeDelegation [transfer_rule]: "rel_fun (env_rel A) (rel_fun (=) (rel_fun (alike A P) (alike_res A P))) chargeDelegation chargeDelegation"
  unfolding chargeDelegation_def by transfer_prover

lemma alike_chargeCallCosts [transfer_rule]: "rel_fun (env_rel A) (rel_fun (=) (rel_fun (=) (rel_fun (=) (rel_fun (alike A P) (alike_res A P))))) chargeCallCosts chargeCallCosts"
  unfolding chargeCallCosts_def by transfer_prover

lemma alike_performCall [transfer_rule]: "rel_fun (env_rel A) (rel_fun (=) (rel_fun (=) (rel_fun (=) (rel_fun (alike A P) (alike_res A P))))) performCall performCall"
  unfolding performCall_def by transfer_prover

lemma alike_forwardCall [transfer_rule]: "rel_fun (env_rel A) (rel_fun (=) (rel_fun (=) (rel_fun (=) (rel_fun (=) (rel_fun (=) (rel_fun (=) (rel_fun (alike A P) (alike_res A P)))))))) forwardCall forwardCall"
  unfolding forwardCall_def by transfer_prover

lemma alike_genericCall [transfer_rule]: "rel_fun (env_rel A) (rel_fun (=) (rel_fun (alike A P) (alike_res A P))) genericCall genericCall"
  unfolding genericCall_def by transfer_prover

lemma alike_calls_ops [transfer_rule]:
  "rel_fun (env_rel A) (rel_fun (alike A P) (alike_res A P)) opCall opCall"
  "rel_fun (env_rel A) (rel_fun (alike A P) (alike_res A P)) opCallCode opCallCode"
  "rel_fun (env_rel A) (rel_fun (alike A P) (alike_res A P)) opStaticCall opStaticCall"
  "rel_fun (env_rel A) (rel_fun (alike A P) (alike_res A P)) opDelegateCall opDelegateCall"
  unfolding opCall_def opCallCode_def opStaticCall_def opDelegateCall_def
  by transfer_prover+

lemma alike_block_ops [transfer_rule]:
  "rel_fun (alike A P) (alike_res A P) opGas opGas"
  "rel_fun (alike A P) (alike_res A P) opPrevRandao opPrevRandao"
  "rel_fun (alike A P) (alike_res A P) opTimestamp opTimestamp"
  "rel_fun (alike A P) (alike_res A P) opNumber opNumber"
  "rel_fun (alike A P) (alike_res A P) opCoinbase opCoinbase"
  "rel_fun (alike A P) (alike_res A P) opGasLimit opGasLimit"
  "rel_fun (alike A P) (alike_res A P) opGasPrice opGasPrice"
  "rel_fun (alike A P) (alike_res A P) opBaseFee opBaseFee"
  "rel_fun (alike A P) (alike_res A P) opBlobHash opBlobHash"
  "rel_fun (alike A P) (alike_res A P) opBlobBaseFee opBlobBaseFee"
  "rel_fun (alike A P) (alike_res A P) opChainId opChainId"
  "rel_fun (env_rel A) (rel_fun (alike A P) (alike_res A P)) opBlockhash opBlockhash"
  "rel_fun (alike A P) (alike_res A P) opAddress opAddress"
  "rel_fun (alike A P) (alike_res A P) opOrigin opOrigin"
  "rel_fun (alike A P) (alike_res A P) opCodeSize opCodeSize"
  "rel_fun (alike A P) (alike_res A P) opReturnDataSize opReturnDataSize"
  "rel_fun (alike A P) (alike_res A P) opReturnDataCopy opReturnDataCopy"
  unfolding opGas_def opPrevRandao_def opTimestamp_def opNumber_def opCoinbase_def opGasLimit_def opGasPrice_def opBaseFee_def opBlobHash_def opBlobBaseFee_def opChainId_def opBlockhash_def opAddress_def opOrigin_def opCodeSize_def opReturnDataSize_def opReturnDataCopy_def
  by transfer_prover+

lemma alike_popTopics [transfer_rule]: "rel_fun (=) (rel_fun (alike A P) (alike_res A P)) popTopics popTopics"
proof -
  have "alike A P c d \<Longrightarrow> alike_res A P (popTopics n c) (popTopics n d)" for n c d
    by (induction n arbitrary: c d)
      (auto intro!: alike_bindI alike_ret [THEN rel_funD, THEN rel_funD] alike_pop [THEN rel_funD])
  then show ?thesis by (simp add: rel_fun_def)
qed

lemma alike_opLog [transfer_rule]: "rel_fun (env_rel A) (rel_fun (=) (rel_fun (alike A P) (alike_res A P))) opLog opLog"
  unfolding opLog_def by transfer_prover

lemma alike_generateResult [transfer_rule]: "rel_fun (=) (rel_fun (alike A P) (=)) generateResult generateResult"
  by (auto simp: rel_fun_def alike_def generateResult_def split: status.splits)

end
