(* ===== verification/Lfvm_Push.thy ===== *)
theory Lfvm_Push
  imports Lfvm Lfvm_Layout Uniformity
begin

text \<open>
  The values that the pushes of the long form assemble from 16-bit arguments are the
  big-endian numbers of the immediate bytes.
\<close>

lemma or_disjoint_nat:
  assumes "2 ^ k dvd x" and "y < 2 ^ k"
  shows "or x y = x + (y :: nat)"
proof -
  obtain m where x: "x = push_bit k m" using assms(1) by (auto simp: push_bit_eq_mult mult.commute dvd_def)
  have y: "y = take_bit k y" using assms(2) by (simp add: take_bit_nat_eq_self)
  have "and x y = 0"
    by (rule bit_eqI, subst y) (auto simp: x bit_simps)
  then show ?thesis by (simp add: disjunctive_add_eq_or)
qed

lemma unat_or_disjoint:
  "2 ^ k dvd unat x \<Longrightarrow> unat y < 2 ^ k \<Longrightarrow> unat (or x y) = unat x + unat (y :: 'a::len word)"
  by (simp add: unsigned_or_eq or_disjoint_nat)

lemma unat_push_bit_small:
  "2 ^ k * unat x < 2 ^ LENGTH('a) \<Longrightarrow> unat (push_bit k x) = 2 ^ k * unat (x :: 'a::len word)"
  unfolding unsigned_push_bit_eq push_bit_eq_mult [of k "unat x"]
  by (simp add: take_bit_nat_eq_self mult.commute)

lemma unat_pack16: "unat (pack16 a b) = 256 * unat a + unat b"
proof -
  have a: "unat (ucast a :: u16) = unat a" and b: "unat (ucast b :: u16) = unat b"
    unfolding unsigned_ucast_eq
    by (rule take_bit_nat_eq_self, rule less_trans [OF unat_byte_bound], simp)+
  have p: "unat (push_bit 8 (ucast a :: u16)) = 256 * unat a"
    using unat_byte_bound [of a] unat_push_bit_small [of 8 "ucast a :: u16"] a by simp
  show ?thesis unfolding pack16_def using unat_byte_bound [of b] p b
    by (subst unat_or_disjoint [where k = 8]) simp_all
qed

lemma pack16_bytes:
  "ucast (drop_bit 8 (pack16 a b)) = a" "ucast (pack16 a b) = b"
proof -
  have "unat (drop_bit 8 (pack16 a b)) = unat a"
    using unat_byte_bound [of b] by (simp add: unat_drop_bit_eq unat_pack16 drop_bit_eq_div [where 'a = nat])
  then show "ucast (drop_bit 8 (pack16 a b)) = a"
    using unat_byte_bound [of a] by (simp add: word_unat_eq_iff unsigned_ucast_eq take_bit_nat_eq_self)
  show "ucast (pack16 a b) = b"
    using unat_byte_bound [of b]
    by (simp add: word_unat_eq_iff unsigned_ucast_eq unat_pack16 take_bit_eq_mod)
qed

lemma push_bytes_instrs:
  assumes "n \<le> length data"
  shows "push_bytes (push_instrs n data) n = take n data"
proof (rule nth_equalityI)
  show "length (push_bytes (push_instrs n data) n) = length (take n data)"
    using assms by (simp add: push_bytes_def)
  fix i
  assume "i < length (push_bytes (push_instrs n data) n)"
  then have i: "i < n" by (simp add: push_bytes_def)
  then have d: "i div 2 < (n + 1) div 2" by linarith
  show "push_bytes (push_instrs n data) n ! i = take n data ! i"
  proof (cases "i mod 2 = 0")
    case True
    then have "2 * (i div 2) = i" by presburger
    with True i d show ?thesis by (simp add: push_bytes_def push_instrs_def push_pair_def pack16_bytes)
  next
    case False
    then have "2 * (i div 2) + 1 = i" by presburger
    with False i d show ?thesis by (simp add: push_bytes_def push_instrs_def push_pair_def pack16_bytes)
  qed
qed

lemma unat_ucast16: "unat (ucast (x :: u16) :: u64) = unat x"
  unfolding unsigned_ucast_eq
  by (rule take_bit_nat_eq_self, rule less_trans [OF unsigned_less], simp)

lemma unat_ucast64: "unat (ucast (x :: u64) :: u256) = unat x"
  unfolding unsigned_ucast_eq
  by (rule take_bit_nat_eq_self, rule less_trans [OF unsigned_less], simp)

lemma u16_bound: "unat (x :: u16) < 65536"
  using unsigned_less [of x] by simp

text \<open>The value of a limb and of four limbs.\<close>

lemma unat_shift16:
  assumes "k \<le> 48"
  shows "unat (push_bit k (ucast (x :: u16)) :: u64) = 2 ^ k * unat x"
proof -
  have "2 ^ k * unat x < 2 ^ k * 2 ^ 16" using u16_bound [of x] by simp
  also have "\<dots> \<le> (2 :: nat) ^ 64" using power_increasing [OF assms, of "2 :: nat"] by simp
  finally show ?thesis using unat_push_bit_small [of k "ucast x :: u64"] by (simp add: unat_ucast16)
qed

lemma unat_four16:
  "unat (or (or (or (push_bit 48 (ucast (a :: u16))) (push_bit 32 (ucast (b :: u16))))
      (push_bit 16 (ucast (c :: u16)))) (ucast (d :: u16)) :: u64)
   = 2 ^ 48 * unat a + 2 ^ 32 * unat b + 2 ^ 16 * unat c + unat d"
proof -
  have 1: "unat (or (push_bit 48 (ucast a)) (push_bit 32 (ucast b)) :: u64) = 2 ^ 48 * unat a + 2 ^ 32 * unat b"
    using u16_bound [of b] by (subst unat_or_disjoint [where k = 48]) (simp_all add: unat_shift16)
  have 2: "unat (or (or (push_bit 48 (ucast a)) (push_bit 32 (ucast b))) (push_bit 16 (ucast c)) :: u64)
      = 2 ^ 48 * unat a + 2 ^ 32 * unat b + 2 ^ 16 * unat c"
    using u16_bound [of c] by (subst unat_or_disjoint [where k = 32]) (simp_all add: 1 unat_shift16)
  show ?thesis
    using u16_bound [of d] by (subst unat_or_disjoint [where k = 16]) (simp_all add: 2 unat_ucast16)
qed

lemma unat_of_limbs:
  "unat (of_limbs z3 z2 z1 z0) = 2 ^ 192 * unat z3 + 2 ^ 128 * unat z2 + 2 ^ 64 * unat z1 + unat z0"
proof -
  have s: "unat (push_bit k (ucast (x :: u64)) :: u256) = 2 ^ k * unat x" if "k \<le> 192" for k x
  proof -
    have "2 ^ k * unat x < 2 ^ k * 2 ^ 64" using unat_u64_bound [of x] by simp
    also have "\<dots> \<le> (2 :: nat) ^ 256" using power_increasing [OF that, of "2 :: nat"] by simp
    finally show ?thesis using unat_push_bit_small [of k "ucast x :: u256"] by (simp add: unat_ucast64)
  qed
  note b = unat_u64_bound
  have 1: "unat (or (push_bit 192 (ucast z3)) (push_bit 128 (ucast z2)) :: u256)
      = 2 ^ 192 * unat z3 + 2 ^ 128 * unat z2"
    using b [of z2] by (subst unat_or_disjoint [where k = 192]) (simp_all add: s)
  have 2: "unat (or (or (push_bit 192 (ucast z3)) (push_bit 128 (ucast z2))) (push_bit 64 (ucast z1)) :: u256)
      = 2 ^ 192 * unat z3 + 2 ^ 128 * unat z2 + 2 ^ 64 * unat z1"
    using b [of z1] by (subst unat_or_disjoint [where k = 128]) (simp_all add: 1 s)
  show ?thesis unfolding of_limbs_def
    using b [of z0] by (subst unat_or_disjoint [where k = 64]) (simp_all add: 2 unat_ucast64)
qed

lemma length_32:
  assumes "length (xs :: 'a list) = 32"
  shows "xs = map ((!) xs) [0, 1, 2, 3, 4, 5, 6, 7, 8, 9, 10, 11, 12, 13, 14, 15, 16, 17, 18, 19, 20, 21, 22,
    23, 24, 25, 26, 27, 28, 29, 30, 31]"
proof -
  have "xs = map ((!) xs) [0..<32]" using map_nth [of xs] assms by simp
  also have "[0..<32] = [0, 1, 2, 3, 4, 5, 6, 7, 8, 9, 10, 11, 12, 13, 14, 15, 16, 17, 18, 19, 20, 21, 22,
    23, 24, 25, 26, 27, 28, 29, 30, 31 :: nat]" by (simp add: upt_rec)
  finally show ?thesis .
qed

lemma push3_value:
  assumes "length data = 3"
  shows "SetUint64 (or (push_bit 8 (ucast (arg (push_instrs 3 data ! 0))))
      (ucast (drop_bit 8 (arg (push_instrs 3 data ! 1))))) = of_be_bytes data"
proof -
  obtain a b c where data: "data = [a, b, c]" using assms by (auto simp: numeral_3_eq_3 length_Suc_conv)
  have args: "arg (push_instrs 3 data ! 0) = pack16 a b" "arg (push_instrs 3 data ! 1) = pack16 c 0"
    by (simp_all add: push_instrs_def push_pair_def data)
  have c: "unat (drop_bit 8 (pack16 c 0)) = unat c"
    by (simp add: unat_drop_bit_eq unat_pack16 drop_bit_eq_div [where 'a = nat])
  have "unat (or (push_bit 8 (ucast (pack16 a b))) (ucast (drop_bit 8 (pack16 c 0))) :: u64)
      = 2 ^ 8 * unat (pack16 a b) + unat c"
    by (subst unat_or_disjoint [where k = 8]) (simp_all add: unat_shift16 unat_ucast16 c)
  then show ?thesis
    unfolding args by (simp add: word_unat_eq_iff unat_of_be_bytes unat_pack16 nat_of_be_def data)
qed

lemma push4_value:
  assumes "length data = 4"
  shows "SetUint64 (or (push_bit 16 (ucast (arg (push_instrs 4 data ! 0))))
      (ucast (arg (push_instrs 4 data ! 1)))) = of_be_bytes data"
proof -
  obtain a b c d where data: "data = [a, b, c, d]"
    using assms by (auto simp: eval_nat_numeral length_Suc_conv)
  have args: "arg (push_instrs 4 data ! 0) = pack16 a b" "arg (push_instrs 4 data ! 1) = pack16 c d"
    by (simp_all add: push_instrs_def push_pair_def data)
  have "unat (or (push_bit 16 (ucast (pack16 a b))) (ucast (pack16 c d)) :: u64)
      = 2 ^ 16 * unat (pack16 a b) + unat (pack16 c d)"
    using u16_bound [of "pack16 c d"]
    by (subst unat_or_disjoint [where k = 16]) (simp_all add: unat_shift16 unat_ucast16)
  then show ?thesis
    unfolding args by (simp add: word_unat_eq_iff unat_of_be_bytes unat_pack16 nat_of_be_def data)
qed

lemma push32_value:
  assumes "length data = 32"
  shows "of_limbs (arg_limb (push_instrs 32 data) 0) (arg_limb (push_instrs 32 data) 4)
     (arg_limb (push_instrs 32 data) 8) (arg_limb (push_instrs 32 data) 12) = of_be_bytes data"
proof -
  have args: "arg (push_instrs 32 data ! k) = pack16 (data ! (2 * k)) (data ! (2 * k + 1))" if "k < 16" for k
    using that by (simp add: push_instrs_def push_pair_def)
  have "nat_of_be data = nat_of_be (map ((!) data) [0, 1, 2, 3, 4, 5, 6, 7, 8, 9, 10, 11, 12, 13, 14, 15,
    16, 17, 18, 19, 20, 21, 22, 23, 24, 25, 26, 27, 28, 29, 30, 31])"
    using length_32 [OF assms] by simp
  then show ?thesis
    using assms
    by (simp add: word_unat_eq_iff unat_of_be_bytes unat_of_limbs arg_limb_def unat_four16 args unat_pack16
        nat_of_be_def)
qed

end
