(* ===== verification/Lfvm_Sim.thy ===== *)
theory Lfvm_Sim
  imports Lfvm_Push
begin

text \<open>
  The long-form interpreter on converted code (without super instructions) behaves like the
  short-form interpreter on the byte code: a simulation in which one step of the short form
  is one step of the long form, up to additional \<open>JUMP_TO\<close> steps.
\<close>

section \<open>Prices and stack limits of base instructions\<close>

lemma lf_propertyMap_get_new:
  "op < lf_numOpCodes \<Longrightarrow> lf_propertyMap_get (lf_newOpCodePropertyMap f) op = f op"
  by (simp add: lf_propertyMap_get_def lf_newOpCodePropertyMap_def)

lemma decompose_base: "op < 256 \<Longrightarrow> decompose op = []"
  by (simp add: decompose_def)

lemma lf_price_base:
  "op < 256 \<Longrightarrow> lf_propertyMap_get (lf_getStaticGasPrices rv) op = propertyMap_get (getStaticGasPrices rv) op"
  by (simp add: lf_getStaticGasPrices_def getStaticGasPrices_def lf_propertyMap_get_new
      lf_getBerlinGasPriceInternal_def getBerlinGasPriceInternal_def lf_getStaticGasPriceInternal_def
      isSuperInstruction_def decompose_base)

lemma lf_limits_base: "op < 256 \<Longrightarrow> lf_checkStackLimits n op = checkStackLimits n op"
  by (simp add: lf_checkStackLimits_def checkStackLimits_def lf_precomputedStackLimits_def
      precomputedStackLimits_def lf_propertyMap_get_new lf_computeStackUsage_def
      isSuperInstruction_def decompose_base)

section \<open>The simulation relation\<close>

definition at_pos :: "bytes \<Rightarrow> Instruction list \<Rightarrow> (nat \<rightharpoonup> nat \<times> nat) \<Rightarrow> nat \<Rightarrow> nat \<Rightarrow> bool" where
  "at_pos cd lcode M i q \<longleftrightarrow>
     linked cd lcode M i q \<or> length cd \<le> i \<and> i \<le> 65567 \<and> q = length lcode"

text \<open>
  The parts of the contexts that the shared instructions do not see: \<open>k\<close> is 1 before the
  increment of the program counter at the end of a step, and 0 after it.
\<close>

definition sim_parts ::
  "bytes \<Rightarrow> Instruction list \<Rightarrow> (nat \<rightharpoonup> nat \<times> nat) \<Rightarrow> int \<Rightarrow>
   int \<times> unit sfvm_context_ext \<Rightarrow> int \<times> unit lfvm_context_ext \<Rightarrow> bool" where
  "sim_parts cd lcode M k x y \<longleftrightarrow>
     (\<exists>i q. fst x = int i - k \<and> fst y = int q - k \<and> at_pos cd lcode M i q) \<and>
     snd x = sfvm_context.fields cd (findJumpDestinations cd) \<and> snd y = lfvm_context.fields lcode"

text \<open>
  Results correspond: the same status or error, and after a success contexts that are at
  corresponding positions.
\<close>

definition sim_res ::
  "bytes \<Rightarrow> Instruction list \<Rightarrow> (nat \<rightharpoonup> nat \<times> nat) \<Rightarrow>
   ('w sfvm_context, 'a) res \<Rightarrow> ('w lfvm_context, 'a) res \<Rightarrow> bool" where
  "sim_res cd lcode M r s \<longleftrightarrow>
     fst r = fst s \<and>
     alike (=) (case fst r of Inl _ \<Rightarrow> (\<lambda>_ _. True) | Inr _ \<Rightarrow> sim_parts cd lcode M 1) (snd r) (snd s)"

lemma more_sfvm:
  "ctxt.more (c :: 'w sfvm_context) = sfvm_context.fields a b \<longleftrightarrow> code c = a \<and> analysis c = b"
  by (cases c) (auto simp: sfvm_context.defs)

lemma more_lfvm:
  "ctxt.more (d :: 'w lfvm_context) = lfvm_context.fields l \<longleftrightarrow> lf_code d = l"
  by (cases d) (auto simp: lfvm_context.defs)

lemma alike_mono: "alike (=) P c d \<Longrightarrow> (\<And>x y. P x y \<Longrightarrow> Q x y) \<Longrightarrow> alike (=) Q c d"
  by (simp add: alike_def)

lemma sim_res_alike: "alike_res (=) (sim_parts cd lcode M 1) r s \<Longrightarrow> sim_res cd lcode M r s"
  by (auto simp: sim_res_def rel_prod_conv split: prod.splits sum.splits elim!: alike_mono)

lemma sim_res_fail: "alike (=) P c d \<Longrightarrow> sim_res cd lcode M (fail e c) (fail e d)"
  by (simp add: sim_res_def fail_def) (erule alike_mono, simp)

lemma sim_res_ret: "alike (=) (sim_parts cd lcode M 1) c d \<Longrightarrow> sim_res cd lcode M (ret a c) (ret a d)"
  by (simp add: sim_res_def ret_def)

lemma sim_res_bind:
  assumes "alike_res (=) P m m'" and "\<And>a c d. m = ret a c \<Longrightarrow> m' = ret a d \<Longrightarrow> alike (=) P c d \<Longrightarrow> sim_res cd lcode M (f a c) (f' a d)"
  shows "sim_res cd lcode M (bind m f) (bind m' f')"
proof -
  obtain r c s d where m: "m = (r, c)" "m' = (s, d)" by fastforce
  with assms(1) have rd: "r = s" "alike (=) P c d" by auto
  show ?thesis
  proof (cases r)
    case (Inl e)
    then show ?thesis using m rd sim_res_fail [of P c d cd lcode M e] by (simp add: bind_def fail_def)
  next
    case (Inr a)
    then show ?thesis using m rd assms(2) [of a c d] by (simp add: bind_def ret_def)
  qed
qed

lemma sim_res_cont:
  "sim_res cd lcode M r s \<Longrightarrow> sim_res cd lcode M (bind r (\<lambda>a c. ret st c)) (bind s (\<lambda>a c. ret st c))"
  by (cases r; cases s) (auto simp: sim_res_def bind_def ret_def split: sum.splits)

section \<open>Positions\<close>

definition converted :: "bytes \<Rightarrow> Instruction list \<Rightarrow> nat \<Rightarrow> (nat \<rightharpoonup> nat \<times> nat) \<Rightarrow> bool" where
  "converted cd lcode cur M \<longleftrightarrow>
     layout cd False lcode cur M \<and> length cd \<le> cur \<and> length cd \<le> 65535"

lemma instr_start_bound: "instr_start cd i \<Longrightarrow> i \<le> length cd + 32"
proof (induction rule: instr_start.induct)
  case (next_instr i)
  have "Width (unat (cd ! i)) \<le> 33" by (auto simp: Width_def)
  with next_instr show ?case by linarith
qed simp

lemma converted_placed:
  assumes "converted cd lcode cur M" and "M i = Some (p, n)"
  shows "i < length cd" "n + 1 = Width (unat (cd ! i))" "p + length (instrs_of cd i) \<le> length lcode"
    "take (length (instrs_of cd i)) (drop p lcode) = instrs_of cd i"
    "at_pos cd lcode M (i + n + 1) (p + length (instrs_of cd i))"
    "unat (cd ! i) = JUMPDEST \<Longrightarrow> p = i" "i \<le> 65535"
proof -
  have "placed cd False lcode cur M i p n"
    using assms by (auto simp: converted_def layout_def)
  then obtain xs where xs: "i < length cd" "unit_at cd False i n xs" "p + length xs \<le> length lcode"
    "take (length xs) (drop p lcode) = xs" "unat (cd ! i) = JUMPDEST \<longrightarrow> p = i"
    "i + n + 1 = cur \<and> p + length xs = length lcode \<or> linked cd lcode M (i + n + 1) (p + length xs)"
    by (auto simp: placed_def)
  have u: "n + 1 = Width (unat (cd ! i))" "xs = instrs_of cd i" using xs(2) by (auto simp: unit_at_def)
  show "i < length cd" "n + 1 = Width (unat (cd ! i))" "p + length (instrs_of cd i) \<le> length lcode"
    "take (length (instrs_of cd i)) (drop p lcode) = instrs_of cd i" "unat (cd ! i) = JUMPDEST \<Longrightarrow> p = i"
    "i \<le> 65535"
    using xs u assms(1) by (auto simp: converted_def)
  show "at_pos cd lcode M (i + n + 1) (p + length (instrs_of cd i))"
    using xs(6) u(2) assms(1) instr_start_bound [of cd cur]
    by (auto simp: at_pos_def converted_def layout_def)
qed

lemma instrs_of_Cons: "\<exists>a xs. instrs_of cd i = \<lparr>opcode = unat (cd ! i), arg = a\<rparr> # xs"
  by (auto simp: instrs_of_def Let_def push_instrs_def push_pair_def upt_conv_Cons)

lemma converted_opcode:
  assumes "converted cd lcode cur M" and "M i = Some (p, n)"
  shows "p < length lcode" "opcode (lcode ! p) = unat (cd ! i)"
proof -
  note pl = converted_placed [OF assms]
  obtain a xs where xs: "instrs_of cd i = \<lparr>opcode = unat (cd ! i), arg = a\<rparr> # xs"
    using instrs_of_Cons by blast
  show p: "p < length lcode" using pl(3) xs by simp
  have "take (length (instrs_of cd i)) (drop p lcode) ! 0 = \<lparr>opcode = unat (cd ! i), arg = a\<rparr>"
    using pl(4) xs by simp
  then show "opcode (lcode ! p) = unat (cd ! i)" using xs p by simp
qed

lemma converted_length: "converted cd lcode cur M \<Longrightarrow> length lcode \<le> 65567"
  using instr_start_bound [of cd cur] by (auto simp: converted_def layout_def)

section \<open>Jumps and pushes\<close>

lemma converted_dest:
  assumes "converted cd lcode cur M"
  shows "d < length lcode \<and> opcode (lcode ! d) = JUMPDEST \<longleftrightarrow> valid_dest cd d"
proof -
  have "valid_dest cd d \<Longrightarrow> d < cur" using assms by (auto simp: converted_def valid_dest_def)
  then show ?thesis using assms by (auto simp: converted_def layout_def)
qed

lemma at_dest:
  assumes "converted cd lcode cur M" and "valid_dest cd d"
  shows "at_pos cd lcode M d d"
proof -
  have "d \<in> dom M" using assms by (auto simp: converted_def layout_def valid_dest_def)
  then obtain p n where m: "M d = Some (p, n)" by auto
  with converted_placed(6) [OF assms(1) m] assms(2) show ?thesis
    by (auto simp: at_pos_def linked_def valid_dest_def)
qed

lemma sim_checkJumpDest:
  assumes conv: "converted cd lcode cur M" and x: "\<not> 2147483647 < (x :: u64)"
    and c: "alike (=) P c d" "code c = cd" "analysis c = findJumpDestinations cd" "lf_code d = lcode"
  shows "sim_res cd lcode M (checkJumpDest (c\<lparr>pc := int32 (int32 (uint x) - 1)\<rparr>))
    (lf_checkJumpDest (d\<lparr>pc := int32 (int32 (uint x) - 1)\<rparr>))"
proof -
  note i = jump_dest_int32 [OF x]
  have len: "length cd < 18446744073709551616" using conv by (simp add: converted_def)
  define k where "k = unat x"
  have u: "uint x = int k" by (simp add: k_def)
  note i = i [unfolded u]
  have lf: "lf_checkJumpDest (d\<lparr>pc := int32 (int32 (uint x) - 1)\<rparr>) =
      (if valid_dest cd (unat x) then ret () (d\<lparr>pc := uint x - 1\<rparr>) else fail errInvalidJump (d\<lparr>pc := uint x - 1\<rparr>))"
    using converted_dest [OF conv, of k] c(4)
    by (auto simp: lf_checkJumpDest_def u i instr_at_def Let_def k_def [symmetric])
  have sf: "checkJumpDest (c\<lparr>pc := int32 (int32 (uint x) - 1)\<rparr>) =
      (if valid_dest cd (unat x) then ret () (c\<lparr>pc := uint x - 1\<rparr>) else fail errInvalidJump (c\<lparr>pc := uint x - 1\<rparr>))"
    using checkJumpDest_eq [OF x, of c] c len by simp
  have "sim_parts cd lcode M 1 (uint x - 1, ctxt.more c) (uint x - 1, ctxt.more d)" if "valid_dest cd (unat x)"
    using at_dest [OF conv that] c by (auto simp: sim_parts_def u k_def [symmetric] more_sfvm more_lfvm)
  then show ?thesis using c(1) unfolding lf sf
    by (auto intro!: sim_res_ret sim_res_fail [where P = "\<lambda>_ _. True"] simp: alike_def)
qed

text \<open>Two contexts at the instruction \<open>i\<close> of the byte code and its place \<open>p\<close> in the long form.\<close>

definition here_parts ::
  "bytes \<Rightarrow> Instruction list \<Rightarrow> nat \<Rightarrow> nat \<Rightarrow>
   int \<times> unit sfvm_context_ext \<Rightarrow> int \<times> unit lfvm_context_ext \<Rightarrow> bool" where
  "here_parts cd lcode i p x y \<longleftrightarrow>
     x = (int i, sfvm_context.fields cd (findJumpDestinations cd)) \<and> y = (int p, lfvm_context.fields lcode)"

lemma alike_here:
  "alike (=) (here_parts cd lcode i p) c d \<Longrightarrow>
   code c = cd \<and> analysis c = findJumpDestinations cd \<and> lf_code d = lcode \<and> pc c = int i \<and> pc d = int p"
  by (auto simp: alike_def here_parts_def more_sfvm more_lfvm)

lemma sim_parts_next:
  assumes "at_pos cd lcode M j q"
  shows "sim_parts cd lcode M 1 (int j - 1, sfvm_context.fields cd (findJumpDestinations cd))
    (int q - 1, lfvm_context.fields lcode)"
  using assms unfolding sim_parts_def fst_conv snd_conv by blast

lemma alike_next:
  assumes "alike (=) (here_parts cd lcode i p) c d" and "at_pos cd lcode M (i + 1) (p + 1)"
  shows "alike (=) (sim_parts cd lcode M 1) c d"
  using assms(1) by (rule alike_mono) (use sim_parts_next [OF assms(2)] in \<open>auto simp: here_parts_def\<close>)

lemmas alike_popD = alike_pop [THEN rel_funD]
lemmas alike_pushD = alike_push [THEN rel_funD, THEN rel_funD, OF refl]

lemma sim_opJump:
  assumes conv: "converted cd lcode cur M" and c: "alike (=) (here_parts cd lcode i p) c d"
  shows "sim_res cd lcode M (opJump c) (lf_opJump d)"
  unfolding opJump_def lf_opJump_def
proof (rule sim_res_bind [OF alike_popD [OF c]])
  fix x and c :: "'a sfvm_context" and d :: "'a lfvm_context"
  assume c: "alike (=) (here_parts cd lcode i p) c d"
  note h = alike_here [OF c]
  from c h sim_checkJumpDest [OF conv _ c] show "sim_res cd lcode M
      (if \<not> IsUint64 x \<or> 2147483647 < Uint64 x then fail errInvalidJump c
       else checkJumpDest (c\<lparr>pc := int32 (int32 (uint (Uint64 x)) - 1)\<rparr>))
      (if \<not> IsUint64 x \<or> 2147483647 < Uint64 x then fail errInvalidJump d
       else lf_checkJumpDest (d\<lparr>pc := int32 (int32 (uint (Uint64 x)) - 1)\<rparr>))"
    by (auto intro: sim_res_fail)
qed

lemma sim_opJumpi:
  assumes conv: "converted cd lcode cur M" and c: "alike (=) (here_parts cd lcode i p) c d"
    and next_pos: "at_pos cd lcode M (i + 1) (p + 1)"
  shows "sim_res cd lcode M (opJumpi c) (lf_opJumpi d)"
  unfolding opJumpi_def lf_opJumpi_def
proof (rule sim_res_bind [OF alike_popD [OF c]], rule sim_res_bind, rule alike_popD, assumption)
  fix x y and c :: "'a sfvm_context" and d :: "'a lfvm_context"
  assume c: "alike (=) (here_parts cd lcode i p) c d"
  note h = alike_here [OF c]
  have "alike (=) (sim_parts cd lcode M 1) c d"
    by (rule alike_next [OF c next_pos])
  with c h sim_checkJumpDest [OF conv _ c] show "sim_res cd lcode M
      (if y \<noteq> 0 then if \<not> IsUint64 x \<or> 2147483647 < Uint64 x then fail errInvalidJump c
       else checkJumpDest (c\<lparr>pc := int32 (int32 (uint (Uint64 x)) - 1)\<rparr>) else ret () c)
      (if y \<noteq> 0 then if \<not> IsUint64 x \<or> 2147483647 < Uint64 x then fail errInvalidJump d
       else lf_checkJumpDest (d\<lparr>pc := int32 (int32 (uint (Uint64 x)) - 1)\<rparr>) else ret () d)"
    by (auto intro: sim_res_fail sim_res_ret)
qed

text \<open>The immediate data in the long form.\<close>

lemma instrs_of_push:
  assumes "0 < n" and "n \<le> 32" and "unat (cd ! i) = PUSH1 + (n - 1)"
  shows "instrs_of cd i = push_instrs n (push_data cd (i + 1) n)"
  using assms by (simp add: instrs_of_def Let_def)

lemma push_slice:
  assumes conv: "converted cd lcode cur M" and m: "M i = Some (p, k)"
    and n: "0 < n" "n \<le> 32" "unat (cd ! i) = PUSH1 + (n - 1)"
    and d: "pc d = int p" "lf_code d = lcode"
  shows "code_slice ((n + 1) div 2) d = ret (push_instrs n (push_data cd (i + 1) n)) d"
    "instr_at (pc d) d = ret (push_instrs n (push_data cd (i + 1) n) ! 0) d"
    "at_pos cd lcode M (i + n + 1) (p + (n + 1) div 2)"
    "p + (n + 1) div 2 \<le> 65567"
proof -
  note pl = converted_placed [OF conv m, unfolded instrs_of_push [OF n]]
  have len: "p + (n + 1) div 2 \<le> length lcode" "length lcode \<le> 65567"
    using pl(3) converted_length [OF conv] by auto
  then have "int32 (pc d + int ((n + 1) div 2)) = pc d + int ((n + 1) div 2)"
    using d(1) by (intro int32_id) auto
  then show "code_slice ((n + 1) div 2) d = ret (push_instrs n (push_data cd (i + 1) n)) d"
    using len pl(4) d by (simp add: code_slice_def Let_def)
  have "lcode ! p = push_instrs n (push_data cd (i + 1) n) ! 0"
    using pl(4) len n(1) nth_take [of 0 "(n + 1) div 2" "drop p lcode"] by simp
  then show "instr_at (pc d) d = ret (push_instrs n (push_data cd (i + 1) n) ! 0) d"
    using len n(1) d by (simp add: instr_at_def)
  have "k + 1 = n + 1" using pl(2) n by (simp add: Width_def)
  then show "at_pos cd lcode M (i + n + 1) (p + (n + 1) div 2)" using pl(5) by simp
  show "p + (n + 1) div 2 \<le> 65567" using len by simp
qed

text \<open>The two forms of a push, given that the long form assembles the value of the data.\<close>

lemma sim_push:
  assumes c: "alike (=) (here_parts cd lcode i p) c d" and i: "i \<le> 65535"
    and next_pos: "at_pos cd lcode M (i + n + 1) (p + k)" "p + k \<le> 65567" "0 < k" "n \<le> 32"
    and sf: "f c = bind (push v c) (\<lambda>_ c. ret () (c\<lparr>pc := int32 (pc c + int n)\<rparr>))"
    and lf: "g d = bind (push v d) (\<lambda>_ d. ret () (d\<lparr>pc := int32 (pc d + (int k - 1))\<rparr>))"
  shows "sim_res cd lcode M (f c) (g d)"
  unfolding sf lf
proof (rule sim_res_bind [OF alike_pushD [OF c]], rule sim_res_ret)
  fix c :: "'a sfvm_context" and d :: "'a lfvm_context"
  assume c: "alike (=) (here_parts cd lcode i p) c d"
  note h = alike_here [OF c]
  have "int32 (pc c + int n) = int (i + n + 1) - 1" "int32 (pc d + (int k - 1)) = int (p + k) - 1"
    using h i next_pos by (subst int32_id; simp)+
  then show "alike (=) (sim_parts cd lcode M 1) (c\<lparr>pc := int32 (pc c + int n)\<rparr>) (d\<lparr>pc := int32 (pc d + (int k - 1))\<rparr>)"
    using c sim_parts_next [OF next_pos(1)] by (auto simp: alike_def here_parts_def)
qed

section \<open>Dispatch\<close>

text \<open>Instructions that read the code, and table entries with the same instruction.\<close>

definition reads_code :: "OpCode \<Rightarrow> bool" where
  "reads_code op \<longleftrightarrow> op = PC \<or> op = JUMP \<or> op = JUMPI \<or> PUSH1 \<le> op \<and> op \<le> PUSH32"

definition same_op :: "(int \<times> unit sfvm_context_ext \<Rightarrow> int \<times> unit lfvm_context_ext \<Rightarrow> bool) \<Rightarrow>
  OpCode \<Rightarrow> 'w sf_op \<Rightarrow> 'w lf_op \<Rightarrow> bool" where
  "same_op P op f g \<longleftrightarrow> reads_code op \<or> rel_fun (alike (=) P) (alike_res (=) P) f g"

inductive same_table ::
  "(int \<times> unit sfvm_context_ext \<Rightarrow> int \<times> unit lfvm_context_ext \<Rightarrow> bool) \<Rightarrow>
   (OpCode \<times> 'w sf_op) list \<Rightarrow> (OpCode \<times> 'w lf_op) list \<Rightarrow> bool" for P where
  nil: "same_table P [] []"
| entry: "same_op P op f g \<Longrightarrow> same_table P xs ys \<Longrightarrow> same_table P ((op, f) # xs) ((op, g) # ys)"
| extended: "256 \<le> op \<Longrightarrow> same_table P xs ys \<Longrightarrow> same_table P xs ((op, g) # ys)"

lemma same_cont: "rel_fun (alike (=) P) (alike_res (=) P) f g \<Longrightarrow> same_op P op (cont f) (lf_cont g)"
  by (auto simp: same_op_def cont_def lf_cont_def dest: rel_funD
      intro!: rel_funI alike_bindI alike_ret [THEN rel_funD, THEN rel_funD])

lemma same_finish: "rel_fun (alike (=) P) (alike_res (=) P) f g \<Longrightarrow> same_op P op (finish st f) (lf_finish st g)"
  by (auto simp: same_op_def finish_def lf_finish_def dest: rel_funD
      intro!: rel_funI alike_bindI alike_ret [THEN rel_funD, THEN rel_funD])

lemma same_raw: "rel_fun (alike (=) P) (alike_res (=) P) f g \<Longrightarrow> same_op P op f g"
  by (simp add: same_op_def)

lemma same_special: "reads_code op \<Longrightarrow> same_op P op f g"
  by (simp add: same_op_def)

lemma same_table_append:
  "same_table P xs ys \<Longrightarrow> same_table P xs' ys' \<Longrightarrow> same_table P (xs @ xs') (ys @ ys')"
  by (induction rule: same_table.induct) (auto intro: same_table.intros)

lemma same_hot: "same_table P (sfvm_ops_hot E) (lfvm_ops_hot E)"
  unfolding sfvm_ops_hot_def lfvm_ops_hot_def
  supply env_rel_refl [of E, transfer_rule]
  by (rule same_table.nil same_table.entry | (rule same_special, simp add: reads_code_def; fail) |
      (rule same_cont, transfer_prover))+

lemma same_rest: "same_table P (sfvm_ops_rest E) (lfvm_ops_rest E)"
  unfolding sfvm_ops_rest_def lfvm_ops_rest_def
  supply env_rel_refl [of E, transfer_rule]
  by (rule same_table.nil same_table.entry | (rule same_table.extended, (simp; fail)) |
      (rule same_special, simp add: reads_code_def; fail) | (rule same_cont, transfer_prover) |
      (rule same_finish, transfer_prover) | (rule same_raw, transfer_prover))+

lemma same_super: "same_table P [] (lfvm_ops_super E)"
  unfolding lfvm_ops_super_def by (rule same_table.nil | (rule same_table.extended, (simp; fail)))+

lemma same_ops: "same_table P (sfvm_ops E) (lfvm_ops E)"
  using same_table_append [OF same_hot same_table_append [OF same_rest same_super]]
  by (simp add: sfvm_ops_def lfvm_ops_def)

lemma same_table_lookup:
  assumes "same_table P xs ys" and "op < 256"
  shows "rel_option (same_op P op) (map_of xs op) (map_of ys op)"
  using assms by (induction rule: same_table.induct) auto

lemma sim_shared:
  assumes "op < 256" and "\<not> reads_code op" and "alike (=) P c d"
  shows "alike_res (=) P (dispatch E op c) (lf_dispatch E op d)"
  using same_table_lookup [OF same_ops assms(1), of P E] assms(2,3)
  by (auto simp: dispatch_def lf_dispatch_def same_op_def option_rel_Some1 option_rel_Some2
      dest: rel_funD split: option.splits intro!: alike_fail [THEN rel_funD, THEN rel_funD])

text \<open>The entries of the instructions that read the code.\<close>

definition sf_push :: "'w env \<Rightarrow> nat \<Rightarrow> 'w sf_cmd" where
  "sf_push E n = (if n = 1 then opPush1 else if n = 2 then opPush2 else opPush E n)"

definition lf_push :: "nat \<Rightarrow> 'w lf_cmd" where
  "lf_push n =
     (if n = 1 then lf_opPush1 else if n = 2 then lf_opPush2 else if n = 3 then opPush3
      else if n = 4 then opPush4 else if n = 32 then opPush32 else lf_opPush n)"

lemma push_cases:
  assumes "0 < n" and "n \<le> (32 :: nat)"
  shows "n \<in> set [1, 2, 3, 4, 5, 6, 7, 8, 9, 10, 11, 12, 13, 14, 15, 16, 17, 18, 19, 20, 21, 22, 23, 24, 25,
    26, 27, 28, 29, 30, 31, 32]"
proof -
  have "n \<in> set [1..<33]" using assms by simp
  also have "[1..<33] = [1, 2, 3, 4, 5, 6, 7, 8, 9, 10, 11, 12, 13, 14, 15, 16, 17, 18, 19, 20, 21, 22, 23, 24, 25,
    26, 27, 28, 29, 30, 31, 32 :: nat]" by (simp add: upt_rec)
  finally show ?thesis .
qed

lemma sf_push_entries:
  "list_all (\<lambda>n. map_of (sfvm_ops E) (95 + n) = Some (cont (sf_push E n)))
   [1, 2, 3, 4, 5, 6, 7, 8, 9, 10, 11, 12, 13, 14, 15, 16, 17, 18, 19, 20,
    21, 22, 23, 24, 25, 26, 27, 28, 29, 30, 31, 32]"
  by (simp add: sfvm_ops_def sfvm_ops_hot_def sfvm_ops_rest_def sf_push_def)

lemma lf_push_entries:
  "list_all (\<lambda>n. map_of (lfvm_ops E) (95 + n) = Some (lf_cont (lf_push n)))
   [1, 2, 3, 4, 5, 6, 7, 8, 9, 10, 11, 12, 13, 14, 15, 16, 17, 18, 19, 20,
    21, 22, 23, 24, 25, 26, 27, 28, 29, 30, 31, 32]"
  by (simp add: lfvm_ops_def lfvm_ops_hot_def lfvm_ops_rest_def lf_push_def)

lemma dispatch_push:
  assumes "0 < n" and "n \<le> 32"
  shows "dispatch E (PUSH1 + (n - 1)) = cont (sf_push E n)"
    "lf_dispatch E (PUSH1 + (n - 1)) = lf_cont (lf_push n)"
proof -
  have n: "PUSH1 + (n - 1) = 95 + n" using assms by simp
  show "dispatch E (PUSH1 + (n - 1)) = cont (sf_push E n)" "lf_dispatch E (PUSH1 + (n - 1)) = lf_cont (lf_push n)"
    unfolding n dispatch_def lf_dispatch_def
    using sf_push_entries [of E] lf_push_entries [of E] push_cases [OF assms] by (auto simp only: list_all_iff option.case)
qed

lemma dispatch_special:
  "dispatch E PC = cont opPc" "lf_dispatch E PC = lf_cont lf_opPc"
  "dispatch E JUMP = cont opJump" "lf_dispatch E JUMP = lf_cont lf_opJump"
  "dispatch E JUMPI = cont opJumpi" "lf_dispatch E JUMPI = lf_cont lf_opJumpi"
  "lf_dispatch E JUMP_TO = lf_cont opJumpTo"
  by (simp_all add: dispatch_def sfvm_ops_def sfvm_ops_hot_def sfvm_ops_rest_def lf_dispatch_def
      lfvm_ops_def lfvm_ops_hot_def lfvm_ops_rest_def)

end
