(* ===== verification/Lfvm_Equiv.thy ===== *)
theory Lfvm_Equiv
  imports Lfvm_Sim
begin

text \<open>
  The simulation of one step and of the loop, and the equivalence of the long-form and the
  short-form interpreter.
\<close>

section \<open>Pushes\<close>

lemma unat_drop_pack16: "unat (drop_bit 8 (pack16 a b)) = unat a"
  using unat_byte_bound [of b] by (simp add: unat_drop_bit_eq unat_pack16 drop_bit_eq_div [where 'a = nat])

lemma push1_value: "SetUint64 (ucast (drop_bit 8 (pack16 a b))) = of_be_bytes [a]"
  by (simp add: word_unat_eq_iff unat_of_be_bytes nat_of_be_def unat_ucast16 unat_drop_pack16)

lemma push2_value: "SetUint64 (ucast (pack16 a b)) = of_be_bytes [a, b]"
  by (simp add: word_unat_eq_iff unat_of_be_bytes nat_of_be_def unat_ucast16 unat_pack16)

lemma push_pc:
  assumes "int32 (pc d) = pc d"
  shows "push v d = bind (push v d) (\<lambda>_ d. ret () (d\<lparr>pc := int32 (pc d)\<rparr>))"
proof -
  have "x\<lparr>pc := pc x\<rparr> = x" for x :: "('a, 'b) ctxt_scheme" by (cases x) simp
  then show ?thesis using assms by (auto simp: push_def list_push_def)
qed

lemma lf_push_eq:
  assumes conv: "converted cd lcode cur M" and m: "M i = Some (p, k)"
    and n: "0 < n" "n \<le> 32" "unat (cd ! i) = PUSH1 + (n - 1)"
    and d: "pc d = int p" "lf_code d = lcode"
  shows "lf_push n d = bind (push (of_be_bytes (push_data cd (i + 1) n)) d)
    (\<lambda>_ d. ret () (d\<lparr>pc := int32 (pc d + (int ((n + 1) div 2) - 1))\<rparr>))"
proof -
  define data where "data = push_data cd (i + 1) n"
  note sl = push_slice [OF conv m n d, folded data_def]
  have len: "length data = n" by (simp add: data_def)
  have pc: "int32 (pc d) = pc d" using sl(4) d(1) by (intro int32_id) auto
  have pair: "arg (push_instrs n data ! 0) = pack16 (data ! 0) (if 1 < n then data ! 1 else 0)"
    using n(1) by (simp add: push_instrs_def push_pair_def)
  consider "n = 1" | "n = 2" | "n = 3" | "n = 4" | "n = 32" | "n \<notin> {1, 2, 3, 4, 32}" by auto
  then show ?thesis
  proof cases
    case 1
    then have "data = [data ! 0]" using len by (cases data) auto
    then have "lf_push n d = push (of_be_bytes data) d"
      using sl(2) pair push1_value [of "data ! 0" 0] 1 by (simp add: lf_push_def lf_opPush1_def)
    then show ?thesis using push_pc [OF pc] 1 by (simp add: data_def)
  next
    case 2
    then have "data = [data ! 0, data ! 1]" using len by (auto simp: numeral_2_eq_2 length_Suc_conv)
    then have "lf_push n d = push (of_be_bytes data) d"
      using sl(2) pair push2_value [of "data ! 0" "data ! 1"] 2 by (simp add: lf_push_def lf_opPush2_def)
    then show ?thesis using push_pc [OF pc] 2 by (simp add: data_def)
  next
    case 3
    then show ?thesis using sl(1) push3_value [of data] len
      by (simp add: lf_push_def opPush3_def data_def)
  next
    case 4
    then show ?thesis using sl(1) push4_value [of data] len
      by (simp add: lf_push_def opPush4_def data_def)
  next
    case 5
    then show ?thesis using sl(1) push32_value [of data] len
      by (simp add: lf_push_def opPush32_def data_def)
  next
    case 6
    moreover have "n div 2 + n mod 2 = (n + 1) div 2" by presburger
    ultimately show ?thesis using sl(1) push_bytes_instrs [of n data] len
      by (simp add: lf_push_def lf_opPush_def data_def)
  qed
qed

lemma sf_push_eq:
  assumes "uint256_arith (u256lib E)" and "sinv c" and "pc c = int i" and "i < length (code c)" and "n \<le> 32"
  shows "sf_push E n c = bind (push (of_be_bytes (push_data (code c) (i + 1) n)) c)
    (\<lambda>_ c. ret () (c\<lparr>pc := int32 (pc c + int n)\<rparr>))"
proof -
  have "sf_push E n c = opPush E n c"
    using opPush12_eq [OF assms(1,2)] assms(3,4) by (simp add: sf_push_def)
  moreover have "nat (pc c + 1) = i + 1" using assms(3) by simp
  ultimately show ?thesis using opPush_eq [OF assms(1,2) _ assms(5)] assms(3,4) by simp
qed

section \<open>One step\<close>

lemma sim_opPc:
  assumes conv: "converted cd lcode cur M" and m: "M i = Some (p, n)" and op: "unat (cd ! i) = PC"
    and c: "alike (=) (here_parts cd lcode i p) c d"
  shows "sim_res cd lcode M (opPc c) (lf_opPc d)"
proof -
  note pl = converted_placed [OF conv m]
  have ins: "instrs_of cd i = [\<lparr>opcode = PC, arg = word_of_nat i\<rparr>]" using op by (simp add: instrs_of_def)
  have p: "p < length lcode" using pl(3) ins by simp
  have "lcode ! p = \<lparr>opcode = PC, arg = word_of_nat i\<rparr>"
    using pl(4) ins p by (metis One_nat_def length_Cons list.size(3) nth_Cons_0 nth_take nth_drop add_0_right
        lessI less_imp_le)
  then have at: "instr_at (pc d) d = ret \<lparr>opcode = PC, arg = word_of_nat i\<rparr> d"
    using alike_here [OF c] p by (simp add: instr_at_def)
  have "unat (ucast (word_of_nat i :: u16) :: u64) = unat (word_of_int (int i) :: u64)"
    using pl(7) by (simp add: unat_ucast16 unat_of_nat)
  then have v: "SetUint64 (ucast (word_of_nat i :: u16)) = SetUint64 (word_of_int (int i))"
    by (simp add: word_unat_eq_iff)
  have "n = 0" using pl(2) op by (simp add: Width_def)
  then have next_pos: "at_pos cd lcode M (i + 1) (p + 1)" using pl(5) ins by simp
  from alike_pushD [OF alike_next [OF c next_pos]] show ?thesis
    using alike_here [OF c] at v by (intro sim_res_alike) (simp add: opPc_def lf_opPc_def)
qed

lemma sim_dispatch:
  assumes E: "uint256_arith (u256lib E)" and conv: "converted cd lcode cur M" and m: "M i = Some (p, n)"
    and c: "alike (=) (here_parts cd lcode i p) c d" and inv: "sinv c"
  shows "sim_res cd lcode M (dispatch E (unat (cd ! i)) c) (lf_dispatch E (unat (cd ! i)) d)"
proof -
  note pl = converted_placed [OF conv m] and h = alike_here [OF c]
  define op where "op = unat (cd ! i)"
  have plain: "n = 0" "length (instrs_of cd i) = 1" if "\<not> (PUSH1 \<le> op \<and> op \<le> PUSH32)"
    using that pl(2) by (auto simp: instrs_of_def Let_def op_def Width_def)
  have next_pos: "at_pos cd lcode M (i + 1) (p + 1)" if "\<not> (PUSH1 \<le> op \<and> op \<le> PUSH32)"
    using pl(5) plain [OF that] by simp
  consider "PUSH1 \<le> op" "op \<le> PUSH32" | "op = PC" | "op = JUMP" | "op = JUMPI" | "\<not> reads_code op"
    by (auto simp: reads_code_def)
  then show ?thesis unfolding op_def [symmetric]
  proof cases
    case 1
    define k where "k = op - PUSH1 + 1"
    then have k: "0 < k" "k \<le> 32" "op = PUSH1 + (k - 1)" using 1 by auto
    have sf: "sf_push E k c = bind (push (of_be_bytes (push_data cd (i + 1) k)) c)
        (\<lambda>_ c. ret () (c\<lparr>pc := int32 (pc c + int k)\<rparr>))"
      using sf_push_eq [OF E inv _ _ k(2), of i] h pl(1) by simp
    have d: "pc d = int p" "lf_code d = lcode" using h by auto
    note sl = push_slice [OF conv m k(1,2) k(3) [unfolded op_def] d]
    show "sim_res cd lcode M (dispatch E op c) (lf_dispatch E op d)"
      unfolding k(3) dispatch_push [OF k(1,2)] cont_def lf_cont_def
      using sim_push [where f = "sf_push E k" and g = "lf_push k", OF c pl(7) sl(3,4) _ k(2) sf lf_push_eq [OF conv m k(1,2) k(3) [unfolded op_def] d]] k(1)
      by (intro sim_res_cont) simp
  next
    case 2
    with sim_opPc [OF conv m _ c] show "sim_res cd lcode M (dispatch E op c) (lf_dispatch E op d)"
      by (auto simp: dispatch_special cont_def lf_cont_def op_def intro: sim_res_cont)
  next
    case 3
    with sim_opJump [OF conv c] show "sim_res cd lcode M (dispatch E op c) (lf_dispatch E op d)"
      by (auto simp: dispatch_special cont_def lf_cont_def op_def intro: sim_res_cont)
  next
    case 4
    with sim_opJumpi [OF conv c next_pos] show "sim_res cd lcode M (dispatch E op c) (lf_dispatch E op d)"
      by (auto simp: dispatch_special cont_def lf_cont_def op_def intro: sim_res_cont)
  next
    case 5
    then have "\<not> (PUSH1 \<le> op \<and> op \<le> PUSH32)" by (auto simp: reads_code_def)
    from sim_shared [OF _ 5 alike_next [OF c next_pos [OF this]]]
    show "sim_res cd lcode M (dispatch E op c) (lf_dispatch E op d)"
      by (intro sim_res_alike) (simp add: op_def)
  qed
qed

lemma sim_execInstr:
  assumes E: "uint256_arith (u256lib E)" and conv: "converted cd lcode cur M" and m: "M i = Some (p, n)"
    and c: "alike (=) (here_parts cd lcode i p) c d" and inv: "sinv c"
  shows "sim_res cd lcode M (execInstr E c) (lf_execInstr E d)"
proof -
  note pl = converted_placed [OF conv m] and h = alike_here [OF c] and op = converted_opcode [OF conv m]
  have at: "code_at (pc c) c = ret (cd ! i) c" "instr_at (pc d) d = ret (lcode ! p) d"
    using h pl(1) op(1) by (simp_all add: code_at_def instr_at_def)
  have same: "stack d = stack c" "params d = params c" "unat (cd ! i) < 256" using c by (auto simp: alike_def)
  let ?p = "propertyMap_get (getStaticGasPrices (revision (BlockParams (params c)))) (unat (cd ! i))"
  show ?thesis
  proof (cases "checkStackLimits (length (stack c)) (unat (cd ! i))")
    case (Some e)
    then show ?thesis using sim_res_fail [OF c]
      by (simp add: execInstr_def lf_execInstr_def at op same lf_limits_base)
  next
    case None
    have "sim_res cd lcode M (bind (useGas ?p c) (\<lambda>_ c. dispatch E (unat (cd ! i)) c))
        (bind (useGas ?p d) (\<lambda>_ d. lf_dispatch E (unat (cd ! i)) d))"
    proof (rule sim_res_bind [OF alike_useGas [THEN rel_funD, THEN rel_funD, OF refl c]])
      fix a and c' :: "'a sfvm_context" and d' :: "'a lfvm_context"
      assume u: "useGas ?p c = ret a c'" "alike (=) (here_parts cd lcode i p) c' d'"
      then have "sinv c'" using inv by (auto simp: useGas_def sinv_def cinv_def split: if_splits)
      from sim_dispatch [OF E conv m u(2) this]
      show "sim_res cd lcode M (dispatch E (unat (cd ! i)) c') (lf_dispatch E (unat (cd ! i)) d')" .
    qed
    then show ?thesis using None
      by (simp add: execInstr_def lf_execInstr_def at op same lf_limits_base lf_price_base Let_def)
  qed
qed

section \<open>The loop\<close>

definition sim :: "bytes \<Rightarrow> Instruction list \<Rightarrow> (nat \<rightharpoonup> nat \<times> nat) \<Rightarrow> 'w sfvm_context \<Rightarrow> 'w lfvm_context \<Rightarrow> bool" where
  "sim cd lcode M c d \<longleftrightarrow> alike (=) (sim_parts cd lcode M 0) c d"

text \<open>A \<open>JUMP_TO\<close> is a step of the long form that only moves the program counter.\<close>

lemma step_JUMP_TO:
  assumes "lf_code d = lcode" and "pc d = int q" and "q < length lcode" and "0 \<le> gas d"
    and "lcode ! q = \<lparr>opcode = JUMP_TO, arg = word_of_nat j\<rparr>" and "j \<le> 65535"
    and "length (stack d) \<le> maxStackSize"
  shows "lf_steps_loop E False statusRunning d = lf_steps_loop E False statusRunning (d\<lparr>pc := int j\<rparr>)"
proof -
  have at: "instr_at (pc d) d = ret \<lparr>opcode = JUMP_TO, arg = word_of_nat j\<rparr> d"
    using assms by (simp add: instr_at_def)
  have price: "lf_propertyMap_get (lf_getStaticGasPrices rv) JUMP_TO = 0" for rv
    by (simp add: lf_getStaticGasPrices_def lf_propertyMap_get_new lf_getBerlinGasPriceInternal_def
        lf_getStaticGasPriceInternal_def)
  have lim: "lf_checkStackLimits (length (stack d)) JUMP_TO = None"
    using assms(7) by (simp add: lf_checkStackLimits_def lf_precomputedStackLimits_def lf_propertyMap_get_new
        lf_computeStackUsage_def check_limits_makeUsage)
  have u: "uint (word_of_nat j :: u16) = int j" using assms(6) by (simp add: uint_nat unat_of_nat del: of_nat_unat)
  have same: "d\<lparr>gas := gas d\<rparr> = d" by (cases d) simp
  have j: "int32 (int j - 1) = int j - 1" "int32 (int j) = int j" using assms(6) by (auto intro!: int32_id)
  have "lf_execInstr E d = ret statusRunning (d\<lparr>pc := int j - 1\<rparr>)"
    using at lim assms(4) j
    by (simp add: lf_execInstr_def price useGas_def same dispatch_special lf_cont_def opJumpTo_def u)
  then show ?thesis using assms j
    by (subst lf_steps_loop.simps) (simp add: ret_def Let_def)
qed

lemma sim_at_instr:
  assumes conv: "converted cd lcode cur M" and s: "sim cd lcode M c d" and inv: "sinv c"
    and lt: "pc c < int (length cd)"
  obtains i p n d' where "M i = Some (p, n)" "alike (=) (here_parts cd lcode i p) c d'"
    "lf_steps_loop E False statusRunning d = lf_steps_loop E False statusRunning d'"
proof -
  from s obtain i q where iq: "pc c = int i" "pc d = int q" "at_pos cd lcode M i q"
    and parts: "code c = cd" "analysis c = findJumpDestinations cd" "lf_code d = lcode"
    by (auto simp: sim_def alike_def sim_parts_def more_sfvm more_lfvm)
  with lt have "linked cd lcode M i q" by (simp add: at_pos_def)
  then obtain p n where m: "M i = Some (p, n)"
    and q: "p = q \<or> unat (cd ! i) = JUMPDEST \<and> q < i \<and> q < length lcode \<and>
      lcode ! q = \<lparr>opcode = JUMP_TO, arg = word_of_nat i\<rparr>"
    by (auto simp: linked_def)
  note pl = converted_placed [OF conv m]
  have al: "alike (=) (\<lambda>_ _. True) c d" using s by (auto simp: sim_def elim: alike_mono)
  from q show ?thesis
  proof
    assume "p = q"
    then have "alike (=) (here_parts cd lcode i p) c d"
      using al iq parts by (simp add: alike_def here_parts_def more_sfvm more_lfvm)
    with m show ?thesis using that by blast
  next
    assume j: "unat (cd ! i) = JUMPDEST \<and> q < i \<and> q < length lcode \<and>
      lcode ! q = \<lparr>opcode = JUMP_TO, arg = word_of_nat i\<rparr>"
    have "lf_steps_loop E False statusRunning d = lf_steps_loop E False statusRunning (d\<lparr>pc := int i\<rparr>)"
      using step_JUMP_TO [OF parts(3) iq(2), of i E] j al inv pl(7) by (auto simp: alike_def sinv_def cinv_def)
    moreover have "alike (=) (here_parts cd lcode i p) c (d\<lparr>pc := int i\<rparr>)"
      using al iq parts pl(6) j by (simp add: alike_def here_parts_def more_sfvm more_lfvm)
    ultimately show ?thesis using m that by blast
  qed
qed

lemma sim_step_done:
  assumes "sim_res cd lcode M (Inr st, c) (Inr st, d)" and "converted cd lcode cur M"
    and "sinv (c\<lparr>pc := int32 (pc c + 1)\<rparr>)"
  shows "sim cd lcode M (c\<lparr>pc := int32 (pc c + 1)\<rparr>) (d\<lparr>pc := int32 (pc d + 1)\<rparr>)"
proof -
  from assms(1) obtain i q where iq: "pc c = int i - 1" "pc d = int q - 1" "at_pos cd lcode M i q"
    and parts: "code c = cd" "analysis c = findJumpDestinations cd" "lf_code d = lcode"
    and al: "alike (=) (\<lambda>_ _. True) c d"
    by (auto simp: sim_res_def alike_def sim_parts_def more_sfvm more_lfvm)
  have "i \<le> 65567 \<and> q \<le> 65567"
  proof (cases "linked cd lcode M i q")
    case True
    then obtain p n where m: "M i = Some (p, n)" "p = q \<or> q < length lcode" by (auto simp: linked_def)
    then show ?thesis
      using converted_placed(7) [OF assms(2) m(1)] converted_opcode(1) [OF assms(2) m(1)]
        converted_length [OF assms(2)] by auto
  next
    case False
    then show ?thesis using iq(3) converted_length [OF assms(2)] by (simp add: at_pos_def)
  qed
  then have "int32 (pc c + 1) = int i" "int32 (pc d + 1) = int q" using iq by (simp_all add: int32_id)
  then show ?thesis using al iq(3) parts
    by (auto simp: sim_def alike_def sim_parts_def more_sfvm more_lfvm)
qed

lemma loop_sim:
  assumes ctx: "run_ctx E" and E: "uint256_arith (u256lib E)" and conv: "converted cd lcode cur M"
    and "sinv c" and "sim cd lcode M c d"
  shows "\<exists>r c' d'. steps_loop E False st c = Some (r, c') \<and> lf_steps_loop E False st d = Some (r, d') \<and>
    alike (=) (\<lambda>_ _. True) c' d'"
  using assms(4,5)
proof (induction "nat (gas c)" arbitrary: c d st rule: less_induct)
  case less
  note inv = less.prems(1) and s = less.prems(2)
  have al: "alike (=) (\<lambda>_ _. True) c d" using s by (auto simp: sim_def elim: alike_mono)
  from s obtain i q where iq: "pc c = int i" "pc d = int q" "at_pos cd lcode M i q"
    and parts: "code c = cd" "lf_code d = lcode"
    by (auto simp: sim_def alike_def sim_parts_def more_sfvm more_lfvm)
  show ?case
  proof (cases "st = statusRunning \<and> pc c < int (length cd)")
    case False
    have "st = statusRunning \<Longrightarrow> int (length lcode) \<le> pc d"
      using False iq converted_placed(1) [OF conv, of i] by (auto simp: at_pos_def linked_def)
    with False al parts show ?thesis
      by (auto simp: steps_loop.simps [of E False st c] lf_steps_loop.simps [of E False st d] ret_def)
  next
    case True
    obtain i p n d' where m: "M i = Some (p, n)" and h: "alike (=) (here_parts cd lcode i p) c d'"
      and skip: "lf_steps_loop E False statusRunning d = lf_steps_loop E False statusRunning d'"
      using sim_at_instr [OF conv s inv conjunct2 [OF True]] by blast
    have lt: "pc c < int (length (code c))" "pc d' < int (length (lf_code d'))"
      using True parts alike_here [OF h] converted_opcode(1) [OF conv m] by auto
    obtain r c1 d1 where x: "execInstr E c = (r, c1)" "lf_execInstr E d' = (r, d1)"
      and res: "sim_res cd lcode M (r, c1) (r, d1)"
      using sim_execInstr [OF E conv m h inv] by (metis prod.collapse sim_res_def)
    show ?thesis
    proof (cases r)
      case (Inl e)
      then have "alike (=) (\<lambda>_ _. True) c1 d1" using res by (simp add: sim_res_def)
      then show ?thesis using x Inl lt True skip
        by (simp add: steps_loop.simps [of E False statusRunning c] fail_def
            lf_steps_loop.simps [of E False statusRunning d'])
    next
      case (Inr st')
      have w: "srel c c1" "st' = statusRunning \<Longrightarrow> gas c1 < gas c"
        using run_ctx.wp_execInstr [OF ctx inv lt(1)] x(1) Inr by (auto simp: wp_def)
      let ?c = "c1\<lparr>pc := int32 (pc c1 + 1)\<rparr>" and ?d = "d1\<lparr>pc := int32 (pc d1 + 1)\<rparr>"
      have si: "sinv ?c" using run_ctx.sinv_step [OF ctx inv w(1)] .
      have sm: "sim cd lcode M ?c ?d" using res Inr by (intro sim_step_done [OF _ conv si, of st']) auto
      have run: "steps_loop E False st c = steps_loop E False st' ?c"
        "lf_steps_loop E False st d = lf_steps_loop E False st' ?d"
        using x Inr lt True skip
        by (simp_all add: steps_loop.simps [of E False statusRunning c]
            lf_steps_loop.simps [of E False statusRunning d'] Let_def)
      show ?thesis
      proof (cases "st' = statusRunning")
        case True
        then have "nat (gas ?c) < nat (gas c)" using w(2) si by (auto simp: sinv_def cinv_def)
        from less.hyps [OF this si sm, of st'] run show ?thesis by simp
      next
        case False
        then show ?thesis using run sm
          by (auto simp: steps_loop.simps [of E False st' ?c] lf_steps_loop.simps [of E False st' ?d] ret_def sim_def
              elim: alike_mono)
      qed
    qed
  qed
qed

section \<open>Runs\<close>

lemma sim_initial:
  assumes conv: "converted (Code p) lcode cur M" and ne: "Code p \<noteq> []"
  shows "sim (Code p) lcode M (initial_context \<lparr>WithShaCache = sha\<rparr> (findJumpDestinations (Code p)) p w)
    (lf_initial_context sha lcode p w)" "lcode \<noteq> []"
proof -
  have l: "linked (Code p) lcode M 0 0" using conv ne by (auto simp: converted_def layout_def)
  then have "at_pos (Code p) lcode M 0 0" by (simp add: at_pos_def)
  then show "sim (Code p) lcode M (initial_context \<lparr>WithShaCache = sha\<rparr> (findJumpDestinations (Code p)) p w)
    (lf_initial_context sha lcode p w)"
    by (auto simp: sim_def alike_def initial_context_def lf_initial_context_def sim_parts_def
        sfvm_context.defs lfvm_context.defs)
  from l obtain q n where m: "M 0 = Some (q, n)" by (auto simp: linked_def)
  then show "lcode \<noteq> []" using converted_opcode(1) [OF conv m] by auto
qed

lemma converted_exists:
  assumes "length cd \<le> 65535"
  shows "\<exists>lcode cur M. convert cd False = Ret lcode \<and> converted cd lcode cur M"
  using convert_layout [of cd False] assms by (auto simp: converted_def)

lemma lf_run_eq:
  assumes ctx: "run_ctx E" and E: "uint256_arith (u256lib E)" and gas: "0 \<le> Gas p" "Gas p < 9223372036854775808"
    and input: "length (Input p) < 9223372036854775808" and conv: "converted (Code p) lcode cur M"
  shows "lf_run E sha p lcode w = run E (findJumpDestinations (Code p)) \<lparr>WithShaCache = sha\<rparr> p w"
proof (cases "Code p = []")
  case True
  then have "lcode = []" using conv by (auto simp: converted_def layout_def linked_def placed_def)
  with True show ?thesis by (simp add: lf_run_def run_def)
next
  case False
  define c where "c = initial_context \<lparr>WithShaCache = sha\<rparr> (findJumpDestinations (Code p)) p w"
  define d where "d = lf_initial_context sha lcode p w"
  have "sinv c"
    using gas input conv by (simp add: c_def initial_context_def sinv_def cinv_def maxCode_def converted_def)
  then obtain r c' d' where r: "steps_loop E False statusRunning c = Some (r, c')"
    "lf_steps_loop E False statusRunning d = Some (r, d')" "alike (=) (\<lambda>_ _. True) c' d'"
    using loop_sim [OF ctx E conv] sim_initial(1) [OF conv False] unfolding c_def d_def by metis
  have g: "generateResult st c' = generateResult st d'" "world c' = world d'" for st
    using alike_generateResult [THEN rel_funD, THEN rel_funD, OF refl r(3)] r(3) by (auto simp: alike_def)
  show ?thesis
    using r(1,2) g False sim_initial(2) [OF conv False]
    by (auto simp: lf_run_def run_def c_def [symmetric] d_def [symmetric] lf_execute_def execute_def
        lf_steps_def steps_def split: sum.splits error.splits)
qed

text \<open>
  C3: the two interpreters agree: for every code up to the size limit of the converter, the
  conversion succeeds and running the converted code gives exactly the result, the gas, the
  output and the world state of running the byte code.
\<close>

theorem lfvm_equals_sfvm:
  assumes "run_ctx E" and "uint256_arith (u256lib E)" and "0 \<le> Gas p" and "Gas p < 9223372036854775808"
    and "length (Input p) < 9223372036854775808" and "length (Code p) \<le> 65535"
  shows "\<exists>lcode. convert (Code p) False = Ret lcode \<and>
    lf_run E sha p lcode w = run E (findJumpDestinations (Code p)) \<lparr>WithShaCache = sha\<rparr> p w"
  using converted_exists [OF assms(6)] lf_run_eq [OF assms(1-5)] by blast

theorem lfvm_equals_sfvm_witness:
  "\<exists>lcode. convert [0x60, 0x04, 0x56, 0x00, 0x5b] False = Ret lcode \<and>
    lf_run empty_env False (demo_params [0x60, 0x04, 0x56, 0x00, 0x5b]) lcode () =
    run empty_env (findJumpDestinations [0x60, 0x04, 0x56, 0x00, 0x5b]) \<lparr>WithShaCache = False\<rparr>
      (demo_params [0x60, 0x04, 0x56, 0x00, 0x5b]) ()"
  using lfvm_equals_sfvm [OF run_ctx_empty_env, of "demo_params [0x60, 0x04, 0x56, 0x00, 0x5b]" False "()"]
    word_uint256.uint256_arith_axioms
  by (simp add: demo_params_def empty_env_def)

end
