(* ===== verification/Lfvm_Super.thy ===== *)
theory Lfvm_Super
  imports Lfvm_Push
begin

text \<open>
  The super instructions: the combined stack usage admits exactly the stacks on which the
  parts can be run one after the other, and each super instruction has the effect of its
  parts (with one exception, the last one below, which omits a check).
\<close>

section \<open>Stack usage\<close>

text \<open>The stack limits of a sequence of instructions, checked one by one.\<close>

fun fits_all :: "int \<Rightarrow> stackUsage list \<Rightarrow> bool" where
  "fits_all n [] \<longleftrightarrow> 0 \<le> n \<and> n \<le> int maxStackSize"
| "fits_all n (u # us) \<longleftrightarrow>
     0 \<le> n \<and> n \<le> int maxStackSize \<and> 0 \<le> n + su_from u \<and> n + su_to u \<le> int maxStackSize \<and> fits_all (n + su_delta u) us"

definition usage_wf :: "stackUsage \<Rightarrow> bool" where
  "usage_wf u \<longleftrightarrow> su_from u \<le> 0 \<and> 0 \<le> su_to u \<and> su_from u \<le> su_delta u \<and> su_delta u \<le> su_to u"

lemma combine_fits:
  assumes "list_all usage_wf us" and "usage_wf r"
  shows "(0 \<le> n + su_from (foldl combine_step r us) \<and> n + su_to (foldl combine_step r us) \<le> int maxStackSize) \<longleftrightarrow>
    (0 \<le> n + su_from r \<and> n + su_to r \<le> int maxStackSize \<and> fits_all (n + su_delta r) us)"
  using assms
proof (induction us arbitrary: r)
  case Nil
  then show ?case by (auto simp: usage_wf_def)
next
  case (Cons u us)
  have wf: "usage_wf (combine_step r u)"
    using Cons.prems by (auto simp: usage_wf_def combine_step_def Let_def)
  have "(0 \<le> n + su_from (combine_step r u) \<and> n + su_to (combine_step r u) \<le> int maxStackSize) \<longleftrightarrow>
      (0 \<le> n + su_from r \<and> n + su_to r \<le> int maxStackSize \<and>
       0 \<le> n + su_delta r + su_from u \<and> n + su_delta r + su_to u \<le> int maxStackSize)"
    by (auto simp: combine_step_def Let_def)
  moreover have "su_delta (combine_step r u) = su_delta r + su_delta u" by (simp add: combine_step_def Let_def)
  ultimately show ?case using Cons.IH [OF _ wf] Cons.prems by (auto simp: usage_wf_def add.assoc)
qed

lemma usage_wf_base: "usage_wf (computeStackUsage op)"
  by (auto simp: usage_wf_def computeStackUsage_def)

text \<open>
  C20: the stack limits of a super instruction, computed by combining the usages of its parts,
  are passed exactly when the limits of the parts are passed one after the other on the
  stack sizes they are run with.
\<close>

theorem super_stack_limits:
  assumes "isSuperInstruction op" and "op < lf_numOpCodes"
  shows "lf_checkStackLimits n op = None \<longleftrightarrow> fits_all (int n) (map computeStackUsage (decompose op))"
proof -
  have u: "lf_computeStackUsage op = combineStackUsage (map computeStackUsage (decompose op))"
    using assms(1) by (auto simp: lf_computeStackUsage_def isSuperInstruction_def decompose_def)
  have "list_all usage_wf (map computeStackUsage (decompose op))"
    by (simp add: list_all_iff usage_wf_base)
  from combine_fits [OF this, of "\<lparr>su_from = 0, su_to = 0, su_delta = 0\<rparr>" "int n"]
  have "(0 \<le> int n + su_from (combineStackUsage (map computeStackUsage (decompose op))) \<and>
      int n + su_to (combineStackUsage (map computeStackUsage (decompose op))) \<le> int maxStackSize) \<longleftrightarrow>
      (int n \<le> int maxStackSize \<and> fits_all (int n) (map computeStackUsage (decompose op)))"
    by (simp add: usage_wf_def combineStackUsage_def)
  moreover have "fits_all (int n) us \<Longrightarrow> int n \<le> int maxStackSize" for us by (cases us) auto
  ultimately show ?thesis using assms(2)
    by (auto simp: lf_checkStackLimits_def lf_precomputedStackLimits_def u check_limits_def usage_limits_def
        lf_propertyMap_get_def lf_newOpCodePropertyMap_def)
qed

theorem super_stack_limits_witness:
  "lf_checkStackLimits 2 SWAP2_SWAP1_POP_JUMP = None \<longleftrightarrow>
   fits_all 2 (map computeStackUsage [SWAP2, SWAP1, POP, JUMP])"
  using super_stack_limits [of SWAP2_SWAP1_POP_JUMP 2]
  by (simp add: isSuperInstruction_def decompose_def)

section \<open>Parts\<close>

text \<open>
  The parts of a super instruction run one after the other: a push takes the next of the
  immediate values, every other part is the instruction of its op-code.
\<close>

fun run_parts :: "'w env \<Rightarrow> u256 list \<Rightarrow> OpCode list \<Rightarrow> 'w lf_op" where
  "run_parts E vs [] c = ret statusRunning c"
| "run_parts E vs (op # ops) c =
     (if PUSH1 \<le> op \<and> op \<le> PUSH32 then bind (push (hd vs) c) (\<lambda>_ c. run_parts E (tl vs) ops c)
      else bind (lf_dispatch E op c) (\<lambda>_ c. run_parts E vs ops c))"

lemma base_entries:
  "lf_dispatch E POP = lf_cont opPop" "lf_dispatch E SWAP1 = lf_cont (opSwap 1)"
  "lf_dispatch E SWAP2 = lf_cont (opSwap 2)" "lf_dispatch E DUP1 = lf_cont (opDup 1)"
  "lf_dispatch E DUP2 = lf_cont (opDup 2)" "lf_dispatch E DUP3 = lf_cont (opDup 3)"
  "lf_dispatch E JUMP = lf_cont lf_opJump" "lf_dispatch E JUMPI = lf_cont lf_opJumpi"
  "lf_dispatch E AND = lf_cont (opAnd E)" "lf_dispatch E ADD = lf_cont (opAdd E)"
  "lf_dispatch E SHL = lf_cont (opShl E)" "lf_dispatch E SUB = lf_cont (opSub E)"
  "lf_dispatch E ISZERO = lf_cont opIszero" "lf_dispatch E LT = lf_cont (opLt E)"
  "lf_dispatch E MSTORE = lf_cont opMstore" "lf_dispatch E (Suc 0) = lf_cont (opAdd E)"
  by (simp_all add: lf_dispatch_def lfvm_ops_def lfvm_ops_hot_def)

lemma lf_dispatch_super:
  assumes "256 < op"
  shows "lf_dispatch E op = (case map_of (lfvm_ops_super E) op of Some f \<Rightarrow> f | None \<Rightarrow> fail errInvalidOpCode)"
proof -
  have "list_all (\<lambda>x. fst x \<le> 256) (lfvm_ops_hot E @ lfvm_ops_rest E)"
    by (simp add: lfvm_ops_hot_def lfvm_ops_rest_def)
  then have "map_of (lfvm_ops_hot E @ lfvm_ops_rest E) op = None"
    using assms by (metis (no_types, lifting) list_all_iff linorder_not_less map_of_SomeD fst_conv not_None_eq)
  then show ?thesis
    unfolding lf_dispatch_def lfvm_ops_def append_assoc [symmetric] map_of_append [of _ "lfvm_ops_super E"]
    by (auto simp: map_add_def split: option.splits)
qed

lemma super_entries:
  "lf_dispatch E SWAP2_SWAP1_POP_JUMP = lf_cont opSwap2_Swap1_Pop_Jump"
  "lf_dispatch E SWAP1_POP_SWAP2_SWAP1 = lf_cont opSwap1_Pop_Swap2_Swap1"
  "lf_dispatch E POP_SWAP2_SWAP1_POP = lf_cont opPop_Swap2_Swap1_Pop"
  "lf_dispatch E POP_POP = lf_cont opPopPop" "lf_dispatch E PUSH1_SHL = lf_cont (opPush1_Shl E)"
  "lf_dispatch E PUSH1_ADD = lf_cont opPush1_Add" "lf_dispatch E PUSH1_DUP1 = lf_cont opPush1_Dup1"
  "lf_dispatch E PUSH2_JUMP = lf_cont opPush2_Jump" "lf_dispatch E PUSH2_JUMPI = lf_cont opPush2_Jumpi"
  "lf_dispatch E PUSH1_PUSH1 = lf_cont opPush1_Push1" "lf_dispatch E SWAP1_POP = lf_cont opSwap1_Pop"
  "lf_dispatch E POP_JUMP = lf_cont opPop_Jump" "lf_dispatch E SWAP2_SWAP1 = lf_cont opSwap2_Swap1"
  "lf_dispatch E SWAP2_POP = lf_cont opSwap2_Pop" "lf_dispatch E DUP2_MSTORE = lf_cont opDup2_Mstore"
  "lf_dispatch E DUP2_LT = lf_cont (opDup2_Lt E)" "lf_dispatch E ISZERO_PUSH2_JUMPI = lf_cont opIsZero_Push2_Jumpi"
  "lf_dispatch E PUSH1_PUSH4_DUP3 = lf_cont opPush1_Push4_Dup3"
  "lf_dispatch E AND_SWAP1_POP_SWAP2_SWAP1 = lf_cont (opAnd_Swap1_Pop_Swap2_Swap1 E)"
  "lf_dispatch E PUSH1_PUSH1_PUSH1_SHL_SUB = lf_cont (opPush1_Push1_Push1_Shl_Sub E)"
  by (simp_all add: lf_dispatch_super) (simp_all add: lfvm_ops_super_def)

text \<open>The operands that the parts need on the stack.\<close>

lemma super_room:
  assumes "lf_checkStackLimits n op = None" and "isSuperInstruction op" and "op < lf_numOpCodes"
  shows "fits_all (int n) (map computeStackUsage (decompose op))"
  using super_stack_limits [OF assms(2,3)] assms(1) by simp

text \<open>The instructions that the converter emits for a super instruction with immediate bytes \<open>bs\<close>.\<close>

definition super_instrs :: "OpCode \<Rightarrow> bytes \<Rightarrow> Instruction list" where
  "super_instrs op bs =
     (if op = PUSH1_PUSH4_DUP3 then
        [\<lparr>opcode = op, arg = push_bit 8 (ucast (bs ! 0))\<rparr>, \<lparr>opcode = DATA, arg = pack16 (bs ! 1) (bs ! 2)\<rparr>,
         \<lparr>opcode = DATA, arg = pack16 (bs ! 3) (bs ! 4)\<rparr>]
      else if op = PUSH1_PUSH1_PUSH1_SHL_SUB then
        [\<lparr>opcode = op, arg = pack16 (bs ! 0) (bs ! 1)\<rparr>, \<lparr>opcode = DATA, arg = ucast (bs ! 2)\<rparr>]
      else if op \<in> {ISZERO_PUSH2_JUMPI, PUSH2_JUMP, PUSH2_JUMPI, PUSH1_PUSH1} then
        [\<lparr>opcode = op, arg = pack16 (bs ! 0) (bs ! 1)\<rparr>]
      else if op \<in> {PUSH1_ADD, PUSH1_SHL, PUSH1_DUP1} then [\<lparr>opcode = op, arg = ucast (bs ! 0)\<rparr>]
      else [\<lparr>opcode = op, arg = 0\<rparr>])"

text \<open>The values of the pushes among the parts.\<close>

fun push_values :: "OpCode list \<Rightarrow> bytes \<Rightarrow> u256 list" where
  "push_values [] bs = []"
| "push_values (op # ops) bs =
     (if PUSH1 \<le> op \<and> op \<le> PUSH32
      then of_be_bytes (take (op - PUSH1 + 1) bs) # push_values ops (drop (op - PUSH1 + 1) bs)
      else push_values ops bs)"

definition super_effect :: "'w env \<Rightarrow> OpCode \<Rightarrow> bytes \<Rightarrow> 'w lfvm_context \<Rightarrow> bool" where
  "super_effect E op bs c \<longleftrightarrow>
     lf_dispatch E op c =
     bind (run_parts E (push_values (decompose op) bs) (decompose op) c)
       (\<lambda>st c. ret st (c\<lparr>pc := pc c + int (length (super_instrs op bs)) - 1\<rparr>))"

lemma pc_same [simp]: "(c :: 'w lfvm_context)\<lparr>pc := pc c\<rparr> = c" "(c :: 'w lfvm_context)\<lparr>stack := stack c\<rparr> = c"
  by (cases c; simp)+

lemma swap_upd: "(c :: 'w lfvm_context)\<lparr>pc := p, stack := s\<rparr> = c\<lparr>stack := s, pc := p\<rparr>"
  by (cases c) simp

lemma bind_pc_same [simp]:
  "bind r (\<lambda>st c. ret st (c\<lparr>pc := pc c + int (Suc 0) - 1\<rparr>)) = (r :: ('w lfvm_context, 'a) res)"
  by (cases r) (auto simp: bind_def ret_def split: sum.splits)

lemma run_parts_Nil [simp]: "run_parts E vs [] = ret statusRunning"
  by (intro ext) simp

lemma bind_ret_id: "bind m (\<lambda>a c. ret a c) = m"
  by (auto simp: bind_def ret_def split: prod.splits sum.splits)

lemmas parts_simps = bind_assoc super_effect_def decompose_def super_entries base_entries lf_cont_def super_instrs_def

lemma effect_stack:
  "2 \<le> length (stack c) \<Longrightarrow> super_effect E SWAP1_POP bs c"
  "3 \<le> length (stack c) \<Longrightarrow> super_effect E SWAP2_POP bs c"
  "2 \<le> length (stack c) \<Longrightarrow> super_effect E POP_POP bs c"
  "3 \<le> length (stack c) \<Longrightarrow> super_effect E SWAP2_SWAP1 bs c"
  "4 \<le> length (stack c) \<Longrightarrow> super_effect E SWAP1_POP_SWAP2_SWAP1 bs c"
  "4 \<le> length (stack c) \<Longrightarrow> super_effect E POP_SWAP2_SWAP1_POP bs c"
  "5 \<le> length (stack c) \<Longrightarrow> super_effect E AND_SWAP1_POP_SWAP2_SWAP1 bs c"
  "1 \<le> length (stack c) \<Longrightarrow> super_effect E POP_JUMP bs c"
  "2 \<le> length (stack c) \<Longrightarrow> length (stack c) < maxStackSize \<Longrightarrow> super_effect E DUP2_MSTORE bs c"
  "2 \<le> length (stack c) \<Longrightarrow> length (stack c) < maxStackSize \<Longrightarrow> super_effect E DUP2_LT bs c"
  by (auto simp: parts_simps le_length_numeral le_length_Cons opSwap1_Pop_def opSwap2_Pop_def opPopPop_def
      opSwap2_Swap1_def opSwap1_Pop_Swap2_Swap1_def opPop_Swap2_Swap1_Pop_def opAnd_Swap1_Pop_Swap2_Swap1_def
      opAnd_def opPop_Jump_def opSwap_def opPop_def opDup_def opDup2_Mstore_def opMstore_def opDup2_Lt_def opLt_def)

text \<open>The instructions at the program counter.\<close>

definition super_at :: "OpCode \<Rightarrow> bytes \<Rightarrow> 'w lfvm_context \<Rightarrow> bool" where
  "super_at op bs c \<longleftrightarrow>
     0 \<le> pc c \<and> pc c \<le> 65567 \<and> nat (pc c) + length (super_instrs op bs) \<le> length (lf_code c) \<and>
     take (length (super_instrs op bs)) (drop (nat (pc c)) (lf_code c)) = super_instrs op bs"

lemma super_at_fetch:
  assumes "super_at op bs c" and "k < length (super_instrs op bs)"
  shows "lf_code c ! (nat (pc c) + k) = super_instrs op bs ! k" "nat (pc c) + k < length (lf_code c)"
proof -
  have "take (length (super_instrs op bs)) (drop (nat (pc c)) (lf_code c)) ! k = super_instrs op bs ! k"
    using assms(1) by (simp add: super_at_def)
  then show "lf_code c ! (nat (pc c) + k) = super_instrs op bs ! k" "nat (pc c) + k < length (lf_code c)"
    using assms by (auto simp: super_at_def)
qed

lemma super_at_instr:
  assumes "super_at op bs c" and "k < length (super_instrs op bs)"
  shows "instr_at (pc c + int k) c = ret (super_instrs op bs ! k) c"
proof -
  have "nat (pc c + int k) = nat (pc c) + k" using assms(1) by (simp add: super_at_def nat_add_distrib)
  then show ?thesis using super_at_fetch [OF assms] assms(1) by (simp add: instr_at_def super_at_def)
qed

lemma super_at_0: "super_at op bs c \<Longrightarrow> instr_at (pc c) c = ret (super_instrs op bs ! 0) c"
  using super_at_instr [of op bs c 0] by (simp add: super_instrs_def split: if_splits)

lemma be1: "of_be_bytes [b] = (SetUint64 (ucast b) :: u256)"
  by (simp add: SetUint64_be1)

lemma unat_byte16: "unat (ucast (b :: byte) :: u16) = unat b"
  unfolding unsigned_ucast_eq by (rule take_bit_nat_eq_self, rule less_trans [OF unat_byte_bound], simp)

lemma ucast_byte16: "ucast (ucast (b :: byte) :: u16) = (ucast b :: u64)"
  by (simp add: word_unat_eq_iff unat_ucast16 unat_byte16 unat_ucast_byte)

lemma byte16_byte: "ucast (ucast (b :: byte) :: u16) = b"
  unfolding word_unat_eq_iff unsigned_ucast_eq [of "ucast b :: u16"] unat_byte16
  by (simp add: take_bit_nat_eq_self)

lemma low_byte16: "and (pack16 a b) 0xFF = ucast b"
proof -
  have "and (pack16 a b) 0xFF = take_bit 8 (pack16 a b)" by (simp add: take_bit_eq_mask mask_eq_exp_minus_1)
  also have "\<dots> = ucast b"
    by (simp add: word_unat_eq_iff unsigned_take_bit_eq unat_pack16 unat_byte16 take_bit_eq_mod [of 8 "256 * unat a + unat b"])
  finally show ?thesis .
qed

lemma low_byte: "ucast (and (pack16 a b) 0xFF) = (ucast b :: u64)"
  by (simp only: low_byte16 ucast_byte16)

lemma high_byte: "ucast (drop_bit 8 (pack16 a b)) = (ucast a :: u64)"
  using unat_byte_bound [of b]
  by (simp add: word_unat_eq_iff unat_ucast16 unat_ucast_byte unat_drop_bit_eq unat_pack16 drop_bit_eq_div [where 'a = nat])

lemma be2: "of_be_bytes [a, b] = (SetUint64 (ucast (pack16 a b)) :: u256)"
  by (simp add: word_unat_eq_iff unat_of_be_bytes nat_of_be_def unat_ucast16 unat_pack16)

text \<open>The addition of \<open>opPush1_Add\<close>.\<close>

lemma unat_limb: "unat (limb k x) = unat x div 2 ^ (64 * k) mod 2 ^ 64"
  by (simp add: limb_def unsigned_ucast_eq unat_drop_bit_eq drop_bit_eq_div [where 'a = nat] take_bit_eq_mod [where 'a = nat])

lemma base_4:
  "(q0 :: nat) = b * q1 + m0 \<Longrightarrow> q1 = b * q2 + m1 \<Longrightarrow> q2 = b * q3 + m2 \<Longrightarrow>
   q0 = b * b * b * q3 + b * b * m2 + b * m1 + m0"
  by (simp add: algebra_simps)

lemma limb_sum:
  "unat x = 2 ^ 192 * unat (limb 3 x) + 2 ^ 128 * unat (limb 2 x) + 2 ^ 64 * unat (limb 1 x) + unat (limb 0 x)"
proof -
  define q0 where "q0 = unat x"
  define q1 where "q1 = q0 div 2 ^ 64"
  define q2 where "q2 = q1 div 2 ^ 64"
  define q3 where "q3 = q2 div 2 ^ 64"
  have q: "q0 div 2 ^ 128 = q2" "q0 div 2 ^ 192 = q3"
    by (simp_all add: q1_def q2_def q3_def div_mult2_eq [symmetric])
  have "q0 < 2 ^ 256" unfolding q0_def using unsigned_less [of x] by simp
  then have "q3 mod 2 ^ 64 = q3" unfolding q(2) [symmetric] by (simp add: div_less_iff_less_mult)
  moreover have "q0 = 2 ^ 64 * q1 + q0 mod 2 ^ 64" unfolding q1_def by (rule mult_div_mod_eq [symmetric])
  moreover have "q1 = 2 ^ 64 * q2 + q1 mod 2 ^ 64" unfolding q2_def by (rule mult_div_mod_eq [symmetric])
  moreover have "q2 = 2 ^ 64 * q3 + q2 mod 2 ^ 64" unfolding q3_def by (rule mult_div_mod_eq [symmetric])
  ultimately have "q0 = 2 ^ 64 * 2 ^ 64 * 2 ^ 64 * (q3 mod 2 ^ 64) + 2 ^ 64 * 2 ^ 64 * (q2 mod 2 ^ 64)
      + 2 ^ 64 * (q1 mod 2 ^ 64) + q0 mod 2 ^ 64"
    by (metis base_4)
  moreover have "(64 :: nat) * 3 = 192" "(64 :: nat) * 2 = 128" "(64 :: nat) * 1 = 64" "(64 :: nat) * 0 = 0"
    "(2 :: nat) ^ 64 * 2 ^ 64 * 2 ^ 64 = 2 ^ 192" "(2 :: nat) ^ 64 * 2 ^ 64 = 2 ^ 128" by simp_all
  ultimately show ?thesis
    by (simp only: unat_limb q0_def [symmetric] q q1_def [symmetric] power_0 div_by_1)
qed

lemma len_u256: "LENGTH(256) = 256"
  by simp

lemma add_limbs_eq: "add_limbs trg a = trg + ucast a"
proof -
  obtain t0 c0 where 0: "Add64 (limb 0 trg) a 0 = (t0, c0)" by fastforce
  obtain t1 c1 where 1: "Add64 (limb 1 trg) 0 c0 = (t1, c1)" by fastforce
  obtain t2 c2 where 2: "Add64 (limb 2 trg) 0 c1 = (t2, c2)" by fastforce
  obtain t3 c3 where 3: "Add64 (limb 3 trg) 0 c2 = (t3, c3)" by fastforce
  note s0 = Add64_spec [OF 0 disjI1 [OF refl]]
  note s1 = Add64_spec [OF 1 s0(2)]
  note s2 = Add64_spec [OF 2 s1(2)]
  note s3 = Add64_spec [OF 3 s2(2)]
  have r: "add_limbs trg a = of_limbs t3 t2 t1 t0" by (simp add: add_limbs_def 0 1 2 3 del: One_nat_def)
  have "unat (of_limbs t3 t2 t1 t0) + unat c3 * 2 ^ 256 = unat trg + unat a"
    using s0(1) s1(1) s2(1) s3(1) unfolding unat_of_limbs limb_sum [of trg] by simp
  then have "(unat trg + unat a) mod 2 ^ 256 = unat (of_limbs t3 t2 t1 t0)"
    using unsigned_less [of "of_limbs t3 t2 t1 t0"] by (metis len_u256 mod_less mod_mult_self1)
  then show ?thesis unfolding r by (simp add: word_unat_eq_iff unat_word_ariths unat_ucast64)
qed

lemma effect_push1:
  assumes at: "super_at op bs c" and "length bs = 1"
  shows "op = PUSH1_DUP1 \<Longrightarrow> length (stack c) + 2 \<le> maxStackSize \<Longrightarrow> super_effect E op bs c"
    "op = PUSH1_ADD \<Longrightarrow> uint256_arith (u256lib E) \<Longrightarrow> 1 \<le> length (stack c) \<Longrightarrow> length (stack c) < maxStackSize \<Longrightarrow> super_effect E op bs c"
    "op = PUSH1_SHL \<Longrightarrow> 1 \<le> length (stack c) \<Longrightarrow> length (stack c) < maxStackSize \<Longrightarrow> super_effect E op bs c"
proof -
  obtain b where b: "bs = [b]" using assms(2) by (auto simp: length_Suc_conv)
  note i = super_at_0 [OF at]
  show "op = PUSH1_DUP1 \<Longrightarrow> length (stack c) + 2 \<le> maxStackSize \<Longrightarrow> super_effect E op bs c"
    using i by (simp add: parts_simps opPush1_Dup1_def opDup_def push2_def b be1 ucast_byte16)
  have a: "SetUint64 (ucast b) + x = x + ucast (ucast (b :: byte) :: u64)" for x
    by (simp add: SetUint64_def)
  show "op = PUSH1_ADD \<Longrightarrow> uint256_arith (u256lib E) \<Longrightarrow> 1 \<le> length (stack c) \<Longrightarrow> length (stack c) < maxStackSize \<Longrightarrow> super_effect E op bs c"
    using i by (auto simp: parts_simps opPush1_Add_def opAdd_def b be1 ucast_byte16 le_length_Cons add_limbs_eq
        uint256_arith.Add a)
  have "unat (SetUint64 (ucast b)) < 256" "unat (Uint64 (SetUint64 (ucast b))) = unat (ucast b :: u16)"
    by (simp_all add: unat_ucast_byte unat_byte16)
  then show "op = PUSH1_SHL \<Longrightarrow> 1 \<le> length (stack c) \<Longrightarrow> length (stack c) < maxStackSize \<Longrightarrow> super_effect E op bs c"
    using i by (auto simp: parts_simps opPush1_Shl_def opShl_def b be1 ucast_byte16 le_length_Cons)
qed

lemma small_dest:
  fixes a :: u16
  shows "IsUint64 (SetUint64 (ucast a))" "\<not> 2147483647 < Uint64 (SetUint64 (ucast a))"
    "int32 (int32 (uint (Uint64 (SetUint64 (ucast a)))) - 1) = int32 (uint a - 1)"
proof -
  have u: "uint (ucast a :: u64) = uint a" by (simp add: uint_nat unat_ucast16 del: of_nat_unat)
  have b: "uint a < 65536" using uint_lt2p [of a] by simp
  then have i: "int32 (uint a) = uint a" using uint_ge_0 [of a] by (intro int32_id) linarith+
  show "IsUint64 (SetUint64 (ucast a))" by simp
  show "\<not> 2147483647 < Uint64 (SetUint64 (ucast a))" using b u by (simp add: word_less_def)
  show "int32 (int32 (uint (Uint64 (SetUint64 (ucast a)))) - 1) = int32 (uint a - 1)"
    using i by (simp add: u)
qed

lemma effect_push2:
  assumes at: "super_at op bs c" and "length bs = 2"
  shows "op = PUSH1_PUSH1 \<Longrightarrow> length (stack c) + 2 \<le> maxStackSize \<Longrightarrow> super_effect E op bs c"
    "op = PUSH2_JUMP \<Longrightarrow> length (stack c) < maxStackSize \<Longrightarrow> super_effect E op bs c"
    "op = PUSH2_JUMPI \<Longrightarrow> 1 \<le> length (stack c) \<Longrightarrow> length (stack c) < maxStackSize \<Longrightarrow> super_effect E op bs c"
    "op = ISZERO_PUSH2_JUMPI \<Longrightarrow> 1 \<le> length (stack c) \<Longrightarrow> length (stack c) < maxStackSize \<Longrightarrow> super_effect E op bs c"
proof -
  obtain a b where b: "bs = [a, b]" using assms(2) by (auto simp: numeral_2_eq_2 length_Suc_conv)
  have i: "instr_at (pc c) c = ret (super_instrs op [a, b] ! 0) c" using super_at_0 [OF at] b by simp
  then have i': "instr_at (pc (c\<lparr>stack := s\<rparr>)) (c\<lparr>stack := s\<rparr>) = ret (super_instrs op [a, b] ! 0) (c\<lparr>stack := s\<rparr>)" for s
    by (auto simp: instr_at_def ret_def fail_def split: if_splits)
  show "op = PUSH1_PUSH1 \<Longrightarrow> length (stack c) + 2 \<le> maxStackSize \<Longrightarrow> super_effect E op bs c"
    using i by (simp add: parts_simps opPush1_Push1_def push2_def b be1 low_byte high_byte)
  show "op = PUSH2_JUMP \<Longrightarrow> length (stack c) < maxStackSize \<Longrightarrow> super_effect E op bs c"
    using i by (simp add: parts_simps opPush2_Jump_def lf_opJump_def b be2 small_dest del: Uint64_SetUint64)
  show "op = PUSH2_JUMPI \<Longrightarrow> 1 \<le> length (stack c) \<Longrightarrow> length (stack c) < maxStackSize \<Longrightarrow> super_effect E op bs c"
    using i' by (auto simp: parts_simps opPush2_Jumpi_def lf_opJumpi_def b be2 small_dest le_length_Cons
        simp del: Uint64_SetUint64)
  show "op = ISZERO_PUSH2_JUMPI \<Longrightarrow> 1 \<le> length (stack c) \<Longrightarrow> length (stack c) < maxStackSize \<Longrightarrow> super_effect E op bs c"
    using i' by (auto simp: parts_simps opIsZero_Push2_Jumpi_def opIszero_def lf_opJumpi_def b be2 small_dest
        le_length_Cons simp del: Uint64_SetUint64)
qed

lemma effect_shl_sub:
  assumes at: "super_at PUSH1_PUSH1_PUSH1_SHL_SUB bs c" and "length bs = 3"
    and "length (stack c) + 3 \<le> maxStackSize"
  shows "super_effect E PUSH1_PUSH1_PUSH1_SHL_SUB bs c"
proof -
  obtain a b d where b: "bs = [a, b, d]" using assms(2) by (auto simp: numeral_3_eq_3 length_Suc_conv)
  have i: "instr_at (pc c) c = ret \<lparr>opcode = PUSH1_PUSH1_PUSH1_SHL_SUB, arg = pack16 a b\<rparr> c"
    using super_at_0 [OF at] b by (simp add: super_instrs_def)
  have "int32 (pc c + 1) = pc c + 1" using at by (simp add: super_at_def int32_id)
  then have j: "instr_at (int32 (pc c + 1)) c = ret \<lparr>opcode = DATA, arg = ucast d\<rparr> c"
    using super_at_instr [OF at, of 1] b by (simp add: super_instrs_def)
  have v: "ucast (and (pack16 a b) 0xFF) = b" by (simp only: low_byte16 byte16_byte)
  have s: "unat (SetUint64 (ucast d)) < 256" "unat (Uint64 (SetUint64 (ucast d))) = unat d"
    by (simp_all add: unat_ucast_byte)
  have pc: "int32 (pc c + 1) = pc c + 1" using at by (simp add: super_at_def int32_id)
  show ?thesis using i j assms(3) s
    by (simp add: parts_simps opPush1_Push1_Push1_Shl_Sub_def opShl_def opSub_def b be1 byte16_byte v pack16_bytes pc Let_def)
qed

lemma effect_push4:
  assumes at: "super_at PUSH1_PUSH4_DUP3 bs c" and "length bs = 5"
    and "1 \<le> length (stack c)" "length (stack c) + 3 \<le> maxStackSize"
  shows "super_effect E PUSH1_PUSH4_DUP3 bs c"
proof -
  obtain b0 b1 b2 b3 b4 where b: "bs = [b0, b1, b2, b3, b4]"
    using assms(2) by (auto simp: eval_nat_numeral length_Suc_conv)
  obtain x xs where st: "stack c = x # xs" using assms(3) by (cases "stack c") auto
  have i: "instr_at (pc c) c = ret \<lparr>opcode = PUSH1_PUSH4_DUP3, arg = pack16 b0 0\<rparr> c"
    using super_at_0 [OF at] b by (simp add: super_instrs_def pack16_0)
  have pc: "int32 (pc c + 1) = pc c + 1" "int32 (pc c + 2) = pc c + 2" "int32 (pc c + 3) = pc c + 3" "0 \<le> pc c"
    using at by (auto simp: super_at_def)
  let ?d = "c\<lparr>stack := of_be_bytes [b0] # stack c, pc := pc c + 1\<rparr>"
  have len: "nat (pc c) + 3 \<le> length (lf_code c)" using at by (simp add: super_at_def super_instrs_def)
  have sl: "take 2 (drop (nat (pc c + 1)) (lf_code c))
      = [\<lparr>opcode = DATA, arg = pack16 b1 b2\<rparr>, \<lparr>opcode = DATA, arg = pack16 b3 b4\<rparr>]"
  proof (rule nth_equalityI)
    show "length (take 2 (drop (nat (pc c + 1)) (lf_code c)))
        = length [\<lparr>opcode = DATA, arg = pack16 b1 b2\<rparr>, \<lparr>opcode = DATA, arg = pack16 b3 b4\<rparr>]"
      using len pc(4) by (simp add: nat_add_distrib)
    fix k
    assume "k < length (take 2 (drop (nat (pc c + 1)) (lf_code c)))"
    then have "k = 0 \<or> k = 1" by auto
    then show "take 2 (drop (nat (pc c + 1)) (lf_code c)) ! k
        = [\<lparr>opcode = DATA, arg = pack16 b1 b2\<rparr>, \<lparr>opcode = DATA, arg = pack16 b3 b4\<rparr>] ! k"
      using super_at_fetch [OF at, of 1] super_at_fetch [OF at, of 2] len pc(4)
      by (auto simp: nat_add_distrib super_instrs_def b)
  qed
  have slice: "code_slice 2 ?d = ret [\<lparr>opcode = DATA, arg = pack16 b1 b2\<rparr>, \<lparr>opcode = DATA, arg = pack16 b3 b4\<rparr>] ?d"
    using len pc sl by (simp add: code_slice_def Let_def add.assoc)
  have v4: "SetUint64 (or (push_bit 16 (ucast (pack16 b1 b2))) (ucast (pack16 b3 b4))) = of_be_bytes [b1, b2, b3, b4]"
    using push4_value [of "[b1, b2, b3, b4]"] by (simp add: push_instrs_def push_pair_def)
  have v1: "SetUint64 (ucast (drop_bit 8 (pack16 b0 0))) = of_be_bytes [b0]"
    by (simp add: high_byte be1)
  have "opPush1_Push4_Dup3 c = ret () (c\<lparr>stack := x # of_be_bytes [b1, b2, b3, b4] # of_be_bytes [b0] # stack c, pc := pc c + 2\<rparr>)"
    using i slice pc assms(4) st
    by (simp add: opPush1_Push4_Dup3_def lf_opPush1_def opPush4_def v1 v4 opDup_def add.assoc)
  then show ?thesis using assms(4) st
    by (simp add: parts_simps b opDup_def)
qed

text \<open>The number of immediate bytes of the parts.\<close>

definition imm_bytes :: "OpCode list \<Rightarrow> nat" where
  "imm_bytes ops = sum_list (map (\<lambda>op. Width op - 1) ops)"

text \<open>
  C19: every super instruction but \<open>SWAP2_SWAP1_POP_JUMP\<close> has the effect of its parts: if
  the stack check of the super instruction passes and the code at the program counter is the
  one the converter emits for it, the handler gives exactly the context (or the error) of
  running the parts one after the other with the immediate values.
\<close>

theorem super_instruction_effect:
  assumes "uint256_arith (u256lib E)" and "isSuperInstruction op" and "op \<noteq> SWAP2_SWAP1_POP_JUMP"
    and "lf_checkStackLimits (length (stack c)) op = None" and "super_at op bs c"
    and "length bs = imm_bytes (decompose op)"
  shows "lf_dispatch E op c =
    bind (run_parts E (push_values (decompose op) bs) (decompose op) c)
      (\<lambda>st c. ret st (c\<lparr>pc := pc c + int (length (super_instrs op bs)) - 1\<rparr>))"
proof -
  have "op \<in> {SWAP1_POP_SWAP2_SWAP1, POP_SWAP2_SWAP1_POP, POP_POP, PUSH1_SHL, PUSH1_ADD, PUSH1_DUP1, PUSH2_JUMP,
      PUSH2_JUMPI, PUSH1_PUSH1, SWAP1_POP, POP_JUMP, SWAP2_SWAP1, SWAP2_POP, DUP2_MSTORE, DUP2_LT,
      ISZERO_PUSH2_JUMPI, PUSH1_PUSH4_DUP3, AND_SWAP1_POP_SWAP2_SWAP1, PUSH1_PUSH1_PUSH1_SHL_SUB}"
    using assms(2,3) by (simp add: isSuperInstruction_def decompose_def split: if_splits)
  moreover have "fits_all (int (length (stack c))) (map computeStackUsage (decompose op))"
    using calculation by (intro super_room [OF assms(4,2)]) auto
  ultimately have "super_effect E op bs c"
    using assms(1,5,6) effect_push1 [OF assms(5)] effect_push2 [OF assms(5)]
    by (elim insertE emptyE)
      (simp_all add: decompose_def computeStackUsage_def imm_bytes_def Width_def effect_stack effect_shl_sub effect_push4 Suc_le_eq)
  then show ?thesis by (simp add: super_effect_def)
qed

definition lf_demo :: "Instruction list \<Rightarrow> u256 list \<Rightarrow> unit lfvm_context" where
  "lf_demo cd st = (lf_initial_context False cd (demo_params []) ())\<lparr>stack := st\<rparr>"

theorem super_instruction_effect_witness:
  "lf_dispatch empty_env PUSH1_ADD (lf_demo [\<lparr>opcode = PUSH1_ADD, arg = 5\<rparr>] [7]) =
    bind (run_parts empty_env (push_values [PUSH1, ADD] [5]) [PUSH1, ADD] (lf_demo [\<lparr>opcode = PUSH1_ADD, arg = 5\<rparr>] [7]))
      (\<lambda>st c. ret st (c\<lparr>pc := pc c + int (length (super_instrs PUSH1_ADD [5])) - 1\<rparr>))"
proof -
  have "uint256_arith (u256lib empty_env)"
    using word_uint256.uint256_arith_axioms by (simp add: empty_env_def)
  from super_instruction_effect [OF this, of PUSH1_ADD "lf_demo [\<lparr>opcode = PUSH1_ADD, arg = 5\<rparr>] [7]" "[5]"]
  show ?thesis
    by (simp add: isSuperInstruction_def decompose_def super_stack_limits lf_demo_def lf_initial_context_def
        super_at_def super_instrs_def imm_bytes_def Width_def computeStackUsage_def)
qed

section \<open>The jump that omits the range check\<close>

text \<open>
  C21: \<open>SWAP2_SWAP1_POP_JUMP\<close> is not equivalent to its parts: its target is truncated to 32
  bits. A target of \<open>2 ^ 32\<close> plus a valid destination is an invalid jump for the parts,
  but the super instruction jumps; a target of \<open>2 ^ 31\<close> makes it panic.
\<close>

theorem super_jump_truncates:
  assumes "lf_code c = cd" and "d < length cd" and "opcode (cd ! d) = JUMPDEST" and "length cd \<le> 65567"
    and "stack c = x # y # t # zs" and "length zs \<le> 1021"
  shows "(t = 4294967296 + word_of_nat d \<longrightarrow>
      opSwap2_Swap1_Pop_Jump c = ret () (c\<lparr>stack := x # zs, pc := int d - 1\<rparr>) \<and>
      fst (run_parts E [] (decompose SWAP2_SWAP1_POP_JUMP) c) = Inl errInvalidJump) \<and>
    (t = 2147483648 \<longrightarrow>
      fst (opSwap2_Swap1_Pop_Jump c) = Inl GoPanic \<and>
      fst (run_parts E [] (decompose SWAP2_SWAP1_POP_JUMP) c) = Inl errInvalidJump)"
proof (intro conjI impI)
  have parts: "fst (run_parts E [] (decompose SWAP2_SWAP1_POP_JUMP) c) = Inl errInvalidJump"
    if "2147483647 < Uint64 t"
    using assms(5) that
    by (simp add: decompose_def base_entries lf_cont_def opSwap_def opPop_def lf_opJump_def)
      (simp add: fail_def)
  have super: "opSwap2_Swap1_Pop_Jump c =
      lf_checkJumpDest (c\<lparr>stack := x # zs, pc := int32 (int32 (uint (Uint64 t)) - 1)\<rparr>)"
    using assms(5) by (simp add: opSwap2_Swap1_Pop_Jump_def) (simp only: swap_upd)
  {
    assume t: "t = 4294967296 + word_of_nat d"
    have d: "d < 65567" using assms by simp
    have "unat t = 4294967296 + d" using d by (simp add: t unat_word_ariths unat_of_nat)
    then have u: "unat (Uint64 t) = 4294967296 + d" using d by (simp add: unat_Uint64 IsUint64_def)
    then have "uint (Uint64 t) = 4294967296 + int d" by (simp add: uint_nat del: of_nat_unat)
    moreover have "(4294967296 + int d + 2 ^ 31) mod 2 ^ 32 = (int d + 2 ^ 31) mod 2 ^ 32"
      using mod_add_self1 [of "2 ^ 32 :: int" "int d + 2 ^ 31"] by (simp add: add.assoc)
    ultimately have "int32 (uint (Uint64 t)) = int32 (int d)" unfolding int32_def by (simp only:)
    then have "int32 (uint (Uint64 t)) = int d" using d by simp
    then show "opSwap2_Swap1_Pop_Jump c = ret () (c\<lparr>stack := x # zs, pc := int d - 1\<rparr>)"
      using super assms d by (simp add: lf_checkJumpDest_def instr_at_def Let_def)
    show "fst (run_parts E [] (decompose SWAP2_SWAP1_POP_JUMP) c) = Inl errInvalidJump"
      using u by (intro parts) (simp add: word_less_nat_alt)
  next
    assume t: "t = 2147483648"
    have u: "Uint64 t = 2147483648" by (simp add: t Uint64_def)
    then show "fst (run_parts E [] (decompose SWAP2_SWAP1_POP_JUMP) c) = Inl errInvalidJump"
      by (intro parts) simp
    show "fst (opSwap2_Swap1_Pop_Jump c) = Inl GoPanic"
    proof -
      have i: "int32 (uint (Uint64 t)) = - 2147483648" "int32 (- 2147483648 - 1) = 2147483647"
        "int32 2147483648 = - 2147483648" by (simp_all add: u int32_def)
      have "opSwap2_Swap1_Pop_Jump c = fail GoPanic (c\<lparr>stack := x # zs, pc := 2147483647\<rparr>)"
        unfolding super i by (simp add: lf_checkJumpDest_def instr_at_def i)
      then show ?thesis by (simp add: fail_def)
    qed
  }
qed

theorem super_jump_truncates_witness:
  "opSwap2_Swap1_Pop_Jump (lf_demo [\<lparr>opcode = JUMPDEST, arg = 0\<rparr>] [1, 2, 4294967296])
     = ret () ((lf_demo [\<lparr>opcode = JUMPDEST, arg = 0\<rparr>] [1, 2, 4294967296])\<lparr>stack := [1], pc := - 1\<rparr>)"
  using super_jump_truncates [of "lf_demo [\<lparr>opcode = JUMPDEST, arg = 0\<rparr>] [1, 2, 4294967296]"
      "[\<lparr>opcode = JUMPDEST, arg = 0\<rparr>]" 0 1 2 4294967296 "[]"]
  by (simp add: lf_demo_def lf_initial_context_def)

end
