(* ===== verification/Lfvm_Properties.thy ===== *)
theory Lfvm_Properties
  imports Lfvm_Equiv Lfvm_Super
begin

text \<open>
  Properties of the converter and its cache, and the equivalence of the entry points of the
  two interpreters.
\<close>

section \<open>The converter\<close>

text \<open>
  C18: the conversion never writes outside the code it builds and it keeps the position of
  every jump destination, with and without super instructions: a position of the result
  holds a \<open>JUMPDEST\<close> exactly if it is a valid destination of the byte code.
\<close>

theorem convert_jump_destinations:
  assumes "length cd \<le> 65536"
  shows "\<exists>lcode. convert cd super = Ret lcode \<and>
    (\<forall>d. d < length lcode \<and> opcode (lcode ! d) = JUMPDEST \<longleftrightarrow> valid_dest cd d)"
proof -
  obtain lcode cur M where "convert cd super = Ret lcode" "layout cd super lcode cur M" "length cd \<le> cur"
    using convert_layout [OF assms] by blast
  then show ?thesis by (fastforce simp: layout_def valid_dest_def)
qed

theorem convert_jump_destinations_witness:
  "\<exists>lcode. convert [0x60, 0x5b, 0x5b] True = Ret lcode \<and>
    (\<forall>d. d < length lcode \<and> opcode (lcode ! d) = JUMPDEST \<longleftrightarrow> valid_dest [0x60, 0x5b, 0x5b] d)"
  using convert_jump_destinations [of "[0x60, 0x5b, 0x5b]" True] by simp

section \<open>The cache of the converter\<close>

definition conv_cache_ok :: "('s \<Rightarrow> Hash \<rightharpoonup> Instruction list) \<Rightarrow> (Hash \<Rightarrow> bytes) \<Rightarrow> 's Converter \<Rightarrow> bool" where
  "conv_cache_ok entries code_of cv \<longleftrightarrow>
     (\<forall>s h m. cv_cache cv = Some s \<longrightarrow> entries s h = Some m \<longrightarrow>
        convert (code_of h) (WithSuperInstructions (cv_config cv)) = Ret m)"

lemma lru_get_add:
  assumes "lru_laws L entries" and "lru_Get L h s = (r, s')"
  shows "entries s h = r" "entries s' = entries s"
    "entries (lru_Add L h v s') k = Some m \<Longrightarrow> (k = h \<and> m = v) \<or> entries s k = Some m"
proof -
  show r: "entries s h = r" "entries s' = entries s"
    using assms unfolding lru_laws_def by (metis fst_conv snd_conv)+
  have "entries (lru_Add L h v s') \<subseteq>\<^sub>m (entries s')(h \<mapsto> v)" using assms(1) by (simp add: lru_laws_def)
  then show "entries (lru_Add L h v s') k = Some m \<Longrightarrow> (k = h \<and> m = v) \<or> entries s k = Some m"
    by (auto simp: map_le_def dom_def r split: if_splits dest!: spec [of _ k])
qed

text \<open>
  C22: with a cache whose entries are right, and a code hash that is the hash of the code,
  the converter rejects codes over the size limit, returns the conversion of the code
  otherwise and keeps the entries right. It never panics.
\<close>

theorem Convert_correct:
  assumes "lru_laws L entries" and "conv_cache_ok entries code_of cv"
    and "\<And>h. codehash = Some h \<Longrightarrow> code_of h = cd"
  shows "(if 65535 < length cd then fst (Convert L cd codehash cv) = Ret (Inl errCodeSizeExceeded)
      else \<exists>lcode. convert cd (WithSuperInstructions (cv_config cv)) = Ret lcode \<and>
        fst (Convert L cd codehash cv) = Ret (Inr lcode)) \<and>
    conv_cache_ok entries code_of (snd (Convert L cd codehash cv)) \<and>
    cv_config (snd (Convert L cd codehash cv)) = cv_config cv"
proof (cases "65535 < length cd")
  case True
  then show ?thesis using assms(2) by (simp add: Convert_def Let_def)
next
  case False
  obtain lcode where conv: "convert cd (WithSuperInstructions (cv_config cv)) = Ret lcode"
    using convert_layout [of cd "WithSuperInstructions (cv_config cv)"] False by auto
  show ?thesis
  proof (cases "\<exists>s h. cv_cache cv = Some s \<and> codehash = Some h")
    case no: False
    then show ?thesis using False conv assms(2)
      by (cases "cv_cache cv"; cases codehash) (auto simp: Convert_def Let_def)
  next
    case True
    then obtain s h where sh: "cv_cache cv = Some s" "codehash = Some h" by auto
    obtain r s' where get: "lru_Get L h s = (r, s')" by fastforce
    note laws = lru_get_add [OF assms(1) get]
    have ok: "entries s k = Some m \<Longrightarrow> convert (code_of k) (WithSuperInstructions (cv_config cv)) = Ret m" for k m
      using assms(2) sh(1) by (simp add: conv_cache_ok_def)
    have cd: "code_of h = cd" by (rule assms(3) [OF sh(2)])
    have new: "convert (code_of k) (WithSuperInstructions (cv_config cv)) = Ret m"
      if "entries (lru_Add L h lcode s') k = Some m" for k m
      using laws(3) [OF that] ok conv cd by auto
    show ?thesis
      using False conv get laws(1,2) sh ok new cd
      by (cases r) (auto simp: Convert_def Let_def conv_cache_ok_def)
  qed
qed

theorem Convert_correct_witness:
  "\<exists>lcode. convert [0x5b] False = Ret lcode \<and>
    fst (Convert map_lru [0x5b] (Some 7)
      \<lparr>cv_config = \<lparr>CacheSize = 1, WithSuperInstructions = False\<rparr>, cv_cache = Some Map.empty\<rparr>) = Ret (Inr lcode)"
  using Convert_correct [of map_lru "\<lambda>s. s" "\<lambda>_. [0x5b]"
      "\<lparr>cv_config = \<lparr>CacheSize = 1, WithSuperInstructions = False\<rparr>, cv_cache = Some Map.empty\<rparr>" "Some 7" "[0x5b]"]
  by (simp add: lru_laws_def map_lru_def conv_cache_ok_def)

section \<open>The entry points\<close>

text \<open>
  C4: the entry points of the two interpreters agree, with their caches: for a supported or
  unsupported revision and every code up to the size limit, \<open>lfvm.Run\<close> (without super
  instructions) and \<open>sfvm.Run\<close> return the same result and leave the same world state.
\<close>

theorem lfvm_Run_equals_sfvm_Run:
  assumes "run_ctx E" and "uint256_arith (u256lib E)" and "0 \<le> Gas p" and "Gas p < 9223372036854775808"
    and "length (Input p) < 9223372036854775808" and "length (Code p) \<le> 65535"
    and "lru_laws L entries" and "conv_cache_ok entries code_of cv" and "\<not> WithSuperInstructions (cv_config cv)"
    and "lru_laws L' entries'" and "cache_ok entries' code_of a"
    and "\<And>h. CodeHash p = Some h \<Longrightarrow> code_of h = Code p"
  shows "fst (lf_Run E L sha p w cv) = fst (Run E L' \<lparr>WithShaCache = sha\<rparr> p w a)"
proof (cases "newestSupportedRevision < revision (BlockParams p)")
  case True
  then show ?thesis by (simp add: lf_Run_def Run_def newestSupportedRevision_def)
next
  case False
  obtain lcode where l: "convert (Code p) False = Ret lcode" "fst (Convert L (Code p) (CodeHash p) cv) = Ret (Inr lcode)"
    using Convert_correct [OF assms(7,8), of "CodeHash p" "Code p"] assms(6,9,12) by auto
  have lf: "fst (lf_Run E L sha p w cv) = lf_run E sha p lcode w"
    using False l(2) by (auto simp: lf_Run_def newestSupportedRevision_def split: prod.splits)
  obtain lcode' cur M where "convert (Code p) False = Ret lcode'" "converted (Code p) lcode' cur M"
    using converted_exists [OF assms(6)] by blast
  then have eq: "lf_run E sha p lcode w = run E (findJumpDestinations (Code p)) \<lparr>WithShaCache = sha\<rparr> p w"
    using lf_run_eq [OF assms(1-5)] l(1) by simp
  have "fst (analyzeJumpDest L' (Code p) (CodeHash p) a) = findJumpDestinations (Code p)"
    using analyzeJumpDest_ok [OF assms(10,11,12)] by blast
  moreover have "Code p = [] \<Longrightarrow> run E jd \<lparr>WithShaCache = sha\<rparr> p w = run E jd' \<lparr>WithShaCache = sha\<rparr> p w" for jd jd'
    by (simp add: run_def)
  ultimately show ?thesis unfolding lf eq
    using False by (auto simp: Run_def Let_def split: prod.splits)
qed

theorem lfvm_Run_equals_sfvm_Run_witness:
  "fst (lf_Run empty_env map_lru False (demo_params [0x5b, 0x00]) ()
      \<lparr>cv_config = \<lparr>CacheSize = 1, WithSuperInstructions = False\<rparr>, cv_cache = Some Map.empty\<rparr>) =
   fst (Run empty_env map_lru \<lparr>WithShaCache = False\<rparr> (demo_params [0x5b, 0x00]) ()
      \<lparr>an_cache = Some Map.empty, maxCachedCodeSize = 10\<rparr>)"
proof -
  have u: "uint256_arith (u256lib empty_env)"
    using word_uint256.uint256_arith_axioms by (simp add: empty_env_def)
  have m: "lru_laws map_lru (\<lambda>s. s)" by (simp add: lru_laws_def map_lru_def)
  show ?thesis
    by (rule lfvm_Run_equals_sfvm_Run [OF run_ctx_empty_env u _ _ _ _ m _ _ m, where code_of = "\<lambda>_. [0x5b, 0x00]"])
      (simp_all add: demo_params_def conv_cache_ok_def cache_ok_def)
qed

end
