(* ===== verification/Floria.thy ===== *)
theory Floria
  imports Evm_Context
begin

text \<open>
  The Floria processor (\<open>go/processor/floria\<close>): transactions, nested calls and contract
  creations, precompiled contracts and the state contract. The world state is reached
  through a \<open>tosca.TransactionContext\<close>, which is an argument, as are the interpreter and
  the go-ethereum functions the processor calls (record \<open>geth_lib\<close>).
\<close>

section \<open>Transactions and receipts (tosca/processor.go)\<close>

record AccessTuple =
  at_Address :: Address
  at_Keys :: "Key list"

text \<open>\<open>None\<close> is a nil pointer or a nil slice. The authorization list is not read.\<close>

record Transaction =
  tx_Sender :: Address
  tx_Recipient :: "Address option"
  tx_Nonce :: u64
  tx_Input :: bytes
  tx_Value :: Value
  tx_GasLimit :: Gas
  tx_GasFeeCap :: Value
  tx_GasTipCap :: Value
  tx_BlobGasFeeCap :: Value
  tx_BlobHashes :: "Hash list option"
  tx_AccessList :: "AccessTuple list option"

record Receipt =
  rcp_Success :: bool
  rcp_Output :: bytes
  rcp_ContractAddress :: "Address option"
  rcp_GasUsed :: Gas
  rcp_BlobGasUsed :: Gas
  rcp_Logs :: "Log list"

definition zeroReceipt :: Receipt where
  "zeroReceipt = \<lparr>rcp_Success = False, rcp_Output = [], rcp_ContractAddress = None, rcp_GasUsed = 0,
     rcp_BlobGasUsed = 0, rcp_Logs = []\<rparr>"

text \<open>The \<open>fmt.Errorf\<close> values of the package.\<close>

datatype tx_error =
    NonceMismatch
  | NonceOverflow
  | SenderNotEOA
  | BlobWithoutRecipient
  | MissingBlobHashes
  | InvalidBlobHashVersion
  | BlobFeeCapTooLow
  | InitCodeTooLong
  | GasFeeCapBelowBaseFee
  | GasFeeCapBelowTipCap
  | CapGasOverflow
  | InsufficientBalance
  | InsufficientSetupGas
  | InvalidCreateKind
  | CreatedAddressNotEmpty
  | PrecompileNotFound
  | GasCostTooLarge
  | InsufficientGas
  | PrecompileFailed
  | InvalidMethodID
  | ErrExecutionReverted
  | ErrOutOfGas
  | InterpreterFailed

section \<open>The functions of other packages\<close>

record PrecompiledContract =
  RequiredGas :: "bytes \<Rightarrow> u64"
  pre_Run :: "bytes \<Rightarrow> bytes option"

text \<open>
  The maps of precompiled contracts are association lists, whose order is the iteration
  order. The method ids are those the ABI package computes from \<open>stateContractABI\<close>.
\<close>

record geth_lib =
  crypto_Keccak256 :: "bytes \<Rightarrow> Hash"
  crypto_CreateAddress :: "Address \<Rightarrow> u64 \<Rightarrow> Address"
  crypto_CreateAddress2 :: "Address \<Rightarrow> Hash \<Rightarrow> Hash \<Rightarrow> Address"
  PrecompiledContractsIstanbul :: "(Address \<times> PrecompiledContract) list"
  PrecompiledContractsBerlin :: "(Address \<times> PrecompiledContract) list"
  PrecompiledContractsCancun :: "(Address \<times> PrecompiledContract) list"
  setBalanceMethodID :: bytes
  copyCodeMethodID :: bytes
  swapCodeMethodID :: bytes
  setStorageMethodID :: bytes
  incNonceMethodID :: bytes
  lib_uint256 :: uint256_lib
  uint256_FromBig :: "int \<Rightarrow> u256 \<times> bool"

definition emptyCodeHash :: "geth_lib \<Rightarrow> Hash" where
  "emptyCodeHash G = crypto_Keccak256 G []"

definition Scale :: "uint256_lib \<Rightarrow> Value \<Rightarrow> u64 \<Rightarrow> Value" where
  "Scale U v s = u_Mul U v (SetUint64 s)"

section \<open>Constants (processor.go, state_contract.go)\<close>

abbreviation TxGas :: Gas where "TxGas \<equiv> 21000"
abbreviation TxGasContractCreation :: Gas where "TxGasContractCreation \<equiv> 53000"
abbreviation TxDataNonZeroGasEIP2028 :: Gas where "TxDataNonZeroGasEIP2028 \<equiv> 16"
abbreviation TxDataZeroGasEIP2028 :: Gas where "TxDataZeroGasEIP2028 \<equiv> 4"
abbreviation TxAccessListAddressGas :: Gas where "TxAccessListAddressGas \<equiv> 2400"
abbreviation TxAccessListStorageKeyGas :: Gas where "TxAccessListStorageKeyGas \<equiv> 1900"
abbreviation InitCodeWordGas :: u64 where "InitCodeWordGas \<equiv> 2"
abbreviation createGasCostPerByte :: int where "createGasCostPerByte \<equiv> 200"
abbreviation maxCodeSize :: nat where "maxCodeSize \<equiv> 24576"
abbreviation maxInitCodeSize :: nat where "maxInitCodeSize \<equiv> 49152"
abbreviation BlobTxBlobGasPerBlob :: int where "BlobTxBlobGasPerBlob \<equiv> 131072"
abbreviation MaxRecursiveDepth :: int where "MaxRecursiveDepth \<equiv> 1024"

abbreviation callValueTransferGas :: Gas where "callValueTransferGas \<equiv> 9000"
abbreviation createGas :: Gas where "createGas \<equiv> 32000"
abbreviation createDataGas :: Gas where "createDataGas \<equiv> 200"
abbreviation memoryGas :: Gas where "memoryGas \<equiv> 3"
abbreviation sStoreSetGasEIP2200 :: Gas where "sStoreSetGasEIP2200 \<equiv> 20000"

definition DriverAddress :: Address where
  "DriverAddress = 0xd100a01e00000000000000000000000000000000"

definition StateContractAddress :: Address where
  "StateContractAddress = 0xd100ec0000000000000000000000000000000000"

section \<open>Context wrapper (context_wrapper.go)\<close>

definition floria_SelfDestruct ::
  "('w, 'z) TransactionContext_scheme \<Rightarrow> Address \<Rightarrow> Address \<Rightarrow> 'w \<Rightarrow> bool \<times> 'w" where
  "floria_SelfDestruct C address beneficiary w =
     (let balance = GetBalance C w address;
          w = SetBalance C address 0 w;
          w = SetBalance C beneficiary (tosca_Add (GetBalance C w beneficiary) balance) w
      in SelfDestruct C address beneficiary w)"

definition floriaContext ::
  "('w, 'z) TransactionContext_scheme \<Rightarrow> ('w, 'z) TransactionContext_scheme" where
  "floriaContext C = C\<lparr>SelfDestruct := floria_SelfDestruct C\<rparr>"

section \<open>Values and nonces (run_context.go)\<close>

definition canTransferValue ::
  "('w, 'z) TransactionContext_scheme \<Rightarrow> Value \<Rightarrow> Address \<Rightarrow> Address option \<Rightarrow> 'w \<Rightarrow> bool" where
  "canTransferValue C v sender recipient w =
     (if v = 0 then True
      else if tosca_Cmp (GetBalance C w sender) v < 0 then False
      else (case recipient of
              None \<Rightarrow> True
            | Some a \<Rightarrow>
                if sender = a then True
                else (let receiverBalance = GetBalance C w a;
                          updatedBalance = tosca_Add receiverBalance v
                      in \<not> (tosca_Cmp updatedBalance receiverBalance < 0 \<or> tosca_Cmp updatedBalance v < 0))))"

definition transferValue ::
  "('w, 'z) TransactionContext_scheme \<Rightarrow> Value \<Rightarrow> Address \<Rightarrow> Address \<Rightarrow> 'w \<Rightarrow> 'w" where
  "transferValue C v sender recipient w =
     (if v = 0 then w
      else if sender = recipient then w
      else (let senderBalance = GetBalance C w sender;
                receiverBalance = GetBalance C w recipient;
                updatedBalance = tosca_Add receiverBalance v;
                w = SetBalance C sender (tosca_Sub senderBalance v) w
            in SetBalance C recipient updatedBalance w))"

definition incrementNonce ::
  "('w, 'z) TransactionContext_scheme \<Rightarrow> Address \<Rightarrow> 'w \<Rightarrow> tx_error option \<times> 'w" where
  "incrementNonce C address w =
     (let nonce = GetNonce C w address in
      if nonce + 1 < nonce then (Some NonceOverflow, w)
      else (None, SetNonce C address (nonce + 1) w))"

section \<open>Precompiled contracts (precompiled.go)\<close>

definition getPrecompiledContracts :: "geth_lib \<Rightarrow> Revision \<Rightarrow> (Address \<times> PrecompiledContract) list" where
  "getPrecompiledContracts G r =
     (if r = R13_Cancun then PrecompiledContractsCancun G
      else if r = R12_Shanghai \<or> r = R11_Paris \<or> r = R10_London \<or> r = R09_Berlin
        then PrecompiledContractsBerlin G
      else PrecompiledContractsIstanbul G)"

definition getPrecompiledContract :: "geth_lib \<Rightarrow> Address \<Rightarrow> Revision \<Rightarrow> PrecompiledContract option" where
  "getPrecompiledContract G address r = map_of (getPrecompiledContracts G r) address"

definition getPrecompiledAddresses :: "geth_lib \<Rightarrow> Revision \<Rightarrow> Address list" where
  "getPrecompiledAddresses G r = map fst (getPrecompiledContracts G r)"

definition isPrecompiled :: "geth_lib \<Rightarrow> Address \<Rightarrow> Revision \<Rightarrow> bool" where
  "isPrecompiled G address r = (getPrecompiledContract G address r \<noteq> None)"

text \<open>The zero value of the struct \<open>CallResult\<close>.\<close>

definition zeroCallResult :: CallResult where
  "zeroCallResult = \<lparr>cr_Output = [], cr_GasLeft = 0, cr_GasRefund = 0, cr_CreatedAddress = 0,
     cr_Success = False\<rparr>"

definition runPrecompiledContract ::
  "geth_lib \<Rightarrow> Revision \<Rightarrow> bytes \<Rightarrow> Address \<Rightarrow> Gas \<Rightarrow> CallResult \<times> tx_error option" where
  "runPrecompiledContract G r input address g =
     (case getPrecompiledContract G address r of
        None \<Rightarrow> (zeroCallResult, Some PrecompileNotFound)
      | Some contract \<Rightarrow>
          (let gasCost = RequiredGas contract input in
           if 9223372036854775807 < gasCost then (zeroCallResult, Some GasCostTooLarge)
           else if g < uint gasCost then (zeroCallResult, Some InsufficientGas)
           else
             (let g = g - uint gasCost in
              case pre_Run contract input of
                None \<Rightarrow> (zeroCallResult, Some PrecompileFailed)
              | Some output \<Rightarrow>
                  (zeroCallResult\<lparr>cr_Success := True, cr_Output := output, cr_GasLeft := g\<rparr>, None))))"

section \<open>The state contract (state_contract.go)\<close>

text \<open>The conversions \<open>tosca.Address(input[12:32])\<close> and the like, on slices of the right length.\<close>

definition input_address :: "nat \<Rightarrow> bytes \<Rightarrow> Address" where
  "input_address off input = of_be_bytes (take 20 (drop (off + 12) input))"

definition input_word :: "nat \<Rightarrow> bytes \<Rightarrow> u256" where
  "input_word off input = of_be_bytes (take 32 (drop off input))"

type_synonym 'w state_op = "bytes \<Rightarrow> Gas \<Rightarrow> 'w \<Rightarrow> (Gas \<times> tx_error option) \<times> 'w"

definition executeStateSetBalance ::
  "('w, 'z) TransactionContext_scheme \<Rightarrow> Address \<Rightarrow> 'w state_op" where
  "executeStateSetBalance C sender input g w =
     (if g < callValueTransferGas then ((0, Some ErrOutOfGas), w)
      else (let g = g - callValueTransferGas in
        if length input \<noteq> 64 then ((0, Some ErrExecutionReverted), w)
        else (let account = input_address 0 input; v = input_word 32 input in
          if account = sender then ((0, Some ErrExecutionReverted), w)
          else ((g, None), SetBalance C account v w))))"

definition executeStateContractCopyCode :: "('w, 'z) TransactionContext_scheme \<Rightarrow> 'w state_op" where
  "executeStateContractCopyCode C input g w =
     (if g < createGas then ((0, Some ErrOutOfGas), w)
      else (let g = g - createGas in
        if length input \<noteq> 64 then ((0, Some ErrExecutionReverted), w)
        else (let accountTo = input_address 0 input; accountFrom = input_address 32 input;
                  cd = GetCode C w accountFrom;
                  cost = int64 (int (length cd) * (createDataGas + memoryGas)) in
          if g < cost then ((0, Some ErrOutOfGas), w)
          else (let g = int64 (g - cost) in
            ((g, None), if accountFrom \<noteq> accountTo then SetCode C accountTo cd w else w)))))"

definition executeStateContractSwapCode :: "('w, 'z) TransactionContext_scheme \<Rightarrow> 'w state_op" where
  "executeStateContractSwapCode C input g w =
     (if g < 2 * createGas then ((0, Some ErrOutOfGas), w)
      else (let g = g - 2 * createGas in
        if length input \<noteq> 64 then ((0, Some ErrExecutionReverted), w)
        else (let account0 = input_address 0 input; account1 = input_address 32 input;
                  code0 = GetCode C w account0; code1 = GetCode C w account1;
                  cost0 = int64 (int (length code0) * (createDataGas + memoryGas));
                  cost1 = int64 (int (length code1) * (createDataGas + memoryGas));
                  cost = go_quot (int64 (cost0 + cost1)) 2 in
          if g < cost then ((0, Some ErrOutOfGas), w)
          else (let g = int64 (g - cost) in
            ((g, None),
             if account0 \<noteq> account1 then SetCode C account1 code0 (SetCode C account0 code1 w) else w)))))"

definition executeStateContractSetStorage :: "('w, 'z) TransactionContext_scheme \<Rightarrow> 'w state_op" where
  "executeStateContractSetStorage C input g w =
     (if g < sStoreSetGasEIP2200 then ((0, Some ErrOutOfGas), w)
      else (let g = g - sStoreSetGasEIP2200 in
        if length input \<noteq> 96 then ((0, Some ErrExecutionReverted), w)
        else (let account = input_address 0 input; key = input_word 32 input; v = input_word 64 input in
          ((g, None), snd (SetStorage C account key v w)))))"

text \<open>\<open>big.Int.Uint64\<close> returns the low 64 bits.\<close>

definition executeStateContractIncNonce ::
  "('w, 'z) TransactionContext_scheme \<Rightarrow> Address \<Rightarrow> 'w state_op" where
  "executeStateContractIncNonce C sender input g w =
     (if g < callValueTransferGas then ((0, Some ErrOutOfGas), w)
      else (let g = g - callValueTransferGas in
        if length input \<noteq> 64 then ((0, Some ErrExecutionReverted), w)
        else (let account = input_address 0 input; v = input_word 32 input; valueUint = ucast v :: u64 in
          if account = sender then ((0, Some ErrExecutionReverted), w)
          else if valueUint \<le> 0 \<or> 256 \<le> valueUint then ((0, Some ErrExecutionReverted), w)
          else ((g, None), SetNonce C account (GetNonce C w account + valueUint) w))))"

definition runStateContract ::
  "geth_lib \<Rightarrow> ('w, 'z) TransactionContext_scheme \<Rightarrow> Address \<Rightarrow> Address \<Rightarrow> bytes \<Rightarrow> Gas \<Rightarrow> 'w \<Rightarrow>
   CallResult \<times> 'w" where
  "runStateContract G C sender receiver input g w =
     (if receiver \<noteq> StateContractAddress then (zeroCallResult, w)
      else if sender \<noteq> DriverAddress then (zeroCallResult, w)
      else if length input < 4 then (zeroCallResult, w)
      else
        (let selector = take 4 input; input = drop 4 input;
             ((gasLeft, err), w) =
               (if selector = setBalanceMethodID G then executeStateSetBalance C sender input g w
                else if selector = copyCodeMethodID G then executeStateContractCopyCode C input g w
                else if selector = swapCodeMethodID G then executeStateContractSwapCode C input g w
                else if selector = setStorageMethodID G then executeStateContractSetStorage C input g w
                else if selector = incNonceMethodID G then executeStateContractIncNonce C sender input g w
                else ((0, Some InvalidMethodID), w))
         in (zeroCallResult\<lparr>cr_Success := (err = None), cr_GasLeft := gasLeft\<rparr>, w)))"

end
