(* ===== verification/Floria_Process.thy ===== *)
theory Floria_Process
  imports Floria
begin

text \<open>
  The run context of the Floria processor, with calls and creations
  (\<open>floria/run_context.go\<close>), and the processing of a transaction
  (\<open>floria/processor.go\<close>).
\<close>

section \<open>Configuration and run context\<close>

type_synonym 'w BuiltInContract =
  "'w TransactionContext \<Rightarrow> Address \<Rightarrow> Address \<Rightarrow> bytes \<Rightarrow> Gas \<Rightarrow> 'w \<Rightarrow> CallResult \<times> 'w"

record 'w floria_Config =
  EthCompatible :: bool
  BuiltInContracts :: "(Address \<rightharpoonup> 'w BuiltInContract) option"
  OffChainSimulation :: bool

text \<open>
  The part of the struct \<open>runContext\<close> that changes. \<open>rx_stuck\<close> is not a field of the
  code: it records that an interpreter run panicked or did not return, or that the
  recursion counter of the model ran out.
\<close>

record 'w runContext =
  rx_world :: 'w
  rx_depth :: int
  rx_static :: bool
  rx_stuck :: bool

type_synonym 'w interpreter_fn =
  "'w runContext RunContext \<Rightarrow> Parameters \<Rightarrow> 'w runContext \<Rightarrow> (Result option \<times> 'w runContext) go option"

text \<open>
  The part of \<open>runContext\<close> that does not change; \<open>fl_context\<close> is the embedded
  transaction context.
\<close>

record 'w floria =
  fl_context :: "'w TransactionContext"
  fl_interpreter :: "'w interpreter_fn"
  fl_config :: "'w floria_Config"
  fl_blockParameters :: BlockParameters
  fl_transactionParameters :: TransactionParameters
  fl_lib :: geth_lib

abbreviation fl_revision :: "'w floria \<Rightarrow> Revision" where
  "fl_revision F \<equiv> revision (fl_blockParameters F)"

type_synonym 'w call_fn =
  "CallKind \<Rightarrow> CallParameters \<Rightarrow> 'w runContext \<Rightarrow> (CallResult \<times> bool) \<times> 'w runContext"

definition on_world :: "('w \<Rightarrow> 'w) \<Rightarrow> 'w runContext \<Rightarrow> 'w runContext" where
  "on_world f s = s\<lparr>rx_world := f (rx_world s)\<rparr>"

definition on_world_ret :: "('w \<Rightarrow> 'a \<times> 'w) \<Rightarrow> 'w runContext \<Rightarrow> 'a \<times> 'w runContext" where
  "on_world_ret f s = (case f (rx_world s) of (a, w) \<Rightarrow> (a, s\<lparr>rx_world := w\<rparr>))"

text \<open>The values of \<open>CallParameters\<close> in Go: gas is an \<open>int64\<close>, the input a slice.\<close>

definition call_typed :: "CallParameters \<Rightarrow> bool" where
  "call_typed p \<longleftrightarrow> - 9223372036854775808 \<le> cp_Gas p \<and> cp_Gas p < 9223372036854775808 \<and>
     length (cp_Input p) < 9223372036854775808"

text \<open>
  \<open>*runContext\<close> as a \<open>tosca.RunContext\<close>: the methods of the embedded context are promoted,
  \<open>Call\<close> is the method of the struct, on the arguments that Go's types have.
\<close>

definition runContext_methods :: "'w TransactionContext \<Rightarrow> 'w call_fn \<Rightarrow> 'w runContext RunContext" where
  "runContext_methods C call =
     \<lparr>AccountExists = (\<lambda>s. AccountExists C (rx_world s)),
      CreateContract = (\<lambda>a. on_world (CreateContract C a)),
      IsNewContract = (\<lambda>s. IsNewContract C (rx_world s)),
      GetBalance = (\<lambda>s. GetBalance C (rx_world s)),
      SetBalance = (\<lambda>a v. on_world (SetBalance C a v)),
      GetNonce = (\<lambda>s. GetNonce C (rx_world s)),
      SetNonce = (\<lambda>a n. on_world (SetNonce C a n)),
      GetCode = (\<lambda>s. GetCode C (rx_world s)),
      GetCodeHash = (\<lambda>s. GetCodeHash C (rx_world s)),
      GetCodeSize = (\<lambda>s. GetCodeSize C (rx_world s)),
      SetCode = (\<lambda>a cd. on_world (SetCode C a cd)),
      HasEmptyStorage = (\<lambda>s. HasEmptyStorage C (rx_world s)),
      GetStorage = (\<lambda>s. GetStorage C (rx_world s)),
      SetStorage = (\<lambda>a k v. on_world_ret (SetStorage C a k v)),
      SelfDestruct = (\<lambda>a b. on_world_ret (SelfDestruct C a b)),
      CreateSnapshot = on_world_ret (CreateSnapshot C),
      RestoreSnapshot = (\<lambda>i. on_world (RestoreSnapshot C i)),
      GetTransientStorage = (\<lambda>s. GetTransientStorage C (rx_world s)),
      SetTransientStorage = (\<lambda>a k v. on_world (SetTransientStorage C a k v)),
      AccessAccount = (\<lambda>a. on_world_ret (AccessAccount C a)),
      AccessStorage = (\<lambda>a k. on_world_ret (AccessStorage C a k)),
      EmitLog = (\<lambda>l. on_world (EmitLog C l)),
      GetLogs = (\<lambda>s. GetLogs C (rx_world s)),
      GetBlockHash = (\<lambda>s. GetBlockHash C (rx_world s)),
      CallOp = (\<lambda>kind p s. if call_typed p then call kind p s else ((zeroCallResult, True), s))\<rparr>"

section \<open>Calls and creations\<close>

text \<open>True: the error is not nil.\<close>

definition incrementDepth :: "'w runContext \<Rightarrow> bool \<times> 'w runContext" where
  "incrementDepth s =
     (if MaxRecursiveDepth < rx_depth s then (True, s)
      else (False, s\<lparr>rx_depth := rx_depth s + 1\<rparr>))"

definition interpreterParameters ::
  "'w floria \<Rightarrow> CallKind \<Rightarrow> CallParameters \<Rightarrow> 'w runContext \<Rightarrow> Parameters" where
  "interpreterParameters F kind p s =
     (let C = fl_context F; w = rx_world s;
          (cd, codeHash, input) =
            (case kind of
               Call \<Rightarrow> (GetCode C w (cp_Recipient p), GetCodeHash C w (cp_Recipient p), cp_Input p)
             | StaticCall \<Rightarrow> (GetCode C w (cp_Recipient p), GetCodeHash C w (cp_Recipient p), cp_Input p)
             | CallCode \<Rightarrow> (GetCode C w (cp_CodeAddress p), GetCodeHash C w (cp_CodeAddress p), cp_Input p)
             | DelegateCall \<Rightarrow> (GetCode C w (cp_CodeAddress p), GetCodeHash C w (cp_CodeAddress p), cp_Input p)
             | Create \<Rightarrow> (cp_Input p, crypto_Keccak256 (fl_lib F) (cp_Input p), [])
             | Create2 \<Rightarrow> (cp_Input p, crypto_Keccak256 (fl_lib F) (cp_Input p), []))
      in \<lparr>BlockParams = fl_blockParameters F, TransactionParams = fl_transactionParameters F,
          Kind = Call, Static = rx_static s, Depth = rx_depth s - 1, Gas = cp_Gas p,
          Recipient = cp_Recipient p, Sender = cp_Sender p, Input = input, Value = cp_Value p,
          CodeHash = Some codeHash, Code = cd\<rparr>)"

definition runInterpreter ::
  "'w floria \<Rightarrow> 'w call_fn \<Rightarrow> CallKind \<Rightarrow> CallParameters \<Rightarrow> 'w runContext \<Rightarrow> Result option \<times> 'w runContext" where
  "runInterpreter F call kind p s =
     (case fl_interpreter F (runContext_methods (fl_context F) call) (interpreterParameters F kind p s) s of
        Some (Ret (r, s')) \<Rightarrow> (r, s')
      | _ \<Rightarrow> (None, s\<lparr>rx_stuck := True\<rparr>))"

definition handleStateContracts ::
  "'w floria \<Rightarrow> CallParameters \<Rightarrow> 'w \<Rightarrow> (CallResult \<times> bool) \<times> 'w" where
  "handleStateContracts F p w =
     (case BuiltInContracts (fl_config F) of
        None \<Rightarrow> ((zeroCallResult, False), w)
      | Some contracts \<Rightarrow>
          (case contracts (cp_CodeAddress p) of
             Some contract \<Rightarrow>
               (let (result, w) = contract (fl_context F) (cp_Sender p) (cp_CodeAddress p) (cp_Input p) (cp_Gas p) w
                in ((result, True), w))
           | None \<Rightarrow> ((zeroCallResult, False), w)))"

definition senderCreateSetUp ::
  "('w, 'z) TransactionContext_scheme \<Rightarrow> CallParameters \<Rightarrow> 'w \<Rightarrow> tx_error option \<times> 'w" where
  "senderCreateSetUp C p w =
     (if \<not> canTransferValue C (cp_Value p) (cp_Sender p) (Some (cp_Recipient p)) w
      then (Some InsufficientBalance, w)
      else incrementNonce C (cp_Sender p) w)"

definition floria_isEmpty ::
  "geth_lib \<Rightarrow> ('w, 'z) TransactionContext_scheme \<Rightarrow> 'w \<Rightarrow> Address \<Rightarrow> bool" where
  "floria_isEmpty G C w address \<longleftrightarrow>
     GetNonce C w address = 0 \<and> HasEmptyStorage C w address \<and>
     (GetCodeHash C w address = 0 \<or> GetCodeHash C w address = emptyCodeHash G)"

definition createAddress ::
  "geth_lib \<Rightarrow> ('w, 'z) TransactionContext_scheme \<Rightarrow> CallKind \<Rightarrow> CallParameters \<Rightarrow> Revision \<Rightarrow> 'w \<Rightarrow>
   (tx_error + Address) \<times> 'w" where
  "createAddress G C kind p r w =
     (case (case kind of
              Create \<Rightarrow> Some (crypto_CreateAddress G (cp_Sender p) (GetNonce C w (cp_Sender p) - 1))
            | Create2 \<Rightarrow>
                Some (crypto_CreateAddress2 G (cp_Sender p) (cp_Salt p) (crypto_Keccak256 G (cp_Input p)))
            | _ \<Rightarrow> None) of
        None \<Rightarrow> (Inl InvalidCreateKind, w)
      | Some createdAddress \<Rightarrow>
          (let w = (if R09_Berlin \<le> r then snd (AccessAccount C createdAddress w) else w) in
           if \<not> floria_isEmpty G C w createdAddress then (Inl CreatedAddressNotEmpty, w)
           else (Inr createdAddress, w)))"

definition checkAndDeployCode ::
  "('w, 'z) TransactionContext_scheme \<Rightarrow> Result \<Rightarrow> Address \<Rightarrow> Revision \<Rightarrow> 'w \<Rightarrow> Result \<times> 'w" where
  "checkAndDeployCode C result createdAddress r w =
     (let outCode = res_Output result;
          result = (if maxCodeSize < length outCode then result\<lparr>res_Success := False\<rparr> else result);
          result = (if R10_London \<le> r \<and> 0 < length outCode \<and> outCode ! 0 = 0xEF
                    then result\<lparr>res_Success := False\<rparr> else result);
          deploymentCost = int64 (int (length outCode) * createGasCostPerByte);
          result = (if res_GasLeft result < deploymentCost then result\<lparr>res_Success := False\<rparr> else result);
          result = result\<lparr>res_GasLeft := int64 (res_GasLeft result - deploymentCost)\<rparr>
      in if res_Success result then (result, SetCode C createdAddress outCode w)
         else (result\<lparr>res_GasLeft := 0, res_Output := []\<rparr>, w))"

text \<open>The error result of \<open>executeCall\<close> and \<open>executeCreate\<close>, which gives the gas back.\<close>

definition errResult :: "CallParameters \<Rightarrow> CallResult" where
  "errResult p = zeroCallResult\<lparr>cr_GasLeft := cp_Gas p\<rparr>"

definition callResultOf :: "Result \<Rightarrow> CallResult" where
  "callResultOf r = zeroCallResult\<lparr>cr_Output := res_Output r, cr_GasLeft := res_GasLeft r,
     cr_GasRefund := res_GasRefund r, cr_Success := res_Success r\<rparr>"

text \<open>
  The deferred function of \<open>executeCall\<close> and \<open>executeCreate\<close> that restores the snapshot
  on a return with an error or an unsuccessful result.
\<close>

definition restoreUnlessSuccess ::
  "'w floria \<Rightarrow> int \<Rightarrow> (CallResult \<times> bool) \<times> 'w runContext \<Rightarrow> (CallResult \<times> bool) \<times> 'w runContext" where
  "restoreUnlessSuccess F snapshot res =
     (case res of ((r, err), s) \<Rightarrow>
        ((r, err), if err \<or> \<not> cr_Success r then on_world (RestoreSnapshot (fl_context F) snapshot) s else s))"

text \<open>The statements of \<open>executeCall\<close> after the snapshot.\<close>

definition executeCall_body :: "'w floria \<Rightarrow> 'w call_fn \<Rightarrow> 'w call_fn" where
  "executeCall_body F call kind p s =
     (let C = fl_context F; transfers = (kind = Call \<or> kind = CallCode) in
      if transfers \<and> \<not> canTransferValue C (cp_Value p) (cp_Sender p) (Some (cp_Recipient p)) (rx_world s)
      then ((errResult p, False), s)
      else
        (let s = (if transfers then on_world (transferValue C (cp_Value p) (cp_Sender p) (cp_Recipient p)) s else s);
             ((result, ok), s) =
               (if kind = Call then on_world_ret (handleStateContracts F p) s else ((zeroCallResult, False), s))
         in if ok then ((result, False), s)
            else if isPrecompiled (fl_lib F) (cp_CodeAddress p) (fl_revision F) then
              (let (result, err) =
                 runPrecompiledContract (fl_lib F) (fl_revision F) (cp_Input p) (cp_CodeAddress p) (cp_Gas p)
               in ((if err \<noteq> None then result\<lparr>cr_Success := False\<rparr> else result, False), s))
            else
              (case runInterpreter F call kind p s of
                 (None, s) \<Rightarrow> ((zeroCallResult, True), s)
               | (Some result, s) \<Rightarrow> ((callResultOf result, False), s))))"

definition executeCall :: "'w floria \<Rightarrow> 'w call_fn \<Rightarrow> 'w call_fn" where
  "executeCall F call kind p s =
     (case incrementDepth s of
        (True, s) \<Rightarrow> ((errResult p, False), s)
      | (False, s) \<Rightarrow>
          (let setStatic = (\<not> rx_static s \<and> kind = StaticCall);
               s = (if setStatic then s\<lparr>rx_static := True\<rparr> else s);
               (snapshot, s) = on_world_ret (CreateSnapshot (fl_context F)) s;
               (res, s) = restoreUnlessSuccess F snapshot (executeCall_body F call kind p s);
               s = (if setStatic then s\<lparr>rx_static := False\<rparr> else s)
           in (res, s\<lparr>rx_depth := rx_depth s - 1\<rparr>)))"

text \<open>The statements of \<open>executeCreate\<close> after the snapshot.\<close>

definition executeCreate_body :: "'w floria \<Rightarrow> 'w call_fn \<Rightarrow> Address \<Rightarrow> 'w call_fn" where
  "executeCreate_body F call createdAddress kind p s =
     (let C = fl_context F;
          s = on_world (CreateContract C createdAddress) s;
          s = on_world (SetNonce C createdAddress 1) s;
          s = on_world (transferValue C (cp_Value p) (cp_Sender p) createdAddress) s
      in case runInterpreter F call kind (p\<lparr>cp_Recipient := createdAddress\<rparr>) s of
           (None, s) \<Rightarrow> ((zeroCallResult, True), s)
         | (Some result, s) \<Rightarrow>
             if \<not> res_Success result
             then (((callResultOf result)\<lparr>cr_CreatedAddress := createdAddress, cr_Success := False\<rparr>, False), s)
             else
               (let (result, s) = on_world_ret (checkAndDeployCode C result createdAddress (fl_revision F)) s
                in (((callResultOf result)\<lparr>cr_CreatedAddress := createdAddress\<rparr>, False), s)))"

definition executeCreate :: "'w floria \<Rightarrow> 'w call_fn \<Rightarrow> 'w call_fn" where
  "executeCreate F call kind p s =
     (case incrementDepth s of
        (True, s) \<Rightarrow> ((errResult p, False), s)
      | (False, s) \<Rightarrow>
          (let (res, s) =
             (case on_world_ret (senderCreateSetUp (fl_context F) p) s of
                (Some _, s) \<Rightarrow> ((errResult p, False), s)
              | (None, s) \<Rightarrow>
                  (case on_world_ret (createAddress (fl_lib F) (fl_context F) kind p (fl_revision F)) s of
                     (Inl _, s) \<Rightarrow> ((zeroCallResult, False), s)
                   | (Inr createdAddress, s) \<Rightarrow>
                       (let (snapshot, s) = on_world_ret (CreateSnapshot (fl_context F)) s
                        in restoreUnlessSuccess F snapshot (executeCreate_body F call createdAddress kind p s))))
           in (res, s\<lparr>rx_depth := rx_depth s - 1\<rparr>)))"

text \<open>
  \<open>Call\<close> and the interpreter call each other. The counter bounds the nesting; with the
  depth limit of the code, 1026 levels are never exceeded (theory \<open>Floria_Calls\<close>).
\<close>

primrec Call_n :: "'w floria \<Rightarrow> nat \<Rightarrow> 'w call_fn" where
  "Call_n F 0 = (\<lambda>kind p s. ((zeroCallResult, True), s\<lparr>rx_stuck := True\<rparr>))"
| "Call_n F (Suc n) = (\<lambda>kind p s.
     if kind = Create \<or> kind = Create2 then executeCreate F (Call_n F n) kind p s
     else executeCall F (Call_n F n) kind p s)"

abbreviation max_nesting :: nat where
  "max_nesting \<equiv> 1026"

definition runContext_Call :: "'w floria \<Rightarrow> 'w call_fn" where
  "runContext_Call F = Call_n F max_nesting"

end
