(* ===== verification/Floria_Processor.thy ===== *)
theory Floria_Processor
  imports Floria_Process
begin

text \<open>
  The processing of a transaction (\<open>floria/processor.go\<close>): checks, gas price, purchase of
  gas, access list, execution, refund.
\<close>

record 'w Processor =
  pr_Interpreter :: "'w interpreter_fn"
  pr_Config :: "'w floria_Config"
  pr_lib :: geth_lib

definition newFloriaProcessor :: "geth_lib \<Rightarrow> 'w interpreter_fn \<Rightarrow> 'w Processor" where
  "newFloriaProcessor G interpreter =
     \<lparr>pr_Interpreter = interpreter,
      pr_Config = \<lparr>EthCompatible = False, BuiltInContracts = Some [StateContractAddress \<mapsto> runStateContract G],
        OffChainSimulation = False\<rparr>,
      pr_lib = G\<rparr>"

definition blobHashes :: "Transaction \<Rightarrow> Hash list" where
  "blobHashes t = (case tx_BlobHashes t of None \<Rightarrow> [] | Some hs \<Rightarrow> hs)"

section \<open>Checks\<close>

definition nonceCheck :: "u64 \<Rightarrow> u64 \<Rightarrow> tx_error option" where
  "nonceCheck transactionNonce stateNonce =
     (if transactionNonce \<noteq> stateNonce then Some NonceMismatch
      else if stateNonce + 1 < stateNonce then Some NonceOverflow
      else None)"

definition eoaCheck :: "geth_lib \<Rightarrow> Hash \<Rightarrow> tx_error option" where
  "eoaCheck G codeHash =
     (if codeHash \<noteq> 0 \<and> codeHash \<noteq> emptyCodeHash G then Some SenderNotEOA else None)"

text \<open>The first byte of a hash.\<close>

definition hash_version :: "Hash \<Rightarrow> byte" where
  "hash_version h = be_bytes 32 h ! 0"

definition checkBlobs :: "Transaction \<Rightarrow> BlockParameters \<Rightarrow> bool \<Rightarrow> tx_error option" where
  "checkBlobs t b isSimulation =
     (case (case tx_BlobHashes t of
              None \<Rightarrow> None
            | Some hs \<Rightarrow>
                if tx_Recipient t = None then Some BlobWithoutRecipient
                else if length hs = 0 then Some MissingBlobHashes
                else if list_ex (\<lambda>h. hash_version h \<noteq> 0x01) hs then Some InvalidBlobHashVersion
                else None) of
        Some e \<Rightarrow> Some e
      | None \<Rightarrow>
          if R13_Cancun \<le> revision b \<and> 0 < length (blobHashes t) \<and>
             (\<not> isSimulation \<or> tx_BlobGasFeeCap t \<noteq> 0) \<and>
             tosca_Cmp (tx_BlobGasFeeCap t) (BlobBaseFee b) < 0
          then Some BlobFeeCapTooLow
          else None)"

definition initCodeSizeCheck :: "Revision \<Rightarrow> Transaction \<Rightarrow> tx_error option" where
  "initCodeSizeCheck r t =
     (if R12_Shanghai \<le> r \<and> tx_Recipient t = None \<and> maxInitCodeSize < length (tx_Input t)
      then Some InitCodeTooLong else None)"

definition checkTransaction ::
  "geth_lib \<Rightarrow> BlockParameters \<Rightarrow> Transaction \<Rightarrow> ('w, 'z) TransactionContext_scheme \<Rightarrow> 'w floria_Config \<Rightarrow> 'w \<Rightarrow>
   tx_error option" where
  "checkTransaction G b t C config w =
     (let nonceErr = nonceCheck (tx_Nonce t) (GetNonce C w (tx_Sender t)) in
      if \<not> OffChainSimulation config \<and> nonceErr \<noteq> None then nonceErr
      else (let eoaErr = eoaCheck G (GetCodeHash C w (tx_Sender t)) in
        if \<not> OffChainSimulation config \<and> eoaErr \<noteq> None then eoaErr
        else (case checkBlobs t b (OffChainSimulation config) of
                Some e \<Rightarrow> Some e
              | None \<Rightarrow> initCodeSizeCheck (revision b) t)))"

section \<open>Gas\<close>

definition calculateGasPrice :: "Value \<Rightarrow> Value \<Rightarrow> Value \<Rightarrow> bool \<Rightarrow> tx_error + Value" where
  "calculateGasPrice baseFee gasFeeCap gasTipCap isSimulation =
     (if isSimulation \<and> gasFeeCap = 0 \<and> gasTipCap = 0 then Inr 0
      else if tosca_Cmp gasFeeCap baseFee < 0 then Inl GasFeeCapBelowBaseFee
      else if tosca_Cmp gasFeeCap gasTipCap < 0 then Inl GasFeeCapBelowTipCap
      else Inr (tosca_Add baseFee (tosca_Min gasTipCap (tosca_Sub gasFeeCap baseFee))))"

text \<open>\<open>uint64(len(transaction.BlobHashes) * BlobTxBlobGasPerBlob)\<close>\<close>

definition blobGas :: "Transaction \<Rightarrow> u64" where
  "blobGas t = word_of_int (int (length (blobHashes t)) * BlobTxBlobGasPerBlob)"

definition balanceCheck :: "geth_lib \<Rightarrow> Value \<Rightarrow> Transaction \<Rightarrow> Value \<Rightarrow> bool \<Rightarrow> tx_error option" where
  "balanceCheck G gasPrice t balance ethCompatible =
     (let checkValue = uint gasPrice * tx_GasLimit t;
          checkValue = (if ethCompatible \<and> tx_GasFeeCap t \<noteq> 0 then uint (tx_GasFeeCap t) * tx_GasLimit t
                        else checkValue);
          checkValue = (if ethCompatible then checkValue + uint (tx_Value t) else checkValue);
          checkValue = (if 0 < length (blobHashes t)
                        then checkValue + uint (Scale (lib_uint256 G) (tx_BlobGasFeeCap t) (blobGas t))
                        else checkValue);
          (capGas, overflow) = uint256_FromBig G checkValue
      in if overflow then Some CapGasOverflow
         else if tosca_Cmp balance capGas < 0 then Some InsufficientBalance
         else None)"

definition calculateSetupGas :: "Transaction \<Rightarrow> Revision \<Rightarrow> Gas" where
  "calculateSetupGas t r =
     (let g = (if tx_Recipient t = None then TxGasContractCreation else TxGas);
          g = (if 0 < length (tx_Input t) then
                 (let nonZeroBytes = int (length (filter (\<lambda>b. b \<noteq> 0) (tx_Input t)));
                      zeroBytes = int (length (tx_Input t)) - nonZeroBytes;
                      g = int64 (g + zeroBytes * TxDataZeroGasEIP2028);
                      g = int64 (g + nonZeroBytes * TxDataNonZeroGasEIP2028)
                  in if tx_Recipient t = None \<and> R12_Shanghai \<le> r
                     then int64 (g + int64 (uint (SizeInWords (word_of_nat (length (tx_Input t))) * InitCodeWordGas)))
                     else g)
               else g)
      in case tx_AccessList t of
           None \<Rightarrow> g
         | Some l \<Rightarrow>
             foldl (\<lambda>g tuple. int64 (g + int (length (at_Keys tuple)) * TxAccessListStorageKeyGas))
               (int64 (g + int (length l) * TxAccessListAddressGas)) l)"

definition buyGasInternal ::
  "geth_lib \<Rightarrow> ('w, 'z) TransactionContext_scheme \<Rightarrow> Transaction \<Rightarrow> Value \<Rightarrow> Value \<Rightarrow> 'w \<Rightarrow> 'w" where
  "buyGasInternal G C t gasPrice blobGasPrice w =
     (let g = Scale (lib_uint256 G) gasPrice (word_of_int (tx_GasLimit t));
          g = (if 0 < length (blobHashes t)
               then tosca_Add g (Scale (lib_uint256 G) blobGasPrice (blobGas t)) else g);
          senderBalance = GetBalance C w (tx_Sender t)
      in SetBalance C (tx_Sender t) (tosca_Sub senderBalance g) w)"

definition calculateAvailableGas ::
  "geth_lib \<Rightarrow> BlockParameters \<Rightarrow> Transaction \<Rightarrow> ('w, 'z) TransactionContext_scheme \<Rightarrow> 'w floria_Config \<Rightarrow> 'w \<Rightarrow>
   (tx_error + Value \<times> Gas) \<times> 'w" where
  "calculateAvailableGas G b t C config w =
     (case calculateGasPrice (BaseFee b) (tx_GasFeeCap t) (tx_GasTipCap t) (OffChainSimulation config) of
        Inl e \<Rightarrow> (Inl e, w)
      | Inr gasPrice \<Rightarrow>
          (case balanceCheck G gasPrice t (GetBalance C w (tx_Sender t)) (EthCompatible config) of
             Some e \<Rightarrow> (Inl e, w)
           | None \<Rightarrow>
               (let setupGas = calculateSetupGas t (revision b) in
                if tx_GasLimit t < setupGas then (Inl InsufficientSetupGas, w)
                else (Inr (gasPrice, int64 (tx_GasLimit t - setupGas)),
                      buyGasInternal G C t gasPrice (BlobBaseFee b) w))))"

section \<open>Execution\<close>

definition callKind :: "Transaction \<Rightarrow> CallKind" where
  "callKind t = (if tx_Recipient t = None then Create else Call)"

definition callParameters :: "Transaction \<Rightarrow> Gas \<Rightarrow> CallParameters" where
  "callParameters t g =
     (let p = \<lparr>cp_Sender = tx_Sender t, cp_Recipient = 0, cp_Value = tx_Value t, cp_Input = tx_Input t,
               cp_Gas = g, cp_Salt = 0, cp_CodeAddress = 0\<rparr>
      in case tx_Recipient t of
           None \<Rightarrow> p
         | Some a \<Rightarrow> p\<lparr>cp_Recipient := a, cp_CodeAddress := a\<rparr>)"

definition accessTuple ::
  "('w, 'z) TransactionContext_scheme \<Rightarrow> AccessTuple \<Rightarrow> 'w \<Rightarrow> 'w" where
  "accessTuple C tuple w =
     foldl (\<lambda>w key. snd (AccessStorage C (at_Address tuple) key w))
       (snd (AccessAccount C (at_Address tuple) w)) (at_Keys tuple)"

definition setUpAccessList ::
  "geth_lib \<Rightarrow> ('w, 'z) TransactionContext_scheme \<Rightarrow> Transaction \<Rightarrow> Revision \<Rightarrow> Address \<Rightarrow> 'w \<Rightarrow> 'w" where
  "setUpAccessList G C t r coinBase w =
     (case tx_AccessList t of
        None \<Rightarrow> w
      | Some accessList \<Rightarrow>
          (let w = snd (AccessAccount C (tx_Sender t) w);
               w = (case tx_Recipient t of None \<Rightarrow> w | Some a \<Rightarrow> snd (AccessAccount C a w));
               w = foldl (\<lambda>w a. snd (AccessAccount C a w)) w (getPrecompiledAddresses G r);
               w = foldl (\<lambda>w tuple. accessTuple C tuple w) w accessList
           in if R12_Shanghai \<le> r then snd (AccessAccount C coinBase w) else w))"

definition tx_floria ::
  "'w Processor \<Rightarrow> BlockParameters \<Rightarrow> Transaction \<Rightarrow> 'w TransactionContext \<Rightarrow> Value \<Rightarrow> 'w floria" where
  "tx_floria P b t C gasPrice =
     \<lparr>fl_context = floriaContext C, fl_interpreter = pr_Interpreter P, fl_config = pr_Config P,
      fl_blockParameters = b,
      fl_transactionParameters = \<lparr>Origin = tx_Sender t, GasPrice = gasPrice, BlobHashes = blobHashes t\<rparr>,
      fl_lib = pr_lib P\<rparr>"

definition runTransaction ::
  "'w Processor \<Rightarrow> BlockParameters \<Rightarrow> Transaction \<Rightarrow> 'w TransactionContext \<Rightarrow> Value \<Rightarrow> Gas \<Rightarrow> 'w \<Rightarrow>
   (CallResult \<times> bool) \<times> 'w runContext" where
  "runTransaction P b t C gasPrice g w =
     (let F = tx_floria P b t C gasPrice;
          w = (if R09_Berlin \<le> revision b
               then setUpAccessList (pr_lib P) (fl_context F) t (revision b) (Coinbase b) w else w);
          kind = callKind t;
          w = (if kind = Call then SetNonce C (tx_Sender t) (GetNonce C w (tx_Sender t) + 1) w else w)
      in runContext_Call F kind (callParameters t g)
           \<lparr>rx_world = w, rx_depth = 0, rx_static = False, rx_stuck = False\<rparr>)"

definition calculateGasLeft :: "Transaction \<Rightarrow> CallResult \<Rightarrow> Revision \<Rightarrow> bool \<Rightarrow> Gas" where
  "calculateGasLeft t result r ethCompatible =
     (let gasLeft = cr_GasLeft result;
          gasLeft = (if \<not> ethCompatible \<and> tx_Sender t \<noteq> 0 then gasLeft - go_quot gasLeft 10 else gasLeft)
      in if cr_Success result then
           (let gasUsed = int64 (tx_GasLimit t - gasLeft);
                refund = cr_GasRefund result;
                maxRefund = (if r < R10_London then go_quot gasUsed 2 else go_quot gasUsed 5);
                refund = (if maxRefund < refund then maxRefund else refund)
            in int64 (gasLeft + refund))
         else gasLeft)"

definition refundGasInternal ::
  "geth_lib \<Rightarrow> ('w, 'z) TransactionContext_scheme \<Rightarrow> Address \<Rightarrow> Value \<Rightarrow> Gas \<Rightarrow> 'w \<Rightarrow> 'w" where
  "refundGasInternal G C sender gasPrice gasLeft w =
     (let refundValue = Scale (lib_uint256 G) gasPrice (word_of_int gasLeft);
          senderBalance = GetBalance C w sender
      in SetBalance C sender (tosca_Add senderBalance refundValue) w)"

definition paymentToCoinbase ::
  "geth_lib \<Rightarrow> ('w, 'z) TransactionContext_scheme \<Rightarrow> Value \<Rightarrow> Gas \<Rightarrow> BlockParameters \<Rightarrow> 'w \<Rightarrow> 'w" where
  "paymentToCoinbase G C gasPrice gasUsed b w =
     (let effectiveTip = (if R10_London \<le> revision b then tosca_Sub gasPrice (BaseFee b) else gasPrice);
          fee = Scale (lib_uint256 G) effectiveTip (word_of_int gasUsed)
      in SetBalance C (Coinbase b) (tosca_Add (GetBalance C w (Coinbase b)) fee) w)"

definition returnExcessGas ::
  "geth_lib \<Rightarrow> BlockParameters \<Rightarrow> Transaction \<Rightarrow> ('w, 'z) TransactionContext_scheme \<Rightarrow> Value \<Rightarrow> CallResult \<Rightarrow> bool \<Rightarrow>
   'w \<Rightarrow> Gas \<times> 'w" where
  "returnExcessGas G b t C gasPrice result ethCompatible w =
     (let gasLeft = calculateGasLeft t result (revision b) ethCompatible;
          w = refundGasInternal G C (tx_Sender t) gasPrice gasLeft w;
          gasUsed = int64 (tx_GasLimit t - gasLeft)
      in (gasUsed, if ethCompatible then paymentToCoinbase G C gasPrice gasUsed b w else w))"

text \<open>
  \<open>Run\<close>: the receipt, the error if there is one, and the world state afterwards.
  \<open>None\<close>: the run did not return.
\<close>

definition Processor_Run ::
  "'w Processor \<Rightarrow> BlockParameters \<Rightarrow> Transaction \<Rightarrow> 'w TransactionContext \<Rightarrow> 'w \<Rightarrow>
   ((Receipt \<times> tx_error option) \<times> 'w) option" where
  "Processor_Run P b t C w =
     (case checkTransaction (pr_lib P) b t C (pr_Config P) w of
        Some e \<Rightarrow> Some ((zeroReceipt, Some e), w)
      | None \<Rightarrow>
          (case calculateAvailableGas (pr_lib P) b t C (pr_Config P) w of
             (Inl e, w) \<Rightarrow> Some ((zeroReceipt, Some e), w)
           | (Inr (gasPrice, g), w) \<Rightarrow>
               (case runTransaction P b t C gasPrice g w of
                  ((result, err), s) \<Rightarrow>
                    if rx_stuck s then None
                    else if err
                    then Some ((zeroReceipt\<lparr>rcp_GasUsed := tx_GasLimit t\<rparr>, Some InterpreterFailed), rx_world s)
                    else
                      (let (gasUsed, w) = returnExcessGas (pr_lib P) b t C gasPrice result
                             (EthCompatible (pr_Config P)) (rx_world s);
                           receipt = zeroReceipt\<lparr>rcp_Success := cr_Success result, rcp_GasUsed := gasUsed,
                             rcp_Output := cr_Output result, rcp_Logs := GetLogs C w,
                             rcp_ContractAddress :=
                               (if tx_Recipient t = None then Some (cr_CreatedAddress result) else None)\<rparr>
                       in Some ((receipt, None), w)))))"

end
