(* ===== verification/Sfvm_Uniform.thy ===== *)
theory Sfvm_Uniform
  imports Uniformity Sfvm_Safety
begin

text \<open>
  The short-form interpreter as a whole uses the world state through the run context only:
  in related environments and on related world states its runs are related. In particular a
  run keeps every property of the world state that the methods of the run context keep.
\<close>

section \<open>Contexts that agree except for the world state\<close>

abbreviation sf_alike :: "('v \<Rightarrow> 'w \<Rightarrow> bool) \<Rightarrow> 'v sfvm_context \<Rightarrow> 'w sfvm_context \<Rightarrow> bool" where
  "sf_alike A \<equiv> alike A (=)"

lemma sf_alike_fields [transfer_rule]:
  "rel_fun (sf_alike A) (=) pc pc" "rel_fun (sf_alike A) (=) code code"
  "rel_fun (sf_alike A) (=) analysis analysis"
  by (auto simp: alike_def rel_fun_def ctxt_more_sfvm)

lemma sf_alike_pc_update [transfer_rule]:
  "rel_fun (=) (rel_fun (sf_alike A) (sf_alike A)) pc_update pc_update"
  by (simp add: alike_def rel_fun_def)

section \<open>The instructions that read the code\<close>

lemma alike_opPc [transfer_rule]: "rel_fun (sf_alike A) (alike_res A (=)) opPc opPc"
  unfolding opPc_def by transfer_prover

lemma alike_checkJumpDest [transfer_rule]:
  "rel_fun (sf_alike A) (alike_res A (=)) checkJumpDest checkJumpDest"
  unfolding checkJumpDest_def by transfer_prover

lemma alike_opJump [transfer_rule]: "rel_fun (sf_alike A) (alike_res A (=)) opJump opJump"
  unfolding opJump_def by transfer_prover

lemma alike_opJumpi [transfer_rule]: "rel_fun (sf_alike A) (alike_res A (=)) opJumpi opJumpi"
  unfolding opJumpi_def by transfer_prover

lemma alike_code_at [transfer_rule]:
  "rel_fun (=) (rel_fun (sf_alike A) (alike_res A (=))) code_at code_at"
  unfolding code_at_def by transfer_prover

lemma alike_opPush [transfer_rule]:
  "rel_fun (env_rel A) (rel_fun (=) (rel_fun (sf_alike A) (alike_res A (=)))) opPush opPush"
  unfolding opPush_def by transfer_prover

lemma alike_opPush1 [transfer_rule]: "rel_fun (sf_alike A) (alike_res A (=)) opPush1 opPush1"
  unfolding opPush1_def by transfer_prover

lemma alike_opPush2 [transfer_rule]: "rel_fun (sf_alike A) (alike_res A (=)) opPush2 opPush2"
  unfolding opPush2_def by transfer_prover

section \<open>Dispatch\<close>

lemma alike_cont [transfer_rule]:
  "rel_fun (rel_fun (sf_alike A) (alike_res A (=))) (rel_fun (sf_alike A) (alike_res A (=))) cont cont"
  unfolding cont_def by transfer_prover

lemma alike_finish [transfer_rule]:
  "rel_fun (=) (rel_fun (rel_fun (sf_alike A) (alike_res A (=))) (rel_fun (sf_alike A) (alike_res A (=))))
     finish finish"
  unfolding finish_def by transfer_prover

abbreviation alike_table :: "('v \<Rightarrow> 'w \<Rightarrow> bool) \<Rightarrow> (OpCode \<times> 'v sf_op) list \<Rightarrow> (OpCode \<times> 'w sf_op) list \<Rightarrow> bool" where
  "alike_table A \<equiv> list_all2 (rel_prod (=) (rel_fun (sf_alike A) (alike_res A (=))))"

lemma alike_hot [transfer_rule]: "rel_fun (env_rel A) (alike_table A) sfvm_ops_hot sfvm_ops_hot"
  unfolding sfvm_ops_hot_def by transfer_prover

lemma alike_rest [transfer_rule]: "rel_fun (env_rel A) (alike_table A) sfvm_ops_rest sfvm_ops_rest"
  unfolding sfvm_ops_rest_def by transfer_prover

lemma alike_ops [transfer_rule]: "rel_fun (env_rel A) (alike_table A) sfvm_ops sfvm_ops"
  unfolding sfvm_ops_def by transfer_prover

lemma map_of_table:
  "list_all2 (rel_prod (=) R) xs ys \<Longrightarrow> rel_option R (map_of xs k) (map_of ys k)"
  by (induction rule: list_all2_induct) (auto simp: rel_prod_conv)

lemma alike_dispatch [transfer_rule]:
  "rel_fun (env_rel A) (rel_fun (=) (rel_fun (sf_alike A) (alike_res A (=)))) dispatch dispatch"
proof (intro rel_funI)
  fix E F and op op' :: OpCode and c d
  assume E: "env_rel A E F" and op: "op = op'" and c: "sf_alike A c d"
  have "rel_option (rel_fun (sf_alike A) (alike_res A (=))) (map_of (sfvm_ops E) op) (map_of (sfvm_ops F) op)"
    by (rule map_of_table [OF alike_ops [THEN rel_funD, OF E]])
  then show "alike_res A (=) (dispatch E op c) (dispatch F op' d)"
    using c unfolding op dispatch_def
    by (auto split: option.splits simp: option_rel_Some1 option_rel_Some2
        intro!: alike_fail [THEN rel_funD, THEN rel_funD] dest: rel_funD)
qed

lemma alike_execInstr [transfer_rule]:
  "rel_fun (env_rel A) (rel_fun (sf_alike A) (alike_res A (=))) execInstr execInstr"
  unfolding execInstr_def by transfer_prover

section \<open>The loop and the run\<close>

lemma loop_alike:
  "steps_loop E one st c = Some r \<Longrightarrow> env_rel A E F \<Longrightarrow> sf_alike A c d \<Longrightarrow>
   \<exists>s. steps_loop F one st d = Some s \<and> alike_res A (=) r s"
proof (induction E one st c r arbitrary: d rule: steps_loop.raw_induct [rotated, consumes 1, case_names 1])
  case (1 loop E one st c r)
  note E = 1(3) and c = 1(4)
  have eq: "length (code d) = length (code c)" "pc d = pc c"
    using c by (auto simp: alike_def ctxt_more_sfvm)
  show ?case
  proof (cases "st = statusRunning \<and> pc c < int (length (code c))")
    case False
    then show ?thesis
      using 1(2) c eq
      by (subst steps_loop.simps) (auto simp: ret_def split: if_splits)
  next
    case True
    obtain x c' y d' where x: "execInstr E c = (x, c')" "execInstr F d = (y, d')" by fastforce
    have xy: "y = x" "sf_alike A c' d'"
      using alike_execInstr [THEN rel_funD, THEN rel_funD, OF E c] x by auto
    let ?c = "c'\<lparr>pc := int32 (pc c' + 1)\<rparr>" and ?d = "d'\<lparr>pc := int32 (pc d' + 1)\<rparr>"
    have n: "sf_alike A ?c ?d" using xy(2) by (simp add: alike_def)
    show ?thesis
    proof (cases x)
      case (Inl e)
      then show ?thesis using True 1(2) x xy eq
        by (subst steps_loop.simps) (auto simp: fail_def)
    next
      case (Inr st')
      show ?thesis
      proof (cases one)
        case True
        then show ?thesis using \<open>st = statusRunning \<and> _\<close> 1(2) x xy eq Inr n
          by (subst steps_loop.simps) (auto simp: ret_def Let_def)
      next
        case False
        then have "loop E one st' ?c = Some r" using True 1(2) x Inr by (simp add: Let_def)
        from 1(1) [OF this E n] show ?thesis
          using True x xy eq Inr False by (subst steps_loop.simps) (simp add: Let_def)
      qed
    qed
  qed
qed

lemma run_alike:
  assumes "env_rel A E F" and "A v w" and "run E jd config p v = Some (Ret (r, v'))"
  shows "\<exists>w'. run F jd config p w = Some (Ret (r, w')) \<and> A v' w'"
proof (cases "Code p = []")
  case True
  then show ?thesis using assms by (auto simp: run_def)
next
  case False
  define c where "c = initial_context config jd p v"
  define d where "d = initial_context config jd p w"
  have cd: "sf_alike A c d" using assms(2) by (simp add: c_def d_def initial_context_def alike_def)
  obtain st c' where x: "execute E False c = Some (Ret (st, c'))" "r = generateResult st c'" "v' = world c'"
    using assms(3) False by (auto simp: run_def c_def split: option.splits go.splits prod.splits)
  then obtain y where y: "steps_loop E False statusRunning c = Some (y, c')" "y \<noteq> Inl GoPanic"
    "st = (case y of Inl _ \<Rightarrow> statusFailed | Inr st \<Rightarrow> st)"
    by (auto simp: execute_def steps_def split: option.splits prod.splits sum.splits error.splits)
  then obtain d' where d': "steps_loop F False statusRunning d = Some (y, d')" "sf_alike A c' d'"
    using loop_alike [OF y(1) assms(1) cd] by (auto simp: rel_prod_conv)
  then have "execute F False d = Some (Ret (st, d'))"
    using y by (auto simp: execute_def steps_def split: sum.splits error.splits)
  moreover have "generateResult st c' = generateResult st d'" "A (world c') (world d')"
    using alike_generateResult [THEN rel_funD, THEN rel_funD, OF refl d'(2)] d'(2) by (auto simp: alike_def)
  ultimately show ?thesis
    using False x by (auto simp: run_def d_def [symmetric])
qed

end
