(* ===== verification/Interpreter_Contract.thy ===== *)
theory Interpreter_Contract
  imports Sfvm_Uniform Lfvm_Equiv
begin

text \<open>
  The interface \<open>tosca.Interpreter\<close>, as the processors rely on it, and the proof that the
  long-form interpreter provides it.
\<close>

section \<open>The contract\<close>

text \<open>What an interpreter may assume of the run context it is given.\<close>

definition rc_ok :: "'s RunContext \<Rightarrow> bool" where
  "rc_ok r \<longleftrightarrow>
     (\<forall>kind p s res err s'. 0 \<le> cp_Gas p \<longrightarrow> cp_Gas p < 9223372036854775808 \<longrightarrow>
        length (cp_Input p) < 9223372036854775808 \<longrightarrow> CallOp r kind p s = ((res, err), s') \<longrightarrow>
        0 \<le> cr_GasLeft res \<and> cr_GasLeft res \<le> cp_Gas p) \<and>
     (\<forall>s a. length (GetCode r s a) < 9223372036854775808)"

lemma run_ctx_iff: "run_ctx E \<longleftrightarrow> rc_ok (rc E)"
  unfolding run_ctx_def rc_ok_def by blast

text \<open>Gas is an \<open>int64\<close>, input and code are slices.\<close>

definition params_ok :: "Parameters \<Rightarrow> bool" where
  "params_ok p \<longleftrightarrow> Gas p < 9223372036854775808 \<and> length (Input p) < 9223372036854775808 \<and>
     length (Code p) < 9223372036854775808"

text \<open>
  A run returns, with no more gas than it was given, and it depends on the state only
  through the methods of the run context it uses: for every relation that these methods
  respect, runs in related run contexts and states are related.
\<close>

locale interpreter =
  fixes interp :: "'s RunContext \<Rightarrow> Parameters \<Rightarrow> 's \<Rightarrow> (Result option \<times> 's) go option"
  assumes returns: "rc_ok r \<Longrightarrow> params_ok p \<Longrightarrow>
      \<exists>x s'. interp r p s = Some (Ret (x, s')) \<and>
        (\<forall>y. x = Some y \<longrightarrow> 0 \<le> Gas p \<longrightarrow> 0 \<le> res_GasLeft y \<and> res_GasLeft y \<le> Gas p)"
    and uniform: "rc_ok r \<Longrightarrow> rc_ok r' \<Longrightarrow> rc_rel A r r' \<Longrightarrow> params_ok p \<Longrightarrow> A s t \<Longrightarrow>
      interp r p s = Some (Ret (x, s')) \<Longrightarrow> \<exists>t'. interp r' p t = Some (Ret (x, t')) \<and> A s' t'"
begin

lemma keeps:
  assumes "rc_ok r" and "rc_rel (eq_onp P) r r" and "params_ok p" and "P s"
    and "interp r p s = Some (Ret (x, s'))"
  shows "P s'"
  using uniform [OF assms(1,1,2,3) _ assms(5), of s] assms(4,5) by (auto simp: eq_onp_def)

lemma same:
  assumes "rc_ok r" and "rc_ok r'" and "rc_rel (eq_onp P) r r'" and "params_ok p" and "P s"
  shows "interp r' p s = interp r p s"
proof -
  obtain x s' where x: "interp r p s = Some (Ret (x, s'))" using returns [OF assms(1,4)] by blast
  then show ?thesis using uniform [OF assms(1-4) _ x, of s] assms(5) by (auto simp: eq_onp_def)
qed

end

section \<open>The long-form interpreter\<close>

text \<open>
  \<open>lfvm.Run\<close> with the 256-bit words as integer package, without a code cache and without
  super instructions.
\<close>

definition lfvm_interp ::
  "(bytes \<Rightarrow> Hash) \<Rightarrow> (bytes \<Rightarrow> Hash) \<Rightarrow> bool \<Rightarrow> (Hash, Instruction list, 'c) lru \<Rightarrow>
   's RunContext \<Rightarrow> Parameters \<Rightarrow> 's \<Rightarrow> (Result option \<times> 's) go option" where
  "lfvm_interp K H sha L r p s =
     fst (lf_Run \<lparr>rc = r, u256lib = word_uint256, Keccak256 = K, sha3Cache_hash = H\<rparr> L sha p s
       \<lparr>cv_config = \<lparr>CacheSize = 0, WithSuperInstructions = False\<rparr>, cv_cache = None\<rparr>)"

text \<open>With a negative amount of gas, the first instruction fails.\<close>

definition failed_result :: Result where
  "failed_result = \<lparr>res_Success = False, res_Output = [], res_GasLeft = 0, res_GasRefund = 0\<rparr>"

lemma execInstr_negative:
  assumes "gas c < 0" and "pc c = 0" and "code c \<noteq> []"
  shows "\<exists>e. execInstr E c = (Inl e, c) \<and> e \<noteq> GoPanic"
  using assms
  by (auto simp: execInstr_def code_at_def bind_def ret_def fail_def useGas_def Let_def checkStackLimits_def
      check_limits_def split: option.splits)

lemma lf_execInstr_negative:
  assumes "gas c < 0" and "pc c = 0" and "lf_code c \<noteq> []"
  shows "\<exists>e. lf_execInstr E c = (Inl e, c) \<and> e \<noteq> GoPanic"
  using assms
  by (auto simp: lf_execInstr_def instr_at_def bind_def ret_def fail_def useGas_def Let_def
      lf_checkStackLimits_def check_limits_def split: option.splits)

lemma run_negative:
  assumes "Gas p < 0" and "Code p \<noteq> []"
  shows "run E jd config p w = Some (Ret (Some failed_result, w))"
proof -
  let ?c = "initial_context config jd p w"
  obtain e where e: "execInstr E ?c = (Inl e, ?c)" "e \<noteq> GoPanic"
    using execInstr_negative [of ?c E] assms by (auto simp: initial_context_def)
  have "steps_loop E False statusRunning ?c = Some (Inl e, ?c)"
    using assms(2) by (subst steps_loop.simps) (simp add: e fail_def, simp add: initial_context_def)
  moreover have "world ?c = w" by (simp add: initial_context_def)
  ultimately show ?thesis
    using assms(2) e(2)
    by (auto simp: run_def execute_def steps_def generateResult_def failed_result_def split: error.splits)
qed

lemma lf_run_negative:
  assumes "Gas p < 0" and "lcode \<noteq> []"
  shows "lf_run E sha p lcode w = Some (Ret (Some failed_result, w))"
proof -
  let ?c = "lf_initial_context sha lcode p w"
  obtain e where e: "lf_execInstr E ?c = (Inl e, ?c)" "e \<noteq> GoPanic"
    using lf_execInstr_negative [of ?c E] assms by (auto simp: lf_initial_context_def)
  have "lf_steps_loop E False statusRunning ?c = Some (Inl e, ?c)"
    using assms(2) by (subst lf_steps_loop.simps) (simp add: e fail_def, simp add: lf_initial_context_def)
  moreover have "world ?c = w" by (simp add: lf_initial_context_def)
  ultimately show ?thesis
    using assms(2) e(2)
    by (auto simp: lf_run_def lf_execute_def lf_steps_def generateResult_def failed_result_def split: error.splits)
qed

lemma lfvm_interp_eq:
  assumes "rc_ok r" and "params_ok p"
  shows "lfvm_interp K H sha L r p s =
    (if R15_Osaka < revision (BlockParams p) \<or> 65535 < length (Code p) then Some (Ret (None, s))
     else run \<lparr>rc = r, u256lib = word_uint256, Keccak256 = K, sha3Cache_hash = H\<rparr>
       (findJumpDestinations (Code p)) \<lparr>WithShaCache = sha\<rparr> p s)"
proof (cases "65535 < length (Code p)")
  case True
  then show ?thesis by (simp add: lfvm_interp_def lf_Run_def Convert_def)
next
  case False
  let ?E = "\<lparr>rc = r, u256lib = word_uint256, Keccak256 = K, sha3Cache_hash = H\<rparr>"
  obtain lcode cur M where c: "convert (Code p) False = Ret lcode" "converted (Code p) lcode cur M"
    using converted_exists [of "Code p"] False by auto
  have ctx: "run_ctx ?E" using assms(1) by (simp add: run_ctx_iff)
  have "lf_run ?E sha p lcode s = run ?E (findJumpDestinations (Code p)) \<lparr>WithShaCache = sha\<rparr> p s"
  proof (cases "0 \<le> Gas p")
    case True
    then show ?thesis
      using lf_run_eq [OF ctx, of p lcode cur M sha s] c(2) assms(2) word_uint256.uint256_arith_axioms
      by (simp add: params_ok_def)
  next
    case False
    then show ?thesis
    proof (cases "Code p = []")
      case True
      then have "lcode = []" using c(2) by (auto simp: converted_def layout_def linked_def placed_def)
      with True show ?thesis by (simp add: lf_run_def run_def)
    qed (simp add: run_negative lf_run_negative sim_initial(2) [OF c(2)])
  qed
  then show ?thesis
    using False c(1) by (simp add: lfvm_interp_def lf_Run_def Convert_def)
qed

interpretation lfvm: interpreter "lfvm_interp K H sha L :: 's RunContext \<Rightarrow> _"
  for K H sha and L :: "(Hash, Instruction list, 'c) lru"
proof
  fix r :: "'s RunContext" and p s
  assume r: "rc_ok r" and p: "params_ok p"
  show "\<exists>x s'. lfvm_interp K H sha L r p s = Some (Ret (x, s')) \<and>
      (\<forall>y. x = Some y \<longrightarrow> 0 \<le> Gas p \<longrightarrow> 0 \<le> res_GasLeft y \<and> res_GasLeft y \<le> Gas p)"
  proof (cases "R15_Osaka < revision (BlockParams p) \<or> 65535 < length (Code p)")
    case False
    let ?E = "\<lparr>rc = r, u256lib = word_uint256, Keccak256 = K, sha3Cache_hash = H\<rparr>"
    consider "0 \<le> Gas p" | "Gas p < 0" "Code p = []" | "Gas p < 0" "Code p \<noteq> []" by linarith
    then show ?thesis
    proof cases
      case 1
      from run_total [of ?E p] 1 False r p show ?thesis
        unfolding lfvm_interp_eq [OF r p] by (fastforce simp: run_ctx_iff params_ok_def maxCode_def)
    next
      case 2
      with False show ?thesis by (simp add: lfvm_interp_eq [OF r p] run_def)
    next
      case 3
      with False show ?thesis by (simp add: lfvm_interp_eq [OF r p] run_negative)
    qed
  qed (simp add: lfvm_interp_eq [OF r p])
next
  fix r r' :: "'s RunContext" and A p s t x s'
  assume r: "rc_ok r" "rc_ok r'" "rc_rel A r r'" and p: "params_ok p" and s: "A s t"
    and x: "lfvm_interp K H sha L r p s = Some (Ret (x, s'))"
  have "env_rel A \<lparr>rc = r, u256lib = word_uint256, Keccak256 = K, sha3Cache_hash = H\<rparr>
    \<lparr>rc = r', u256lib = word_uint256, Keccak256 = K, sha3Cache_hash = H\<rparr>"
    using r(3) by (simp add: env_rel_def)
  from run_alike [OF this s] x s
  show "\<exists>t'. lfvm_interp K H sha L r' p t = Some (Ret (x, t')) \<and> A s' t'"
    by (auto simp: lfvm_interp_eq [OF r(1) p] lfvm_interp_eq [OF r(2) p] split: if_splits)
qed

end
