(* ===== verification/Floria_Calls.thy ===== *)
theory Floria_Calls
  imports Floria_Processor Interpreter_Contract
begin

text \<open>
  Nested calls of the Floria processor: the gas they return, the depth and the static flag
  they leave, the bound on the recursion, and the restoration of the world state by calls
  that fail.
\<close>

section \<open>The cases of a call\<close>

definition after_transfer :: "'w floria \<Rightarrow> CallKind \<Rightarrow> CallParameters \<Rightarrow> 'w runContext \<Rightarrow> 'w runContext" where
  "after_transfer F kind p s =
     (if kind = Call \<or> kind = CallCode
      then on_world (transferValue (fl_context F) (cp_Value p) (cp_Sender p) (cp_Recipient p)) s else s)"

definition handled :: "'w floria \<Rightarrow> CallKind \<Rightarrow> CallParameters \<Rightarrow> 'w runContext \<Rightarrow> (CallResult \<times> bool) \<times> 'w runContext" where
  "handled F kind p s =
     (if kind = Call then on_world_ret (handleStateContracts F p) s else ((zeroCallResult, False), s))"

lemma handled_cases:
  obtains (none) x where "handled F kind p s = ((x, False), s)"
  | (built_in) m c x w' where "handled F kind p s = ((x, True), s\<lparr>rx_world := w'\<rparr>)" "kind = Call"
      "BuiltInContracts (fl_config F) = Some m" "m (cp_CodeAddress p) = Some c"
      "c (fl_context F) (cp_Sender p) (cp_CodeAddress p) (cp_Input p) (cp_Gas p) (rx_world s) = (x, w')"
proof (cases "kind = Call \<and> (\<exists>m c. BuiltInContracts (fl_config F) = Some m \<and> m (cp_CodeAddress p) = Some c)")
  case True
  then obtain m c where m: "kind = Call" "BuiltInContracts (fl_config F) = Some m" "m (cp_CodeAddress p) = Some c"
    by blast
  obtain x w' where x: "c (fl_context F) (cp_Sender p) (cp_CodeAddress p) (cp_Input p) (cp_Gas p) (rx_world s) = (x, w')"
    by fastforce
  then have "handled F kind p s = ((x, True), s\<lparr>rx_world := w'\<rparr>)"
    using m by (simp add: handled_def on_world_ret_def handleStateContracts_def)
  then show thesis using built_in m x by blast
next
  case False
  then have "handled F kind p s = ((zeroCallResult, False), s)"
    by (auto simp: handled_def on_world_ret_def handleStateContracts_def split: option.splits)
  then show thesis by (rule none)
qed

lemma executeCall_body_eq:
  "executeCall_body F call kind p s =
     (if (kind = Call \<or> kind = CallCode) \<and>
         \<not> canTransferValue (fl_context F) (cp_Value p) (cp_Sender p) (Some (cp_Recipient p)) (rx_world s)
      then ((errResult p, False), s)
      else (case handled F kind p (after_transfer F kind p s) of
        ((x, ok), t) \<Rightarrow>
          if ok then ((x, False), t)
          else if isPrecompiled (fl_lib F) (cp_CodeAddress p) (fl_revision F) then
            (case runPrecompiledContract (fl_lib F) (fl_revision F) (cp_Input p) (cp_CodeAddress p) (cp_Gas p) of
               (result, err) \<Rightarrow> ((if err \<noteq> None then result\<lparr>cr_Success := False\<rparr> else result, False), t))
          else (case runInterpreter F call kind p (after_transfer F kind p s) of
                  (None, s) \<Rightarrow> ((zeroCallResult, True), s)
                | (Some result, s) \<Rightarrow> ((callResultOf result, False), s))))"
proof -
  obtain x ok t where h: "handled F kind p (after_transfer F kind p s) = ((x, ok), t)" by (metis surj_pair)
  then have t: "t = after_transfer F kind p s" if "\<not> ok"
    using that by (cases rule: handled_cases [of F kind p "after_transfer F kind p s"]) auto
  note h' = h [unfolded handled_def after_transfer_def]
  show ?thesis
    using t unfolding executeCall_body_def h Let_def h' prod.case by (cases ok) (simp_all only: if_True if_False simp_thms)
qed

lemma executeCall_body_cases:
  assumes "executeCall_body F call kind p s = ((r, err), s')"
  obtains (no_balance) "r = errResult p" "\<not> err" "s' = s"
  | (built_in) m c w' where "BuiltInContracts (fl_config F) = Some m" "m (cp_CodeAddress p) = Some c" "\<not> err"
      "c (fl_context F) (cp_Sender p) (cp_CodeAddress p) (cp_Input p) (cp_Gas p)
         (rx_world (after_transfer F kind p s)) = (r, w')"
      "s' = (after_transfer F kind p s)\<lparr>rx_world := w'\<rparr>" "kind = Call"
  | (precompiled) x e where "\<not> err" "s' = after_transfer F kind p s"
      "runPrecompiledContract (fl_lib F) (fl_revision F) (cp_Input p) (cp_CodeAddress p) (cp_Gas p) = (x, e)"
      "r = (if e \<noteq> None then x\<lparr>cr_Success := False\<rparr> else x)"
  | (fails) "runInterpreter F call kind p (after_transfer F kind p s) = (None, s')" "err" "r = zeroCallResult"
  | (runs) x where "runInterpreter F call kind p (after_transfer F kind p s) = (Some x, s')" "\<not> err"
      "r = callResultOf x"
  using handled_cases [of F kind p "after_transfer F kind p s"]
proof cases
  case none
  then show thesis
    using assms no_balance precompiled fails runs unfolding executeCall_body_eq
    by (auto split: if_splits option.splits prod.splits)
next
  case (built_in m c x w')
  then show thesis
    using assms no_balance that(2) [OF built_in(3,4)] unfolding executeCall_body_eq
    by (auto split: if_splits)
qed

definition created :: "'w floria \<Rightarrow> Address \<Rightarrow> CallParameters \<Rightarrow> 'w runContext \<Rightarrow> 'w runContext" where
  "created F a p s =
     on_world (transferValue (fl_context F) (cp_Value p) (cp_Sender p) a)
       (on_world (SetNonce (fl_context F) a 1) (on_world (CreateContract (fl_context F) a) s))"

lemma executeCreate_body_eq:
  "executeCreate_body F call a kind p s =
     (case runInterpreter F call kind (p\<lparr>cp_Recipient := a\<rparr>) (created F a p s) of
        (None, s) \<Rightarrow> ((zeroCallResult, True), s)
      | (Some result, s) \<Rightarrow>
          if \<not> res_Success result
          then (((callResultOf result)\<lparr>cr_CreatedAddress := a, cr_Success := False\<rparr>, False), s)
          else (let (result, s) = on_world_ret (checkAndDeployCode (fl_context F) result a (fl_revision F)) s
                in (((callResultOf result)\<lparr>cr_CreatedAddress := a\<rparr>, False), s)))"
  unfolding executeCreate_body_def created_def Let_def by (rule refl)

lemma executeCreate_body_cases:
  assumes "executeCreate_body F call a kind p s = ((r, err), s')"
  obtains (fails) "runInterpreter F call kind (p\<lparr>cp_Recipient := a\<rparr>) (created F a p s) = (None, s')"
      "err" "r = zeroCallResult"
  | (unsuccessful) x where "runInterpreter F call kind (p\<lparr>cp_Recipient := a\<rparr>) (created F a p s) = (Some x, s')"
      "\<not> err" "\<not> res_Success x" "r = (callResultOf x)\<lparr>cr_CreatedAddress := a, cr_Success := False\<rparr>"
  | (deploys) x t y w' where "runInterpreter F call kind (p\<lparr>cp_Recipient := a\<rparr>) (created F a p s) = (Some x, t)"
      "res_Success x" "checkAndDeployCode (fl_context F) x a (fl_revision F) (rx_world t) = (y, w')"
      "s' = t\<lparr>rx_world := w'\<rparr>" "\<not> err" "r = (callResultOf y)\<lparr>cr_CreatedAddress := a\<rparr>"
proof -
  obtain x t where x: "runInterpreter F call kind (p\<lparr>cp_Recipient := a\<rparr>) (created F a p s) = (x, t)" by fastforce
  then have body: "executeCreate_body F call a kind p s =
    (case x of
       None \<Rightarrow> ((zeroCallResult, True), t)
     | Some result \<Rightarrow>
         if \<not> res_Success result
         then (((callResultOf result)\<lparr>cr_CreatedAddress := a, cr_Success := False\<rparr>, False), t)
         else (let (result, s) = on_world_ret (checkAndDeployCode (fl_context F) result a (fl_revision F)) t
               in (((callResultOf result)\<lparr>cr_CreatedAddress := a\<rparr>, False), s)))"
    unfolding executeCreate_body_eq by (simp only: prod.case)
  show thesis
  proof (cases x)
    case None
    then show thesis using assms x fails unfolding body by auto
  next
    case (Some y)
    obtain z w' where z: "checkAndDeployCode (fl_context F) y a (fl_revision F) (rx_world t) = (z, w')" by fastforce
    show thesis
    proof (cases "res_Success y")
      case True
      then show thesis using assms x Some z deploys [OF _ True z] unfolding body by (auto simp: on_world_ret_def)
    next
      case False
      then show thesis using assms x Some unsuccessful [OF _ _ False] unfolding body by auto
    qed
  qed
qed

lemma incrementDepth_eq:
  "incrementDepth s = (if 1024 < rx_depth s then (True, s) else (False, s\<lparr>rx_depth := rx_depth s + 1\<rparr>))"
  by (simp add: incrementDepth_def)

lemma executeCall_eq:
  "executeCall F call kind p s =
     (if 1024 < rx_depth s then ((errResult p, False), s)
      else (case CreateSnapshot (fl_context F) (rx_world s) of (i, w1) \<Rightarrow>
        (case restoreUnlessSuccess F i (executeCall_body F call kind p (s\<lparr>rx_depth := rx_depth s + 1,
                rx_static := rx_static s \<or> kind = StaticCall, rx_world := w1\<rparr>)) of
           (res, t) \<Rightarrow> (res, t\<lparr>rx_static := (if \<not> rx_static s \<and> kind = StaticCall then False else rx_static t),
             rx_depth := rx_depth t - 1\<rparr>))))"
proof (cases "1024 < rx_depth s")
  case True
  then show ?thesis
    unfolding executeCall_def incrementDepth_eq by (simp only: if_True prod.case bool.case)
next
  case False
  obtain i w1 where i: "CreateSnapshot (fl_context F) (rx_world s) = (i, w1)" by fastforce
  let ?s = "s\<lparr>rx_depth := rx_depth s + 1, rx_static := rx_static s \<or> kind = StaticCall, rx_world := w1\<rparr>"
  obtain y t where y: "restoreUnlessSuccess F i (executeCall_body F call kind p ?s) = (y, t)" by fastforce
  have s: "?s = (if \<not> rx_static s \<and> kind = StaticCall then s\<lparr>rx_depth := rx_depth s + 1, rx_static := True\<rparr>
      else s\<lparr>rx_depth := rx_depth s + 1\<rparr>)\<lparr>rx_world := w1\<rparr>"
    by (cases s) auto
  have "executeCall F call kind p s = (y, (if \<not> rx_static s \<and> kind = StaticCall then t\<lparr>rx_static := False\<rparr> else t)
      \<lparr>rx_depth := rx_depth t - 1\<rparr>)"
    using False i y unfolding s
    by (auto simp: executeCall_def incrementDepth_eq on_world_ret_def Let_def)
  then show ?thesis using False i y by simp
qed

lemma executeCall_cases:
  assumes "executeCall F call kind p s = ((r, err), s')"
  obtains (too_deep) "1024 < rx_depth s" "r = errResult p" "\<not> err" "s' = s"
  | (runs) i w1 t where "rx_depth s \<le> 1024" "CreateSnapshot (fl_context F) (rx_world s) = (i, w1)"
      "restoreUnlessSuccess F i (executeCall_body F call kind p (s\<lparr>rx_depth := rx_depth s + 1,
         rx_static := rx_static s \<or> kind = StaticCall, rx_world := w1\<rparr>)) = ((r, err), t)"
      "s' = t\<lparr>rx_static := (if \<not> rx_static s \<and> kind = StaticCall then False else rx_static t),
         rx_depth := rx_depth t - 1\<rparr>"
  using assms unfolding executeCall_eq by (auto split: if_splits prod.splits)

lemma executeCall_cong:
  assumes "\<And>w. executeCall_body F call' kind p (s\<lparr>rx_depth := rx_depth s + 1,
        rx_static := rx_static s \<or> kind = StaticCall, rx_world := w\<rparr>) =
      executeCall_body F call kind p (s\<lparr>rx_depth := rx_depth s + 1,
        rx_static := rx_static s \<or> kind = StaticCall, rx_world := w\<rparr>)"
  shows "executeCall F call' kind p s = executeCall F call kind p s"
  unfolding executeCall_eq assms ..

lemma executeCreate_eq:
  "executeCreate F call kind p s =
     (if 1024 < rx_depth s then ((errResult p, False), s)
      else (case senderCreateSetUp (fl_context F) p (rx_world s) of
        (Some _, w1) \<Rightarrow> ((errResult p, False), s\<lparr>rx_world := w1\<rparr>)
      | (None, w1) \<Rightarrow>
          (case createAddress (fl_lib F) (fl_context F) kind p (fl_revision F) w1 of
             (Inl _, w2) \<Rightarrow> ((zeroCallResult, False), s\<lparr>rx_world := w2\<rparr>)
           | (Inr a, w2) \<Rightarrow>
               (case CreateSnapshot (fl_context F) w2 of (i, w3) \<Rightarrow>
                  (case restoreUnlessSuccess F i (executeCreate_body F call a kind p
                          (s\<lparr>rx_depth := rx_depth s + 1, rx_world := w3\<rparr>)) of
                     (res, t) \<Rightarrow> (res, t\<lparr>rx_depth := rx_depth t - 1\<rparr>))))))"
proof (cases "1024 < rx_depth s")
  case True
  then show ?thesis
    unfolding executeCreate_def incrementDepth_eq by (simp only: if_True prod.case bool.case)
next
  case False
  obtain e w1 where e: "senderCreateSetUp (fl_context F) p (rx_world s) = (e, w1)" by fastforce
  obtain x w2 where x: "createAddress (fl_lib F) (fl_context F) kind p (fl_revision F) w1 = (x, w2)" by fastforce
  obtain i w3 where i: "CreateSnapshot (fl_context F) w2 = (i, w3)" by fastforce
  show ?thesis
    using False e x i
    by (cases e; cases x) (simp_all add: executeCreate_def incrementDepth_eq on_world_ret_def Let_def case_prod_beta)
qed

lemma executeCreate_cases:
  assumes "executeCreate F call kind p s = ((r, err), s')"
  obtains (too_deep) "1024 < rx_depth s" "r = errResult p" "\<not> err" "s' = s"
  | (no_setup) e w1 where "rx_depth s \<le> 1024" "senderCreateSetUp (fl_context F) p (rx_world s) = (Some e, w1)"
      "r = errResult p" "\<not> err" "s' = s\<lparr>rx_world := w1\<rparr>"
  | (no_address) w1 e w2 where "rx_depth s \<le> 1024" "senderCreateSetUp (fl_context F) p (rx_world s) = (None, w1)"
      "createAddress (fl_lib F) (fl_context F) kind p (fl_revision F) w1 = (Inl e, w2)"
      "r = zeroCallResult" "\<not> err" "s' = s\<lparr>rx_world := w2\<rparr>"
  | (runs) w1 a w2 i w3 t where "rx_depth s \<le> 1024"
      "senderCreateSetUp (fl_context F) p (rx_world s) = (None, w1)"
      "createAddress (fl_lib F) (fl_context F) kind p (fl_revision F) w1 = (Inr a, w2)"
      "CreateSnapshot (fl_context F) w2 = (i, w3)"
      "restoreUnlessSuccess F i (executeCreate_body F call a kind p
         (s\<lparr>rx_depth := rx_depth s + 1, rx_world := w3\<rparr>)) = ((r, err), t)"
      "s' = t\<lparr>rx_depth := rx_depth t - 1\<rparr>"
proof -
  obtain e w1 where e: "senderCreateSetUp (fl_context F) p (rx_world s) = (e, w1)" by fastforce
  obtain x w2 where x: "createAddress (fl_lib F) (fl_context F) kind p (fl_revision F) w1 = (x, w2)" by fastforce
  show thesis
  proof (cases "1024 < rx_depth s")
    case True
    then have "r = errResult p" "\<not> err" "s' = s" using assms unfolding executeCreate_eq by auto
    with True show thesis by (rule too_deep)
  next
    case False
    then have d: "rx_depth s \<le> 1024" by simp
    show thesis
    proof (cases e)
      case (Some y)
      then have "r = errResult p" "\<not> err" "s' = s\<lparr>rx_world := w1\<rparr>"
        using assms e d unfolding executeCreate_eq by auto
      with d e [unfolded Some] show thesis by (rule no_setup)
    next
      case None
      note ok = e [unfolded None]
      show thesis
      proof (cases x)
        case (Inl y)
        then have "r = zeroCallResult" "\<not> err" "s' = s\<lparr>rx_world := w2\<rparr>"
          using assms x d ok unfolding executeCreate_eq by auto
        with d ok x [unfolded Inl] show thesis by (rule no_address)
      next
        case (Inr a)
        obtain i w3 where i: "CreateSnapshot (fl_context F) w2 = (i, w3)" by fastforce
        obtain res t where t: "restoreUnlessSuccess F i (executeCreate_body F call a kind p
            (s\<lparr>rx_depth := rx_depth s + 1, rx_world := w3\<rparr>)) = (res, t)" by fastforce
        then have "res = (r, err)" "s' = t\<lparr>rx_depth := rx_depth t - 1\<rparr>"
          using assms x [unfolded Inr] d ok i unfolding executeCreate_eq by auto
        with runs [OF d ok x [unfolded Inr] i] t show thesis by simp
      qed
    qed
  qed
qed

lemma executeCreate_cong:
  assumes "\<And>a w. executeCreate_body F call' a kind p (s\<lparr>rx_depth := rx_depth s + 1, rx_world := w\<rparr>) =
      executeCreate_body F call a kind p (s\<lparr>rx_depth := rx_depth s + 1, rx_world := w\<rparr>)"
  shows "executeCreate F call' kind p s = executeCreate F call kind p s"
  unfolding executeCreate_eq assms ..

section \<open>Gas\<close>

definition gas_within :: "Gas \<Rightarrow> Gas \<Rightarrow> bool" where
  "gas_within g x \<longleftrightarrow> 0 \<le> x \<and> x \<le> g"

lemma gas_within_zero [simp]: "gas_within g 0 \<longleftrightarrow> 0 \<le> g"
  by (simp add: gas_within_def)

lemma callResult_simps [simp]:
  "cr_GasLeft zeroCallResult = 0" "cr_GasLeft (errResult p) = cp_Gas p"
  "cr_GasLeft (callResultOf x) = res_GasLeft x" "\<not> cr_Success zeroCallResult" "\<not> cr_Success (errResult p)"
  "cr_Success (callResultOf x) = res_Success x"
  by (simp_all add: zeroCallResult_def errResult_def callResultOf_def)

lemma runPrecompiled_gas:
  assumes "runPrecompiledContract G v input a g = (x, e)" and "0 \<le> g"
  shows "gas_within g (cr_GasLeft x)"
  using assms uint_ge_0
  by (auto simp: runPrecompiledContract_def Let_def gas_within_def split: option.splits if_splits)

lemma checkAndDeployCode_gas:
  assumes "checkAndDeployCode C x a v w = (y, w')" and "gas_within g (res_GasLeft x)"
    and "g < 9223372036854775808"
  shows "gas_within g (res_GasLeft y)"
proof (cases "res_Success y")
  case True
  let ?cost = "int (length (res_Output x)) * 200"
  have len: "length (res_Output x) \<le> 24576"
    using assms(1) True by (auto simp: checkAndDeployCode_def Let_def split: if_splits)
  have y: "res_GasLeft y = int64 (res_GasLeft x - int64 ?cost)" and c: "int64 ?cost \<le> res_GasLeft x"
    using assms(1) True by (auto simp: checkAndDeployCode_def Let_def split: if_splits)
  have "int64 ?cost = ?cost" using len by (intro int64_id) auto
  moreover from this have "int64 (res_GasLeft x - ?cost) = res_GasLeft x - ?cost"
    using c assms(2,3) by (intro int64_id) (auto simp: gas_within_def)
  ultimately show ?thesis using y c assms(2) by (simp add: gas_within_def)
next
  case False
  then have "res_GasLeft y = 0"
    using assms(1) by (auto simp: checkAndDeployCode_def Let_def split: if_splits)
  then show ?thesis using assms(2) by (simp add: gas_within_def)
qed

text \<open>
  The parameters of the processor: the interpreter fulfils its contract, code is a Go slice,
  and the built-in contracts return no more gas than they are given.
\<close>

locale floria_ctx = interpreter "fl_interpreter F" for F :: "'w floria" +
  assumes code_slice: "length (GetCode (fl_context F) w a) < 9223372036854775808"
    and built_in_gas: "BuiltInContracts (fl_config F) = Some m \<Longrightarrow> m a = Some c \<Longrightarrow> 0 \<le> g \<Longrightarrow>
      g < 9223372036854775808 \<Longrightarrow> c (fl_context F) sender a input g w = (r, w') \<Longrightarrow>
      gas_within g (cr_GasLeft r)"
begin

lemma params_ok_call: "call_typed p \<Longrightarrow> params_ok (interpreterParameters F kind p s)"
  using code_slice
  by (auto simp: params_ok_def interpreterParameters_def call_typed_def Let_def split: CallKind.splits)

lemma Gas_call [simp]: "Gas (interpreterParameters F kind p s) = cp_Gas p"
  by (simp add: interpreterParameters_def Let_def split: prod.splits)

lemma runInterpreter_returns:
  assumes "rc_ok (runContext_methods (fl_context F) call)" and "call_typed p"
  obtains x s' where "runInterpreter F call kind p s = (x, s')"
    "fl_interpreter F (runContext_methods (fl_context F) call) (interpreterParameters F kind p s) s = Some (Ret (x, s'))"
    "\<And>y. x = Some y \<Longrightarrow> 0 \<le> cp_Gas p \<Longrightarrow> gas_within (cp_Gas p) (res_GasLeft y)"
  using returns [OF assms(1) params_ok_call [OF assms(2), of kind s], of s]
  by (auto simp: runInterpreter_def gas_within_def)

lemma runInterpreter_gas:
  assumes "rc_ok (runContext_methods (fl_context F) call)" and "call_typed p" and "0 \<le> cp_Gas p"
    and "runInterpreter F call kind p s = (Some x, s')"
  shows "gas_within (cp_Gas p) (res_GasLeft x)"
  using runInterpreter_returns [OF assms(1,2), of kind s] assms(3,4) by (metis fst_conv)

lemma executeCall_body_gas:
  assumes ok: "rc_ok (runContext_methods (fl_context F) call)" and p: "call_typed p" and g: "0 \<le> cp_Gas p"
    and b: "executeCall_body F call kind p s = ((r, err), s')"
  shows "gas_within (cp_Gas p) (cr_GasLeft r)"
  using b
proof (cases rule: executeCall_body_cases)
  case no_balance
  then show ?thesis using g by (simp add: gas_within_def)
next
  case (built_in m c w')
  then show ?thesis using built_in_gas g p by (auto simp: call_typed_def)
next
  case (precompiled x e)
  then show ?thesis using runPrecompiled_gas g by auto
next
  case fails
  then show ?thesis using g by simp
next
  case (runs x)
  then show ?thesis using runInterpreter_gas [OF ok p g runs(1)] by simp
qed

lemma executeCreate_body_gas:
  assumes ok: "rc_ok (runContext_methods (fl_context F) call)" and p: "call_typed p" and g: "0 \<le> cp_Gas p"
    and b: "executeCreate_body F call a kind p s = ((r, err), s')"
  shows "gas_within (cp_Gas p) (cr_GasLeft r)"
proof -
  have p': "call_typed (p\<lparr>cp_Recipient := a\<rparr>)" "0 \<le> cp_Gas (p\<lparr>cp_Recipient := a\<rparr>)"
    using p g by (simp_all add: call_typed_def)
  from b show ?thesis
  proof (cases rule: executeCreate_body_cases)
    case fails
    then show ?thesis using g by simp
  next
    case (unsuccessful x)
    then show ?thesis using runInterpreter_gas [OF ok p' unsuccessful(1)] by simp
  next
    case (deploys x t y w')
    then show ?thesis
      using checkAndDeployCode_gas [OF deploys(3)] runInterpreter_gas [OF ok p' deploys(1)] p
      by (simp add: call_typed_def)
  qed
qed

lemma restore_fst [simp]: "fst (restoreUnlessSuccess F i x) = fst x"
  by (simp add: restoreUnlessSuccess_def split: prod.splits)

lemma executeCall_gas:
  assumes ok: "rc_ok (runContext_methods (fl_context F) call)" and p: "call_typed p" and g: "0 \<le> cp_Gas p"
    and "executeCall F call kind p s = ((r, err), s')"
  shows "gas_within (cp_Gas p) (cr_GasLeft r)"
proof -
  have "gas_within (cp_Gas p) (cr_GasLeft (fst (fst (executeCall_body F call kind p t))))" for t
    using executeCall_body_gas [OF ok p g] by (metis surj_pair fst_conv)
  moreover have "gas_within (cp_Gas p) (cp_Gas p)" using g by (simp add: gas_within_def)
  ultimately show ?thesis
    using assms(4) by (auto simp: executeCall_def Let_def case_prod_beta split: if_splits bool.splits dest!: arg_cong [of _ _ fst])
qed

lemma executeCreate_gas:
  assumes ok: "rc_ok (runContext_methods (fl_context F) call)" and p: "call_typed p" and g: "0 \<le> cp_Gas p"
    and x: "executeCreate F call kind p s = ((r, err), s')"
  shows "gas_within (cp_Gas p) (cr_GasLeft r)"
  using x
proof (cases rule: executeCreate_cases)
  case (runs w1 a w2 i w3 t)
  then obtain u where "executeCreate_body F call a kind p (s\<lparr>rx_depth := rx_depth s + 1, rx_world := w3\<rparr>) = ((r, err), u)"
    by (metis prod.collapse restore_fst fst_conv)
  then show ?thesis by (rule executeCreate_body_gas [OF ok p g])
qed (use g in \<open>auto simp: gas_within_def\<close>)

lemma rc_ok_methods:
  assumes "\<And>kind p s r err s'. call_typed p \<Longrightarrow> 0 \<le> cp_Gas p \<Longrightarrow> call kind p s = ((r, err), s') \<Longrightarrow>
    gas_within (cp_Gas p) (cr_GasLeft r)"
  shows "rc_ok (runContext_methods (fl_context F) call)"
  using assms code_slice
  by (auto simp: rc_ok_def runContext_methods_def gas_within_def call_typed_def split: if_splits)

lemma Call_n_gas:
  "call_typed p \<Longrightarrow> 0 \<le> cp_Gas p \<Longrightarrow> Call_n F n kind p s = ((r, err), s') \<Longrightarrow>
   gas_within (cp_Gas p) (cr_GasLeft r)"
proof (induction n arbitrary: kind p s r err s')
  case (Suc n)
  have "rc_ok (runContext_methods (fl_context F) (Call_n F n))" by (rule rc_ok_methods) (rule Suc.IH)
  from executeCall_gas [OF this Suc.prems(1,2)] executeCreate_gas [OF this Suc.prems(1,2)] Suc.prems(3)
  show ?case by (auto split: if_splits)
qed auto

lemma rc_ok_Call_n: "rc_ok (runContext_methods (fl_context F) (Call_n F n))"
  by (rule rc_ok_methods) (rule Call_n_gas)

end


end
