(* ===== verification/Floria_Nesting.thy ===== *)
theory Floria_Nesting
  imports Floria_Calls
begin

text \<open>
  The discipline of nested calls: depth and static flag are the same after a call as before
  it, the recursion counter of the model is never exhausted, and what holds of the world
  state under all its operations holds after a call.
\<close>

section \<open>Properties that the operations of the context keep\<close>

definition keeps_world :: "('w, 'z) TransactionContext_scheme \<Rightarrow> ('w \<Rightarrow> bool) \<Rightarrow> bool" where
  "keeps_world C Q \<longleftrightarrow>
     (\<forall>w. Q w \<longrightarrow>
        (\<forall>a. Q (CreateContract C a w)) \<and> (\<forall>a v. Q (SetBalance C a v w)) \<and> (\<forall>a n. Q (SetNonce C a n w)) \<and>
        (\<forall>a cd. Q (SetCode C a cd w)) \<and> (\<forall>a k v. Q (snd (SetStorage C a k v w))) \<and>
        (\<forall>a b. Q (snd (SelfDestruct C a b w))) \<and> (\<forall>a k v. Q (SetTransientStorage C a k v w)) \<and>
        (\<forall>a. Q (snd (AccessAccount C a w))) \<and> (\<forall>a k. Q (snd (AccessStorage C a k w))) \<and>
        (\<forall>l. Q (EmitLog C l w)))"

named_theorems world_keeps \<open>operations that keep what the context keeps\<close>

lemma keeps_world_ops [world_keeps]:
  assumes "keeps_world C Q" and "Q w"
  shows "Q (CreateContract C a w)" "Q (SetBalance C a v w)" "Q (SetNonce C a n w)" "Q (SetCode C a cd w)"
    "Q (snd (SetStorage C a k v w))" "Q (snd (SelfDestruct C a b w))" "Q (SetTransientStorage C a k v w)"
    "Q (snd (AccessAccount C a w))" "Q (snd (AccessStorage C a k w))" "Q (EmitLog C l w)"
  using assms by (auto simp: keeps_world_def)

lemma keeps_transferValue [world_keeps]:
  assumes C: "keeps_world C Q" and w: "Q w"
  shows "Q (transferValue C v a b w)"
  using w by (simp add: transferValue_def Let_def world_keeps [OF C])

lemma keeps_incrementNonce [world_keeps]:
  assumes C: "keeps_world C Q" and w: "Q w"
  shows "Q (snd (incrementNonce C a w))"
  using w by (simp add: incrementNonce_def Let_def world_keeps [OF C])

lemma keeps_senderCreateSetUp [world_keeps]:
  assumes C: "keeps_world C Q" and w: "Q w"
  shows "Q (snd (senderCreateSetUp C p w))"
  using w by (simp add: senderCreateSetUp_def world_keeps [OF C])

lemma keeps_createAddress [world_keeps]:
  assumes C: "keeps_world C Q" and w: "Q w"
  shows "Q (snd (createAddress G C kind p v w))"
  using w by (simp add: createAddress_def Let_def world_keeps [OF C] split: option.splits)

lemma keeps_checkAndDeployCode [world_keeps]:
  assumes C: "keeps_world C Q" and w: "Q w"
  shows "Q (snd (checkAndDeployCode C x a v w))"
  using w by (simp add: checkAndDeployCode_def Let_def world_keeps [OF C])

lemma keeps_state_ops [world_keeps]:
  assumes "keeps_world C Q" and "Q w"
  shows "Q (snd (executeStateSetBalance C a input g w))" "Q (snd (executeStateContractCopyCode C input g w))"
    "Q (snd (executeStateContractSwapCode C input g w))" "Q (snd (executeStateContractSetStorage C input g w))"
    "Q (snd (executeStateContractIncNonce C a input g w))"
  using assms(2)
  by (simp_all add: executeStateSetBalance_def executeStateContractCopyCode_def executeStateContractSwapCode_def
      executeStateContractSetStorage_def executeStateContractIncNonce_def Let_def world_keeps [OF assms(1)])

lemma keeps_runStateContract [world_keeps]:
  assumes C: "keeps_world C Q" and w: "Q w"
  shows "Q (snd (runStateContract G C sender receiver input g w))"
  using w by (simp add: runStateContract_def Let_def world_keeps [OF C] case_prod_beta)

lemma keeps_floriaContext:
  assumes C: "keeps_world C Q"
  shows "keeps_world (floriaContext C) Q"
  unfolding keeps_world_def [of "floriaContext C"]
  by (simp add: floriaContext_def floria_SelfDestruct_def Let_def world_keeps [OF C])

lemma keeps_True [simp]: "keeps_world C (\<lambda>_. True)"
  by (simp add: keeps_world_def)

section \<open>Levels\<close>

text \<open>The state of the run context within a call.\<close>

definition level :: "int \<Rightarrow> bool \<Rightarrow> ('w \<Rightarrow> bool) \<Rightarrow> 'w runContext \<Rightarrow> bool" where
  "level d b Q s \<longleftrightarrow> rx_depth s = d \<and> rx_static s = b \<and> \<not> rx_stuck s \<and> Q (rx_world s)"

lemma level_on_world: "level d b Q s \<Longrightarrow> Q (f (rx_world s)) \<Longrightarrow> level d b Q (on_world f s)"
  by (simp add: level_def on_world_def)

lemma level_update: "level d b Q s \<Longrightarrow> Q w \<Longrightarrow> level d b Q (s\<lparr>rx_world := w\<rparr>)"
  by (simp add: level_def)

text \<open>A call that keeps the level, and agrees with another one there.\<close>

definition level_call :: "int \<Rightarrow> bool \<Rightarrow> ('w \<Rightarrow> bool) \<Rightarrow> 'w call_fn \<Rightarrow> 'w call_fn \<Rightarrow> bool" where
  "level_call d b Q call call' \<longleftrightarrow>
     (\<forall>kind p s. call_typed p \<longrightarrow> level d b Q s \<longrightarrow>
        call' kind p s = call kind p s \<and> level d b Q (snd (call kind p s)))"

lemma level_ret:
  "(\<And>w. Q w \<Longrightarrow> Q (snd (f w))) \<Longrightarrow>
   rel_fun (eq_onp (level d b Q)) (rel_prod (=) (eq_onp (level d b Q))) (on_world_ret f) (on_world_ret f)"
  by (auto simp: rel_fun_def on_world_ret_def eq_onp_def level_def split: prod.splits; metis snd_conv)

lemma level_upd:
  "(\<And>w. Q w \<Longrightarrow> Q (f w)) \<Longrightarrow>
   rel_fun (eq_onp (level d b Q)) (eq_onp (level d b Q)) (on_world f) (on_world f)"
  by (auto simp: rel_fun_def on_world_def eq_onp_def level_def)

lemma rel_fun_eqI: "(\<And>x. R (f x) (g x)) \<Longrightarrow> rel_fun (=) R f g"
  by (simp add: rel_fun_def)

lemma level_read:
  "rel_fun (eq_onp P) (rel_fun (=) (=)) f f" "rel_fun (eq_onp P) (rel_fun (=) (rel_fun (=) (=))) g g"
  by (auto simp: rel_fun_def eq_onp_def)

lemma methods_rel:
  assumes C: "keeps_world C Q" and call: "level_call d b Q call call'"
  shows "rc_rel (eq_onp (level d b Q)) (runContext_methods C call) (runContext_methods C call')"
proof -
  have calls: "rel_fun (eq_onp (level d b Q)) (rel_prod (=) (eq_onp (level d b Q)))
      (\<lambda>s. if call_typed p then call kind p s else ((zeroCallResult, True), s))
      (\<lambda>s. if call_typed p then call' kind p s else ((zeroCallResult, True), s))" for kind p
  proof (rule rel_funI)
    fix s t :: "'a runContext"
    assume s: "eq_onp (level d b Q) s t"
    with call [unfolded level_call_def, rule_format, of p s kind]
    show "rel_prod (=) (eq_onp (level d b Q)) (if call_typed p then call kind p s else ((zeroCallResult, True), s))
      (if call_typed p then call' kind p t else ((zeroCallResult, True), t))"
      by (cases "call kind p s") (auto simp: eq_onp_def)
  qed
  show ?thesis
    unfolding rc_rel_def runContext_methods_def RunContext.simps TransactionContext.simps
    by (intro conjI rel_fun_eqI)
      (rule level_read calls | rule level_ret level_upd, erule keeps_world_ops [OF C])+
qed

section \<open>Calls keep the level\<close>

definition built_in_keeps :: "'w floria \<Rightarrow> ('w \<Rightarrow> bool) \<Rightarrow> bool" where
  "built_in_keeps F Q \<longleftrightarrow>
     (\<forall>m a c sender input g w. BuiltInContracts (fl_config F) = Some m \<longrightarrow> m a = Some c \<longrightarrow> Q w \<longrightarrow>
        Q (snd (c (fl_context F) sender a input g w)))"

lemma level_after_transfer:
  assumes C: "keeps_world (fl_context F) Q" and s: "level d b Q s"
  shows "level d b Q (after_transfer F kind p s)"
  using s by (simp add: after_transfer_def level_def on_world_def world_keeps [OF C])

lemma level_created:
  assumes C: "keeps_world (fl_context F) Q" and s: "level d b Q s"
  shows "level d b Q (created F a p s)"
  using s by (simp add: created_def level_def on_world_def world_keeps [OF C])

context floria_ctx
begin

lemma runInterpreter_level:
  assumes ok: "rc_ok (runContext_methods (fl_context F) call)" "rc_ok (runContext_methods (fl_context F) call')"
    and C: "keeps_world (fl_context F) Q" and call: "level_call d b Q call call'"
    and p: "call_typed p" and s: "level d b Q s"
  shows "runInterpreter F call' kind p s = runInterpreter F call kind p s"
    and "level d b Q (snd (runInterpreter F call kind p s))"
proof -
  note po = params_ok_call [OF p, of kind s]
  have "level_call d b Q call call" using call by (simp add: level_call_def)
  then have refl: "rc_rel (eq_onp (level d b Q)) (runContext_methods (fl_context F) call)
      (runContext_methods (fl_context F) call)"
    by (rule methods_rel [OF C])
  show "runInterpreter F call' kind p s = runInterpreter F call kind p s"
    unfolding runInterpreter_def same [OF ok methods_rel [OF C call] po s] ..
  obtain x s' where x: "runInterpreter F call kind p s = (x, s')"
    "fl_interpreter F (runContext_methods (fl_context F) call) (interpreterParameters F kind p s) s = Some (Ret (x, s'))"
    by (rule runInterpreter_returns [OF ok(1) p])
  show "level d b Q (snd (runInterpreter F call kind p s))"
    using keeps [OF ok(1) refl po s x(2)] x(1) by simp
qed

lemma executeCall_body_level:
  assumes ok: "rc_ok (runContext_methods (fl_context F) call)" "rc_ok (runContext_methods (fl_context F) call')"
    and C: "keeps_world (fl_context F) Q" and B: "built_in_keeps F Q" and call: "level_call d b Q call call'"
    and p: "call_typed p" and s: "level d b Q s"
  shows "executeCall_body F call' kind p s = executeCall_body F call kind p s"
    and "level d b Q (snd (executeCall_body F call kind p s))"
proof -
  note t = level_after_transfer [OF C s, of kind p]
  note i = runInterpreter_level [OF ok C call p t, of kind]
  show "executeCall_body F call' kind p s = executeCall_body F call kind p s"
    unfolding executeCall_body_eq i(1) ..
  obtain r err s' where b: "executeCall_body F call kind p s = ((r, err), s')" by (metis surj_pair)
  then show "level d b Q (snd (executeCall_body F call kind p s))"
  proof (cases rule: executeCall_body_cases)
    case (built_in m c w')
    then have "Q w'" using B t unfolding built_in_keeps_def level_def by (metis snd_conv)
    then show ?thesis using b built_in t by (simp add: level_def)
  qed (use b s t i(2) in simp_all)
qed

lemma executeCreate_body_level:
  assumes ok: "rc_ok (runContext_methods (fl_context F) call)" "rc_ok (runContext_methods (fl_context F) call')"
    and C: "keeps_world (fl_context F) Q" and call: "level_call d b Q call call'"
    and p: "call_typed p" and s: "level d b Q s"
  shows "executeCreate_body F call' a kind p s = executeCreate_body F call a kind p s"
    and "level d b Q (snd (executeCreate_body F call a kind p s))"
proof -
  have p': "call_typed (p\<lparr>cp_Recipient := a\<rparr>)" using p by (simp add: call_typed_def)
  note t = level_created [OF C s, of a p]
  note i = runInterpreter_level [OF ok C call p' t, of kind]
  show "executeCreate_body F call' a kind p s = executeCreate_body F call a kind p s"
    unfolding executeCreate_body_eq i(1) ..
  obtain r err s' where b: "executeCreate_body F call a kind p s = ((r, err), s')" by (metis surj_pair)
  then show "level d b Q (snd (executeCreate_body F call a kind p s))"
  proof (cases rule: executeCreate_body_cases)
    case (deploys x u y w')
    then have u: "level d b Q u" using i(2) by simp
    then have "Q w'" using keeps_checkAndDeployCode [OF C] deploys(3) unfolding level_def by (metis snd_conv)
    then show ?thesis using b deploys u by (simp add: level_def)
  qed (use b i(2) in simp_all)
qed

end

section \<open>Recursion\<close>

text \<open>
  \<open>S i v w\<close>: in the world state \<open>w\<close>, restoring the snapshot \<open>i\<close> leads back to \<open>v\<close>. A
  property is tracked if all operations keep it, restoring a snapshot included.
\<close>

definition tracked :: "'w floria \<Rightarrow> (int \<Rightarrow> 'w \<Rightarrow> 'w \<Rightarrow> bool) \<Rightarrow> ('w \<Rightarrow> bool) \<Rightarrow> bool" where
  "tracked F S Q \<longleftrightarrow>
     keeps_world (fl_context F) Q \<and> built_in_keeps F Q \<and>
     (\<forall>w. Q w \<longrightarrow> Q (snd (CreateSnapshot (fl_context F) w))) \<and>
     (\<forall>i v w. S i v w \<longrightarrow> Q v \<longrightarrow> Q (RestoreSnapshot (fl_context F) i w))"

definition tracking :: "'w floria \<Rightarrow> (int \<Rightarrow> 'w \<Rightarrow> 'w \<Rightarrow> bool) \<Rightarrow> bool" where
  "tracking F S \<longleftrightarrow>
     (\<forall>i v. tracked F S (S i v)) \<and>
     (\<forall>w. S (fst (CreateSnapshot (fl_context F) w)) w (snd (CreateSnapshot (fl_context F) w)))"

lemma tracked_conj: "tracked F S Q \<Longrightarrow> tracked F S R \<Longrightarrow> tracked F S (\<lambda>w. Q w \<and> R w)"
  by (auto simp: tracked_def keeps_world_def built_in_keeps_def)

lemma tracked_True [simp]: "tracked F S (\<lambda>_. True)"
  by (simp add: tracked_def built_in_keeps_def)

lemma tracking_trivial: "tracking F (\<lambda>_ _ _. True)"
  by (simp add: tracking_def)

lemma snd_restore:
  "snd (restoreUnlessSuccess F i x) =
     (if snd (fst x) \<or> \<not> cr_Success (fst (fst x)) then on_world (RestoreSnapshot (fl_context F) i) (snd x) else snd x)"
  by (simp add: restoreUnlessSuccess_def split: prod.splits)

lemma level_restore:
  assumes "tracked F S Q" and "level d b (\<lambda>w. Q w \<and> S i v w) (snd x)" and "Q v"
  shows "level d b Q (snd (restoreUnlessSuccess F i x))"
  using assms by (auto simp: snd_restore tracked_def level_def on_world_def)

context floria_ctx
begin

lemma executeCall_level:
  assumes ok: "rc_ok (runContext_methods (fl_context F) call)" "rc_ok (runContext_methods (fl_context F) call')"
    and S: "tracking F S" and Q: "tracked F S Q" and p: "call_typed p" and s: "level d b Q s"
    and call: "\<And>b' Q'. d \<le> 1024 \<Longrightarrow> tracked F S Q' \<Longrightarrow> level_call (d + 1) b' Q' call call'"
  shows "executeCall F call' kind p s = executeCall F call kind p s \<and> level d b Q (snd (executeCall F call kind p s))"
proof (cases "d \<le> 1024")
  case False
  then show ?thesis using s by (simp add: executeCall_eq level_def)
next
  case True
  let ?b = "b \<or> kind = StaticCall"
  let ?s = "\<lambda>w. s\<lparr>rx_depth := rx_depth s + 1, rx_static := rx_static s \<or> kind = StaticCall, rx_world := w\<rparr>"
  note body = executeCall_body_level [OF ok _ _ call [OF True] p]
  have eq: "executeCall_body F call' kind p (?s w) = executeCall_body F call kind p (?s w)" for w
    by (rule body(1) [where Q = "\<lambda>_. True" and b = ?b]) (use s in \<open>simp_all add: level_def built_in_keeps_def\<close>)
  obtain i w1 where i: "CreateSnapshot (fl_context F) (rx_world s) = (i, w1)" by fastforce
  let ?Q = "\<lambda>w. Q w \<and> S i (rx_world s) w"
  have Q': "tracked F S ?Q" using S by (intro tracked_conj Q) (simp add: tracking_def)
  have "?Q w1" using S Q s i unfolding tracking_def tracked_def level_def by (metis fst_conv snd_conv)
  then have "level (d + 1) ?b ?Q (?s w1)" using s by (simp add: level_def)
  then have "level (d + 1) ?b ?Q (snd (executeCall_body F call kind p (?s w1)))"
    using Q' by (intro body(2)) (auto simp: tracked_def)
  then have "level (d + 1) ?b Q (snd (restoreUnlessSuccess F i (executeCall_body F call kind p (?s w1))))"
    using s by (intro level_restore [OF Q]) (auto simp: level_def)
  then have "level d b Q (snd (executeCall F call kind p s))"
    using True s i by (auto simp: executeCall_eq level_def split: prod.splits)
  then show ?thesis using executeCall_cong [OF eq] by blast
qed

lemma executeCreate_level:
  assumes ok: "rc_ok (runContext_methods (fl_context F) call)" "rc_ok (runContext_methods (fl_context F) call')"
    and S: "tracking F S" and Q: "tracked F S Q" and p: "call_typed p" and s: "level d b Q s"
    and call: "\<And>b' Q'. d \<le> 1024 \<Longrightarrow> tracked F S Q' \<Longrightarrow> level_call (d + 1) b' Q' call call'"
  shows "executeCreate F call' kind p s = executeCreate F call kind p s \<and> level d b Q (snd (executeCreate F call kind p s))"
proof (cases "d \<le> 1024")
  case False
  then show ?thesis using s by (simp add: executeCreate_eq level_def)
next
  case True
  let ?s = "\<lambda>w. s\<lparr>rx_depth := rx_depth s + 1, rx_world := w\<rparr>"
  note body = executeCreate_body_level [OF ok _ call [OF True] p]
  have C: "keeps_world (fl_context F) Q" using Q by (simp add: tracked_def)
  have q: "Q (rx_world s)" using s by (simp add: level_def)
  have eq: "executeCreate_body F call' a kind p (?s w) = executeCreate_body F call a kind p (?s w)" for a w
    by (rule body(1) [where Q = "\<lambda>_. True" and b = b]) (use s in \<open>simp_all add: level_def\<close>)
  obtain r err s' where x: "executeCreate F call kind p s = ((r, err), s')" by (metis surj_pair)
  then have "level d b Q s'"
  proof (cases rule: executeCreate_cases)
    case (no_setup e w1)
    then have "Q w1" using keeps_senderCreateSetUp [OF C q, of p] by simp
    then show ?thesis using no_setup s by (simp add: level_def)
  next
    case (no_address w1 e w2)
    then have "Q w1" using keeps_senderCreateSetUp [OF C q, of p] by simp
    then have "Q w2" using keeps_createAddress [OF C, of w1] no_address by (metis snd_conv)
    then show ?thesis using no_address s by (simp add: level_def)
  next
    case (runs w1 a w2 i w3 t)
    let ?Q = "\<lambda>w. Q w \<and> S i w2 w"
    have "Q w1" using keeps_senderCreateSetUp [OF C q, of p] runs by simp
    then have q2: "Q w2" using keeps_createAddress [OF C, of w1] runs by (metis snd_conv)
    have Q': "tracked F S ?Q" using S by (intro tracked_conj Q) (simp add: tracking_def)
    have "?Q w3" using S Q q2 runs(4) unfolding tracking_def tracked_def by (metis fst_conv snd_conv)
    then have "level (d + 1) b ?Q (?s w3)" using s by (simp add: level_def)
    then have "level (d + 1) b ?Q (snd (executeCreate_body F call a kind p (?s w3)))"
      using Q' by (intro body(2)) (auto simp: tracked_def)
    from level_restore [OF Q this q2] runs(5,6) show ?thesis by (auto simp: level_def)
  qed (use s in simp)
  then show ?thesis using executeCreate_cong [OF eq] x by simp
qed

text \<open>
  Within the depth limit the recursion counter is large enough: the result does not depend on
  it, depth and static flag are restored, and nothing gets stuck.
\<close>

lemma Call_n_level:
  assumes S: "tracking F S"
  shows "d \<le> 1025 \<Longrightarrow> nat (1026 - d) \<le> n \<Longrightarrow> n \<le> m \<Longrightarrow> tracked F S Q \<Longrightarrow>
    level_call d b Q (Call_n F n) (Call_n F m)"
proof (induction n arbitrary: m d b Q)
  case (Suc n)
  then obtain m' where m: "m = Suc m'" "n \<le> m'" by (cases m) auto
  have IH: "level_call (d + 1) b' Q' (Call_n F n) (Call_n F m')" if "d \<le> 1024" "tracked F S Q'" for b' Q'
    using Suc.IH [of "d + 1" m'] Suc.prems m that by simp
  show ?case
    unfolding level_call_def m(1)
    using executeCreate_level [OF rc_ok_Call_n [of n] rc_ok_Call_n [of m'] S Suc.prems(4) _ _ IH]
      executeCall_level [OF rc_ok_Call_n [of n] rc_ok_Call_n [of m'] S Suc.prems(4) _ _ IH]
    by simp
qed simp

lemma runContext_Call_level:
  assumes "tracking F S" and "tracked F S Q" and "0 \<le> d" and "d \<le> 1025" and "call_typed p" and "level d b Q s"
  shows "level d b Q (snd (runContext_Call F kind p s))"
  using Call_n_level [OF assms(1,4) _ _ assms(2), of max_nesting max_nesting b] assms
  unfolding runContext_Call_def level_call_def by simp

lemma runContext_Call_fuel:
  assumes "0 \<le> rx_depth s" and "rx_depth s \<le> 1025" and "\<not> rx_stuck s" and "call_typed p" and "max_nesting \<le> n"
  shows "Call_n F n kind p s = runContext_Call F kind p s"
  using Call_n_level [OF tracking_trivial assms(2) _ assms(5) tracked_True, of "rx_static s"] assms
  unfolding runContext_Call_def level_call_def level_def by simp

text \<open>Nested calls seen from the interpreter.\<close>

lemma runContext_Call_unfold:
  assumes "0 \<le> rx_depth s" and "rx_depth s \<le> 1025" and "\<not> rx_stuck s" and "call_typed p"
  shows "runContext_Call F kind p s =
    (if kind = Create \<or> kind = Create2 then executeCreate F (runContext_Call F) kind p s
     else executeCall F (runContext_Call F) kind p s)"
proof -
  have "Call_n F (Suc max_nesting) kind p s = Call_n F max_nesting kind p s"
    using runContext_Call_fuel [OF assms, of "Suc max_nesting"] by (simp only: runContext_Call_def)
  then show ?thesis unfolding runContext_Call_def by (simp only: Call_n.simps)
qed

end

end
