(* ===== verification/Floria_Revert.thy ===== *)
theory Floria_Revert
  imports Floria_Nesting
begin

text \<open>
  Snapshots: the contract of the transaction context and what the processor makes of it. A
  call that fails leaves everything as it was; a creation that fails leaves the effects made
  before its snapshot.
\<close>

section \<open>The contract of snapshots\<close>

text \<open>
  \<open>saved i v w\<close>: in \<open>w\<close> the snapshot \<open>i\<close> is valid and was taken in \<open>v\<close>. Modifications and
  further snapshots keep the valid snapshots, restoring one gives its world state back.
\<close>

locale journal =
  fixes C :: "'w TransactionContext" and saved :: "int \<Rightarrow> 'w \<Rightarrow> 'w \<Rightarrow> bool"
  assumes keeps_saved: "keeps_world C (saved i v)"
    and snapshot_saved: "CreateSnapshot C w = (i, w') \<Longrightarrow> saved i w w'"
    and snapshot_keeps: "CreateSnapshot C w = (j, w') \<Longrightarrow> saved i v w \<Longrightarrow> saved i v w'"
    and restore: "saved i v w \<Longrightarrow> RestoreSnapshot C i w = v"

text \<open>The wrapper of the processor keeps the contract.\<close>

context journal
begin

lemma floriaContext_journal: "journal (floriaContext C) saved"
proof
  fix i v show "keeps_world (floriaContext C) (saved i v)" by (rule keeps_floriaContext [OF keeps_saved])
qed (use snapshot_saved snapshot_keeps restore in \<open>auto simp: floriaContext_def\<close>)

lemma tracking:
  assumes "fl_context F = C" and "\<And>i v. built_in_keeps F (saved i v)"
  shows "tracking F saved"
  unfolding tracking_def tracked_def assms(1)
  using keeps_saved assms(2) snapshot_saved snapshot_keeps restore by (metis prod.collapse)

end

section \<open>Contexts with copied snapshots\<close>

text \<open>
  Any context can be given snapshots by copying the world state: the snapshots are a stack,
  and an identifier is a position in it.
\<close>

record 'w snapshots =
  sn_world :: 'w
  sn_stack :: "'w list"

definition sn_upd :: "('w \<Rightarrow> 'w) \<Rightarrow> 'w snapshots \<Rightarrow> 'w snapshots" where
  "sn_upd f s = s\<lparr>sn_world := f (sn_world s)\<rparr>"

definition sn_ret :: "('w \<Rightarrow> 'a \<times> 'w) \<Rightarrow> 'w snapshots \<Rightarrow> 'a \<times> 'w snapshots" where
  "sn_ret f s = (fst (f (sn_world s)), s\<lparr>sn_world := snd (f (sn_world s))\<rparr>)"

definition with_snapshots :: "'w TransactionContext \<Rightarrow> 'w snapshots TransactionContext" where
  "with_snapshots C =
     \<lparr>AccountExists = (\<lambda>s. AccountExists C (sn_world s)),
      CreateContract = (\<lambda>a. sn_upd (CreateContract C a)),
      IsNewContract = (\<lambda>s. IsNewContract C (sn_world s)),
      GetBalance = (\<lambda>s. GetBalance C (sn_world s)),
      SetBalance = (\<lambda>a v. sn_upd (SetBalance C a v)),
      GetNonce = (\<lambda>s. GetNonce C (sn_world s)),
      SetNonce = (\<lambda>a n. sn_upd (SetNonce C a n)),
      GetCode = (\<lambda>s. GetCode C (sn_world s)),
      GetCodeHash = (\<lambda>s. GetCodeHash C (sn_world s)),
      GetCodeSize = (\<lambda>s. GetCodeSize C (sn_world s)),
      SetCode = (\<lambda>a cd. sn_upd (SetCode C a cd)),
      HasEmptyStorage = (\<lambda>s. HasEmptyStorage C (sn_world s)),
      GetStorage = (\<lambda>s. GetStorage C (sn_world s)),
      SetStorage = (\<lambda>a k v. sn_ret (SetStorage C a k v)),
      SelfDestruct = (\<lambda>a b. sn_ret (SelfDestruct C a b)),
      CreateSnapshot = (\<lambda>s. (int (length (sn_stack s)), s\<lparr>sn_stack := sn_stack s @ [sn_world s]\<rparr>)),
      RestoreSnapshot = (\<lambda>i s. s\<lparr>sn_world := sn_stack s ! nat i, sn_stack := take (nat i) (sn_stack s)\<rparr>),
      GetTransientStorage = (\<lambda>s. GetTransientStorage C (sn_world s)),
      SetTransientStorage = (\<lambda>a k v. sn_upd (SetTransientStorage C a k v)),
      AccessAccount = (\<lambda>a. sn_ret (AccessAccount C a)),
      AccessStorage = (\<lambda>a k. sn_ret (AccessStorage C a k)),
      EmitLog = (\<lambda>l. sn_upd (EmitLog C l)),
      GetLogs = (\<lambda>s. GetLogs C (sn_world s)),
      GetBlockHash = (\<lambda>s. GetBlockHash C (sn_world s))\<rparr>"

definition sn_saved :: "int \<Rightarrow> 'w snapshots \<Rightarrow> 'w snapshots \<Rightarrow> bool" where
  "sn_saved i v s \<longleftrightarrow> 0 \<le> i \<and> nat i < length (sn_stack s) \<and>
     v = \<lparr>sn_world = sn_stack s ! nat i, sn_stack = take (nat i) (sn_stack s)\<rparr>"

interpretation copied: journal "with_snapshots C" sn_saved for C :: "'w TransactionContext"
  by unfold_locales
    (auto simp: keeps_world_def with_snapshots_def sn_saved_def sn_upd_def sn_ret_def nth_append)

section \<open>Failed calls\<close>

context floria_ctx
begin

lemma runContext_Call_level_call:
  assumes "tracking F S" and "tracked F S Q" and "0 \<le> d" and "d \<le> 1025"
  shows "level_call d b Q (runContext_Call F) (runContext_Call F)"
  unfolding runContext_Call_def using assms by (intro Call_n_level) auto

lemma rc_ok_runContext_Call: "rc_ok (runContext_methods (fl_context F) (runContext_Call F))"
  unfolding runContext_Call_def by (rule rc_ok_Call_n)

lemma executeCall_fails:
  assumes S: "tracking F S" and p: "call_typed p" and s: "0 \<le> rx_depth s" "\<not> rx_stuck s"
    and x: "executeCall F (runContext_Call F) kind p s = ((r, err), s')" and f: "err \<or> \<not> cr_Success r"
  shows "s' = s \<or> (\<exists>i w. S i (rx_world s) w \<and> s' = s\<lparr>rx_world := RestoreSnapshot (fl_context F) i w\<rparr>)"
  using x
proof (cases rule: executeCall_cases)
  case (runs i w1 t)
  let ?b = "rx_static s \<or> kind = StaticCall"
  let ?s = "s\<lparr>rx_depth := rx_depth s + 1, rx_static := ?b, rx_world := w1\<rparr>"
  have Q: "tracked F S (S i (rx_world s))" using S by (simp add: tracking_def)
  have "S i (rx_world s) w1" using S runs(2) unfolding tracking_def by (metis fst_conv snd_conv)
  then have "level (rx_depth s + 1) ?b (S i (rx_world s)) ?s" using s by (simp add: level_def)
  then have l: "level (rx_depth s + 1) ?b (S i (rx_world s)) (snd (executeCall_body F (runContext_Call F) kind p ?s))"
    using Q S s runs(1) p
    by (intro executeCall_body_level(2) [OF rc_ok_runContext_Call rc_ok_runContext_Call]
        runContext_Call_level_call [OF S]) (auto simp: tracked_def)
  have "t = on_world (RestoreSnapshot (fl_context F) i) (snd (executeCall_body F (runContext_Call F) kind p ?s))"
    using arg_cong [OF runs(3), of snd] arg_cong [OF runs(3), of fst] f by (auto simp: snd_restore)
  then have "s' = s\<lparr>rx_world := RestoreSnapshot (fl_context F) i
      (rx_world (snd (executeCall_body F (runContext_Call F) kind p ?s)))\<rparr>"
    using l runs(4) s by (intro runContext.equality) (auto simp: level_def on_world_def)
  then show ?thesis using l by (auto simp: level_def)
qed simp

lemma executeCreate_fails:
  assumes S: "tracking F S" and p: "call_typed p" and s: "0 \<le> rx_depth s" "\<not> rx_stuck s"
    and x: "executeCreate F (runContext_Call F) kind p s = ((r, err), s')" and f: "err \<or> \<not> cr_Success r"
  shows "s' = s \<or> (\<exists>w1 e. senderCreateSetUp (fl_context F) p (rx_world s) = (e, w1) \<and>
    (s' = s\<lparr>rx_world := w1\<rparr> \<or>
     (\<exists>a w2. createAddress (fl_lib F) (fl_context F) kind p (fl_revision F) w1 = (a, w2) \<and>
       (s' = s\<lparr>rx_world := w2\<rparr> \<or>
        (\<exists>i w. S i w2 w \<and> s' = s\<lparr>rx_world := RestoreSnapshot (fl_context F) i w\<rparr>)))))"
  using x
proof (cases rule: executeCreate_cases)
  case (runs w1 a w2 i w3 t)
  let ?s = "s\<lparr>rx_depth := rx_depth s + 1, rx_world := w3\<rparr>"
  have Q: "tracked F S (S i w2)" using S by (simp add: tracking_def)
  have "S i w2 w3" using S runs(4) unfolding tracking_def by (metis fst_conv snd_conv)
  then have "level (rx_depth s + 1) (rx_static s) (S i w2) ?s" using s by (simp add: level_def)
  then have l: "level (rx_depth s + 1) (rx_static s) (S i w2) (snd (executeCreate_body F (runContext_Call F) a kind p ?s))"
    using Q S s runs(1) p
    by (intro executeCreate_body_level(2) [OF rc_ok_runContext_Call rc_ok_runContext_Call]
        runContext_Call_level_call [OF S]) (auto simp: tracked_def)
  have "t = on_world (RestoreSnapshot (fl_context F) i) (snd (executeCreate_body F (runContext_Call F) a kind p ?s))"
    using arg_cong [OF runs(5), of snd] arg_cong [OF runs(5), of fst] f by (auto simp: snd_restore)
  then have "s' = s\<lparr>rx_world := RestoreSnapshot (fl_context F) i
      (rx_world (snd (executeCreate_body F (runContext_Call F) a kind p ?s)))\<rparr>"
    using l runs(6) s by (intro runContext.equality) (auto simp: level_def on_world_def)
  then show ?thesis using l runs(2,3) by (auto simp: level_def)
qed auto

end

lemma failed_call_same:
  assumes "floria_ctx F" and "journal (fl_context F) saved" and "\<And>i v. built_in_keeps F (saved i v)"
    and "call_typed p" and "0 \<le> rx_depth s" and "rx_depth s \<le> 1025" and "\<not> rx_stuck s"
    and "kind \<noteq> Create" and "kind \<noteq> Create2"
    and "runContext_Call F kind p s = ((r, err), s')" and "err \<or> \<not> cr_Success r"
  shows "s' = s"
proof -
  have x: "executeCall F (runContext_Call F) kind p s = ((r, err), s')"
    using floria_ctx.runContext_Call_unfold [OF assms(1,5,6,7,4), of kind] assms(8-10) by simp
  have S: "tracking F saved" using assms(3) by (rule journal.tracking [OF assms(2) refl])
  from floria_ctx.executeCall_fails [OF assms(1) S assms(4,5,7) x assms(11)]
  show ?thesis using journal.restore [OF assms(2)] by auto
qed

end
