(* ===== verification/Floria_Instance.thy ===== *)
theory Floria_Instance
  imports Floria_Revert
begin

text \<open>
  The processor of \<open>newFloriaProcessor\<close> with the long-form interpreter fulfils the
  assumptions made so far: the state contract returns no more gas than it is given, so the
  run context of the processor is one in which the interpreters are safe.
\<close>

section \<open>Gas of the state contract\<close>

lemma codeCost:
  assumes "n \<le> (18014398509481984 :: nat)"
  shows "int64 (int n * 203) = int n * 203"
  using assms by (intro int64_id) auto

lemma gas_within_minus: "gas_within g x \<Longrightarrow> 0 \<le> c \<Longrightarrow> c \<le> x \<Longrightarrow> gas_within g (x - c)"
  by (simp add: gas_within_def)

lemma gas_within_int64:
  assumes "gas_within g x" and "g < 9223372036854775808" and "0 \<le> c" and "c \<le> x"
  shows "gas_within g (int64 (x - c))"
proof -
  have "int64 (x - c) = x - c" using assms by (intro int64_id) (auto simp: gas_within_def)
  then show ?thesis using assms by (simp add: gas_within_minus)
qed

lemma executeStateContractCopyCode_gas:
  assumes "0 \<le> g" and "g < 9223372036854775808" and "\<And>a. length (GetCode C w a) \<le> 18014398509481984"
  shows "gas_within g (fst (fst (executeStateContractCopyCode C input g w)))"
  using assms(1,2)
  by (simp add: executeStateContractCopyCode_def Let_def codeCost [OF assms(3)])
    (auto intro!: gas_within_int64 simp: gas_within_def)

lemma executeStateContractSwapCode_gas:
  assumes g: "0 \<le> g" "g < 9223372036854775808" and len: "\<And>a. length (GetCode C w a) \<le> 18014398509481984"
  shows "gas_within g (fst (fst (executeStateContractSwapCode C input g w)))"
proof -
  have sum: "int64 (int (length (GetCode C w a)) * 203 + int (length (GetCode C w b)) * 203) =
      int (length (GetCode C w a)) * 203 + int (length (GetCode C w b)) * 203" for a b
    using len [of a] len [of b] by (intro int64_id) auto
  have "gas_within g (int64 (g - 64000 - c div 2))" if "0 \<le> c" "\<not> g - 64000 < c div 2" "\<not> g < 64000" for c
    using that g by (intro gas_within_int64) (auto simp: gas_within_def)
  then show ?thesis
    using g by (simp add: executeStateContractSwapCode_def Let_def codeCost [OF len] sum)
qed

lemma runStateContract_gas:
  assumes g: "0 \<le> g" "g < 9223372036854775808" and len: "\<And>a. length (GetCode C w a) \<le> 18014398509481984"
  shows "gas_within g (cr_GasLeft (fst (runStateContract G C sender receiver input g w)))"
proof -
  have "gas_within g (fst (fst (executeStateSetBalance C a i g w)))"
    "gas_within g (fst (fst (executeStateContractSetStorage C i g w)))"
    "gas_within g (fst (fst (executeStateContractIncNonce C a i g w)))" for a i
    using g by (auto simp: executeStateSetBalance_def executeStateContractSetStorage_def
        executeStateContractIncNonce_def Let_def gas_within_def)
  then show ?thesis
    using g executeStateContractCopyCode_gas [OF g len] executeStateContractSwapCode_gas [OF g len]
    by (simp add: runStateContract_def Let_def case_prod_beta)
qed

section \<open>The processor with the long-form interpreter\<close>

text \<open>
  A context whose codes fit the address space of the machine, by cutting them off there: on
  such a context it is the identity.
\<close>

definition sliced :: "'w TransactionContext \<Rightarrow> 'w TransactionContext" where
  "sliced C = C\<lparr>GetCode := (\<lambda>w a. take 18014398509481984 (GetCode C w a))\<rparr>"

lemma sliced_id: "(\<And>w a. length (GetCode C w a) \<le> 18014398509481984) \<Longrightarrow> sliced C = C"
  by (simp add: sliced_def)

lemma length_sliced: "length (GetCode (floriaContext (sliced C)) w a) \<le> 18014398509481984"
  by (simp add: floriaContext_def sliced_def)

text \<open>The immutable part of the run context of a transaction.\<close>

abbreviation lfvm_floria where
  "lfvm_floria G K H sha L b t C price \<equiv>
     tx_floria (newFloriaProcessor G (lfvm_interp K H sha L)) b t (sliced C) price"

interpretation floria: floria_ctx "lfvm_floria G K H sha L b t C price"
  for G K H sha and L :: "(Hash, Instruction list, 'c) lru" and b t and C :: "'w TransactionContext" and price
proof -
  have i: "fl_interpreter (lfvm_floria G K H sha L b t C price) = lfvm_interp K H sha L"
    by (simp add: tx_floria_def newFloriaProcessor_def)
  have c: "fl_context (lfvm_floria G K H sha L b t C price) = floriaContext (sliced C)"
    by (simp add: tx_floria_def)
  show "floria_ctx (lfvm_floria G K H sha L b t C price)"
    unfolding floria_ctx_def floria_ctx_axioms_def i c
  proof (intro conjI allI impI)
    show "interpreter (lfvm_interp K H sha L)" ..
    show "length (GetCode (floriaContext (sliced C)) w a) < 9223372036854775808" for w a
      using length_sliced [where C = C and w = w and a = a] by linarith
  next
    fix m a c g sender input w r w'
    assume "BuiltInContracts (fl_config (lfvm_floria G K H sha L b t C price)) = Some m" "m a = Some c" "0 \<le> g"
      "g < 9223372036854775808" "c (floriaContext (sliced C)) sender a input g w = (r, w')"
    moreover from this have "c = runStateContract G"
      by (auto simp: tx_floria_def newFloriaProcessor_def split: if_splits)
    ultimately show "gas_within g (cr_GasLeft r)"
      using runStateContract_gas [where C = "floriaContext (sliced C)", OF _ _ length_sliced] by (metis fst_conv)
  qed
qed

text \<open>The run context that Floria offers is one that the interpreters can rely on.\<close>

interpretation nested: run_ctx
  "\<lparr>rc = runContext_methods (floriaContext (sliced C)) (runContext_Call (lfvm_floria G K H sha L b t C price)),
    u256lib = word_uint256, Keccak256 = K, sha3Cache_hash = H\<rparr>"
  for G K H sha and L :: "(Hash, Instruction list, 'c) lru" and b t and C :: "'w TransactionContext" and price
proof -
  have "fl_context (lfvm_floria G K H sha L b t C price) = floriaContext (sliced C)"
    by (simp add: tx_floria_def)
  then show "run_ctx \<lparr>rc = runContext_methods (floriaContext (sliced C))
      (runContext_Call (lfvm_floria G K H sha L b t C price)),
      u256lib = word_uint256, Keccak256 = K, sha3Cache_hash = H\<rparr>"
    using floria.rc_ok_runContext_Call [of G K H sha L b t C price] by (simp add: run_ctx_iff)
qed

end
