(* ===== verification/Floria_Properties.thy ===== *)
theory Floria_Properties
  imports Floria_Instance
begin

text \<open>
  The properties of nested calls of the Floria processor, with the processor of
  \<open>newFloriaProcessor\<close> and the long-form interpreter as the example they are applied to.
\<close>

section \<open>Examples\<close>

text \<open>A world state with balances and nonces, and snapshots by copying.\<close>

record accounts =
  ac_balance :: "Address \<Rightarrow> Value"
  ac_nonce :: "Address \<Rightarrow> u64"

definition accounts_context :: "accounts TransactionContext" where
  "accounts_context =
     \<lparr>AccountExists = (\<lambda>w a. ac_balance w a \<noteq> 0 \<or> ac_nonce w a \<noteq> 0), CreateContract = (\<lambda>_ w. w),
      IsNewContract = (\<lambda>_ _. False), GetBalance = ac_balance,
      SetBalance = (\<lambda>a v w. w\<lparr>ac_balance := (ac_balance w)(a := v)\<rparr>), GetNonce = ac_nonce,
      SetNonce = (\<lambda>a n w. w\<lparr>ac_nonce := (ac_nonce w)(a := n)\<rparr>), GetCode = (\<lambda>_ _. []),
      GetCodeHash = (\<lambda>_ _. 0), GetCodeSize = (\<lambda>_ _. 0), SetCode = (\<lambda>_ _ w. w), HasEmptyStorage = (\<lambda>_ _. True),
      GetStorage = (\<lambda>_ _ _. 0), SetStorage = (\<lambda>_ _ _ w. (StorageAssigned, w)),
      SelfDestruct = (\<lambda>_ _ w. (False, w)), CreateSnapshot = (\<lambda>w. (0, w)), RestoreSnapshot = (\<lambda>_ w. w),
      GetTransientStorage = (\<lambda>_ _ _. 0), SetTransientStorage = (\<lambda>_ _ _ w. w),
      AccessAccount = (\<lambda>_ w. (WarmAccess, w)), AccessStorage = (\<lambda>_ _ w. (WarmAccess, w)),
      EmitLog = (\<lambda>_ w. w), GetLogs = (\<lambda>_. []), GetBlockHash = (\<lambda>_ _. 0)\<rparr>"

definition demo_context :: "accounts snapshots TransactionContext" where
  "demo_context = with_snapshots accounts_context"

definition demo_world :: "accounts snapshots" where
  "demo_world = \<lparr>sn_world = \<lparr>ac_balance = (\<lambda>a. if a = 1 then 1000000 else 0), ac_nonce = (\<lambda>_. 0)\<rparr>, sn_stack = []\<rparr>"

definition demo_lib :: geth_lib where
  "demo_lib =
     \<lparr>crypto_Keccak256 = (\<lambda>_. 0), crypto_CreateAddress = (\<lambda>a n. a + ucast n + 100),
      crypto_CreateAddress2 = (\<lambda>a _ _. a + 200), PrecompiledContractsIstanbul = [],
      PrecompiledContractsBerlin = [],
      PrecompiledContractsCancun = [(4, \<lparr>RequiredGas = (\<lambda>_. 15), pre_Run = Some\<rparr>)],
      setBalanceMethodID = [0, 0, 0, 1], copyCodeMethodID = [0, 0, 0, 2], swapCodeMethodID = [0, 0, 0, 3],
      setStorageMethodID = [0, 0, 0, 4], incNonceMethodID = [0, 0, 0, 5], lib_uint256 = word_uint256,
      uint256_FromBig = (\<lambda>x. (word_of_int x, 2 ^ 256 \<le> x))\<rparr>"

definition no_lru :: "('k, 'v, unit) lru" where
  "no_lru = \<lparr>lru_Get = (\<lambda>_ s. (None, s)), lru_Add = (\<lambda>_ _ s. s)\<rparr>"

definition demo_processor :: "'w Processor" where
  "demo_processor = newFloriaProcessor demo_lib (lfvm_interp (\<lambda>_. 0) (\<lambda>_. 0) False no_lru)"

definition demo_block :: BlockParameters where
  "demo_block = BlockParams (demo_params [])"

definition demo_tx :: Transaction where
  "demo_tx = \<lparr>tx_Sender = 1, tx_Recipient = Some 2, tx_Nonce = 0, tx_Input = [], tx_Value = 0, tx_GasLimit = 50000,
     tx_GasFeeCap = 3, tx_GasTipCap = 2, tx_BlobGasFeeCap = 0, tx_BlobHashes = None, tx_AccessList = None\<rparr>"

definition demo_floria :: "accounts snapshots floria" where
  "demo_floria = tx_floria demo_processor demo_block demo_tx demo_context 2"

definition demo_call :: "Value \<Rightarrow> CallParameters" where
  "demo_call v = \<lparr>cp_Sender = 1, cp_Recipient = 2, cp_Value = v, cp_Input = [], cp_Gas = 100, cp_Salt = 0,
     cp_CodeAddress = 2\<rparr>"

definition demo_state :: "int \<Rightarrow> accounts snapshots runContext" where
  "demo_state d = \<lparr>rx_world = demo_world, rx_depth = d, rx_static = False, rx_stuck = False\<rparr>"

lemma demo_sliced: "sliced demo_context = demo_context"
  by (rule sliced_id) (simp add: demo_context_def with_snapshots_def accounts_context_def)

lemma demo_floria_ctx: "floria_ctx demo_floria"
  using floria.floria_ctx_axioms [of demo_lib "\<lambda>_. 0" "\<lambda>_. 0" False no_lru demo_block demo_tx demo_context 2]
  by (simp add: demo_floria_def demo_processor_def demo_sliced)

lemma demo_fl_context: "fl_context demo_floria = floriaContext demo_context"
  by (simp add: demo_floria_def tx_floria_def)

lemma demo_journal: "journal (fl_context demo_floria) sn_saved"
  unfolding demo_fl_context demo_context_def by (rule copied.floriaContext_journal)

lemma newFloriaProcessor_keeps:
  assumes "keeps_world C Q"
  shows "built_in_keeps (tx_floria (newFloriaProcessor G interp) b t C price) Q"
  using keeps_runStateContract [OF keeps_floriaContext [OF assms]]
  by (auto simp: built_in_keeps_def tx_floria_def newFloriaProcessor_def split: if_splits)

lemma demo_built_in_keeps: "built_in_keeps demo_floria (sn_saved i v)"
  unfolding demo_floria_def demo_processor_def demo_context_def
  by (rule newFloriaProcessor_keeps [OF copied.keeps_saved])

lemma demo_simps [simp]:
  "rx_depth (demo_state d) = d" "rx_static (demo_state d) = False" "rx_stuck (demo_state d) = False"
  "rx_world (demo_state d) = demo_world" "cp_Gas (demo_call v) = 100" "call_typed (demo_call v)"
  by (simp_all add: demo_state_def demo_call_def call_typed_def)

lemma runContext_Call_eq:
  "runContext_Call F kind p s =
     (if kind = Create \<or> kind = Create2 then executeCreate F (Call_n F 1025) kind p s
      else executeCall F (Call_n F 1025) kind p s)"
proof -
  have "(1026 :: nat) = Suc 1025" by simp
  then show ?thesis unfolding runContext_Call_def by (simp only: Call_n.simps)
qed

section \<open>Properties of nested calls\<close>

text \<open>
  C9: a call or a creation returns an amount of gas between zero and the amount it was given,
  whatever the code it runs does.
\<close>

theorem nested_call_gas:
  assumes "floria_ctx F" and "call_typed p" and "0 \<le> cp_Gas p"
  shows "0 \<le> cr_GasLeft (fst (fst (runContext_Call F kind p s))) \<and>
    cr_GasLeft (fst (fst (runContext_Call F kind p s))) \<le> cp_Gas p"
  using floria_ctx.Call_n_gas [OF assms, of max_nesting kind s]
  unfolding runContext_Call_def gas_within_def by (metis prod.collapse)

theorem nested_call_gas_witness:
  "0 \<le> cr_GasLeft (fst (fst (runContext_Call demo_floria Call (demo_call 5) (demo_state 0)))) \<and>
   cr_GasLeft (fst (fst (runContext_Call demo_floria Call (demo_call 5) (demo_state 0)))) \<le> 100"
  using nested_call_gas [OF demo_floria_ctx, of "demo_call 5" Call "demo_state 0"] by simp

text \<open>
  C8: nesting is disciplined: after a call or a creation the call depth and the static flag
  are what they were before, and no part of it failed to return.
\<close>

theorem nested_call_discipline:
  assumes "floria_ctx F" and "call_typed p" and "0 \<le> rx_depth s" and "rx_depth s \<le> 1025" and "\<not> rx_stuck s"
    and "runContext_Call F kind p s = ((r, err), s')"
  shows "rx_depth s' = rx_depth s \<and> rx_static s' = rx_static s \<and> \<not> rx_stuck s'"
  using floria_ctx.runContext_Call_level [OF assms(1) tracking_trivial tracked_True assms(3,4,2),
      where b = "rx_static s" and kind = kind and s = s] assms(5,6)
  by (simp add: level_def)

theorem nested_call_discipline_witness:
  "\<exists>r err s'. runContext_Call demo_floria StaticCall (demo_call 0) (demo_state 3) = ((r, err), s') \<and>
    rx_depth s' = 3 \<and> \<not> rx_static s' \<and> \<not> rx_stuck s'"
proof -
  obtain r err s' where r: "runContext_Call demo_floria StaticCall (demo_call 0) (demo_state 3) = ((r, err), s')"
    by (metis surj_pair)
  from nested_call_discipline [OF demo_floria_ctx _ _ _ _ r] r show ?thesis by simp
qed

text \<open>
  C10: the mutual recursion of \<open>Call\<close> and the interpreter ends: at every depth that can occur,
  \<open>Call\<close> of the model is \<open>executeCreate\<close> or \<open>executeCall\<close> with \<open>Call\<close> itself as the
  nested call, so the recursion counter is never exhausted.
\<close>

theorem nested_call_recursion:
  assumes "floria_ctx F" and "call_typed p" and "0 \<le> rx_depth s" and "rx_depth s \<le> 1025" and "\<not> rx_stuck s"
  shows "runContext_Call F kind p s =
    (if kind = Create \<or> kind = Create2 then executeCreate F (runContext_Call F) kind p s
     else executeCall F (runContext_Call F) kind p s)"
  by (rule floria_ctx.runContext_Call_unfold [OF assms(1,3,4,5,2)])

theorem nested_call_recursion_witness:
  "runContext_Call demo_floria Call (demo_call 0) (demo_state 0) =
     executeCall demo_floria (runContext_Call demo_floria) Call (demo_call 0) (demo_state 0)"
  using nested_call_recursion [OF demo_floria_ctx, of "demo_call 0" "demo_state 0" Call] by simp

text \<open>A call, up to the maximal depth, to the address of a precompiled contract.\<close>

lemma executeCall_precompiled:
  assumes "rx_depth s \<le> 1024" and "CreateSnapshot (fl_context F) (rx_world s) = (i, w1)"
    and c: "getPrecompiledContract (fl_lib F) (cp_CodeAddress p) (fl_revision F) = Some c"
    and b: "\<And>m. BuiltInContracts (fl_config F) = Some m \<Longrightarrow> m (cp_CodeAddress p) = None"
  shows "executeCall F call kind p s =
    (if (kind = Call \<or> kind = CallCode) \<and>
        \<not> canTransferValue (fl_context F) (cp_Value p) (cp_Sender p) (Some (cp_Recipient p)) w1
     then ((errResult p, False), s\<lparr>rx_world := RestoreSnapshot (fl_context F) i w1\<rparr>)
     else (let w2 = (if kind = Call \<or> kind = CallCode
              then transferValue (fl_context F) (cp_Value p) (cp_Sender p) (cp_Recipient p) w1 else w1);
            x = fst (runPrecompiledContract (fl_lib F) (fl_revision F) (cp_Input p) (cp_CodeAddress p) (cp_Gas p))
       in ((x, False), s\<lparr>rx_world := if cr_Success x then w2 else RestoreSnapshot (fl_context F) i w2\<rparr>)))"
proof -
  obtain x e where x: "runPrecompiledContract (fl_lib F) (fl_revision F) (cp_Input p) (cp_CodeAddress p) (cp_Gas p) = (x, e)"
    by fastforce
  then have e: "x\<lparr>cr_Success := False\<rparr> = x" if "e \<noteq> None"
    using that by (auto simp: runPrecompiledContract_def zeroCallResult_def Let_def c split: option.splits if_splits)
  have h: "handled F kind p t = ((zeroCallResult, False), t)" for t
    using b by (auto simp: handled_def on_world_ret_def handleStateContracts_def split: option.splits)
  show ?thesis
    using assms(1) e
    by (auto simp: executeCall_eq assms(2) executeCall_body_eq h x c isPrecompiled_def restoreUnlessSuccess_def
        errResult_def zeroCallResult_def after_transfer_def on_world_def Let_def)
qed

text \<open>
  C35: beyond the maximal depth of 1024 every call and every creation fails without effect and
  returns all its gas. Up to that depth a call to a precompiled contract is executed: it fails
  without effect, and returns all its gas, if the value can not be transferred; it fails without
  effect, and returns no gas, if the gas does not cover the cost of the contract or the contract
  fails; otherwise the value is transferred (for the kinds that transfer one), the output is that
  of the contract and the gas is reduced by its cost. The world states are those of any
  transaction context with working snapshots, and the address is not the one of a state contract.
\<close>

theorem call_depth_limit:
  assumes "floria_ctx F" and "journal (fl_context F) saved" and "\<And>i v. built_in_keeps F (saved i v)"
    and "call_typed p" and "0 \<le> rx_depth s" and "\<not> rx_stuck s"
  shows "(1024 < rx_depth s \<longrightarrow>
      runContext_Call F kind p s =
        ((\<lparr>cr_Output = [], cr_GasLeft = cp_Gas p, cr_GasRefund = 0, cr_CreatedAddress = 0, cr_Success = False\<rparr>, False), s)) \<and>
    (rx_depth s \<le> 1024 \<and> kind \<noteq> Create \<and> kind \<noteq> Create2 \<and>
     getPrecompiledContract (fl_lib F) (cp_CodeAddress p) (fl_revision F) = Some c \<and>
     (\<forall>m. BuiltInContracts (fl_config F) = Some m \<longrightarrow> m (cp_CodeAddress p) = None) \<longrightarrow>
      runContext_Call F kind p s =
        (let w1 = snd (CreateSnapshot (fl_context F) (rx_world s)) in
         if (kind = Call \<or> kind = CallCode) \<and>
           \<not> canTransferValue (fl_context F) (cp_Value p) (cp_Sender p) (Some (cp_Recipient p)) w1
         then ((\<lparr>cr_Output = [], cr_GasLeft = cp_Gas p, cr_GasRefund = 0, cr_CreatedAddress = 0, cr_Success = False\<rparr>, False), s)
         else if uint (RequiredGas c (cp_Input p)) \<le> cp_Gas p \<and> pre_Run c (cp_Input p) \<noteq> None
         then ((\<lparr>cr_Output = the (pre_Run c (cp_Input p)), cr_GasLeft = cp_Gas p - uint (RequiredGas c (cp_Input p)),
                 cr_GasRefund = 0, cr_CreatedAddress = 0, cr_Success = True\<rparr>, False),
               s\<lparr>rx_world := if kind = Call \<or> kind = CallCode
                    then transferValue (fl_context F) (cp_Value p) (cp_Sender p) (cp_Recipient p) w1 else w1\<rparr>)
         else ((\<lparr>cr_Output = [], cr_GasLeft = 0, cr_GasRefund = 0, cr_CreatedAddress = 0, cr_Success = False\<rparr>, False), s)))"
    (is "_ \<and> (?pre \<longrightarrow> ?run)")
proof (intro conjI impI)
  assume "1024 < rx_depth s"
  then show "runContext_Call F kind p s =
      ((\<lparr>cr_Output = [], cr_GasLeft = cp_Gas p, cr_GasRefund = 0, cr_CreatedAddress = 0, cr_Success = False\<rparr>, False), s)"
    by (simp add: runContext_Call_eq executeCall_eq executeCreate_eq errResult_def zeroCallResult_def)
next
  assume pre: ?pre
  obtain i w1 where i: "CreateSnapshot (fl_context F) (rx_world s) = (i, w1)" by fastforce
  have eq: "runContext_Call F kind p s = executeCall F (Call_n F 1025) kind p s"
    using pre by (simp add: runContext_Call_eq)
  have same: "s' = s" if "executeCall F (Call_n F 1025) kind p s = ((r, err), s')" "\<not> cr_Success r" for r err s'
    using failed_call_same [OF assms(1-5) _ assms(6), of kind r err s'] pre that eq by simp
  have g: "cp_Gas p < 9223372036854775808" using assms(4) by (simp add: call_typed_def)
  let ?x = "fst (runPrecompiledContract (fl_lib F) (fl_revision F) (cp_Input p) (cp_CodeAddress p) (cp_Gas p))"
  have x: "?x = (if uint (RequiredGas c (cp_Input p)) \<le> cp_Gas p \<and> pre_Run c (cp_Input p) \<noteq> None
      then \<lparr>cr_Output = the (pre_Run c (cp_Input p)), cr_GasLeft = cp_Gas p - uint (RequiredGas c (cp_Input p)),
             cr_GasRefund = 0, cr_CreatedAddress = 0, cr_Success = True\<rparr>
      else \<lparr>cr_Output = [], cr_GasLeft = 0, cr_GasRefund = 0, cr_CreatedAddress = 0, cr_Success = False\<rparr>)"
    using pre g by (auto simp: runPrecompiledContract_def zeroCallResult_def Let_def word_less_def split: option.splits)
  have "executeCall F (Call_n F 1025) kind p s =
     (if (kind = Call \<or> kind = CallCode) \<and>
        \<not> canTransferValue (fl_context F) (cp_Value p) (cp_Sender p) (Some (cp_Recipient p)) w1
      then ((errResult p, False), s)
      else ((?x, False), if cr_Success ?x
        then s\<lparr>rx_world := if kind = Call \<or> kind = CallCode
                    then transferValue (fl_context F) (cp_Value p) (cp_Sender p) (cp_Recipient p) w1 else w1\<rparr> else s))"
    using executeCall_precompiled [OF _ i, of p c "Call_n F 1025" kind] pre same
    by (auto simp: Let_def errResult_def zeroCallResult_def)
  then show ?run unfolding eq i by (auto simp: x Let_def errResult_def zeroCallResult_def)
qed

text \<open>The precompiled contract at address 4 costs 15 units; the last depth at which it is called is 1024.\<close>

definition pre_call :: CallParameters where
  "pre_call = (demo_call 5)\<lparr>cp_Recipient := 4, cp_CodeAddress := 4, cp_Input := [1, 2]\<rparr>"

theorem call_depth_limit_witness:
  "runContext_Call demo_floria Call pre_call (demo_state 1025) =
     ((\<lparr>cr_Output = [], cr_GasLeft = 100, cr_GasRefund = 0, cr_CreatedAddress = 0, cr_Success = False\<rparr>, False), demo_state 1025) \<and>
   runContext_Call demo_floria Call pre_call (demo_state 1024) =
     ((\<lparr>cr_Output = [1, 2], cr_GasLeft = 85, cr_GasRefund = 0, cr_CreatedAddress = 0, cr_Success = True\<rparr>, False),
      (demo_state 1024)\<lparr>rx_world := transferValue (fl_context demo_floria) 5 1 4
         (snd (CreateSnapshot (fl_context demo_floria) demo_world))\<rparr>)"
proof -
  have p: "call_typed pre_call" by (simp add: pre_call_def call_typed_def demo_call_def)
  have c: "getPrecompiledContract (fl_lib demo_floria) 4 (fl_revision demo_floria) =
      Some \<lparr>RequiredGas = (\<lambda>_. 15), pre_Run = Some\<rparr>"
    by (simp add: getPrecompiledContract_def getPrecompiledContracts_def demo_floria_def tx_floria_def demo_processor_def
        newFloriaProcessor_def demo_lib_def demo_block_def demo_params_def)
  have b: "BuiltInContracts (fl_config demo_floria) = Some m \<Longrightarrow> m 4 = None" for m
    by (auto simp: demo_floria_def tx_floria_def demo_processor_def newFloriaProcessor_def StateContractAddress_def)
  have t: "canTransferValue (fl_context demo_floria) 5 1 (Some 4) (snd (CreateSnapshot (fl_context demo_floria) demo_world))"
    by (simp add: demo_fl_context demo_context_def floriaContext_def with_snapshots_def accounts_context_def
        demo_world_def canTransferValue_def Let_def)
  show ?thesis
    using call_depth_limit [OF demo_floria_ctx demo_journal demo_built_in_keeps p, of "demo_state 1025" Call]
      call_depth_limit [OF demo_floria_ctx demo_journal demo_built_in_keeps p, of "demo_state 1024" Call
        "\<lparr>RequiredGas = (\<lambda>_. 15), pre_Run = Some\<rparr>"] b t
    by (simp add: pre_call_def demo_call_def c)
qed

text \<open>
  C7: a call that fails leaves no trace: for every transaction context with working
  snapshots, the world state, the depth and the static flag are exactly those before the
  call, whatever the nested calls did.
\<close>

theorem failed_call_restores:
  assumes "floria_ctx F" and "journal (fl_context F) saved" and "\<And>i v. built_in_keeps F (saved i v)"
    and "call_typed p" and "0 \<le> rx_depth s" and "rx_depth s \<le> 1025" and "\<not> rx_stuck s"
    and "kind \<noteq> Create" and "kind \<noteq> Create2"
    and "runContext_Call F kind p s = ((r, err), s')" and "err \<or> \<not> cr_Success r"
  shows "s' = s"
  using assms by (rule failed_call_same)

lemma call_without_balance:
  assumes "\<not> canTransferValue (fl_context F) (cp_Value p) (cp_Sender p) (Some (cp_Recipient p))
      (snd (CreateSnapshot (fl_context F) (rx_world s)))"
  shows "fst (runContext_Call F Call p s) = (errResult p, False)"
  using assms by (auto simp: runContext_Call_eq executeCall_eq executeCall_body_eq restoreUnlessSuccess_def
      split: prod.splits)

theorem failed_call_restores_witness:
  "snd (runContext_Call demo_floria Call (demo_call 2000000) (demo_state 7)) = demo_state 7"
proof -
  have "\<not> canTransferValue (fl_context demo_floria) (cp_Value (demo_call 2000000)) (cp_Sender (demo_call 2000000))
      (Some (cp_Recipient (demo_call 2000000)))
      (snd (CreateSnapshot (fl_context demo_floria) (rx_world (demo_state 7))))"
    by (simp add: demo_fl_context demo_context_def floriaContext_def with_snapshots_def accounts_context_def
        demo_call_def demo_world_def canTransferValue_def)
  from call_without_balance [OF this] obtain s' where
    s': "runContext_Call demo_floria Call (demo_call 2000000) (demo_state 7) = ((errResult (demo_call 2000000), False), s')"
    by (metis prod.collapse)
  from failed_call_restores [OF demo_floria_ctx demo_journal demo_built_in_keeps _ _ _ _ _ _ s'] s'
  show ?thesis by simp
qed

text \<open>
  C34: a creation that fails leaves at most what was done before its snapshot: the nonce of
  the sender and the access list entry of the new address.
\<close>

theorem failed_create_restores:
  assumes "floria_ctx F" and "journal (fl_context F) saved" and "\<And>i v. built_in_keeps F (saved i v)"
    and "call_typed p" and "0 \<le> rx_depth s" and "rx_depth s \<le> 1025" and "\<not> rx_stuck s"
    and "kind = Create \<or> kind = Create2"
    and "runContext_Call F kind p s = ((r, err), s')" and "err \<or> \<not> cr_Success r"
  shows "let w1 = snd (senderCreateSetUp (fl_context F) p (rx_world s));
      w2 = snd (createAddress (fl_lib F) (fl_context F) kind p (fl_revision F) w1)
    in \<exists>w \<in> {rx_world s, w1, w2}. s' = s\<lparr>rx_world := w\<rparr>"
proof -
  have x: "executeCreate F (runContext_Call F) kind p s = ((r, err), s')"
    using floria_ctx.runContext_Call_unfold [OF assms(1,5,6,7,4), of kind] assms(8,9) by simp
  have S: "tracking F saved" using assms(3) by (rule journal.tracking [OF assms(2) refl])
  from floria_ctx.executeCreate_fails [OF assms(1) S assms(4,5,7) x assms(10)]
  show ?thesis using journal.restore [OF assms(2)] by (auto simp: Let_def)
qed

theorem failed_create_restores_witness:
  "\<exists>w \<in> {demo_world, snd (senderCreateSetUp (fl_context demo_floria) (demo_call 2000000) demo_world),
      snd (createAddress (fl_lib demo_floria) (fl_context demo_floria) Create (demo_call 2000000)
        (fl_revision demo_floria) (snd (senderCreateSetUp (fl_context demo_floria) (demo_call 2000000) demo_world)))}.
    snd (runContext_Call demo_floria Create (demo_call 2000000) (demo_state 7)) = (demo_state 7)\<lparr>rx_world := w\<rparr>"
proof -
  have "fst (runContext_Call demo_floria Create (demo_call 2000000) (demo_state 7)) = (errResult (demo_call 2000000), False)"
    by (simp add: runContext_Call_eq executeCreate_eq senderCreateSetUp_def demo_fl_context demo_context_def
        floriaContext_def with_snapshots_def accounts_context_def demo_call_def demo_world_def canTransferValue_def)
  then obtain s' where
    s': "runContext_Call demo_floria Create (demo_call 2000000) (demo_state 7) = ((errResult (demo_call 2000000), False), s')"
    by (metis prod.collapse)
  from failed_create_restores [OF demo_floria_ctx demo_journal demo_built_in_keeps _ _ _ _ _ s'] s'
  show ?thesis by (simp add: Let_def)
qed

end
