(* ===== verification/Floria_Gas.thy ===== *)
theory Floria_Gas
  imports Floria_Properties
begin

text \<open>
  The money of a transaction: gas price, purchase of gas, remaining gas and refund, set-up
  gas, and transfers of value.
\<close>

section \<open>Arithmetic on values\<close>

lemma uint_Scale:
  assumes "uint256_arith U" and "uint v * uint k < 2 ^ 256"
  shows "uint (Scale U v k) = uint v * uint k"
proof -
  have k: "uint (SetUint64 k) = uint k" by (simp add: uint_nat del: of_nat_unat)
  have "uint (v * SetUint64 k) = uint v * uint k"
    using assms(2) unfolding k [symmetric] by (simp add: uint_word_ariths)
  then show ?thesis by (simp add: Scale_def uint256_arith.Mul [OF assms(1)])
qed

lemma uint_word_of_gas: "0 \<le> g \<Longrightarrow> g < 9223372036854775808 \<Longrightarrow> uint (word_of_int g :: u64) = g"
  by (simp add: uint_word_of_int)

lemma uint_plus_u256: "uint a + uint b < 2 ^ 256 \<Longrightarrow> uint (a + b :: u256) = uint a + uint b"
  by (simp add: uint_word_ariths)

section \<open>Gas price\<close>

text \<open>
  C38: a gas price is computed exactly if the fee cap covers the base fee and the tip cap (or
  the transaction is a simulation with zero prices); it is the smaller one of the fee cap and
  the base fee plus the tip, computed without overflow. The comment of \<open>calculateGasPrice\<close> says
  that it also fails if the maximal price exceeds the maximal tip; the code fails in the
  opposite case, if the maximal price is below the tip, and so does its error message.
\<close>

theorem gas_price_spec:
  "calculateGasPrice baseFee cap tip simulated = Inr price \<longleftrightarrow>
     (if simulated \<and> cap = 0 \<and> tip = 0 then price = 0
      else baseFee \<le> cap \<and> tip \<le> cap \<and> unat price = min (unat cap) (unat baseFee + unat tip))"
proof (cases "simulated \<and> cap = 0 \<and> tip = 0")
  case True
  then show ?thesis by (auto simp: calculateGasPrice_def)
next
  case False
  have "unat (baseFee + min tip (cap - baseFee)) = min (unat cap) (unat baseFee + unat tip)" if "baseFee \<le> cap"
  proof -
    have s: "unat (cap - baseFee) = unat cap - unat baseFee" using that by (simp add: unat_sub)
    have m: "unat (min tip (cap - baseFee)) = min (unat tip) (unat cap - unat baseFee)"
      unfolding s [symmetric] by (simp add: min_def word_le_nat_alt)
    have "unat baseFee \<le> unat cap" using that by (simp add: word_le_nat_alt)
    then have "unat baseFee + unat (min tip (cap - baseFee)) = min (unat cap) (unat baseFee + unat tip)"
      unfolding m by linarith
    moreover have "min (unat cap) (unat baseFee + unat tip) < 2 ^ LENGTH(256)"
      using unsigned_less [of cap] by (auto simp: min_def)
    ultimately show ?thesis by (metis unat_add_lem)
  qed
  moreover have "calculateGasPrice baseFee cap tip simulated = Inr price \<longleftrightarrow>
      baseFee \<le> cap \<and> tip \<le> cap \<and> price = baseFee + min tip (cap - baseFee)"
    using False by (auto simp: calculateGasPrice_def not_less)
  ultimately show ?thesis using False by (metis word_unat_eq_iff)
qed

section \<open>Purchase of gas\<close>

text \<open>The price of a transaction: its gas, and its blobs at the base fee for blobs.\<close>

definition tx_cost :: "Transaction \<Rightarrow> Value \<Rightarrow> Value \<Rightarrow> int" where
  "tx_cost t gasPrice blobPrice =
     uint gasPrice * tx_GasLimit t + (if blobHashes t = [] then 0 else uint blobPrice * uint (blobGas t))"

text \<open>The documented behaviour of the big-integer conversion.\<close>

definition FromBig_ok :: "geth_lib \<Rightarrow> bool" where
  "FromBig_ok G \<longleftrightarrow> (\<forall>x \<ge> 0. snd (uint256_FromBig G x) = (2 ^ 256 \<le> x) \<and>
     (x < 2 ^ 256 \<longrightarrow> fst (uint256_FromBig G x) = word_of_int x))"


text \<open>The amount that is taken from the sender.\<close>

lemma buyGas_cost:
  assumes "uint256_arith (lib_uint256 G)" and "0 \<le> tx_GasLimit t" and "tx_GasLimit t < 9223372036854775808"
    and "tx_cost t gasPrice blobPrice < 2 ^ 256"
  shows "\<exists>c. uint c = tx_cost t gasPrice blobPrice \<and>
    buyGasInternal G C t gasPrice blobPrice w = SetBalance C (tx_Sender t) (GetBalance C w (tx_Sender t) - c) w"
proof -
  let ?U = "lib_uint256 G"
  let ?g = "Scale ?U gasPrice (word_of_int (tx_GasLimit t))" and ?b = "Scale ?U blobPrice (blobGas t)"
  have parts: "0 \<le> uint gasPrice * tx_GasLimit t" "0 \<le> uint blobPrice * uint (blobGas t)" using assms(2) by simp_all
  have g: "uint (word_of_int (tx_GasLimit t) :: u64) = tx_GasLimit t" by (rule uint_word_of_gas [OF assms(2,3)])
  have "uint gasPrice * tx_GasLimit t \<le> tx_cost t gasPrice blobPrice" using parts by (simp add: tx_cost_def)
  then have "uint gasPrice * tx_GasLimit t < 2 ^ 256" using assms(4) by linarith
  then have gas: "uint ?g = uint gasPrice * tx_GasLimit t"
    using uint_Scale [OF assms(1), of gasPrice "word_of_int (tx_GasLimit t)"] g by simp
  have "blobHashes t \<noteq> [] \<Longrightarrow> uint ?b = uint blobPrice * uint (blobGas t)"
    using assms(4) parts by (intro uint_Scale [OF assms(1)]) (simp add: tx_cost_def)
  then have "uint (if blobHashes t = [] then ?g else ?g + ?b) = tx_cost t gasPrice blobPrice"
    using gas assms(4) uint_plus_u256 [of ?g ?b] by (auto simp: tx_cost_def split: if_splits)
  then show ?thesis
    by (intro exI [of _ "if blobHashes t = [] then ?g else ?g + ?b"]) (simp add: buyGasInternal_def Let_def)
qed


lemma demo_lib_ok: "uint256_arith (lib_uint256 demo_lib)" "FromBig_ok demo_lib"
  using word_uint256.uint256_arith_axioms by (auto simp: demo_lib_def FromBig_ok_def)

lemma demo_balance: "GetBalance demo_context demo_world a = (if a = 1 then 1000000 else 0)"
  by (simp add: demo_context_def with_snapshots_def accounts_context_def demo_world_def)


section \<open>The blob fee\<close>

text \<open>The fee cap \<open>2 ^ 239\<close> for any number of blobs of \<open>2 ^ 17\<close> units each.\<close>

lemma Scale_blob_cap:
  assumes "uint256_arith U"
  shows "Scale U (2 ^ 239) (blobGas t) = 0"
proof -
  let ?n = "int (length (blobHashes t))"
  have "uint (blobGas t) = ?n * 2 ^ 17 mod (2 ^ 47 * 2 ^ 17)" by (simp only: blobGas_def uint_word_of_int) simp
  then have g: "uint (blobGas t) = (?n mod 2 ^ 47) * 2 ^ 17" by (simp only: mult_mod_left)
  have k: "uint (SetUint64 (blobGas t)) = uint (blobGas t)" by (simp add: uint_nat del: of_nat_unat)
  have "uint (2 ^ 239 * SetUint64 (blobGas t) :: u256) = (2 ^ 239 * ((?n mod 2 ^ 47) * 2 ^ 17)) mod 2 ^ 256"
    unfolding uint_word_ariths k g by simp
  also have "\<dots> = (?n mod 2 ^ 47) * 2 ^ 256 mod 2 ^ 256" by simp
  also have "\<dots> = 0" by (rule mod_mult_self2_is_0)
  finally have "2 ^ 239 * SetUint64 (blobGas t) = (0 :: u256)" by (rule uint_0_iff [THEN iffD1])
  then show ?thesis unfolding Scale_def uint256_arith.Mul [OF assms] .
qed

lemma buyGas_wraps:
  assumes "uint256_arith (lib_uint256 G)" and "0 \<le> tx_GasLimit t" and "tx_GasLimit t < 9223372036854775808"
    and "uint (GetBalance C w (tx_Sender t)) < tx_cost t gasPrice blobPrice" and "tx_cost t gasPrice blobPrice < 2 ^ 256"
  shows "\<exists>v. uint v = uint (GetBalance C w (tx_Sender t)) - tx_cost t gasPrice blobPrice + 2 ^ 256 \<and>
    buyGasInternal G C t gasPrice blobPrice w = SetBalance C (tx_Sender t) v w"
proof -
  let ?bal = "GetBalance C w (tx_Sender t)"
  obtain c where c: "uint c = tx_cost t gasPrice blobPrice"
    "buyGasInternal G C t gasPrice blobPrice w = SetBalance C (tx_Sender t) (?bal - c) w"
    using buyGas_cost [OF assms(1-3,5), of C w] by auto
  have len: "LENGTH(256) = 256" by simp
  have "\<not> uint c \<le> uint ?bal" unfolding c(1) using assms(4) by (simp only: not_le)
  then have "uint (?bal - c) = uint ?bal - uint c + 2 ^ 256" unfolding uint_sub_if' len by (simp only: if_False)
  then show ?thesis unfolding c by (intro exI [of _ "?bal - c"] conjI refl) (simp only: c(1))
qed

text \<open>
  C40: the restriction on the blob fee in the balance check is needed, since the maximal blob
  fee is computed modulo \<open>2 ^ 256\<close>. For every transaction with blobs, a fee cap of \<open>2 ^ 239\<close> for
  a unit of blob gas makes the check the same as if there were no blobs at all. And if the
  balance of the sender does not cover the price of a transaction, which the check is to
  exclude, the purchase of gas does not fail: the balance wraps around and grows by \<open>2 ^ 256\<close>
  less that price.
\<close>

theorem blob_fee_wraps:
  assumes "uint256_arith (lib_uint256 G)" and "0 \<le> tx_GasLimit t" and "tx_GasLimit t < 9223372036854775808"
  shows "balanceCheck G gasPrice (t\<lparr>tx_BlobGasFeeCap := 2 ^ 239\<rparr>) balance eth =
      balanceCheck G gasPrice (t\<lparr>tx_BlobHashes := None\<rparr>) balance eth \<and>
    (uint (GetBalance C w (tx_Sender t)) < tx_cost t gasPrice blobPrice \<and> tx_cost t gasPrice blobPrice < 2 ^ 256 \<longrightarrow>
      (\<exists>v. uint v = uint (GetBalance C w (tx_Sender t)) - tx_cost t gasPrice blobPrice + 2 ^ 256 \<and>
        buyGasInternal G C t gasPrice blobPrice w = SetBalance C (tx_Sender t) v w))"
proof -
  have "blobHashes (t\<lparr>tx_BlobGasFeeCap := v\<rparr>) = blobHashes t" "blobHashes (t\<lparr>tx_BlobHashes := None\<rparr>) = []" for v
    by (simp_all add: blobHashes_def)
  then have "balanceCheck G gasPrice (t\<lparr>tx_BlobGasFeeCap := 2 ^ 239\<rparr>) balance eth =
      balanceCheck G gasPrice (t\<lparr>tx_BlobHashes := None\<rparr>) balance eth"
    using Scale_blob_cap [OF assms(1), of "t\<lparr>tx_BlobGasFeeCap := 2 ^ 239\<rparr>"]
    unfolding balanceCheck_def Let_def by (cases "blobHashes t = []") simp_all
  then show ?thesis using buyGas_wraps [OF assms, of C w gasPrice blobPrice] by (intro conjI impI) simp_all
qed

text \<open>A transaction with a blob of a sender without balance: the check passes, the balance becomes \<open>2 ^ 256 - 131072\<close>.\<close>

definition blob_tx :: Transaction where
  "blob_tx = demo_tx\<lparr>tx_Sender := 3, tx_GasFeeCap := 0, tx_GasTipCap := 0, tx_BlobGasFeeCap := 2 ^ 239,
     tx_BlobHashes := Some [2 ^ 248]\<rparr>"

theorem blob_fee_wraps_witness:
  "balanceCheck demo_lib 0 blob_tx (GetBalance demo_context demo_world 3) True = None \<and>
   (\<exists>v. uint v = 2 ^ 256 - 131072 \<and> buyGasInternal demo_lib demo_context blob_tx 0 1 demo_world = SetBalance demo_context 3 v demo_world)"
proof -
  have t: "blob_tx\<lparr>tx_BlobGasFeeCap := 2 ^ 239\<rparr> = blob_tx" "tx_Sender blob_tx = 3" "tx_GasLimit blob_tx = 50000"
    by (simp_all add: blob_tx_def demo_tx_def)
  have cost: "tx_cost blob_tx 0 1 = 131072" by (simp add: tx_cost_def blob_tx_def demo_tx_def blobHashes_def blobGas_def)
  have "balanceCheck demo_lib 0 (blob_tx\<lparr>tx_BlobHashes := None\<rparr>) 0 True = None"
    by (simp add: balanceCheck_def blobHashes_def) (simp add: blob_tx_def demo_tx_def demo_lib_def)
  then show ?thesis
    using blob_fee_wraps [OF demo_lib_ok(1), of blob_tx 0 0 True demo_context demo_world 1]
    unfolding t cost demo_balance by simp
qed

end
