(* ===== verification/Floria_Tx.thy ===== *)
theory Floria_Tx
  imports Floria_Gas
begin

text \<open>
  The gas of a transaction before and after its execution: set-up gas, remaining gas and
  refund.
\<close>

section \<open>Remaining gas\<close>

text \<open>The gas that is left before the refund; a tenth of it is kept in the Sonic version.\<close>

definition charged_left :: "Transaction \<Rightarrow> CallResult \<Rightarrow> bool \<Rightarrow> Gas" where
  "charged_left t result eth =
     (if \<not> eth \<and> tx_Sender t \<noteq> 0 then cr_GasLeft result - cr_GasLeft result div 10 else cr_GasLeft result)"

lemma charged_left_bounds:
  "0 \<le> cr_GasLeft result \<Longrightarrow> 0 \<le> charged_left t result eth \<and> charged_left t result eth \<le> cr_GasLeft result"
  by (auto simp: charged_left_def)

lemma calculateGasLeft_eq:
  assumes "gas_within (tx_GasLimit t) (cr_GasLeft result)" and "tx_GasLimit t < 9223372036854775808"
    and "- 9223372036854775808 \<le> cr_GasRefund result"
  shows "calculateGasLeft t result r eth =
    charged_left t result eth +
    (if cr_Success result
     then min (cr_GasRefund result) ((tx_GasLimit t - charged_left t result eth) div (if r < R10_London then 2 else 5))
     else 0)"
proof -
  let ?l = "charged_left t result eth"
  have l: "0 \<le> ?l" "?l \<le> tx_GasLimit t"
    using charged_left_bounds [of result t eth] assms(1) by (auto simp: gas_within_def)
  have left: "(if \<not> eth \<and> tx_Sender t \<noteq> 0 then cr_GasLeft result - go_quot (cr_GasLeft result) 10
      else cr_GasLeft result) = ?l"
    using assms(1) by (simp add: charged_left_def gas_within_def)
  have used: "int64 (tx_GasLimit t - ?l) = tx_GasLimit t - ?l" using l assms(2) by (intro int64_id) auto
  have "int64 (?l + min (cr_GasRefund result) (c div k)) = ?l + min (cr_GasRefund result) (c div k)"
    if "c = tx_GasLimit t - ?l" "k = 2 \<or> k = 5" for c k
    using that l assms(2,3) by (intro int64_id) auto
  moreover have "(if m < x then m else x) = min x m" for m x :: int by auto
  ultimately show ?thesis
    unfolding calculateGasLeft_def Let_def left used using l by auto
qed

text \<open>
  C36: the gas left after a transaction, for every 64-bit refund, also a negative one: a failed
  transaction keeps what the execution left (less the tenth that Sonic keeps); a successful one
  has the refund added, capped at half of the gas used, or at a fifth since London. The result
  never exceeds the gas limit. It is at least what was left before the refund if and only if
  the transaction failed or its refund is not negative; there is no lower cap, so a negative
  refund is charged in full, and the result is negative exactly if the refund is below the
  negated remaining gas.
\<close>

theorem gas_left_bounds:
  assumes "0 \<le> cr_GasLeft result" and "cr_GasLeft result \<le> tx_GasLimit t"
    and "tx_GasLimit t < 9223372036854775808" and "- 9223372036854775808 \<le> cr_GasRefund result"
  shows "calculateGasLeft t result r eth =
      charged_left t result eth +
      (if cr_Success result
       then min (cr_GasRefund result) ((tx_GasLimit t - charged_left t result eth) div (if r < R10_London then 2 else 5))
       else 0) \<and>
    calculateGasLeft t result r eth \<le> tx_GasLimit t \<and>
    (charged_left t result eth \<le> calculateGasLeft t result r eth \<longleftrightarrow> \<not> cr_Success result \<or> 0 \<le> cr_GasRefund result) \<and>
    (calculateGasLeft t result r eth < 0 \<longleftrightarrow> cr_Success result \<and> cr_GasRefund result < - charged_left t result eth)"
proof -
  let ?l = "charged_left t result eth" and ?k = "(if r < R10_London then 2 else 5 :: int)"
  have l: "0 \<le> ?l" "?l \<le> tx_GasLimit t"
    using charged_left_bounds [of result t eth] assms(1,2) by auto
  then have cap: "0 \<le> (tx_GasLimit t - ?l) div ?k" "(tx_GasLimit t - ?l) div ?k \<le> tx_GasLimit t - ?l" by auto
  have eq: "calculateGasLeft t result r eth =
      ?l + (if cr_Success result then min (cr_GasRefund result) ((tx_GasLimit t - ?l) div ?k) else 0)"
    using assms by (intro calculateGasLeft_eq) (auto simp: gas_within_def)
  show ?thesis unfolding eq using l cap by (cases "cr_Success result") (auto simp: min_def)
qed

text \<open>With 20000 units left of 50000, Sonic keeps 2000; a refund of 30000 is capped at 6400, one of -18001 leaves -1.\<close>

theorem gas_left_bounds_witness:
  "calculateGasLeft demo_tx (zeroCallResult\<lparr>cr_GasLeft := 20000, cr_GasRefund := 30000, cr_Success := True\<rparr>)
     R13_Cancun False = 24400 \<and>
   calculateGasLeft demo_tx (zeroCallResult\<lparr>cr_GasLeft := 20000, cr_GasRefund := - 18001, cr_Success := True\<rparr>)
     R13_Cancun False = - 1"
  using gas_left_bounds [of "zeroCallResult\<lparr>cr_GasLeft := 20000, cr_GasRefund := 30000, cr_Success := True\<rparr>"
      demo_tx R13_Cancun False]
    gas_left_bounds [of "zeroCallResult\<lparr>cr_GasLeft := 20000, cr_GasRefund := - 18001, cr_Success := True\<rparr>"
      demo_tx R13_Cancun False]
  by (simp add: demo_tx_def charged_left_def)

section \<open>Set-up gas\<close>

text \<open>The set-up gas over the integers.\<close>

definition setup_gas :: "Transaction \<Rightarrow> Revision \<Rightarrow> int" where
  "setup_gas t r =
     (if tx_Recipient t = None then 53000 else 21000) +
     4 * int (length (filter (\<lambda>b. b = 0) (tx_Input t))) + 16 * int (length (filter (\<lambda>b. b \<noteq> 0) (tx_Input t))) +
     (if tx_Recipient t = None \<and> R12_Shanghai \<le> r then 2 * ((int (length (tx_Input t)) + 31) div 32) else 0) +
     (case tx_AccessList t of
        None \<Rightarrow> 0
      | Some l \<Rightarrow> 2400 * int (length l) + 1900 * int (sum_list (map (length \<circ> at_Keys) l)))"

lemma int64_idem: "int64 (int64 x + y) = int64 (x + y)"
  by (simp add: int64_def mod_simps algebra_simps)

lemma int64_idem3: "int64 (int64 x + y + z) = int64 (x + y + z)"
  using int64_idem [of x "y + z"] by (simp add: add.assoc)

lemma fold_keys:
  "foldl (\<lambda>g tuple. int64 (g + int (length (at_Keys tuple)) * 1900)) (int64 g) l =
   int64 (g + 1900 * int (sum_list (map (length \<circ> at_Keys) l)))"
  by (induction l arbitrary: g) (simp_all add: int64_idem algebra_simps)

lemma words_gas:
  assumes "n < 2 ^ 63"
  shows "uint (SizeInWords (word_of_nat n) * 2) = 2 * ((int n + 31) div 32)"
proof -
  have n: "unat (word_of_nat n :: u64) = n" using assms by (simp add: unat_of_nat)
  have "unat (SizeInWords (word_of_nat n) * 2) = 2 * ((n + 31) div 32)"
    using assms by (simp add: unat_word_ariths unat_SizeInWords n)
  then show ?thesis by (metis (mono_tags, lifting) of_nat_add of_nat_mult of_nat_numeral uint_nat zdiv_int)
qed

definition input_gas :: "Transaction \<Rightarrow> Revision \<Rightarrow> int" where
  "input_gas t r =
     (if tx_Recipient t = None then 53000 else 21000) +
     4 * int (length (filter (\<lambda>b. b = 0) (tx_Input t))) + 16 * int (length (filter (\<lambda>b. b \<noteq> 0) (tx_Input t))) +
     (if tx_Recipient t = None \<and> R12_Shanghai \<le> r then 2 * ((int (length (tx_Input t)) + 31) div 32) else 0)"

lemma input_gas_length: "int (length (tx_Input t)) \<le> input_gas t r"
proof -
  have "int (length (tx_Input t)) = int (length (filter (\<lambda>b. b = 0) (tx_Input t))) +
      int (length (filter (\<lambda>b. b \<noteq> 0) (tx_Input t)))"
    using sum_length_filter_compl [of "\<lambda>b. b = 0" "tx_Input t"] by simp
  moreover have "0 \<le> (int (length (tx_Input t)) + 31) div 32" by simp
  ultimately show ?thesis unfolding input_gas_def by (auto split: if_splits)
qed

lemma input_part:
  fixes base :: int
  assumes "base = (if tx_Recipient t = None then 53000 else 21000)" and "input_gas t r < 9223372036854775808"
  shows "(if 0 < length (tx_Input t) then
       (let nonZeroBytes = int (length (filter (\<lambda>b. b \<noteq> 0) (tx_Input t)));
            zeroBytes = int (length (tx_Input t)) - nonZeroBytes;
            g = int64 (base + zeroBytes * TxDataZeroGasEIP2028);
            g = int64 (g + nonZeroBytes * TxDataNonZeroGasEIP2028)
        in if tx_Recipient t = None \<and> R12_Shanghai \<le> r
           then int64 (g + int64 (uint (SizeInWords (word_of_nat (length (tx_Input t))) * InitCodeWordGas)))
           else g)
     else base) = input_gas t r"
proof (cases "tx_Input t = []")
  case True
  then show ?thesis using assms(1) by (simp add: input_gas_def)
next
  case False
  have z: "int (length (tx_Input t)) - int (length (filter (\<lambda>b. b \<noteq> 0) (tx_Input t))) =
      int (length (filter (\<lambda>b. b = 0) (tx_Input t)))"
    using sum_length_filter_compl [of "\<lambda>b. b = 0" "tx_Input t"] by simp
  have len: "int (length (tx_Input t)) < 9223372036854775808" using input_gas_length [of t r] assms(2) by simp
  then have w: "int64 (uint (SizeInWords (word_of_nat (length (tx_Input t))) * InitCodeWordGas)) =
      2 * ((int (length (tx_Input t)) + 31) div 32)"
    using words_gas [of "length (tx_Input t)"] int64_id [of "2 * ((int (length (tx_Input t)) + 31) div 32)"] by simp
  have id: "int64 (input_gas t r) = input_gas t r"
    using input_gas_length [of t r] assms(2) by (intro int64_id) auto
  show ?thesis
    using False id unfolding Let_def z w int64_idem int64_idem3
    by (auto simp: input_gas_def assms(1) algebra_simps)
qed

lemma calculateSetupGas_eq:
  assumes "setup_gas t r < 9223372036854775808"
  shows "calculateSetupGas t r = setup_gas t r"
proof -
  let ?l = "case tx_AccessList t of
        None \<Rightarrow> 0 | Some l \<Rightarrow> 2400 * int (length l) + 1900 * int (sum_list (map (length \<circ> at_Keys) l))"
  have s: "setup_gas t r = input_gas t r + ?l" by (simp add: setup_gas_def input_gas_def)
  have l: "0 \<le> ?l" by (simp split: option.splits)
  then have "input_gas t r < 9223372036854775808" using assms s by linarith
  note part = input_part [OF refl this]
  have "int64 (setup_gas t r) = setup_gas t r"
    using assms s l input_gas_length [of t r] by (intro int64_id) auto
  then show ?thesis
    unfolding calculateSetupGas_def Let_def [of "if tx_Recipient t = None then TxGasContractCreation else TxGas"] part
    using s by (auto simp: fold_keys algebra_simps split: option.splits)
qed

text \<open>
  C37: the set-up gas is what the yellow paper prescribes: a base price, four units for a zero
  byte and sixteen for another byte of the input, two units for every word of init code since
  Shanghai, and the prices of the entries of the access list, as long as that sum fits an
  \<open>int64\<close>.
\<close>

theorem setup_gas_spec:
  assumes "setup_gas t r < 9223372036854775808"
  shows "calculateSetupGas t r = setup_gas t r \<and> 21000 \<le> calculateSetupGas t r"
  using calculateSetupGas_eq [OF assms] by (auto simp: setup_gas_def split: option.splits)

theorem setup_gas_spec_witness:
  "calculateSetupGas (demo_tx\<lparr>tx_Recipient := None, tx_Input := [0, 1, 0], tx_AccessList := Some [\<lparr>at_Address = 7, at_Keys = [1, 2]\<rparr>]\<rparr>)
     R12_Shanghai = 59226"
  using setup_gas_spec [of "demo_tx\<lparr>tx_Recipient := None, tx_Input := [0, 1, 0],
      tx_AccessList := Some [\<lparr>at_Address = 7, at_Keys = [1, 2]\<rparr>]\<rparr>" R12_Shanghai]
  by (simp add: setup_gas_def)

end
