(* ===== verification/Floria_Effects.thy ===== *)
theory Floria_Effects
  imports Floria_Tx
begin

text \<open>
  The effects on accounts: transfers of value, self-destruction, deployment of code, the
  state contract, precompiled contracts.
\<close>

section \<open>Transfers\<close>

text \<open>The documented behaviour of balances in a transaction context.\<close>

definition balance_laws :: "('w, 'z) TransactionContext_scheme \<Rightarrow> bool" where
  "balance_laws C \<longleftrightarrow>
     (\<forall>w a b v. GetBalance C (SetBalance C a v w) b = (if b = a then v else GetBalance C w b))"

definition total_balance :: "('w, 'z) TransactionContext_scheme \<Rightarrow> 'w \<Rightarrow> int" where
  "total_balance C w = (\<Sum>a\<in>UNIV. uint (GetBalance C w a))"

lemma sum_move:
  fixes f g :: "'a :: finite \<Rightarrow> int"
  assumes "a \<noteq> b" and "g a = f a - v" and "g b = f b + v" and "\<And>c. c \<noteq> a \<Longrightarrow> c \<noteq> b \<Longrightarrow> g c = f c"
  shows "(\<Sum>c\<in>UNIV. g c) = (\<Sum>c\<in>UNIV. f c)"
proof -
  have split: "(\<Sum>c\<in>UNIV. h c) = h a + h b + (\<Sum>c\<in>UNIV - {a, b}. h c)" for h :: "'a \<Rightarrow> int"
    using assms(1) sum.subset_diff [of "{a, b}" UNIV h] by simp
  have "(\<Sum>c\<in>UNIV - {a, b}. g c) = (\<Sum>c\<in>UNIV - {a, b}. f c)"
    by (rule sum.cong) (auto intro: assms(4))
  then show ?thesis unfolding split using assms(2,3) by simp
qed

lemma transfer_balances:
  assumes "balance_laws C" and "canTransferValue C v sender (Some recipient) w" and "sender \<noteq> recipient"
  shows "uint (GetBalance C (transferValue C v sender recipient w) sender) = uint (GetBalance C w sender) - uint v"
    and "uint (GetBalance C (transferValue C v sender recipient w) recipient) = uint (GetBalance C w recipient) + uint v"
    and "a \<noteq> sender \<Longrightarrow> a \<noteq> recipient \<Longrightarrow>
      GetBalance C (transferValue C v sender recipient w) a = GetBalance C w a"
proof -
  let ?s = "GetBalance C w sender" and ?r = "GetBalance C w recipient"
  note law = assms(1) [unfolded balance_laws_def, rule_format]
  have bal: "GetBalance C (transferValue C v sender recipient w) a =
      (if v = 0 then GetBalance C w a else if a = recipient then ?r + v else if a = sender then ?s - v
       else GetBalance C w a)" for a
    using assms(3) by (simp add: transferValue_def Let_def law)
  have cover: "v \<le> ?s" and room: "?r \<le> ?r + v" if "v \<noteq> 0"
    using assms(2,3) that by (auto simp: canTransferValue_def Let_def not_less split: if_splits)
  show "uint (GetBalance C (transferValue C v sender recipient w) sender) = uint ?s - uint v"
    using cover assms(3) by (auto simp: bal word_le_def intro!: uint_sub_lem [THEN iffD1])
  show "uint (GetBalance C (transferValue C v sender recipient w) recipient) = uint ?r + uint v"
    using room no_olen_add [of ?r v] by (auto simp: bal uint_plus_u256)
  show "a \<noteq> sender \<Longrightarrow> a \<noteq> recipient \<Longrightarrow> GetBalance C (transferValue C v sender recipient w) a = GetBalance C w a"
    by (simp add: bal)
qed

text \<open>
  C14: a transfer that \<open>canTransferValue\<close> allows moves exactly the value: the sender has that
  much less, the recipient that much more, nothing wraps around, no other balance changes, and
  the sum of all balances is the same.
\<close>

theorem transfer_conserves:
  assumes "balance_laws C" and "canTransferValue C v sender (Some recipient) w"
  shows "let w' = transferValue C v sender recipient w; moved = (if sender = recipient then 0 else uint v) in
    uint (GetBalance C w' sender) = uint (GetBalance C w sender) - moved \<and>
    uint (GetBalance C w' recipient) = uint (GetBalance C w recipient) + moved \<and>
    total_balance C w' = total_balance C w"
proof (cases "sender = recipient")
  case True
  then show ?thesis by (simp add: transferValue_def)
next
  case False
  note b = transfer_balances [OF assms False]
  have "total_balance C (transferValue C v sender recipient w) = total_balance C w"
    unfolding total_balance_def by (rule sum_move [OF False b(1,2)]) (simp add: b(3))
  then show ?thesis using False b(1,2) by (simp add: Let_def)
qed

lemma demo_balance_laws: "balance_laws demo_context"
  by (simp add: balance_laws_def demo_context_def with_snapshots_def accounts_context_def sn_upd_def)

theorem transfer_conserves_witness:
  "let w' = transferValue demo_context 400 1 2 demo_world in
    uint (GetBalance demo_context w' 1) = 999600 \<and> uint (GetBalance demo_context w' 2) = 400 \<and>
    total_balance demo_context w' = total_balance demo_context demo_world"
  using transfer_conserves [OF demo_balance_laws, of 400 1 2 demo_world]
  by (simp add: Let_def canTransferValue_def demo_balance)

section \<open>Deployment\<close>

text \<open>
  C39: code is deployed exactly if the run succeeded, the code has at most 24576 bytes, does
  not start with \<open>0xEF\<close> since London, and the remaining gas pays 200 units for each byte; then
  that price is charged. Otherwise no code is stored, all gas is consumed and there is no
  output. The refund of the run is kept in both cases, although \<open>executeCreate\<close> restores the
  world state in the second one.
\<close>

theorem deploy_spec:
  assumes "0 \<le> res_GasLeft x" and "res_GasLeft x < 9223372036854775808"
  shows "checkAndDeployCode C x a r w =
    (if res_Success x \<and> length (res_Output x) \<le> 24576 \<and>
        \<not> (R10_London \<le> r \<and> res_Output x \<noteq> [] \<and> hd (res_Output x) = 0xEF) \<and>
        200 * int (length (res_Output x)) \<le> res_GasLeft x
     then (x\<lparr>res_GasLeft := res_GasLeft x - 200 * int (length (res_Output x))\<rparr>, SetCode C a (res_Output x) w)
     else (x\<lparr>res_Success := False, res_GasLeft := 0, res_Output := []\<rparr>, w))"
proof (cases "length (res_Output x) \<le> 24576")
  case True
  have "int64 (int (length (res_Output x)) * 200) = int (length (res_Output x)) * 200"
    using True by (intro int64_id) auto
  moreover have "int64 (res_GasLeft x - int (length (res_Output x)) * 200) = res_GasLeft x - int (length (res_Output x)) * 200"
    if "int (length (res_Output x)) * 200 \<le> res_GasLeft x"
    using that assms by (intro int64_id) auto
  ultimately show ?thesis
    using True by (auto simp: checkAndDeployCode_def Let_def hd_conv_nth mult.commute not_less)
next
  case False
  then show ?thesis by (auto simp: checkAndDeployCode_def Let_def)
qed

theorem deploy_spec_witness:
  "checkAndDeployCode demo_context \<lparr>res_Success = True, res_Output = [0xEF, 1], res_GasLeft = 500, res_GasRefund = 7\<rparr>
     9 R10_London demo_world =
   (\<lparr>res_Success = False, res_Output = [], res_GasLeft = 0, res_GasRefund = 7\<rparr>, demo_world)"
  using deploy_spec [of "\<lparr>res_Success = True, res_Output = [0xEF, 1], res_GasLeft = 500, res_GasRefund = 7\<rparr>"
      demo_context 9 R10_London demo_world] by simp

section \<open>The state contract\<close>

lemma state_op_fails:
  "snd (fst (executeStateSetBalance C s i g w)) = Some e \<Longrightarrow> executeStateSetBalance C s i g w = ((0, Some e), w)"
  "snd (fst (executeStateContractCopyCode C i g w)) = Some e \<Longrightarrow> executeStateContractCopyCode C i g w = ((0, Some e), w)"
  "snd (fst (executeStateContractSwapCode C i g w)) = Some e \<Longrightarrow> executeStateContractSwapCode C i g w = ((0, Some e), w)"
  "snd (fst (executeStateContractSetStorage C i g w)) = Some e \<Longrightarrow> executeStateContractSetStorage C i g w = ((0, Some e), w)"
  "snd (fst (executeStateContractIncNonce C s i g w)) = Some e \<Longrightarrow> executeStateContractIncNonce C s i g w = ((0, Some e), w)"
  by (auto simp: executeStateSetBalance_def executeStateContractCopyCode_def executeStateContractSwapCode_def
      executeStateContractSetStorage_def executeStateContractIncNonce_def Let_def split: if_splits)

lemma state_op_needs_gas:
  "snd (fst (executeStateSetBalance C s i g w)) = None \<Longrightarrow> 9000 \<le> g"
  "snd (fst (executeStateContractCopyCode C i g w)) = None \<Longrightarrow> 9000 \<le> g"
  "snd (fst (executeStateContractSwapCode C i g w)) = None \<Longrightarrow> 9000 \<le> g"
  "snd (fst (executeStateContractSetStorage C i g w)) = None \<Longrightarrow> 9000 \<le> g"
  "snd (fst (executeStateContractIncNonce C s i g w)) = None \<Longrightarrow> 9000 \<le> g"
  by (auto simp: executeStateSetBalance_def executeStateContractCopyCode_def executeStateContractSwapCode_def
      executeStateContractSetStorage_def executeStateContractIncNonce_def Let_def split: if_splits)

text \<open>
  Access control of the state contract: it succeeds only for the driver contract, called
  at its own address with a known method and at least 9000 units of gas; in every other case it
  changes nothing, returns no gas and no output.
\<close>

theorem state_contract_access:
  "if cr_Success (fst (runStateContract G C sender receiver input g w))
   then sender = DriverAddress \<and> receiver = StateContractAddress \<and> 9000 \<le> g \<and> 4 \<le> length input \<and>
     take 4 input \<in> {setBalanceMethodID G, copyCodeMethodID G, swapCodeMethodID G, setStorageMethodID G, incNonceMethodID G}
   else runStateContract G C sender receiver input g w = (zeroCallResult, w)"
proof -
  have zero: "zeroCallResult\<lparr>cr_Success := False, cr_GasLeft := 0\<rparr> = zeroCallResult"
    by (simp add: zeroCallResult_def)
  define op where "op =
    (if take 4 input = setBalanceMethodID G then executeStateSetBalance C sender (drop 4 input) g w
     else if take 4 input = copyCodeMethodID G then executeStateContractCopyCode C (drop 4 input) g w
     else if take 4 input = swapCodeMethodID G then executeStateContractSwapCode C (drop 4 input) g w
     else if take 4 input = setStorageMethodID G then executeStateContractSetStorage C (drop 4 input) g w
     else if take 4 input = incNonceMethodID G then executeStateContractIncNonce C sender (drop 4 input) g w
     else ((0, Some InvalidMethodID), w))"
  have fails: "op = ((0, Some e), w)" if "snd (fst op) = Some e" for e
    using that state_op_fails unfolding op_def by (auto split: if_splits)
  have ok: "9000 \<le> g \<and> take 4 input \<in> {setBalanceMethodID G, copyCodeMethodID G, swapCodeMethodID G, setStorageMethodID G, incNonceMethodID G}"
    if "snd (fst op) = None"
    using that state_op_needs_gas unfolding op_def by (auto split: if_splits)
  have run: "runStateContract G C sender receiver input g w =
      (zeroCallResult\<lparr>cr_Success := (snd (fst op) = None), cr_GasLeft := fst (fst op)\<rparr>, snd op)"
    if "receiver = StateContractAddress" "sender = DriverAddress" "\<not> length input < 4"
    using that by (simp add: runStateContract_def Let_def op_def case_prod_beta)
  show ?thesis
  proof (cases "receiver = StateContractAddress \<and> sender = DriverAddress \<and> \<not> length input < 4")
    case True
    then show ?thesis using run fails ok zero by (cases "snd (fst op)") (auto simp: not_less)
  next
    case False
    then show ?thesis by (auto simp: runStateContract_def)
  qed
qed

section \<open>Precompiled contracts\<close>

text \<open>
  The selection of precompiled contracts falls back to the oldest set for the revisions
  after Cancun: a contract that exists for Cancun only is no precompiled contract in Prague and
  Osaka.
\<close>

theorem precompiles_after_cancun:
  "getPrecompiledContracts G R13_Cancun = PrecompiledContractsCancun G \<and>
   getPrecompiledContracts G R14_Prague = PrecompiledContractsIstanbul G \<and>
   getPrecompiledContracts G R15_Osaka = PrecompiledContractsIstanbul G \<and>
   isPrecompiled demo_lib 4 R13_Cancun \<and> \<not> isPrecompiled demo_lib 4 R14_Prague"
  by (simp add: getPrecompiledContracts_def isPrecompiled_def getPrecompiledContract_def demo_lib_def)

end
