(* ===== verification/Floria_Run.thy ===== *)
theory Floria_Run
  imports Floria_Effects
begin

text \<open>
  \<open>Processor.Run\<close> as a whole: rejected transactions have no effect, failed ones only pay for
  their gas, and every run returns.
\<close>

section \<open>The cases of a run\<close>

text \<open>The world state in which the execution of a transaction starts.\<close>

definition call_world :: "'w Processor \<Rightarrow> BlockParameters \<Rightarrow> Transaction \<Rightarrow> 'w TransactionContext \<Rightarrow> 'w \<Rightarrow> 'w" where
  "call_world P b t C w =
     (let w = (if R09_Berlin \<le> revision b
               then setUpAccessList (pr_lib P) (floriaContext C) t (revision b) (Coinbase b) w else w)
      in if tx_Recipient t \<noteq> None then SetNonce C (tx_Sender t) (GetNonce C w (tx_Sender t) + 1) w else w)"

lemma runTransaction_eq:
  "runTransaction P b t C price g w =
     runContext_Call (tx_floria P b t C price) (callKind t) (callParameters t g)
       \<lparr>rx_world = call_world P b t C w, rx_depth = 0, rx_static = False, rx_stuck = False\<rparr>"
  by (simp add: runTransaction_def call_world_def Let_def callKind_def tx_floria_def)

lemma Processor_Run_cases:
  assumes "Processor_Run P b t C w = Some ((rcpt, err), w')"
  obtains (rejected) e where "checkTransaction (pr_lib P) b t C (pr_Config P) w = Some e"
      "rcpt = zeroReceipt" "err = Some e" "w' = w"
  | (unaffordable) e where "calculateAvailableGas (pr_lib P) b t C (pr_Config P) w = (Inl e, w')"
      "rcpt = zeroReceipt" "err = Some e"
  | (broken) price g w1 result s where "calculateAvailableGas (pr_lib P) b t C (pr_Config P) w = (Inr (price, g), w1)"
      "runTransaction P b t C price g w1 = ((result, True), s)" "err = Some InterpreterFailed"
  | (executed) price g w1 result s where "calculateAvailableGas (pr_lib P) b t C (pr_Config P) w = (Inr (price, g), w1)"
      "runTransaction P b t C price g w1 = ((result, False), s)" "err = None" "\<not> rx_stuck s"
      "returnExcessGas (pr_lib P) b t C price result (EthCompatible (pr_Config P)) (rx_world s) = (rcp_GasUsed rcpt, w')"
      "rcp_Success rcpt = cr_Success result" "rcp_Output rcpt = cr_Output result"
proof (cases "checkTransaction (pr_lib P) b t C (pr_Config P) w")
  case (Some e)
  then have "rcpt = zeroReceipt" "err = Some e" "w' = w" using assms by (auto simp: Processor_Run_def)
  then show thesis by (rule rejected [OF Some])
next
  case None
  obtain x w1 where x: "calculateAvailableGas (pr_lib P) b t C (pr_Config P) w = (x, w1)" by fastforce
  show thesis
  proof (cases x)
    case (Inl e)
    then have "rcpt = zeroReceipt" "err = Some e" "w1 = w'" using assms None x by (auto simp: Processor_Run_def)
    then show thesis using x Inl by (auto intro: unaffordable)
  next
    case (Inr y)
    obtain price g where y: "y = (price, g)" by fastforce
    obtain result e s where r: "runTransaction P b t C price g w1 = ((result, e), s)" by (metis surj_pair)
    note a = x [unfolded Inr y]
    show thesis
    proof (cases e)
      case True
      then have "err = Some InterpreterFailed" using assms None a r by (auto simp: Processor_Run_def split: if_splits)
      then show thesis using broken [OF a] r True by simp
    next
      case False
      let ?x = "returnExcessGas (pr_lib P) b t C price result (EthCompatible (pr_Config P)) (rx_world s)"
      have "err = None" "\<not> rx_stuck s" "?x = (rcp_GasUsed rcpt, w')" "rcp_Success rcpt = cr_Success result"
        "rcp_Output rcpt = cr_Output result"
        using assms None a r False by (auto simp: Processor_Run_def Let_def split: if_splits prod.splits)
      then show thesis using executed [OF a] r False by simp
    qed
  qed
qed

section \<open>Rejected transactions\<close>

lemma checkTransaction_errors: "checkTransaction G b t C config w \<noteq> Some InterpreterFailed"
  by (auto simp: checkTransaction_def Let_def nonceCheck_def eoaCheck_def checkBlobs_def initCodeSizeCheck_def
      split: option.splits if_splits)

lemma calculateAvailableGas_error:
  assumes "calculateAvailableGas G b t C config w = (Inl e, w')"
  shows "w' = w" and "e \<noteq> InterpreterFailed"
  using assms
  by (auto simp: calculateAvailableGas_def Let_def calculateGasPrice_def balanceCheck_def
      split: sum.splits option.splits if_splits prod.splits)

text \<open>
  C11: a transaction that is rejected, by any of the checks or because its gas cannot be
  bought, leaves the world state unchanged and has an empty receipt.
\<close>

theorem rejected_transaction_no_effect:
  assumes "Processor_Run P b t C w = Some ((receipt, Some e), w')" and "e \<noteq> InterpreterFailed"
  shows "w' = w \<and> receipt = zeroReceipt"
  using assms(1)
proof (cases rule: Processor_Run_cases)
  case (unaffordable e')
  then show ?thesis using calculateAvailableGas_error(1) by metis
qed (use assms(2) in auto)

theorem rejected_transaction_no_effect_witness:
  "\<exists>receipt w'. Processor_Run demo_processor demo_block (demo_tx\<lparr>tx_Nonce := 5\<rparr>) demo_context demo_world =
     Some ((receipt, Some NonceMismatch), w') \<and> w' = demo_world \<and> receipt = zeroReceipt"
proof -
  have "checkTransaction demo_lib demo_block (demo_tx\<lparr>tx_Nonce := 5\<rparr>) demo_context (pr_Config demo_processor) demo_world
      = Some NonceMismatch"
    by (simp add: checkTransaction_def Let_def nonceCheck_def demo_processor_def newFloriaProcessor_def demo_context_def
        with_snapshots_def accounts_context_def demo_world_def)
  then have r: "Processor_Run demo_processor demo_block (demo_tx\<lparr>tx_Nonce := 5\<rparr>) demo_context demo_world =
      Some ((zeroReceipt, Some NonceMismatch), demo_world)"
    by (simp add: Processor_Run_def, simp add: demo_processor_def newFloriaProcessor_def)
  from rejected_transaction_no_effect [OF r] r show ?thesis by blast
qed

section \<open>Execution\<close>

lemma calculateAvailableGas_bounds:
  assumes "calculateAvailableGas G b t C config w = (Inr (price, g), w')" and "tx_GasLimit t < 9223372036854775808"
    and "0 \<le> calculateSetupGas t (revision b)"
  shows "g = tx_GasLimit t - calculateSetupGas t (revision b)" and "0 \<le> g"
proof -
  have "calculateSetupGas t (revision b) \<le> tx_GasLimit t"
    and g: "g = int64 (tx_GasLimit t - calculateSetupGas t (revision b))"
    using assms(1) by (auto simp: calculateAvailableGas_def Let_def split: sum.splits option.splits if_splits)
  then show "g = tx_GasLimit t - calculateSetupGas t (revision b)" "0 \<le> g"
    using assms(2,3) int64_id [of "tx_GasLimit t - calculateSetupGas t (revision b)"] by auto
qed

lemma callParameters_simps [simp]:
  "cp_Gas (callParameters t g) = g" "cp_Input (callParameters t g) = tx_Input t"
  by (simp_all add: callParameters_def Let_def split: option.splits)

lemma call_typed_tx:
  "- 9223372036854775808 \<le> g \<Longrightarrow> g < 9223372036854775808 \<Longrightarrow> length (tx_Input t) < 9223372036854775808 \<Longrightarrow>
   call_typed (callParameters t g)"
  by (simp add: call_typed_def)

lemma int64_range: "- 9223372036854775808 \<le> int64 x" "int64 x < 9223372036854775808"
  unfolding int64_def using pos_mod_bound [of "2 ^ 64" "x + 2 ^ 63"] pos_mod_sign [of "2 ^ 64" "x + 2 ^ 63"] by auto

lemma processor_run_ends:
  assumes "\<And>price. floria_ctx (tx_floria P b t C price)" and "length (tx_Input t) < 9223372036854775808"
  shows "\<exists>receipt err w'. Processor_Run P b t C w = Some ((receipt, err), w')"
proof -
  have run: "\<not> rx_stuck (snd (runTransaction P b t C price (int64 x) w1))" for price x w1
    using floria_ctx.runContext_Call_level [OF assms(1) tracking_trivial tracked_True, where d = 0 and b = False
        and p = "callParameters t (int64 x)"] int64_range [of x] assms(2)
    by (simp add: runTransaction_eq level_def call_typed_tx)
  have gas: "\<exists>x. g = int64 x" if "calculateAvailableGas G b t C config w = (Inr (price, g), w1)" for G config price g w1
    using that by (auto simp: calculateAvailableGas_def Let_def split: sum.splits option.splits if_splits)
  obtain x w1 where x: "calculateAvailableGas (pr_lib P) b t C (pr_Config P) w = (x, w1)" by fastforce
  show ?thesis
  proof (cases x)
    case (Inl e)
    then show ?thesis using x by (auto simp: Processor_Run_def split: option.splits)
  next
    case (Inr y)
    obtain price g where y: "y = (price, g)" by fastforce
    with gas x Inr obtain k where "g = int64 k" by blast
    with run [of price k w1] have "\<not> rx_stuck (snd (runTransaction P b t C price g w1))" by simp
    then show ?thesis using x Inr y
      by (auto simp: Processor_Run_def Let_def split: option.splits prod.splits)
  qed
qed

text \<open>
  C6: the processing of a transaction returns: with an interpreter that fulfils its contract,
  every transaction gets a receipt or an error, whatever code it runs and however deep its
  calls nest.
\<close>

theorem processor_run_returns:
  assumes "\<And>price. floria_ctx (tx_floria P b t C price)" and "length (tx_Input t) < 9223372036854775808"
  shows "\<exists>receipt err w'. Processor_Run P b t C w = Some ((receipt, err), w')"
  using assms by (rule processor_run_ends)

theorem processor_run_returns_witness:
  "\<exists>receipt err w'. Processor_Run demo_processor demo_block demo_tx demo_context demo_world = Some ((receipt, err), w')"
proof (rule processor_run_returns)
  show "floria_ctx (tx_floria demo_processor demo_block demo_tx demo_context price)" for price
    using floria.floria_ctx_axioms [of demo_lib "\<lambda>_. 0" "\<lambda>_. 0" False no_lru demo_block demo_tx demo_context price]
    by (simp add: demo_processor_def demo_sliced)
  show "length (tx_Input demo_tx) < 9223372036854775808" by (simp add: demo_tx_def)
qed

text \<open>
  C12: a transaction to a contract that fails changes nothing but the settlement of its gas:
  the final world state is the one before the execution, after the purchase of gas, the
  access list and the nonce, with the unused gas given back; and the gas it is charged lies
  between the set-up gas and its limit.
\<close>

theorem failed_transaction_settles:
  assumes "\<And>price. floria_ctx (tx_floria P b t C price)" and "journal C saved"
    and "\<And>price i v. built_in_keeps (tx_floria P b t C price) (saved i v)"
    and "length (tx_Input t) < 9223372036854775808" and "tx_GasLimit t < 9223372036854775808"
    and "0 \<le> calculateSetupGas t (revision b)" and "tx_Recipient t \<noteq> None"
    and "Processor_Run P b t C w = Some ((receipt, None), w')" and "\<not> rcp_Success receipt"
  shows "\<exists>price g w1 result. calculateAvailableGas (pr_lib P) b t C (pr_Config P) w = (Inr (price, g), w1) \<and>
    \<not> cr_Success result \<and> 0 \<le> cr_GasLeft result \<and> cr_GasLeft result \<le> g \<and>
    returnExcessGas (pr_lib P) b t C price result (EthCompatible (pr_Config P)) (call_world P b t C w1) =
      (rcp_GasUsed receipt, w') \<and>
    calculateSetupGas t (revision b) \<le> rcp_GasUsed receipt \<and> rcp_GasUsed receipt \<le> tx_GasLimit t"
  using assms(8)
proof (cases rule: Processor_Run_cases)
  case (executed price g w1 result s)
  let ?F = "tx_floria P b t C price" and ?p = "callParameters t g"
  let ?s = "\<lparr>rx_world = call_world P b t C w1, rx_depth = 0, rx_static = False, rx_stuck = False\<rparr>"
  note g = calculateAvailableGas_bounds [OF executed(1) assms(5,6)]
  have p: "call_typed ?p" using g assms(4-6) by (intro call_typed_tx) auto
  have kind: "callKind t = Call" using assms(7) by (simp add: callKind_def)
  have call: "runContext_Call ?F Call ?p ?s = ((result, False), s)"
    using executed(2) by (simp add: runTransaction_eq kind)
  have fail: "\<not> cr_Success result" using executed(6) assms(9) by simp
  have J: "journal (fl_context ?F) saved"
    using journal.floriaContext_journal [OF assms(2)] by (simp add: tx_floria_def)
  have "s = ?s"
    by (rule failed_call_same [OF assms(1) J assms(3) p _ _ _ _ _ call]) (simp_all add: fail)
  then have world: "rx_world s = call_world P b t C w1" by simp
  have left: "gas_within g (cr_GasLeft result)"
    using floria_ctx.Call_n_gas [OF assms(1) p, where n = max_nesting and kind = Call and s = ?s] call g(2)
    by (simp add: runContext_Call_def)
  let ?eth = "EthCompatible (pr_Config P)"
  have l: "calculateGasLeft t result (revision b) ?eth = charged_left t result ?eth"
    using fail left by (simp add: calculateGasLeft_def charged_left_def gas_within_def Let_def)
  have c: "0 \<le> charged_left t result ?eth" "charged_left t result ?eth \<le> g"
    using charged_left_bounds [of result t ?eth] left by (auto simp: gas_within_def)
  have "rcp_GasUsed receipt = int64 (tx_GasLimit t - charged_left t result ?eth)"
    using executed(5) l by (simp add: returnExcessGas_def Let_def)
  moreover have "int64 (tx_GasLimit t - charged_left t result ?eth) = tx_GasLimit t - charged_left t result ?eth"
    using c g assms(5,6) by (intro int64_id) auto
  ultimately have "calculateSetupGas t (revision b) \<le> rcp_GasUsed receipt \<and> rcp_GasUsed receipt \<le> tx_GasLimit t"
    using c g by auto
  then show ?thesis using executed(1,5) world fail left by (auto simp: gas_within_def)
qed auto

text \<open>An example: the sender pays for the gas but cannot afford the value of the call.\<close>

definition poor_tx :: Transaction where
  "poor_tx = demo_tx\<lparr>tx_Value := 2000000\<rparr>"

lemma demo_processor_simps:
  "pr_lib demo_processor = demo_lib" "EthCompatible (pr_Config demo_processor) = False"
  "OffChainSimulation (pr_Config demo_processor) = False"
  by (simp_all add: demo_processor_def newFloriaProcessor_def)

lemma poor_tx_checked: "checkTransaction demo_lib demo_block poor_tx demo_context (pr_Config demo_processor) demo_world = None"
  by (simp add: checkTransaction_def nonceCheck_def eoaCheck_def checkBlobs_def initCodeSizeCheck_def blobHashes_def
      poor_tx_def demo_tx_def demo_context_def with_snapshots_def accounts_context_def demo_world_def demo_processor_simps)

lemma poor_tx_gas:
  "calculateAvailableGas demo_lib demo_block poor_tx demo_context (pr_Config demo_processor) demo_world =
    (Inr (2, 29000), buyGasInternal demo_lib demo_context poor_tx 2 0 demo_world)"
proof -
  have b: "BaseFee demo_block = 0" "BlobBaseFee demo_block = 0" by (simp_all add: demo_block_def demo_params_def)
  have "calculateGasPrice 0 (tx_GasFeeCap poor_tx) (tx_GasTipCap poor_tx) False = Inr 2"
    by (simp add: calculateGasPrice_def poor_tx_def demo_tx_def)
  moreover have "balanceCheck demo_lib 2 poor_tx (GetBalance demo_context demo_world (tx_Sender poor_tx)) False = None"
    by (simp add: balanceCheck_def demo_balance poor_tx_def demo_tx_def demo_lib_def blobHashes_def)
  moreover have "calculateSetupGas poor_tx r = 21000" for r
    by (simp add: calculateSetupGas_def poor_tx_def demo_tx_def)
  ultimately show ?thesis
    by (simp add: calculateAvailableGas_def demo_processor_simps b) (simp add: poor_tx_def demo_tx_def int64_def)
qed

lemma poor_tx_call:
  "fst (runTransaction demo_processor demo_block poor_tx demo_context 2 29000
     (buyGasInternal demo_lib demo_context poor_tx 2 0 demo_world)) = (errResult (callParameters poor_tx 29000), False)"
proof -
  have k: "callKind poor_tx = Call" by (simp add: callKind_def poor_tx_def demo_tx_def)
  show ?thesis
    unfolding runTransaction_eq k
    by (rule call_without_balance)
      (simp add: call_world_def setUpAccessList_def tx_floria_def demo_context_def floriaContext_def with_snapshots_def
        accounts_context_def canTransferValue_def callParameters_def poor_tx_def demo_tx_def buyGasInternal_def
        sn_upd_def demo_world_def Scale_def demo_lib_def blobHashes_def word_uint256_def SetUint64_def)
qed

theorem failed_transaction_settles_witness:
  "\<exists>receipt w' price g w1 result. Processor_Run demo_processor demo_block poor_tx demo_context demo_world =
      Some ((receipt, None), w') \<and>
    calculateAvailableGas demo_lib demo_block poor_tx demo_context (pr_Config demo_processor) demo_world =
      (Inr (price, g), w1) \<and>
    returnExcessGas demo_lib demo_block poor_tx demo_context price result False
      (call_world demo_processor demo_block poor_tx demo_context w1) = (rcp_GasUsed receipt, w') \<and>
    21000 \<le> rcp_GasUsed receipt \<and> rcp_GasUsed receipt \<le> 50000"
proof -
  let ?P = "demo_processor :: accounts snapshots Processor"
  have ctx: "floria_ctx (tx_floria ?P demo_block poor_tx demo_context price)" for price
    using floria.floria_ctx_axioms [of demo_lib "\<lambda>_. 0" "\<lambda>_. 0" False no_lru demo_block poor_tx demo_context price]
    by (simp add: demo_processor_def demo_sliced)
  have keeps: "built_in_keeps (tx_floria ?P demo_block poor_tx demo_context price) (sn_saved i v)" for price i v
    unfolding demo_processor_def demo_context_def by (rule newFloriaProcessor_keeps [OF copied.keeps_saved])
  have J: "journal demo_context sn_saved" unfolding demo_context_def by (rule copied.journal_axioms)
  have small: "length (tx_Input poor_tx) < 9223372036854775808" "tx_GasLimit poor_tx < 9223372036854775808"
    "calculateSetupGas poor_tx r = 21000" "tx_Recipient poor_tx \<noteq> None" "tx_GasLimit poor_tx = 50000" for r
    by (simp_all add: poor_tx_def demo_tx_def calculateSetupGas_def)
  obtain receipt err w' where run: "Processor_Run ?P demo_block poor_tx demo_context demo_world = Some ((receipt, err), w')"
    using processor_run_ends [OF ctx small(1)] by blast
  then have "err = None \<and> \<not> rcp_Success receipt"
    by (cases rule: Processor_Run_cases)
      (use poor_tx_checked poor_tx_gas poor_tx_call in \<open>auto simp: demo_processor_simps errResult_def\<close>)
  with run have "Processor_Run ?P demo_block poor_tx demo_context demo_world = Some ((receipt, None), w')"
    "\<not> rcp_Success receipt" by simp_all
  from failed_transaction_settles [OF ctx J keeps small(1,2) _ small(4) this] this(1) show ?thesis
    unfolding small(3,5) demo_processor_simps by auto
qed

end
