(* ===== verification/Ct_State.thy ===== *)
theory Ct_State
  imports Sfvm
begin

text \<open>
  The state model of the conformance tests (\<open>go/ct/common\<close>, \<open>go/ct/st\<close>): the 256-bit
  integers of the specification, the EVM state with its stack, memory, storage, accounts,
  code, logs and call journal, and the equality that decides whether a test passes. Pointer
  fields of the state are never nil, as \<open>NewState\<close> makes them.
\<close>

section \<open>Integers and bytes\<close>

text \<open>
  \<open>common/u256.go\<close> wraps the 256-bit integers of the library; the shifts guard their
  operand.
\<close>

definition NewU256 :: "u64 \<Rightarrow> u256" where
  "NewU256 x = SetUint64 x"

text \<open>\<open>NewU256FromBytes\<close>: more than 32 bytes panic.\<close>

definition NewU256FromBytes :: "bytes \<Rightarrow> u256 go" where
  "NewU256FromBytes bs = (if 32 < length bs then Panic else Ret (of_be_bytes bs))"

definition U256_Shl :: "uint256_lib \<Rightarrow> u256 \<Rightarrow> u256 \<Rightarrow> u256" where
  "U256_Shl U a b = (if unat b < 256 then u_Lsh U a (unat (Uint64 b)) else 0)"

definition U256_Shr :: "uint256_lib \<Rightarrow> u256 \<Rightarrow> u256 \<Rightarrow> u256" where
  "U256_Shr U a b = (if unat b < 256 then u_Rsh U a (unat (Uint64 b)) else 0)"

definition U256_Srsh :: "uint256_lib \<Rightarrow> u256 \<Rightarrow> u256 \<Rightarrow> u256" where
  "U256_Srsh U a b =
     (if 256 < unat b then (if a = 0 \<or> 0 \<le> u_Sign U a then NewU256 0 else - 1)
      else u_SRsh U a (unat (Uint64 b)))"

definition NewAddress :: "u256 \<Rightarrow> Address" where
  "NewAddress x = Bytes20 x"

definition AddressToU256 :: "Address \<Rightarrow> u256" where
  "AddressToU256 a = SetBytes20 a"

text \<open>\<open>Bytes.Get\<close>: the slice \<open>data[start:end]\<close>.\<close>

definition Bytes_Get :: "bytes \<Rightarrow> u64 \<Rightarrow> u64 \<Rightarrow> bytes go" where
  "Bytes_Get bs start end =
     (if end < start \<or> length bs < unat end then Panic
      else Ret (take (unat end - unat start) (drop (unat start) bs)))"

definition ct_RightPadSlice :: "bytes \<Rightarrow> nat \<Rightarrow> bytes" where
  "ct_RightPadSlice source sz = overwrite 0 (take sz source) (replicate sz 0)"

definition ParseDelegationDesignator :: "bytes \<Rightarrow> Address \<times> bool" where
  "ParseDelegationDesignator raw =
     (if length raw \<noteq> 23 then (0, False)
      else if take 3 raw = [0xef, 0x01, 0x00] then (of_be_bytes (take 20 (drop 3 raw)), True)
      else (0, False))"

abbreviation NewestSupportedRevision :: Revision where "NewestSupportedRevision \<equiv> R15_Osaka"
abbreviation R99_UnknownNextRevision :: Revision where "R99_UnknownNextRevision \<equiv> Revision 99"
abbreviation MinRevision :: Revision where "MinRevision \<equiv> R07_Istanbul"

text \<open>\<open>ImmutableHashArray\<close>: \<open>None\<close> is the nil pointer of the zero value.\<close>

type_synonym ImmutableHashArray = "Hash list option"

definition HashArray_Get :: "ImmutableHashArray \<Rightarrow> u64 \<Rightarrow> Hash go" where
  "HashArray_Get b index =
     (if b = None \<and> index < 256 then Ret 0
      else if 256 \<le> index then Panic
      else Ret (the b ! unat index))"

definition HashArray_Equal :: "ImmutableHashArray \<Rightarrow> ImmutableHashArray \<Rightarrow> bool" where
  "HashArray_Equal b other =
     (case (b, other) of
        (None, None) \<Rightarrow> True
      | (None, Some d) \<Rightarrow> d = replicate 256 0
      | (Some d, None) \<Rightarrow> d = replicate 256 0
      | (Some d, Some e) \<Rightarrow> d = e)"

section \<open>Code\<close>

record Code =
  cd_code :: bytes
  cd_isCode :: "bool list"

text \<open>The loop of \<open>NewCode\<close> from position \<open>i\<close> on.\<close>

function NewCode_loop :: "bytes \<Rightarrow> nat \<Rightarrow> bool list \<Rightarrow> bool list" where
  "NewCode_loop cd i isCode =
     (if i < length cd then
        (let isCode = isCode @ [True]; op = unat (cd ! i) in
         if PUSH1 \<le> op \<and> op \<le> PUSH32 then
           (let width = op - PUSH1 + 1
            in NewCode_loop cd (i + width + 1) (isCode @ replicate width False))
         else NewCode_loop cd (i + 1) isCode)
      else isCode)"
  by pat_completeness auto
termination by (relation "measure (\<lambda>(cd, i, _). length cd - i)") auto

declare NewCode_loop.simps [simp del]

definition NewCode :: "bytes \<Rightarrow> Code" where
  "NewCode cd = \<lparr>cd_code = cd, cd_isCode = NewCode_loop cd 0 []\<rparr>"

definition Code_Length :: "Code \<Rightarrow> nat" where
  "Code_Length c = length (cd_code c)"

definition IsCode_at :: "Code \<Rightarrow> int \<Rightarrow> bool" where
  "IsCode_at c pos = (if pos < 0 \<or> int (length (cd_isCode c)) \<le> pos then True else cd_isCode c ! nat pos)"

definition IsData_at :: "Code \<Rightarrow> int \<Rightarrow> bool" where
  "IsData_at c pos = (\<not> IsCode_at c pos)"

text \<open>\<open>None\<close>: the error \<open>ErrInvalidPosition\<close>. The lookup in the code panics beyond its end.\<close>

definition GetOperation :: "Code \<Rightarrow> int \<Rightarrow> OpCode option" where
  "GetOperation c pos =
     (if pos < 0 \<or> int (length (cd_isCode c)) \<le> pos then Some STOP
      else if \<not> cd_isCode c ! nat pos then None
      else Some (unat (cd_code c ! nat pos)))"

definition GetData :: "Code \<Rightarrow> int \<Rightarrow> byte option" where
  "GetData c pos =
     (if \<not> IsData_at c pos then None
      else if int (length (cd_code c)) \<le> pos then Some 0
      else Some (cd_code c ! nat pos))"

section \<open>Memory\<close>

text \<open>\<open>Grow\<close>: the slice is extended to a multiple of 32 bytes; a wrapped size panics.\<close>

definition Mem_Grow :: "u64 \<Rightarrow> u64 \<Rightarrow> bytes \<Rightarrow> bytes go" where
  "Mem_Grow offset sz m =
     (if sz = 0 then Ret m
      else
        (let newSize = offset + sz in
         if length m < unat newSize then
           (let newSize = SizeInWords newSize * 32 in
            if unat newSize < length m then Panic
            else Ret (m @ replicate (unat newSize - length m) 0))
         else Ret m))"

definition Mem_Read :: "u64 \<Rightarrow> u64 \<Rightarrow> bytes \<Rightarrow> (bytes \<times> bytes) go" where
  "Mem_Read offset sz m =
     (if sz = 0 then Ret ([], m)
      else (case Mem_Grow offset sz m of
              Panic \<Rightarrow> Panic
            | Ret m \<Rightarrow>
                if offset + sz < offset \<or> length m < unat (offset + sz) then Panic
                else Ret (take (unat (offset + sz) - unat offset) (drop (unat offset) m), m)))"

definition Mem_Write :: "bytes \<Rightarrow> u64 \<Rightarrow> bytes \<Rightarrow> bytes go" where
  "Mem_Write data offset m =
     (if length data = 0 then Ret m
      else (case Mem_Grow offset (word_of_nat (length data)) m of
              Panic \<Rightarrow> Panic
            | Ret m \<Rightarrow>
                if length m < unat offset then Panic
                else Ret (overwrite (unat offset) (take (length m - unat offset) data) m)))"

abbreviation MaxMemoryExpansionSize :: u64 where "MaxMemoryExpansionSize \<equiv> 0x1FFFFFFFE0"
abbreviation MaxInt64 :: int where "MaxInt64 \<equiv> 9223372036854775807"

definition calcMemoryCost :: "u64 \<Rightarrow> Gas" where
  "calcMemoryCost sz =
     (let ws = sz div 32; ws = (if sz mod 32 \<noteq> 0 then ws + 1 else ws)
      in int64 (uint ((ws * ws) div 512 + 3 * ws)))"

definition ExpansionCosts :: "bytes \<Rightarrow> u256 \<Rightarrow> u256 \<Rightarrow> Gas \<times> u64 \<times> u64" where
  "ExpansionCosts m offset_u256 sz_u256 =
     (if \<not> IsUint64 sz_u256 then (MaxInt64, 0, 0)
      else if \<not> IsUint64 offset_u256 then
        (if sz_u256 = 0 then (0, 0, 0) else (MaxInt64, 0, 0))
      else
        (let offset = Uint64 offset_u256; sz = Uint64 sz_u256 in
         if sz = 0 then (0, offset, sz)
         else if offset > - 1 - sz \<or> sz > - 1 - offset then (MaxInt64, offset, sz)
         else
           (let newSize = offset + sz in
            if unat newSize \<le> length m then (0, offset, sz)
            else if newSize > MaxMemoryExpansionSize then (MaxInt64, offset, sz)
            else (calcMemoryCost newSize - calcMemoryCost (word_of_nat (length m)), offset, sz))))"

text \<open>\<open>Memory.Hash\<close>, with the Keccak function as a parameter.\<close>

definition Mem_Hash :: "(bytes \<Rightarrow> Hash) \<Rightarrow> u64 \<Rightarrow> u64 \<Rightarrow> bytes \<Rightarrow> (Hash \<times> bytes) go" where
  "Mem_Hash K offset sz m =
     (case Mem_Grow offset sz m of
        Panic \<Rightarrow> Panic
      | Ret m \<Rightarrow>
          if 0 < sz then
            (if offset + sz < offset \<or> length m < unat (offset + sz) then Panic
             else Ret (K (take (unat (offset + sz) - unat offset) (drop (unat offset) m)), m))
          else Ret (K [], m))"

section \<open>Storage, accounts, logs and calls\<close>

record Storage =
  sto_current :: "u256 \<rightharpoonup> u256"
  sto_original :: "u256 \<rightharpoonup> u256"
  sto_warm :: "u256 \<rightharpoonup> bool"

text \<open>Go's lookup in a map of integers returns zero for a missing key.\<close>

definition lookup0 :: "('k \<rightharpoonup> u256) \<Rightarrow> 'k \<Rightarrow> u256" where
  "lookup0 m k = (case m k of None \<Rightarrow> 0 | Some v \<Rightarrow> v)"

definition GetCurrent :: "Storage \<Rightarrow> u256 \<Rightarrow> u256" where
  "GetCurrent s key = lookup0 (sto_current s) key"

definition GetOriginal :: "Storage \<Rightarrow> u256 \<Rightarrow> u256" where
  "GetOriginal s key = lookup0 (sto_original s) key"

definition SetCurrent :: "u256 \<Rightarrow> u256 \<Rightarrow> Storage \<Rightarrow> Storage" where
  "SetCurrent key v s = s\<lparr>sto_current := (sto_current s)(key \<mapsto> v)\<rparr>"

definition Storage_IsWarm :: "Storage \<Rightarrow> u256 \<Rightarrow> bool" where
  "Storage_IsWarm s key = (sto_warm s key = Some True)"

definition Storage_MarkWarm :: "u256 \<Rightarrow> Storage \<Rightarrow> Storage" where
  "Storage_MarkWarm key s = s\<lparr>sto_warm := (sto_warm s)(key \<mapsto> True)\<rparr>"

text \<open>A key that is missing in one map must be zero or missing in the other.\<close>

definition mapEqualIgnoringZeroValues :: "('k \<rightharpoonup> u256) \<Rightarrow> ('k \<rightharpoonup> u256) \<Rightarrow> bool" where
  "mapEqualIgnoringZeroValues a b \<longleftrightarrow>
     (\<forall>key valueA. a key = Some valueA \<longrightarrow>
        \<not> (b key = None \<and> valueA \<noteq> 0) \<and> valueA = lookup0 b key) \<and>
     (\<forall>key valueB. b key = Some valueB \<longrightarrow> \<not> (a key = None \<and> valueB \<noteq> 0))"

definition Storage_Eq :: "Storage \<Rightarrow> Storage \<Rightarrow> bool" where
  "Storage_Eq s other \<longleftrightarrow>
     mapEqualIgnoringZeroValues (sto_current s) (sto_current other) \<and>
     sto_original s = sto_original other \<and> sto_warm s = sto_warm other"

type_synonym TransientStorage = "u256 \<rightharpoonup> u256"

definition Transient_Set :: "u256 \<Rightarrow> u256 \<Rightarrow> TransientStorage \<Rightarrow> TransientStorage" where
  "Transient_Set key v t = (if v = 0 then t(key := None) else t(key \<mapsto> v))"

definition Transient_Get :: "TransientStorage \<Rightarrow> u256 \<Rightarrow> u256" where
  "Transient_Get t key = lookup0 t key"

definition Transient_IsZero :: "TransientStorage \<Rightarrow> u256 \<Rightarrow> bool" where
  "Transient_IsZero t key \<longleftrightarrow> lookup0 t key = 0"

record Account =
  acc_Balance :: u256
  acc_Code :: bytes

record Accounts =
  acs_accounts :: "Address \<rightharpoonup> Account"
  acs_warm :: "Address set"

definition GetAccount :: "Accounts \<Rightarrow> Address \<Rightarrow> Account" where
  "GetAccount a addr =
     (case acs_accounts a addr of None \<Rightarrow> \<lparr>acc_Balance = 0, acc_Code = []\<rparr> | Some x \<Rightarrow> x)"

definition Accounts_Exists :: "Accounts \<Rightarrow> Address \<Rightarrow> bool" where
  "Accounts_Exists a addr \<longleftrightarrow> acs_accounts a addr \<noteq> None"

definition Accounts_IsEmpty :: "Accounts \<Rightarrow> Address \<Rightarrow> bool" where
  "Accounts_IsEmpty a addr \<longleftrightarrow> GetAccount a addr = \<lparr>acc_Balance = 0, acc_Code = []\<rparr>"

definition Accounts_GetBalance :: "Accounts \<Rightarrow> Address \<Rightarrow> u256" where
  "Accounts_GetBalance a addr = acc_Balance (GetAccount a addr)"

definition Accounts_GetCode :: "Accounts \<Rightarrow> Address \<Rightarrow> bytes" where
  "Accounts_GetCode a addr = acc_Code (GetAccount a addr)"

text \<open>
  \<open>hasher.Sum(hash[:])\<close> appends the digest to a copy of its argument and returns it; the
  result is dropped, and the array that \<open>GetCodeHash\<close> returns stays zero.
\<close>

definition Accounts_GetCodeHash :: "Accounts \<Rightarrow> Address \<Rightarrow> Hash" where
  "Accounts_GetCodeHash a addr = 0"

definition Accounts_IsWarm :: "Accounts \<Rightarrow> Address \<Rightarrow> bool" where
  "Accounts_IsWarm a addr \<longleftrightarrow> addr \<in> acs_warm a"

definition Accounts_MarkWarm :: "Address \<Rightarrow> Accounts \<Rightarrow> Accounts" where
  "Accounts_MarkWarm addr a = a\<lparr>acs_warm := insert addr (acs_warm a)\<rparr>"

definition Accounts_Eq :: "Accounts \<Rightarrow> Accounts \<Rightarrow> bool" where
  "Accounts_Eq a b \<longleftrightarrow> acs_accounts a = acs_accounts b \<and> acs_warm a = acs_warm b"

record LogEntry =
  le_Topics :: "u256 list"
  le_Data :: bytes

type_synonym Logs = "LogEntry list"

definition AddLog :: "bytes \<Rightarrow> u256 list \<Rightarrow> Logs \<Rightarrow> Logs" where
  "AddLog data topics l = l @ [\<lparr>le_Topics = topics, le_Data = data\<rparr>]"

record PastCall =
  pst_Kind :: CallKind
  pst_Recipient :: Address
  pst_Sender :: Address
  pst_Input :: bytes
  pst_Value :: Value
  pst_Gas :: Gas
  pst_CodeAddress :: Address

record FutureCall =
  fut_Success :: bool
  fut_Output :: bytes
  fut_GasCosts :: Gas
  fut_GasRefund :: Gas
  fut_CreatedAccount :: Address

record CallJournal =
  Past :: "PastCall list"
  Future :: "FutureCall list"

definition CallJournal_Call :: "CallKind \<Rightarrow> CallParameters \<Rightarrow> CallJournal \<Rightarrow> CallResult \<times> CallJournal" where
  "CallJournal_Call kind p j =
     (let j = j\<lparr>Past := Past j @
            [\<lparr>pst_Kind = kind, pst_Recipient = cp_Recipient p, pst_Sender = cp_Sender p,
              pst_Input = cp_Input p, pst_Value = cp_Value p, pst_Gas = cp_Gas p,
              pst_CodeAddress = cp_CodeAddress p\<rparr>]\<rparr>;
          (result, j) =
            (case Future j of
               [] \<Rightarrow> (\<lparr>fut_Success = False, fut_Output = [], fut_GasCosts = 0, fut_GasRefund = 0,
                       fut_CreatedAccount = 0\<rparr>, j)
             | f # fs \<Rightarrow> (f, j\<lparr>Future := fs\<rparr>));
          gasLeft = (if cp_Gas p < fut_GasCosts result then 0 else int64 (cp_Gas p - fut_GasCosts result))
      in (\<lparr>cr_Output = fut_Output result, cr_GasLeft = gasLeft, cr_GasRefund = fut_GasRefund result,
           cr_CreatedAddress = fut_CreatedAccount result, cr_Success = fut_Success result\<rparr>, j))"

section \<open>The state\<close>

datatype StatusCode = Running | Stopped | Reverted | Failed

record CallContext =
  cc_AccountAddress :: Address
  cc_CallerAddress :: Address
  cc_Value :: u256

record BlockContext =
  bc_BaseFee :: u256
  bc_BlobBaseFee :: u256
  bc_BlockNumber :: u64
  bc_ChainID :: u256
  bc_CoinBase :: Address
  bc_GasLimit :: u64
  bc_GasPrice :: u256
  bc_PrevRandao :: u256
  bc_TimeStamp :: u64

record ct_TransactionContext =
  tc_OriginAddress :: Address
  tc_BlobHashes :: "Hash list"

text \<open>The stack has its top at the end of the list.\<close>

record State =
  st_Status :: StatusCode
  st_Revision :: Revision
  st_ReadOnly :: bool
  st_Pc :: u16
  st_Gas :: Gas
  st_GasRefund :: Gas
  st_Code :: Code
  st_Stack :: "u256 list"
  st_Memory :: bytes
  st_Storage :: Storage
  st_TransientStorage :: TransientStorage
  st_Accounts :: Accounts
  st_Logs :: Logs
  st_CallContext :: CallContext
  st_CallJournal :: CallJournal
  st_BlockContext :: BlockContext
  st_CallData :: bytes
  st_LastCallReturnData :: bytes
  st_ReturnData :: bytes
  st_IsNewContract :: bool
  st_HasSelfDestructed :: bool
  st_SelfDestructedJournal :: "(Address \<times> Address) list"
  st_RecentBlockHashes :: ImmutableHashArray
  st_TransactionContext :: ct_TransactionContext

definition State_Eq :: "State \<Rightarrow> State \<Rightarrow> bool" where
  "State_Eq s other =
     (if st_Status s \<noteq> st_Status other then False
      else if st_Status s = Failed \<and> st_Status other = Failed then True
      else
        (let equivalent =
           (cd_code (st_Code s) = cd_code (st_Code other) \<and> st_Revision s = st_Revision other \<and>
            st_ReadOnly s = st_ReadOnly other \<and> st_Gas s = st_Gas other \<and>
            st_GasRefund s = st_GasRefund other \<and> st_CallContext s = st_CallContext other \<and>
            st_CallJournal s = st_CallJournal other \<and> st_BlockContext s = st_BlockContext other \<and>
            st_CallData s = st_CallData other \<and> Storage_Eq (st_Storage s) (st_Storage other) \<and>
            mapEqualIgnoringZeroValues (st_TransientStorage s) (st_TransientStorage other) \<and>
            Accounts_Eq (st_Accounts s) (st_Accounts other) \<and> st_Logs s = st_Logs other \<and>
            st_IsNewContract s = st_IsNewContract other \<and>
            st_HasSelfDestructed s = st_HasSelfDestructed other \<and>
            st_SelfDestructedJournal s = st_SelfDestructedJournal other \<and>
            HashArray_Equal (st_RecentBlockHashes s) (st_RecentBlockHashes other) \<and>
            st_TransactionContext s = st_TransactionContext other)
         in if st_Status s \<noteq> Running then equivalent \<and> st_ReturnData s = st_ReturnData other
            else
              (let sz = word_of_nat (Code_Length (st_Code s)) :: u16;
                   equivalentPc = (st_Pc s = st_Pc other \<or> (st_Pc s \<ge> sz \<and> st_Pc other \<ge> sz))
               in equivalent \<and> equivalentPc \<and> st_Stack s = st_Stack other \<and>
                  st_Memory s = st_Memory other \<and>
                  st_LastCallReturnData s = st_LastCallReturnData other)))"

text \<open>Operations of the stack and the memory as state changes that may panic.\<close>

definition Stack_Pop :: "State \<Rightarrow> (State, u256) res" where
  "Stack_Pop s =
     (if length (st_Stack s) = 0 then fail GoPanic s
      else ret (st_Stack s ! (length (st_Stack s) - 1)) (s\<lparr>st_Stack := take (length (st_Stack s) - 1) (st_Stack s)\<rparr>))"

definition Stack_Push :: "u256 \<Rightarrow> State \<Rightarrow> State" where
  "Stack_Push v s = s\<lparr>st_Stack := st_Stack s @ [v]\<rparr>"

definition Stack_Get :: "nat \<Rightarrow> State \<Rightarrow> (State, u256) res" where
  "Stack_Get index s =
     (if index < length (st_Stack s) then ret (st_Stack s ! (length (st_Stack s) - index - 1)) s
      else fail GoPanic s)"

definition Stack_Set :: "nat \<Rightarrow> u256 \<Rightarrow> State \<Rightarrow> (State, unit) res" where
  "Stack_Set index v s =
     (if index < length (st_Stack s)
      then ret () (s\<lparr>st_Stack := (st_Stack s)[length (st_Stack s) - index - 1 := v]\<rparr>)
      else fail GoPanic s)"

definition Memory_Grow :: "u64 \<Rightarrow> u64 \<Rightarrow> State \<Rightarrow> (State, unit) res" where
  "Memory_Grow offset sz s =
     (case Mem_Grow offset sz (st_Memory s) of
        Panic \<Rightarrow> fail GoPanic s
      | Ret m \<Rightarrow> ret () (s\<lparr>st_Memory := m\<rparr>))"

definition Memory_Read :: "u64 \<Rightarrow> u64 \<Rightarrow> State \<Rightarrow> (State, bytes) res" where
  "Memory_Read offset sz s =
     (case Mem_Read offset sz (st_Memory s) of
        Panic \<Rightarrow> fail GoPanic s
      | Ret (bs, m) \<Rightarrow> ret bs (s\<lparr>st_Memory := m\<rparr>))"

definition Memory_Write :: "bytes \<Rightarrow> u64 \<Rightarrow> State \<Rightarrow> (State, unit) res" where
  "Memory_Write data offset s =
     (case Mem_Write data offset (st_Memory s) of
        Panic \<Rightarrow> fail GoPanic s
      | Ret m \<Rightarrow> ret () (s\<lparr>st_Memory := m\<rparr>))"

definition Memory_Hash :: "(bytes \<Rightarrow> Hash) \<Rightarrow> u64 \<Rightarrow> u64 \<Rightarrow> State \<Rightarrow> (State, Hash) res" where
  "Memory_Hash K offset sz s =
     (case Mem_Hash K offset sz (st_Memory s) of
        Panic \<Rightarrow> fail GoPanic s
      | Ret (h, m) \<Rightarrow> ret h (s\<lparr>st_Memory := m\<rparr>))"

text \<open>A Go call that may panic, in an effect.\<close>

definition lift_go :: "'a go \<Rightarrow> State \<Rightarrow> (State, 'a) res" where
  "lift_go x s = (case x of Panic \<Rightarrow> fail GoPanic s | Ret v \<Rightarrow> ret v s)"

definition on_accounts :: "(Accounts \<Rightarrow> Accounts) \<Rightarrow> State \<Rightarrow> State" where
  "on_accounts f s = s\<lparr>st_Accounts := f (st_Accounts s)\<rparr>"

definition on_storage :: "(Storage \<Rightarrow> Storage) \<Rightarrow> State \<Rightarrow> State" where
  "on_storage f s = s\<lparr>st_Storage := f (st_Storage s)\<rparr>"

end
