(* ===== verification/Ct_Rules.thy ===== *)
theory Ct_Rules
  imports Ct_State
begin

text \<open>
  The rule language of the conformance tests (\<open>go/ct/rlz\<close>): expressions over states,
  conditions, effects and rules. Of an expression the model has \<open>Eval\<close>, of a condition
  \<open>Check\<close>; what serves the generation of test states (domains, samples, restrictions of
  generators, names) is left out.
\<close>

section \<open>Expressions\<close>

datatype rlz_error = ErrStackOutOfBoundsAccess | ErrInvalidPosition

type_synonym 'a Expression = "State \<Rightarrow> rlz_error + 'a"

definition Status :: "StatusCode Expression" where
  "Status s = Inr (st_Status s)"

definition Pc :: "u256 Expression" where
  "Pc s = Inr (NewU256 (ucast (st_Pc s)))"

definition GasExpr :: "Gas Expression" where
  "GasExpr s = Inr (st_Gas s)"

definition SelfAddress :: "Address Expression" where
  "SelfAddress s = Inr (cc_AccountAddress (st_CallContext s))"

definition ReadOnly :: "bool Expression" where
  "ReadOnly s = Inr (st_ReadOnly s)"

definition Balance :: "Address Expression \<Rightarrow> u256 Expression" where
  "Balance account s =
     (case account s of Inl e \<Rightarrow> Inl e | Inr a \<Rightarrow> Inr (Accounts_GetBalance (st_Accounts s) a))"

definition Op :: "u256 Expression \<Rightarrow> OpCode Expression" where
  "Op position s =
     (case position s of
        Inl e \<Rightarrow> Inl e
      | Inr pos \<Rightarrow>
          if \<not> IsUint64 pos \<or> 9223372036854775807 < Uint64 pos then Inr STOP
          else (case GetOperation (st_Code s) (uint (Uint64 pos)) of
                  None \<Rightarrow> Inl ErrInvalidPosition
                | Some op \<Rightarrow> Inr op))"

definition StackSize :: "int Expression" where
  "StackSize s = Inr (int (length (st_Stack s)))"

definition Param :: "nat \<Rightarrow> u256 Expression" where
  "Param pos s =
     (if length (st_Stack s) \<le> pos then Inl ErrStackOutOfBoundsAccess
      else Inr (st_Stack s ! (length (st_Stack s) - pos - 1)))"

text \<open>\<open>ValueParam\<close> differs from \<open>Param\<close> only in the domain of its samples.\<close>

definition ValueParam :: "nat \<Rightarrow> u256 Expression" where
  "ValueParam = Param"

section \<open>Conditions\<close>

text \<open>
  The specification looks into conditions in two places only: conjunctions are merged, and
  revision bounds are recognised. All other conditions are given by their \<open>Check\<close> method.
\<close>

datatype Condition =
    conjunction "Condition list"
  | revisionBounds Revision Revision
  | basic "State \<Rightarrow> rlz_error + bool"

fun Check :: "Condition \<Rightarrow> State \<Rightarrow> rlz_error + bool" and
  Check_all :: "Condition list \<Rightarrow> State \<Rightarrow> rlz_error + bool" where
  "Check (conjunction cs) s = Check_all cs s"
| "Check (revisionBounds lo hi) s = Inr (lo \<le> st_Revision s \<and> st_Revision s \<le> hi)"
| "Check (basic f) s = f s"
| "Check_all [] s = Inr True"
| "Check_all (c # cs) s =
     (case Check c s of
        Inl e \<Rightarrow> Inl e
      | Inr r \<Rightarrow> if r then Check_all cs s else Inr False)"

definition And :: "Condition list \<Rightarrow> Condition" where
  "And conditions =
     (case conditions of
        [c] \<Rightarrow> c
      | _ \<Rightarrow> conjunction (concat (map (\<lambda>c. case c of conjunction cs \<Rightarrow> cs | _ \<Rightarrow> [c]) conditions)))"

text \<open>The comparison of an expression with a value.\<close>

definition compare_with :: "('a \<Rightarrow> bool) \<Rightarrow> 'a Expression \<Rightarrow> Condition" where
  "compare_with f lhs = basic (\<lambda>s. case lhs s of Inl e \<Rightarrow> Inl e | Inr v \<Rightarrow> Inr (f v))"

definition Eq :: "'a Expression \<Rightarrow> 'a \<Rightarrow> Condition" where
  "Eq lhs rhs = compare_with (\<lambda>v. v = rhs) lhs"

definition Ne :: "'a Expression \<Rightarrow> 'a \<Rightarrow> Condition" where
  "Ne lhs rhs = compare_with (\<lambda>v. v \<noteq> rhs) lhs"

definition Lt :: "'a::linorder Expression \<Rightarrow> 'a \<Rightarrow> Condition" where
  "Lt lhs rhs = compare_with (\<lambda>v. v < rhs) lhs"

definition Le :: "'a::linorder Expression \<Rightarrow> 'a \<Rightarrow> Condition" where
  "Le lhs rhs = compare_with (\<lambda>v. v < rhs \<or> v = rhs) lhs"

definition Gt :: "'a::linorder Expression \<Rightarrow> 'a \<Rightarrow> Condition" where
  "Gt lhs rhs = compare_with (\<lambda>v. \<not> v < rhs \<and> v \<noteq> rhs) lhs"

definition Ge :: "'a::linorder Expression \<Rightarrow> 'a \<Rightarrow> Condition" where
  "Ge lhs rhs = compare_with (\<lambda>v. \<not> v < rhs) lhs"

text \<open>\<open>RevisionBounds\<close> panics if the bounds are out of order; the specification never does that.\<close>

definition RevisionBounds :: "Revision \<Rightarrow> Revision \<Rightarrow> Condition" where
  "RevisionBounds lo hi = revisionBounds lo hi"

definition IsRevision :: "Revision \<Rightarrow> Condition" where
  "IsRevision r = RevisionBounds r r"

definition IsRevisionCondition :: "Condition \<Rightarrow> bool" where
  "IsRevisionCondition c = (case c of revisionBounds _ _ \<Rightarrow> True | _ \<Rightarrow> False)"

definition AnyKnownRevision :: Condition where
  "AnyKnownRevision = RevisionBounds MinRevision NewestSupportedRevision"

text \<open>A condition on the value of an expression and the state.\<close>

definition on_value :: "'a Expression \<Rightarrow> ('a \<Rightarrow> State \<Rightarrow> bool) \<Rightarrow> Condition" where
  "on_value e f = basic (\<lambda>s. case e s of Inl err \<Rightarrow> Inl err | Inr v \<Rightarrow> Inr (f v s))"

definition IsCode :: "u256 Expression \<Rightarrow> Condition" where
  "IsCode position = on_value position (\<lambda>pos s.
     if \<not> IsUint64 pos \<or> 9223372036854775807 < Uint64 pos then True
     else IsCode_at (st_Code s) (uint (Uint64 pos)))"

definition IsData :: "u256 Expression \<Rightarrow> Condition" where
  "IsData position = on_value position (\<lambda>pos s.
     if \<not> IsUint64 pos \<or> 9223372036854775807 < Uint64 pos then False
     else IsData_at (st_Code s) (uint (Uint64 pos)))"

definition IsStorageWarm :: "u256 Expression \<Rightarrow> Condition" where
  "IsStorageWarm key = on_value key (\<lambda>k s. Storage_IsWarm (st_Storage s) k)"

definition IsStorageCold :: "u256 Expression \<Rightarrow> Condition" where
  "IsStorageCold key = on_value key (\<lambda>k s. \<not> Storage_IsWarm (st_Storage s) k)"

definition CheckStorageStatusConfig :: "StorageStatus \<Rightarrow> u256 \<Rightarrow> u256 \<Rightarrow> u256 \<Rightarrow> bool" where
  "CheckStorageStatusConfig config org cur new \<longleftrightarrow> config = GetStorageStatus org cur new"

definition StorageConfiguration :: "StorageStatus \<Rightarrow> u256 Expression \<Rightarrow> u256 Expression \<Rightarrow> Condition" where
  "StorageConfiguration config key newValue = basic (\<lambda>s.
     case key s of
       Inl e \<Rightarrow> Inl e
     | Inr k \<Rightarrow>
         (case newValue s of
            Inl e \<Rightarrow> Inl e
          | Inr v \<Rightarrow> Inr (CheckStorageStatusConfig config (GetOriginal (st_Storage s) k)
                            (GetCurrent (st_Storage s) k) v)))"

definition BindTransientStorageToNonZero :: "u256 Expression \<Rightarrow> Condition" where
  "BindTransientStorageToNonZero key = on_value key (\<lambda>k s. \<not> Transient_IsZero (st_TransientStorage s) k)"

definition BindTransientStorageToZero :: "u256 Expression \<Rightarrow> Condition" where
  "BindTransientStorageToZero key = on_value key (\<lambda>k s. Transient_IsZero (st_TransientStorage s) k)"

definition AccountIsEmpty :: "u256 Expression \<Rightarrow> Condition" where
  "AccountIsEmpty address = on_value address (\<lambda>a s. Accounts_IsEmpty (st_Accounts s) (NewAddress a))"

definition AccountIsNotEmpty :: "u256 Expression \<Rightarrow> Condition" where
  "AccountIsNotEmpty address = on_value address (\<lambda>a s. \<not> Accounts_IsEmpty (st_Accounts s) (NewAddress a))"

definition IsAddressWarm :: "u256 Expression \<Rightarrow> Condition" where
  "IsAddressWarm key = on_value key (\<lambda>k s. Accounts_IsWarm (st_Accounts s) (NewAddress k))"

definition IsAddressCold :: "u256 Expression \<Rightarrow> Condition" where
  "IsAddressCold key = on_value key (\<lambda>k s. \<not> Accounts_IsWarm (st_Accounts s) (NewAddress k))"

definition ct_IsNewContract :: Condition where
  "ct_IsNewContract = basic (\<lambda>s. Inr (st_IsNewContract s))"

definition IsNotNewContract :: Condition where
  "IsNotNewContract = basic (\<lambda>s. Inr (\<not> st_IsNewContract s))"

definition HasSelfDestructed :: Condition where
  "HasSelfDestructed = basic (\<lambda>s. Inr (st_HasSelfDestructed s))"

definition HasNotSelfDestructed :: Condition where
  "HasNotSelfDestructed = basic (\<lambda>s. Inr (\<not> st_HasSelfDestructed s))"

definition inRange256 :: "u256 \<Rightarrow> State \<Rightarrow> bool" where
  "inRange256 v s =
     (if \<not> IsUint64 v then False
      else
        (let uintParam = Uint64 v; number = bc_BlockNumber (st_BlockContext s);
             bottom = (if 256 < number then number - 256 else 0)
         in bottom \<le> uintParam \<and> uintParam < number))"

definition InRange256FromCurrentBlock :: "u256 Expression \<Rightarrow> Condition" where
  "InRange256FromCurrentBlock blockNumber = on_value blockNumber inRange256"

definition OutOfRange256FromCurrentBlock :: "u256 Expression \<Rightarrow> Condition" where
  "OutOfRange256FromCurrentBlock blockNumber = on_value blockNumber (\<lambda>v s. \<not> inRange256 v s)"

definition blobHashPresent :: "u256 \<Rightarrow> State \<Rightarrow> bool" where
  "blobHashPresent v s \<longleftrightarrow>
     IsUint64 v \<and> unat (Uint64 v) < length (tc_BlobHashes (st_TransactionContext s))"

definition HasBlobHash :: "u256 Expression \<Rightarrow> Condition" where
  "HasBlobHash index = on_value index blobHashPresent"

definition HasNoBlobHash :: "u256 Expression \<Rightarrow> Condition" where
  "HasNoBlobHash index = on_value index (\<lambda>v s. \<not> blobHashPresent v s)"

datatype DelegationDesignatorState =
    NoDelegationDesignation
  | WarmDelegationDesignation
  | ColdDelegationDesignation

definition ConstraintDelegationDesignator :: "u256 Expression \<Rightarrow> DelegationDesignatorState \<Rightarrow> Condition" where
  "ConstraintDelegationDesignator address st = on_value address (\<lambda>key s.
     let account = GetAccount (st_Accounts s) (NewAddress key);
         (delegateAddress, isDelegated) = ParseDelegationDesignator (acc_Code account)
     in case st of
          NoDelegationDesignation \<Rightarrow> \<not> isDelegated
        | WarmDelegationDesignation \<Rightarrow> isDelegated \<and> Accounts_IsWarm (st_Accounts s) delegateAddress
        | ColdDelegationDesignation \<Rightarrow> isDelegated \<and> \<not> Accounts_IsWarm (st_Accounts s) delegateAddress)"

section \<open>Effects and rules\<close>

type_synonym Effect = "State \<Rightarrow> (State, unit) res"

definition NoEffect :: Effect where
  "NoEffect s = ret () s"

definition FailEffect :: Effect where
  "FailEffect s = ret () (s\<lparr>st_Status := Failed, st_Gas := 0\<rparr>)"

text \<open>
  \<open>Rule\<close>: its name (for filters) and its parameters (samples for the generation of
  states) are left out.
\<close>

record Rule =
  r_Condition :: Condition
  r_Effect :: Effect

section \<open>When a condition holds\<close>

definition holds :: "Condition \<Rightarrow> State \<Rightarrow> bool" where
  "holds c s \<longleftrightarrow> Check c s = Inr True"

lemma Check_all_holds: "Check_all cs s = Inr True \<longleftrightarrow> (\<forall>c \<in> set cs. holds c s)"
  by (induction cs) (auto simp: holds_def split: sum.splits)

lemma holds_conjunction [simp]: "holds (conjunction cs) s \<longleftrightarrow> (\<forall>c \<in> set cs. holds c s)"
  by (simp add: holds_def Check_all_holds)

lemma holds_And [simp]: "holds (And cs) s \<longleftrightarrow> (\<forall>c \<in> set cs. holds c s)"
proof -
  have "(\<forall>d \<in> set (case c of conjunction cs \<Rightarrow> cs | _ \<Rightarrow> [c]). holds d s) \<longleftrightarrow> holds c s" for c
    by (cases c) auto
  then show ?thesis unfolding And_def by (auto split: list.splits)
qed

lemma holds_revisionBounds [simp]: "holds (revisionBounds lo hi) s \<longleftrightarrow> lo \<le> st_Revision s \<and> st_Revision s \<le> hi"
  by (simp add: holds_def)

lemma holds_RevisionBounds [simp]:
  "holds (RevisionBounds lo hi) s \<longleftrightarrow> lo \<le> st_Revision s \<and> st_Revision s \<le> hi"
  by (simp add: RevisionBounds_def)

lemma holds_IsRevision [simp]: "holds (IsRevision r) s \<longleftrightarrow> st_Revision s = r"
  by (auto simp: IsRevision_def)

lemma holds_on_value [simp]: "holds (on_value e f) s \<longleftrightarrow> (\<exists>v. e s = Inr v \<and> f v s)"
  by (auto simp: holds_def on_value_def split: sum.splits)

lemma holds_compare_with [simp]: "holds (compare_with f e) s \<longleftrightarrow> (\<exists>v. e s = Inr v \<and> f v)"
  by (auto simp: holds_def compare_with_def split: sum.splits)

lemma holds_basic [simp]: "holds (basic f) s \<longleftrightarrow> f s = Inr True"
  by (simp add: holds_def)

end
