(* ===== verification/Ct_Spec.thy ===== *)
theory Ct_Spec
  imports Ct_Rules
begin

text \<open>
  The executable EVM specification of the conformance tests
  (\<open>go/ct/spc/specification.go\<close>): the rules of \<open>getAllRules\<close> in the order of the file.
  \<open>U\<close> is the 256-bit integer library, \<open>K\<close> the Keccak function.
\<close>

section \<open>Instructions and their basic rules\<close>

record instruction =
  in_op :: OpCode
  in_staticGas :: Gas
  in_pops :: nat
  in_pushes :: nat
  in_conditions :: "Condition list"
  in_effect :: Effect

abbreviation ct_MaxStackSize :: int where "ct_MaxStackSize \<equiv> 1024"

definition tooLittleGas :: "instruction \<Rightarrow> Rule list" where
  "tooLittleGas i =
     [\<lparr>r_Condition = And (in_conditions i @
         [AnyKnownRevision, Eq Status Running, Eq (Op Pc) (in_op i), IsCode Pc, Lt GasExpr (in_staticGas i)]),
       r_Effect = FailEffect\<rparr>]"

definition notEnoughSpace :: "instruction \<Rightarrow> Rule list" where
  "notEnoughSpace i =
     [\<lparr>r_Condition = And (in_conditions i @
         [AnyKnownRevision, Eq Status Running, Eq (Op Pc) (in_op i), IsCode Pc, Ge StackSize ct_MaxStackSize]),
       r_Effect = FailEffect\<rparr>]"

definition tooFewElements :: "instruction \<Rightarrow> Rule list" where
  "tooFewElements i =
     [\<lparr>r_Condition = And
         [AnyKnownRevision, Eq Status Running, Eq (Op Pc) (in_op i), IsCode Pc, Lt StackSize (int (in_pops i))],
       r_Effect = FailEffect\<rparr>]"

text \<open>The regular rule of \<open>rulesFor\<close>.\<close>

definition regularRule :: "instruction \<Rightarrow> Rule" where
  "regularRule i =
     (let localConditions = in_conditions i @
        [Eq Status Running, Eq (Op Pc) (in_op i), Ge GasExpr (in_staticGas i),
         Ge StackSize (int (in_pops i)),
         Le StackSize (ct_MaxStackSize - max (int (in_pushes i) - int (in_pops i)) 0)];
        localConditions = (if \<not> list_ex IsRevisionCondition (in_conditions i)
                           then localConditions @ [AnyKnownRevision] else localConditions)
      in \<lparr>r_Condition = And localConditions,
          r_Effect = (\<lambda>s. in_effect i (s\<lparr>st_Gas := st_Gas s - in_staticGas i, st_Pc := st_Pc s + 1\<rparr>))\<rparr>)"

definition rulesFor :: "instruction \<Rightarrow> Rule list" where
  "rulesFor i =
     (if 0 < in_staticGas i then tooLittleGas i else []) @
     (if 0 < in_pops i then tooFewElements i else []) @
     (if in_pops i < in_pushes i then notEnoughSpace i else []) @
     [regularRule i]"

definition boolToU256 :: "bool \<Rightarrow> u256" where
  "boolToU256 v = (if v then NewU256 1 else NewU256 0)"

text \<open>
  \<open>if s.Gas < cost { s.Status = Failed; return }; s.Gas -= cost\<close>, followed by the rest of
  the effect.
\<close>

definition spendGas :: "Gas \<Rightarrow> Effect \<Rightarrow> Effect" where
  "spendGas cost k s =
     (if st_Gas s < cost then ret () (s\<lparr>st_Status := Failed\<rparr>)
      else k (s\<lparr>st_Gas := st_Gas s - cost\<rparr>))"

definition sumWithOverflow :: "Gas list \<Rightarrow> Gas \<times> bool" where
  "sumWithOverflow values =
     (case foldl (\<lambda>r cur. case r of
                None \<Rightarrow> None
              | Some res \<Rightarrow> (let nxt = int64 (res + cur) in if nxt < res then None else Some nxt))
             (Some 0) values of
        None \<Rightarrow> (0, True)
      | Some res \<Rightarrow> (res, False))"

definition sumWithOverflow_u64 :: "u64 list \<Rightarrow> u64 \<times> bool" where
  "sumWithOverflow_u64 values =
     (case foldl (\<lambda>r cur. case r of
                None \<Rightarrow> None
              | Some res \<Rightarrow> (let nxt = res + cur in if nxt < res then None else Some nxt))
             (Some 0) values of
        None \<Rightarrow> (0, True)
      | Some res \<Rightarrow> (res, False))"

text \<open>\<open>if s.Gas < cost || overflow { s.Status = Failed; return }; s.Gas -= cost\<close>\<close>

definition spendSum :: "Gas list \<Rightarrow> Effect \<Rightarrow> Effect" where
  "spendSum costs k s =
     (let (cost, overflow) = sumWithOverflow costs in
      if st_Gas s < cost \<or> overflow then ret () (s\<lparr>st_Status := Failed\<rparr>)
      else k (s\<lparr>st_Gas := st_Gas s - cost\<rparr>))"

text \<open>The price of \<open>k\<close> units per word: \<open>tosca.Gas(k * tosca.SizeInWords(size))\<close>.\<close>

definition wordCost :: "u64 \<Rightarrow> u64 \<Rightarrow> Gas" where
  "wordCost k sz = int64 (uint (k * SizeInWords sz))"

definition binaryOpWithDynamicCost ::
  "OpCode \<Rightarrow> Gas \<Rightarrow> (u256 \<Rightarrow> u256 \<Rightarrow> u256) \<Rightarrow> (u256 \<Rightarrow> u256 \<Rightarrow> Gas) \<Rightarrow> Rule list" where
  "binaryOpWithDynamicCost op costs effect dynamicCost =
     rulesFor \<lparr>in_op = op, in_staticGas = costs, in_pops = 2, in_pushes = 1, in_conditions = [],
       in_effect = (\<lambda>s.
         bind (Stack_Pop s) (\<lambda>a s.
         bind (Stack_Pop s) (\<lambda>b s.
         spendGas (dynamicCost a b) (\<lambda>s. ret () (Stack_Push (effect a b) s)) s)))\<rparr>"

definition binaryOp :: "OpCode \<Rightarrow> Gas \<Rightarrow> (u256 \<Rightarrow> u256 \<Rightarrow> u256) \<Rightarrow> Rule list" where
  "binaryOp op costs effect = binaryOpWithDynamicCost op costs effect (\<lambda>_ _. 0)"

definition trinaryOp :: "OpCode \<Rightarrow> Gas \<Rightarrow> (u256 \<Rightarrow> u256 \<Rightarrow> u256 \<Rightarrow> u256) \<Rightarrow> Rule list" where
  "trinaryOp op costs effect =
     rulesFor \<lparr>in_op = op, in_staticGas = costs, in_pops = 3, in_pushes = 1, in_conditions = [],
       in_effect = (\<lambda>s.
         bind (Stack_Pop s) (\<lambda>a s.
         bind (Stack_Pop s) (\<lambda>b s.
         bind (Stack_Pop s) (\<lambda>c s.
         ret () (Stack_Push (effect a b c) s)))))\<rparr>"

definition unaryOp :: "OpCode \<Rightarrow> Gas \<Rightarrow> (u256 \<Rightarrow> u256) \<Rightarrow> Rule list" where
  "unaryOp op costs effect =
     rulesFor \<lparr>in_op = op, in_staticGas = costs, in_pops = 1, in_pushes = 1, in_conditions = [],
       in_effect = (\<lambda>s. bind (Stack_Pop s) (\<lambda>a s. ret () (Stack_Push (effect a) s)))\<rparr>"

text \<open>An instruction without operands that pushes one value.\<close>

definition pushValue :: "OpCode \<Rightarrow> Gas \<Rightarrow> Condition list \<Rightarrow> (State \<Rightarrow> u256) \<Rightarrow> Rule list" where
  "pushValue op costs conds v =
     rulesFor \<lparr>in_op = op, in_staticGas = costs, in_pops = 0, in_pushes = 1, in_conditions = conds,
       in_effect = (\<lambda>s. ret () (Stack_Push (v s) s))\<rparr>"

text \<open>A rule for an op-code in revisions that do not have it.\<close>

definition invalidRevisionRule :: "OpCode \<Rightarrow> Revision \<Rightarrow> Rule" where
  "invalidRevisionRule op r =
     \<lparr>r_Condition = And [RevisionBounds R07_Istanbul r, Eq Status Running, Eq (Op Pc) op, IsCode Pc],
      r_Effect = FailEffect\<rparr>"

section \<open>Terminal states, invalid instructions and STOP\<close>

definition terminalRules :: "Rule list" where
  "terminalRules =
     [\<lparr>r_Condition = And [AnyKnownRevision, Eq Status Stopped], r_Effect = NoEffect\<rparr>,
      \<lparr>r_Condition = And [AnyKnownRevision, Eq Status Reverted], r_Effect = NoEffect\<rparr>,
      \<lparr>r_Condition = And [AnyKnownRevision, Eq Status Failed], r_Effect = NoEffect\<rparr>,
      \<lparr>r_Condition = IsData Pc, r_Effect = NoEffect\<rparr>]"

definition invalidRules :: "Rule list" where
  "invalidRules =
     map (\<lambda>op. \<lparr>r_Condition = And [Eq Status Running, Eq (Op Pc) op, IsCode Pc, AnyKnownRevision],
                r_Effect = FailEffect\<rparr>)
       (filter (\<lambda>op. \<not> IsValid op) [0..<256])"

definition errorRules :: "Rule list" where
  "errorRules = [\<lparr>r_Condition = IsRevision R99_UnknownNextRevision, r_Effect = FailEffect\<rparr>]"

definition stopRules :: "Rule list" where
  "stopRules =
     [\<lparr>r_Condition = And [AnyKnownRevision, Eq Status Running, Eq (Op Pc) STOP],
       r_Effect = (\<lambda>s. ret () (s\<lparr>st_Status := Stopped, st_ReturnData := [], st_Pc := st_Pc s + 1\<rparr>))\<rparr>]"

section \<open>Arithmetic, comparison and bit instructions\<close>

text \<open>The loop over the bytes of the exponent.\<close>

definition expCost :: "u256 \<Rightarrow> Gas" where
  "expCost e =
     (let expBytes = be_bytes 32 e in
      case find (\<lambda>i. expBytes ! i \<noteq> 0) [0..<32] of
        None \<Rightarrow> 0
      | Some i \<Rightarrow> 50 * int (32 - i))"

definition arithmeticRules :: "uint256_lib \<Rightarrow> Rule list" where
  "arithmeticRules U =
     binaryOp ADD 3 (\<lambda>a b. u_Add U a b) @
     binaryOp MUL 5 (\<lambda>a b. u_Mul U a b) @
     binaryOp SUB 3 (\<lambda>a b. u_Sub U a b) @
     binaryOp DIV 5 (\<lambda>a b. u_Div U a b) @
     binaryOp SDIV 5 (\<lambda>a b. u_SDiv U a b) @
     binaryOp MOD 5 (\<lambda>a b. u_Mod U a b) @
     binaryOp SMOD 5 (\<lambda>a b. u_SMod U a b) @
     trinaryOp ADDMOD 8 (\<lambda>a b n. u_AddMod U a b n) @
     trinaryOp MULMOD 8 (\<lambda>a b n. u_MulMod U a b n) @
     binaryOpWithDynamicCost EXP 10 (\<lambda>a e. u_Exp U a e) (\<lambda>a e. expCost e) @
     binaryOp SIGNEXTEND 5 (\<lambda>b x. u_ExtendSign U x b)"

definition byteAt :: "uint256_lib \<Rightarrow> u256 \<Rightarrow> u256 \<Rightarrow> u256" where
  "byteAt U i x =
     (if u_Gt U i (NewU256 31) then NewU256 0
      else NewU256 (ucast (be_bytes 32 x ! unat (Uint64 i))))"

definition comparisonRules :: "uint256_lib \<Rightarrow> Rule list" where
  "comparisonRules U =
     binaryOp LT 3 (\<lambda>a b. boolToU256 (u_Lt U a b)) @
     binaryOp GT 3 (\<lambda>a b. boolToU256 (u_Gt U a b)) @
     binaryOp SLT 3 (\<lambda>a b. boolToU256 (u_Slt U a b)) @
     binaryOp SGT 3 (\<lambda>a b. boolToU256 (u_Sgt U a b)) @
     binaryOp EQ 3 (\<lambda>a b. boolToU256 (a = b)) @
     unaryOp ISZERO 3 (\<lambda>a. boolToU256 (a = 0)) @
     binaryOp AND 3 (\<lambda>a b. u_And U a b) @
     binaryOp OR 3 (\<lambda>a b. u_Or U a b) @
     binaryOp XOR 3 (\<lambda>a b. u_Xor U a b) @
     unaryOp NOT 3 (\<lambda>a. u_Not U a) @
     binaryOp BYTE 3 (\<lambda>i x. byteAt U i x) @
     binaryOp SHL 3 (\<lambda>shift v. U256_Shl U v shift) @
     binaryOp SHR 3 (\<lambda>shift v. U256_Shr U v shift) @
     binaryOp SAR 3 (\<lambda>shift v. U256_Srsh U v shift)"

definition clzRules :: "uint256_lib \<Rightarrow> Rule list" where
  "clzRules U =
     rulesFor \<lparr>in_op = CLZ, in_staticGas = 5, in_pops = 1, in_pushes = 1,
       in_conditions = [RevisionBounds R15_Osaka NewestSupportedRevision],
       in_effect = (\<lambda>s. bind (Stack_Pop s) (\<lambda>x s.
         ret () (Stack_Push (NewU256 (256 - word_of_nat (u_BitLen U x))) s)))\<rparr> @
     [invalidRevisionRule CLZ R14_Prague]"

definition sha3Rules :: "(bytes \<Rightarrow> Hash) \<Rightarrow> Rule list" where
  "sha3Rules K =
     rulesFor \<lparr>in_op = SHA3, in_staticGas = 30, in_pops = 2, in_pushes = 1, in_conditions = [],
       in_effect = (\<lambda>s.
         bind (Stack_Pop s) (\<lambda>offsetU256 s.
         bind (Stack_Pop s) (\<lambda>sizeU256 s.
         let (memExpCost, offset, sz) = ExpansionCosts (st_Memory s) offsetU256 sizeU256 in
         spendGas memExpCost (spendGas (wordCost 6 sz) (\<lambda>s.
           bind (Memory_Hash K offset sz s) (\<lambda>hash s. ret () (Stack_Push hash s)))) s)))\<rparr>"

section \<open>Accounts\<close>

text \<open>The three rules of an instruction that reads an account: cold, warm and before Berlin.\<close>

definition accountRules :: "OpCode \<Rightarrow> (Address \<Rightarrow> State \<Rightarrow> u256) \<Rightarrow> Rule list" where
  "accountRules op v =
     (let effect = (\<lambda>cold s. bind (Stack_Pop s) (\<lambda>a s.
            let address = NewAddress a;
                s = Stack_Push (v address s) s
            in ret () (if cold then on_accounts (Accounts_MarkWarm address) s else s)));
          berlin = RevisionBounds R09_Berlin NewestSupportedRevision
      in rulesFor \<lparr>in_op = op, in_staticGas = 0 + 2600, in_pops = 1, in_pushes = 1,
           in_conditions = [berlin, IsAddressCold (Param 0)], in_effect = effect True\<rparr> @
         rulesFor \<lparr>in_op = op, in_staticGas = 0 + 100, in_pops = 1, in_pushes = 1,
           in_conditions = [berlin, IsAddressWarm (Param 0)], in_effect = effect False\<rparr> @
         rulesFor \<lparr>in_op = op, in_staticGas = 700, in_pops = 1, in_pushes = 1,
           in_conditions = [IsRevision R07_Istanbul], in_effect = effect False\<rparr>)"

definition balanceRules :: "Rule list" where
  "balanceRules = accountRules BALANCE (\<lambda>a s. Accounts_GetBalance (st_Accounts s) a)"

section \<open>Memory\<close>

definition mloadRules :: "Rule list" where
  "mloadRules =
     rulesFor \<lparr>in_op = MLOAD, in_staticGas = 3, in_pops = 1, in_pushes = 1, in_conditions = [],
       in_effect = (\<lambda>s.
         bind (Stack_Pop s) (\<lambda>offsetU256 s.
         let (cost, offset, _) = ExpansionCosts (st_Memory s) offsetU256 (NewU256 32) in
         spendGas cost (\<lambda>s.
           bind (Memory_Read offset 32 s) (\<lambda>bs s.
           bind (lift_go (NewU256FromBytes bs) s) (\<lambda>v s. ret () (Stack_Push v s)))) s))\<rparr>"

definition mstoreRules :: "Rule list" where
  "mstoreRules =
     rulesFor \<lparr>in_op = MSTORE, in_staticGas = 3, in_pops = 2, in_pushes = 0, in_conditions = [],
       in_effect = (\<lambda>s.
         bind (Stack_Pop s) (\<lambda>offsetU256 s.
         bind (Stack_Pop s) (\<lambda>v s.
         let (cost, offset, _) = ExpansionCosts (st_Memory s) offsetU256 (NewU256 32) in
         spendGas cost (\<lambda>s. Memory_Write (be_bytes 32 v) offset s) s)))\<rparr> @
     rulesFor \<lparr>in_op = MSTORE8, in_staticGas = 3, in_pops = 2, in_pushes = 0, in_conditions = [],
       in_effect = (\<lambda>s.
         bind (Stack_Pop s) (\<lambda>offsetU256 s.
         bind (Stack_Pop s) (\<lambda>v s.
         let (cost, offset, _) = ExpansionCosts (st_Memory s) offsetU256 (NewU256 1) in
         spendGas cost (\<lambda>s. Memory_Write [be_bytes 32 v ! 31] offset s) s)))\<rparr>"

section \<open>Storage\<close>

definition sloadEffect :: "bool \<Rightarrow> Effect" where
  "sloadEffect cold s =
     bind (Stack_Pop s) (\<lambda>key s.
     let s = Stack_Push (GetCurrent (st_Storage s) key) s
     in ret () (if cold then on_storage (Storage_MarkWarm key) s else s))"

definition sloadRules :: "Rule list" where
  "sloadRules =
     rulesFor \<lparr>in_op = SLOAD, in_staticGas = 100 + 2000, in_pops = 1, in_pushes = 1,
       in_conditions = [RevisionBounds R09_Berlin NewestSupportedRevision, IsStorageCold (Param 0)],
       in_effect = sloadEffect True\<rparr> @
     rulesFor \<lparr>in_op = SLOAD, in_staticGas = 100, in_pops = 1, in_pushes = 1,
       in_conditions = [RevisionBounds R09_Berlin NewestSupportedRevision, IsStorageWarm (Param 0)],
       in_effect = sloadEffect False\<rparr> @
     rulesFor \<lparr>in_op = SLOAD, in_staticGas = 800, in_pops = 1, in_pushes = 1,
       in_conditions = [IsRevision R07_Istanbul], in_effect = sloadEffect False\<rparr>"

record sstoreOpParams =
  so_revision :: Revision
  so_warm :: bool
  so_config :: StorageStatus
  so_gasCost :: Gas
  so_gasRefund :: Gas

definition sstoreParams :: "Revision \<Rightarrow> bool \<Rightarrow> StorageStatus \<Rightarrow> Gas \<Rightarrow> Gas \<Rightarrow> sstoreOpParams" where
  "sstoreParams r warm config cost rfnd =
     \<lparr>so_revision = r, so_warm = warm, so_config = config, so_gasCost = cost, so_gasRefund = rfnd\<rparr>"

definition sstoreRules_early :: "sstoreOpParams list" where
  "sstoreRules_early =
    [sstoreParams R07_Istanbul False StorageAssigned 800 0,
     sstoreParams R07_Istanbul False StorageAdded 20000 0,
     sstoreParams R07_Istanbul False StorageAddedDeleted 800 19200,
     sstoreParams R07_Istanbul False StorageDeletedRestored 800 (- 10800),
     sstoreParams R07_Istanbul False StorageDeletedAdded 800 (- 15000),
     sstoreParams R07_Istanbul False StorageDeleted 5000 15000,
     sstoreParams R07_Istanbul False StorageModified 5000 0,
     sstoreParams R07_Istanbul False StorageModifiedDeleted 800 15000,
     sstoreParams R07_Istanbul False StorageModifiedRestored 800 4200,
     sstoreParams R09_Berlin False StorageAdded 22100 0,
     sstoreParams R09_Berlin False StorageDeleted 5000 15000,
     sstoreParams R09_Berlin False StorageModified 5000 0,
     sstoreParams R09_Berlin True StorageAssigned 100 0,
     sstoreParams R09_Berlin True StorageAdded 20000 0,
     sstoreParams R09_Berlin True StorageAddedDeleted 100 19900,
     sstoreParams R09_Berlin True StorageDeletedRestored 100 (- 12200),
     sstoreParams R09_Berlin True StorageDeletedAdded 100 (- 15000),
     sstoreParams R09_Berlin True StorageDeleted 2900 15000,
     sstoreParams R09_Berlin True StorageModified 2900 0,
     sstoreParams R09_Berlin True StorageModifiedDeleted 100 15000,
     sstoreParams R09_Berlin True StorageModifiedRestored 100 2800]"

definition sstoreRules_late :: "Revision \<Rightarrow> sstoreOpParams list" where
  "sstoreRules_late r =
    [sstoreParams r False StorageAdded 22100 0,
     sstoreParams r False StorageDeleted 5000 4800,
     sstoreParams r False StorageModified 5000 0,
     sstoreParams r True StorageAssigned 100 0,
     sstoreParams r True StorageAdded 20000 0,
     sstoreParams r True StorageAddedDeleted 100 19900,
     sstoreParams r True StorageDeletedRestored 100 (- 2000),
     sstoreParams r True StorageDeletedAdded 100 (- 4800),
     sstoreParams r True StorageDeleted 2900 4800,
     sstoreParams r True StorageModified 2900 0,
     sstoreParams r True StorageModifiedDeleted 100 4800,
     sstoreParams r True StorageModifiedRestored 100 2800]"

definition sstoreRules :: "sstoreOpParams list" where
  "sstoreRules = sstoreRules_early @ concat (map sstoreRules_late (map Revision [2..7]))"

definition sstoreOpRegular :: "sstoreOpParams \<Rightarrow> Rule list" where
  "sstoreOpRegular p =
     (let conditions =
            (if R09_Berlin \<le> so_revision p
             then (if so_warm p then [IsStorageWarm (Param 0)] else [IsStorageCold (Param 0)]) else []);
          gasLimit = (if 2301 < so_gasCost p then so_gasCost p else 2301);
          priceDiff = (if 2301 < so_gasCost p then 0 else 2301 - so_gasCost p)
      in rulesFor \<lparr>in_op = SSTORE, in_staticGas = gasLimit, in_pops = 2, in_pushes = 0,
           in_conditions = conditions @
             [IsRevision (so_revision p), Eq ReadOnly False, StorageConfiguration (so_config p) (Param 0) (Param 1)],
           in_effect = (\<lambda>s.
             let s = s\<lparr>st_Gas := st_Gas s + priceDiff, st_GasRefund := int64 (st_GasRefund s + so_gasRefund p)\<rparr> in
             bind (Stack_Pop s) (\<lambda>key s.
             bind (Stack_Pop s) (\<lambda>v s.
             let s = on_storage (SetCurrent key v) s in
             ret () (if R09_Berlin \<le> st_Revision s then on_storage (Storage_MarkWarm key) s else s))))\<rparr>)"

definition sstoreOpReadOnlyMode :: "sstoreOpParams \<Rightarrow> Rule list" where
  "sstoreOpReadOnlyMode p =
     rulesFor \<lparr>in_op = SSTORE, in_staticGas = max (so_gasCost p) 2301, in_pops = 2, in_pushes = 0,
       in_conditions =
         [IsRevision (so_revision p), Eq ReadOnly True, StorageConfiguration (so_config p) (Param 0) (Param 1)],
       in_effect = FailEffect\<rparr>"

definition sstoreInstr :: "Gas \<Rightarrow> nat \<Rightarrow> instruction" where
  "sstoreInstr g pops =
     \<lparr>in_op = SSTORE, in_staticGas = g, in_pops = pops, in_pushes = 0, in_conditions = [], in_effect = NoEffect\<rparr>"

definition allSstoreRules :: "Rule list" where
  "allSstoreRules =
     concat (map (\<lambda>p. sstoreOpRegular p @ sstoreOpReadOnlyMode p) sstoreRules) @
     tooLittleGas (sstoreInstr 2300 0) @ tooFewElements (sstoreInstr 2 2)"

section \<open>Jumps\<close>

definition jumpEffect :: Effect where
  "jumpEffect s =
     bind (Stack_Pop s) (\<lambda>target s. ret () (s\<lparr>st_Pc := ucast (Uint64 target)\<rparr>))"

definition jumpRules :: "Rule list" where
  "jumpRules =
     (let i = \<lparr>in_op = JUMP, in_staticGas = 8, in_pops = 1, in_pushes = 0,
               in_conditions = [IsCode (Param 0), Eq (Op (Param 0)) JUMPDEST], in_effect = jumpEffect\<rparr>
      in rulesFor i @
         rulesFor (i\<lparr>in_conditions := [AnyKnownRevision, Eq Status Running, Eq (Op Pc) JUMP, IsData (Param 0)],
           in_effect := FailEffect\<rparr>) @
         rulesFor (i\<lparr>in_conditions := [AnyKnownRevision, Eq Status Running, Eq (Op Pc) JUMP, IsCode (Param 0),
             Ne (Op (Param 0)) JUMPDEST],
           in_effect := FailEffect\<rparr>))"

definition jumpiRules :: "Rule list" where
  "jumpiRules =
     (let i = \<lparr>in_op = JUMPI, in_staticGas = 10, in_pops = 2, in_pushes = 0,
               in_conditions = [IsCode (Param 0), Eq (Op (Param 0)) JUMPDEST, Ne (Param 1) (NewU256 0)],
               in_effect = (\<lambda>s. bind (Stack_Pop s) (\<lambda>target s. bind (Stack_Pop s) (\<lambda>_ s.
                 ret () (s\<lparr>st_Pc := ucast (Uint64 target)\<rparr>))))\<rparr>
      in rulesFor i @
         rulesFor (i\<lparr>in_conditions := [Eq (Param 1) (NewU256 0)],
           in_effect := (\<lambda>s. bind (Stack_Pop s) (\<lambda>_ s. bind (Stack_Pop s) (\<lambda>_ s. ret () s)))\<rparr>) @
         rulesFor (i\<lparr>in_conditions := [IsData (Param 0), Ne (Param 1) (NewU256 0)], in_effect := FailEffect\<rparr>) @
         rulesFor (i\<lparr>in_conditions := [Ne (Param 1) (NewU256 0), IsCode (Param 0), Ne (Op (Param 0)) JUMPDEST],
           in_effect := FailEffect\<rparr>))"

definition pcRules :: "Rule list" where
  "pcRules =
     pushValue PC 2 [] (\<lambda>s. NewU256 (ucast (st_Pc s) - 1)) @
     pushValue MSIZE 2 [] (\<lambda>s. NewU256 (word_of_nat (length (st_Memory s)))) @
     pushValue GAS 2 [] (\<lambda>s. NewU256 (word_of_int (st_Gas s))) @
     rulesFor \<lparr>in_op = JUMPDEST, in_staticGas = 1, in_pops = 0, in_pushes = 0, in_conditions = [],
       in_effect = NoEffect\<rparr>"

section \<open>Transient storage\<close>

definition tloadRules :: "Rule list" where
  "tloadRules =
     (let i = \<lparr>in_op = TLOAD, in_staticGas = 100, in_pops = 1, in_pushes = 1,
               in_conditions = [RevisionBounds R13_Cancun NewestSupportedRevision, BindTransientStorageToNonZero (Param 0)],
               in_effect = (\<lambda>s. bind (Stack_Pop s) (\<lambda>key s.
                 ret () (Stack_Push (Transient_Get (st_TransientStorage s) key) s)))\<rparr>
      in rulesFor i @
         rulesFor (i\<lparr>in_conditions := [RevisionBounds R13_Cancun NewestSupportedRevision, BindTransientStorageToZero (Param 0)],
           in_effect := (\<lambda>s. bind (Stack_Pop s) (\<lambda>_ s. ret () (Stack_Push (NewU256 0) s)))\<rparr>) @
         [invalidRevisionRule TLOAD R12_Shanghai])"

definition tstoreRules :: "Rule list" where
  "tstoreRules =
     (let i = \<lparr>in_op = TSTORE, in_staticGas = 100, in_pops = 2, in_pushes = 0,
               in_conditions = [RevisionBounds R13_Cancun NewestSupportedRevision, Eq ReadOnly False,
                 BindTransientStorageToNonZero (Param 0)],
               in_effect = (\<lambda>s. bind (Stack_Pop s) (\<lambda>key s. bind (Stack_Pop s) (\<lambda>v s.
                 ret () (s\<lparr>st_TransientStorage := Transient_Set key v (st_TransientStorage s)\<rparr>))))\<rparr>
      in rulesFor i @
         rulesFor (i\<lparr>in_conditions := [RevisionBounds R13_Cancun NewestSupportedRevision, Eq ReadOnly False,
             BindTransientStorageToZero (Param 0)]\<rparr>) @
         [invalidRevisionRule TSTORE R12_Shanghai,
          \<lparr>r_Condition = And [AnyKnownRevision, Eq Status Running, Eq (Op Pc) TSTORE, Eq ReadOnly True],
           r_Effect = FailEffect\<rparr>])"

end
