(* ===== verification/Ct_Spec_Calls.thy ===== *)
theory Ct_Spec_Calls
  imports Ct_Spec
begin

text \<open>
  The second half of the specification (\<open>go/ct/spc/specification.go\<close>): stack
  manipulation, environment, data copies, logs, self-destruct, calls and creations, and the
  list of all rules.
\<close>

section \<open>Stack manipulation\<close>

definition push0Rules :: "Rule list" where
  "push0Rules =
     pushValue PUSH0 2 [RevisionBounds R12_Shanghai NewestSupportedRevision] (\<lambda>s. NewU256 0) @
     rulesFor \<lparr>in_op = PUSH0, in_staticGas = 2, in_pops = 0, in_pushes = 1,
       in_conditions = [RevisionBounds R07_Istanbul R11_Paris], in_effect = FailEffect\<rparr>"

definition mcopyRules :: "Rule list" where
  "mcopyRules =
     rulesFor \<lparr>in_op = MCOPY, in_staticGas = 3, in_pops = 3, in_pushes = 0,
       in_conditions = [RevisionBounds R13_Cancun NewestSupportedRevision],
       in_effect = (\<lambda>s.
         bind (Stack_Pop s) (\<lambda>destOffsetU256 s.
         bind (Stack_Pop s) (\<lambda>offsetU256 s.
         bind (Stack_Pop s) (\<lambda>sizeU256 s.
         let (srcCost, srcOffset, sz) = ExpansionCosts (st_Memory s) offsetU256 sizeU256;
             (destCost, destOffset, _) = ExpansionCosts (st_Memory s) destOffsetU256 sizeU256;
             wordCountCost = wordCost 3 sz;
             expansionCost = max srcCost destCost
         in spendSum [expansionCost, wordCountCost] (\<lambda>s.
              bind (Memory_Read srcOffset sz s) (\<lambda>v s. Memory_Write v destOffset s)) s))))\<rparr> @
     [invalidRevisionRule MCOPY R12_Shanghai]"

text \<open>The loop of \<open>pushOp\<close> over the data bytes; data outside of the data section panic.\<close>

fun pushData :: "Code \<Rightarrow> int \<Rightarrow> nat \<Rightarrow> bytes go" where
  "pushData c pos 0 = Ret []"
| "pushData c pos (Suc n) =
     (case pushData c pos n of
        Panic \<Rightarrow> Panic
      | Ret bs \<Rightarrow> (case GetData c (pos + int n) of None \<Rightarrow> Panic | Some b \<Rightarrow> Ret (bs @ [b])))"

definition pushOp :: "nat \<Rightarrow> Rule list" where
  "pushOp n =
     rulesFor \<lparr>in_op = PUSH1 + n - 1, in_staticGas = 3, in_pops = 0, in_pushes = 1, in_conditions = [],
       in_effect = (\<lambda>s.
         bind (lift_go (pushData (st_Code s) (uint (st_Pc s)) n) s) (\<lambda>bs s.
         bind (lift_go (NewU256FromBytes bs) s) (\<lambda>v s.
         ret () ((Stack_Push v s)\<lparr>st_Pc := st_Pc s + word_of_nat n\<rparr>))))\<rparr>"

definition popRules :: "Rule list" where
  "popRules =
     rulesFor \<lparr>in_op = POP, in_staticGas = 2, in_pops = 1, in_pushes = 0, in_conditions = [],
       in_effect = (\<lambda>s. bind (Stack_Pop s) (\<lambda>_ s. ret () s))\<rparr>"

definition dupOp :: "nat \<Rightarrow> Rule list" where
  "dupOp n =
     rulesFor \<lparr>in_op = DUP1 + n - 1, in_staticGas = 3, in_pops = n, in_pushes = n + 1, in_conditions = [],
       in_effect = (\<lambda>s. bind (Stack_Get (n - 1) s) (\<lambda>v s. ret () (Stack_Push v s)))\<rparr>"

definition swapOp :: "nat \<Rightarrow> Rule list" where
  "swapOp n =
     rulesFor \<lparr>in_op = SWAP1 + n - 1, in_staticGas = 3, in_pops = n + 1, in_pushes = n + 1, in_conditions = [],
       in_effect = (\<lambda>s.
         bind (Stack_Get 0 s) (\<lambda>a s.
         bind (Stack_Get n s) (\<lambda>b s.
         bind (Stack_Set 0 b s) (\<lambda>_ s.
         Stack_Set n a s))))\<rparr>"

section \<open>Logs\<close>

fun popTopicsCt :: "nat \<Rightarrow> State \<Rightarrow> (State, u256 list) res" where
  "popTopicsCt 0 s = ret [] s"
| "popTopicsCt (Suc n) s =
     bind (Stack_Pop s) (\<lambda>t s. bind (popTopicsCt n s) (\<lambda>ts s. ret (t # ts) s))"

definition logOp :: "nat \<Rightarrow> Rule list" where
  "logOp n =
     (let i = \<lparr>in_op = LOG0 + n, in_staticGas = 375 + 375 * int n, in_pops = 2 + n, in_pushes = 0,
               in_conditions = [Eq ReadOnly False],
               in_effect = (\<lambda>s.
                 bind (Stack_Pop s) (\<lambda>offsetU256 s.
                 bind (Stack_Pop s) (\<lambda>sizeU256 s.
                 bind (popTopicsCt n s) (\<lambda>topics s.
                 let (memExpCost, offset, sz) = ExpansionCosts (st_Memory s) offsetU256 sizeU256 in
                 spendGas memExpCost (spendGas (int64 (uint (8 * sz))) (\<lambda>s.
                   bind (Memory_Read offset sz s) (\<lambda>bs s.
                   ret () (s\<lparr>st_Logs := AddLog bs topics (st_Logs s)\<rparr>)))) s))))\<rparr>
      in rulesFor i @
         rulesFor (i\<lparr>in_conditions := [Eq ReadOnly True], in_effect := FailEffect\<rparr>))"

section \<open>Environment\<close>

definition addressRules :: "Rule list" where
  "addressRules =
     pushValue ADDRESS 2 [] (\<lambda>s. AddressToU256 (cc_AccountAddress (st_CallContext s))) @
     pushValue ORIGIN 2 [] (\<lambda>s. AddressToU256 (tc_OriginAddress (st_TransactionContext s))) @
     pushValue CALLER 2 [] (\<lambda>s. AddressToU256 (cc_CallerAddress (st_CallContext s))) @
     pushValue CALLVALUE 2 [] (\<lambda>s. cc_Value (st_CallContext s)) @
     pushValue NUMBER 2 [] (\<lambda>s. NewU256 (bc_BlockNumber (st_BlockContext s)))"

definition blockhashRules :: "Rule list" where
  "blockhashRules =
     rulesFor \<lparr>in_op = BLOCKHASH, in_staticGas = 20, in_pops = 1, in_pushes = 1,
       in_conditions = [InRange256FromCurrentBlock (Param 0)],
       in_effect = (\<lambda>s.
         bind (Stack_Pop s) (\<lambda>targetBlockNumber s.
         let index = bc_BlockNumber (st_BlockContext s) - Uint64 targetBlockNumber in
         bind (lift_go (HashArray_Get (st_RecentBlockHashes s) (index - 1)) s) (\<lambda>hash s.
         ret () (Stack_Push hash s))))\<rparr> @
     rulesFor \<lparr>in_op = BLOCKHASH, in_staticGas = 20, in_pops = 1, in_pushes = 1,
       in_conditions = [OutOfRange256FromCurrentBlock (Param 0)],
       in_effect = (\<lambda>s. bind (Stack_Pop s) (\<lambda>_ s. ret () (Stack_Push (NewU256 0) s)))\<rparr>"

definition blockRules :: "Rule list" where
  "blockRules =
     pushValue COINBASE 2 [] (\<lambda>s. AddressToU256 (bc_CoinBase (st_BlockContext s))) @
     pushValue GASLIMIT 2 [] (\<lambda>s. NewU256 (bc_GasLimit (st_BlockContext s))) @
     pushValue PREVRANDAO 2 [] (\<lambda>s. bc_PrevRandao (st_BlockContext s)) @
     pushValue GASPRICE 2 [] (\<lambda>s. bc_GasPrice (st_BlockContext s))"

definition extcodesizeRules :: "Rule list" where
  "extcodesizeRules =
     accountRules EXTCODESIZE (\<lambda>a s. NewU256 (word_of_nat (length (Accounts_GetCode (st_Accounts s) a))))"

definition extCodeCopyEffect :: "uint256_lib \<Rightarrow> bool \<Rightarrow> Effect" where
  "extCodeCopyEffect U markWarm s =
     bind (Stack_Pop s) (\<lambda>a s.
     let address = NewAddress a in
     bind (Stack_Pop s) (\<lambda>destOffsetU256 s.
     bind (Stack_Pop s) (\<lambda>offsetU256 s.
     bind (Stack_Pop s) (\<lambda>sizeU256 s.
     let (cost, destOffset, sz) = ExpansionCosts (st_Memory s) destOffsetU256 sizeU256 in
     spendSum [cost, wordCost 3 sz] (\<lambda>s.
       let codeSize = word_of_nat (length (Accounts_GetCode (st_Accounts s) address)) :: u64;
           start = (if u_Gt U offsetU256 (NewU256 codeSize) then codeSize else Uint64 offsetU256);
           end = min (start + sz) codeSize
       in bind (lift_go (Bytes_Get (Accounts_GetCode (st_Accounts s) address) start end) s) (\<lambda>bs s.
          bind (Memory_Write (ct_RightPadSlice bs (unat sz)) destOffset s) (\<lambda>_ s.
          ret () (if markWarm then on_accounts (Accounts_MarkWarm address) s else s)))) s))))"

definition extcodecopyRules :: "uint256_lib \<Rightarrow> Rule list" where
  "extcodecopyRules U =
     (let i = \<lparr>in_op = EXTCODECOPY, in_staticGas = 2600, in_pops = 4, in_pushes = 0,
               in_conditions = [RevisionBounds R09_Berlin NewestSupportedRevision, IsAddressCold (Param 0)],
               in_effect = extCodeCopyEffect U True\<rparr>
      in rulesFor i @
         rulesFor (i\<lparr>in_staticGas := 100,
           in_conditions := [RevisionBounds R09_Berlin NewestSupportedRevision, IsAddressWarm (Param 0)],
           in_effect := extCodeCopyEffect U False\<rparr>) @
         rulesFor (i\<lparr>in_staticGas := 700, in_conditions := [IsRevision R07_Istanbul],
           in_effect := extCodeCopyEffect U False\<rparr>))"

definition feeRules :: "Rule list" where
  "feeRules =
     pushValue TIMESTAMP 2 [] (\<lambda>s. NewU256 (bc_TimeStamp (st_BlockContext s))) @
     pushValue BASEFEE 2 [RevisionBounds R10_London NewestSupportedRevision] (\<lambda>s. bc_BaseFee (st_BlockContext s)) @
     [invalidRevisionRule BASEFEE R09_Berlin]"

definition blobRules :: "Rule list" where
  "blobRules =
     (let i = \<lparr>in_op = BLOBHASH, in_staticGas = 3, in_pops = 1, in_pushes = 1,
               in_conditions = [RevisionBounds R13_Cancun NewestSupportedRevision, HasBlobHash (Param 0)],
               in_effect = (\<lambda>s. bind (Stack_Pop s) (\<lambda>indexU256 s.
                 let hs = tc_BlobHashes (st_TransactionContext s) in
                 if unat (Uint64 indexU256) < length hs
                 then ret () (Stack_Push (hs ! unat (Uint64 indexU256)) s) else fail GoPanic s))\<rparr>
      in rulesFor i @
         rulesFor (i\<lparr>in_conditions := [RevisionBounds R13_Cancun NewestSupportedRevision, HasNoBlobHash (Param 0)],
           in_effect := (\<lambda>s. bind (Stack_Pop s) (\<lambda>_ s. ret () (Stack_Push (NewU256 0) s)))\<rparr>) @
         [invalidRevisionRule BLOBHASH R12_Shanghai] @
         pushValue BLOBBASEFEE 2 [RevisionBounds R13_Cancun NewestSupportedRevision]
           (\<lambda>s. bc_BlobBaseFee (st_BlockContext s)) @
         [invalidRevisionRule BLOBBASEFEE R12_Shanghai])"

definition extcodehashRule :: "Revision \<Rightarrow> bool \<Rightarrow> bool \<Rightarrow> Rule list" where
  "extcodehashRule r warm isEmp =
     rulesFor \<lparr>in_op = EXTCODEHASH,
       in_staticGas = (if r < R09_Berlin then 700 else if warm then 100 else 2600),
       in_pops = 1, in_pushes = 1,
       in_conditions = [IsRevision r, if warm then IsAddressWarm (Param 0) else IsAddressCold (Param 0),
         if isEmp then AccountIsEmpty (Param 0) else AccountIsNotEmpty (Param 0)],
       in_effect = (\<lambda>s. bind (Stack_Pop s) (\<lambda>a s.
         let address = NewAddress a;
             s = (if Accounts_IsEmpty (st_Accounts s) address then Stack_Push (NewU256 0) s
                  else Stack_Push (Accounts_GetCodeHash (st_Accounts s) address) s)
         in ret () (if R09_Berlin \<le> r \<and> \<not> warm then on_accounts (Accounts_MarkWarm address) s else s)))\<rparr>"

definition allKnownRevisions :: "Revision list" where
  "allKnownRevisions = map Revision [0..7]"

definition extcodehashRules :: "Rule list" where
  "extcodehashRules =
     concat (map (\<lambda>r. concat (map (\<lambda>warm. concat (map (\<lambda>isEmp. extcodehashRule r warm isEmp)
       [True, False])) [True, False])) allKnownRevisions)"

section \<open>Copies of code, call data and return data\<close>

definition codecopyEffect :: "uint256_lib \<Rightarrow> Effect" where
  "codecopyEffect U s =
     bind (Stack_Pop s) (\<lambda>destOffsetU256 s.
     bind (Stack_Pop s) (\<lambda>offsetU256 s.
     bind (Stack_Pop s) (\<lambda>sizeU256 s.
     let (cost, destOffset, sz) = ExpansionCosts (st_Memory s) destOffsetU256 sizeU256 in
     spendSum [cost, wordCost 3 sz] (\<lambda>s.
       let len = word_of_nat (Code_Length (st_Code s)) :: u64;
           start = (if u_Gt U offsetU256 (NewU256 len) then len else Uint64 offsetU256);
           end = min (start + sz) len
       in bind (lift_go (Bytes_Get (cd_code (st_Code s)) start end) s) (\<lambda>bs s.
          Memory_Write (ct_RightPadSlice bs (unat sz)) destOffset s)) s)))"

definition codeRules :: "uint256_lib \<Rightarrow> Rule list" where
  "codeRules U =
     pushValue CHAINID 2 [] (\<lambda>s. bc_ChainID (st_BlockContext s)) @
     pushValue CODESIZE 2 [] (\<lambda>s. NewU256 (word_of_nat (Code_Length (st_Code s)))) @
     rulesFor \<lparr>in_op = CODECOPY, in_staticGas = 3, in_pops = 3, in_pushes = 0, in_conditions = [],
       in_effect = codecopyEffect U\<rparr>"

definition calldataloadEffect :: Effect where
  "calldataloadEffect s =
     bind (Stack_Pop s) (\<lambda>offsetU256 s.
     let len = word_of_nat (length (st_CallData s)) :: u64 in
     bind (if IsUint64 offsetU256 then
             (let start = min (Uint64 offsetU256) len; end = min (start + 32) len in
              bind (lift_go (Bytes_Get (st_CallData s) start end) s) (\<lambda>bs s.
              lift_go (NewU256FromBytes (ct_RightPadSlice bs 32)) s))
           else ret (NewU256 0) s) (\<lambda>pushData s.
     ret () (Stack_Push pushData s)))"

definition calldatacopyEffect :: "uint256_lib \<Rightarrow> Effect" where
  "calldatacopyEffect U s =
     bind (Stack_Pop s) (\<lambda>destOffsetU256 s.
     bind (Stack_Pop s) (\<lambda>offsetU256 s.
     bind (Stack_Pop s) (\<lambda>sizeU256 s.
     let (expansionCost, destOffset, sz) = ExpansionCosts (st_Memory s) destOffsetU256 sizeU256 in
     spendSum [expansionCost, wordCost 3 sz] (\<lambda>s.
       let len = word_of_nat (length (st_CallData s)) :: u64;
           start = (if u_Gt U offsetU256 (NewU256 len) then len else Uint64 offsetU256);
           end = min (start + sz) len
       in bind (lift_go (Bytes_Get (st_CallData s) start end) s) (\<lambda>bs s.
          Memory_Write (ct_RightPadSlice bs (unat sz)) destOffset s)) s)))"

definition calldataRules :: "uint256_lib \<Rightarrow> Rule list" where
  "calldataRules U =
     pushValue CALLDATASIZE 2 [] (\<lambda>s. NewU256 (word_of_nat (length (st_CallData s)))) @
     rulesFor \<lparr>in_op = CALLDATALOAD, in_staticGas = 3, in_pops = 1, in_pushes = 1, in_conditions = [],
       in_effect = calldataloadEffect\<rparr> @
     rulesFor \<lparr>in_op = CALLDATACOPY, in_staticGas = 3, in_pops = 3, in_pushes = 0, in_conditions = [],
       in_effect = calldatacopyEffect U\<rparr> @
     pushValue SELFBALANCE 5 []
       (\<lambda>s. Accounts_GetBalance (st_Accounts s) (cc_AccountAddress (st_CallContext s)))"

definition returndatacopyEffect :: Effect where
  "returndatacopyEffect s =
     bind (Stack_Pop s) (\<lambda>memOffsetU256 s.
     bind (Stack_Pop s) (\<lambda>dataOffsetU256 s.
     bind (Stack_Pop s) (\<lambda>sizeU256 s.
     let dataOffset = Uint64 dataOffsetU256;
         (readUntil, overflow) = sumWithOverflow_u64 [dataOffset, Uint64 sizeU256] in
     if \<not> IsUint64 dataOffsetU256 \<or> \<not> IsUint64 sizeU256 \<or> overflow \<or>
        length (st_LastCallReturnData s) < unat readUntil
     then ret () (s\<lparr>st_Status := Failed\<rparr>)
     else
       (let (expansionCost, memOffset, sz) = ExpansionCosts (st_Memory s) memOffsetU256 sizeU256 in
        spendSum [expansionCost, wordCost 3 sz] (\<lambda>s.
          bind (lift_go (Bytes_Get (st_LastCallReturnData s) dataOffset readUntil) s) (\<lambda>bs s.
          Memory_Write bs memOffset s)) s))))"

text \<open>\<open>RETURN\<close> and \<open>REVERT\<close> differ in the final status.\<close>

definition returnEffect :: "StatusCode \<Rightarrow> Effect" where
  "returnEffect st s =
     bind (Stack_Pop s) (\<lambda>offsetU256 s.
     bind (Stack_Pop s) (\<lambda>sizeU256 s.
     let (expansionCost, offset, sz) = ExpansionCosts (st_Memory s) offsetU256 sizeU256 in
     spendGas expansionCost (\<lambda>s.
       bind (Memory_Read offset sz s) (\<lambda>bs s.
       ret () (s\<lparr>st_ReturnData := bs, st_Status := st\<rparr>))) s))"

definition returnRules :: "Rule list" where
  "returnRules =
     pushValue RETURNDATASIZE 2 [] (\<lambda>s. NewU256 (word_of_nat (length (st_LastCallReturnData s)))) @
     rulesFor \<lparr>in_op = RETURNDATACOPY, in_staticGas = 3, in_pops = 3, in_pushes = 0, in_conditions = [],
       in_effect = returndatacopyEffect\<rparr> @
     rulesFor \<lparr>in_op = RETURN, in_staticGas = 0, in_pops = 2, in_pushes = 0, in_conditions = [],
       in_effect = returnEffect Stopped\<rparr> @
     rulesFor \<lparr>in_op = REVERT, in_staticGas = 0, in_pops = 2, in_pushes = 0, in_conditions = [],
       in_effect = returnEffect Reverted\<rparr>"

section \<open>Self-destruct\<close>

definition selfDestructEffect :: Effect where
  "selfDestructEffect s =
     bind (Stack_Pop s) (\<lambda>b s.
     let beneficiaryAccount = Bytes20 b;
         originatorAccount = cc_AccountAddress (st_CallContext s);
         originatorBalance = Accounts_GetBalance (st_Accounts s) originatorAccount;
         (dynamicCost, s) =
           (if R07_Istanbul < st_Revision s \<and> \<not> Accounts_IsWarm (st_Accounts s) beneficiaryAccount
            then (2600, on_accounts (Accounts_MarkWarm beneficiaryAccount) s) else (0, s));
         dynamicCost =
           (if originatorBalance \<noteq> 0 \<and> Accounts_IsEmpty (st_Accounts s) beneficiaryAccount
            then dynamicCost + 25000 else dynamicCost)
     in spendGas dynamicCost (\<lambda>s.
          let rfnd = (if st_Revision s < R10_London \<and> \<not> st_HasSelfDestructed s then 24000 else 0);
              s = s\<lparr>st_GasRefund := int64 (st_GasRefund s + rfnd)\<rparr>;
              s = (if st_Revision s < R13_Cancun \<or> st_IsNewContract s
                   then s\<lparr>st_HasSelfDestructed := True,
                          st_SelfDestructedJournal := st_SelfDestructedJournal s @ [(originatorAccount, beneficiaryAccount)]\<rparr>
                   else s)
          in ret () (s\<lparr>st_Status := Stopped\<rparr>)) s)"

definition makeSelfDestructRules :: "Revision \<Rightarrow> bool \<Rightarrow> bool \<Rightarrow> bool \<Rightarrow> bool \<Rightarrow> bool \<Rightarrow> Rule list" where
  "makeSelfDestructRules r originatorHasFunds originatorHasSelfDestructedBefore beneficiaryAccountIsEmpty
     beneficiaryAccountIsWarm isNewContract =
     rulesFor \<lparr>in_op = SELFDESTRUCT, in_staticGas = 5000, in_pops = 1, in_pushes = 0,
       in_conditions =
         [Eq ReadOnly False, IsRevision r,
          if originatorHasFunds then Gt (Balance SelfAddress) (NewU256 0) else Eq (Balance SelfAddress) (NewU256 0),
          if originatorHasSelfDestructedBefore then HasSelfDestructed else HasNotSelfDestructed,
          if beneficiaryAccountIsEmpty then AccountIsEmpty (Param 0) else AccountIsNotEmpty (Param 0),
          if beneficiaryAccountIsWarm then IsAddressWarm (Param 0) else IsAddressCold (Param 0),
          if isNewContract then ct_IsNewContract else IsNotNewContract],
       in_effect = selfDestructEffect\<rparr>"

text \<open>All combinations of the flags of a nested loop over \<open>{true, false}\<close>.\<close>

definition selfDestructRules :: "Rule list" where
  "selfDestructRules =
     [rule. r \<leftarrow> allKnownRevisions, originatorHasFunds \<leftarrow> [True, False], beneficiaryAccountEmpty \<leftarrow> [True, False],
        beneficiaryAccountIsWarm \<leftarrow> [True, False], hasSelfDestructed \<leftarrow> [True, False], isNewContract \<leftarrow> [True, False],
        rule \<leftarrow> makeSelfDestructRules r originatorHasFunds hasSelfDestructed beneficiaryAccountEmpty
                 beneficiaryAccountIsWarm isNewContract] @
     rulesFor \<lparr>in_op = SELFDESTRUCT, in_staticGas = 5000, in_pops = 1, in_pushes = 0,
       in_conditions = [Eq ReadOnly True, AnyKnownRevision], in_effect = FailEffect\<rparr>"

section \<open>Creation\<close>

text \<open>The part of \<open>createEffect\<close> after the charges.\<close>

definition createCall :: "uint256_lib \<Rightarrow> CallKind \<Rightarrow> u256 \<Rightarrow> u256 \<Rightarrow> bytes \<Rightarrow> Effect" where
  "createCall U kind valueU256 saltU256 input s =
     (if valueU256 \<noteq> 0 \<and>
         u_Lt U (Accounts_GetBalance (st_Accounts s) (cc_AccountAddress (st_CallContext s))) valueU256
      then ret () ((Stack_Push (AddressToU256 0) s)\<lparr>st_LastCallReturnData := []\<rparr>)
      else
        (let limit = st_Gas s - go_quot (st_Gas s) 64;
             (r, j) = CallJournal_Call kind
               \<lparr>cp_Sender = cc_AccountAddress (st_CallContext s), cp_Recipient = 0, cp_Value = valueU256,
                cp_Input = input, cp_Gas = limit, cp_Salt = saltU256, cp_CodeAddress = 0\<rparr> (st_CallJournal s);
             s = s\<lparr>st_CallJournal := j, st_Gas := int64 (st_Gas s - (limit - cr_GasLeft r)),
                   st_GasRefund := int64 (st_GasRefund s + cr_GasRefund r)\<rparr>
         in if \<not> cr_Success r
            then ret () ((Stack_Push (AddressToU256 0) s)\<lparr>st_LastCallReturnData := cr_Output r\<rparr>)
            else ret () (Stack_Push (AddressToU256 (cr_CreatedAddress r)) (s\<lparr>st_LastCallReturnData := []\<rparr>))))"

definition createEffect :: "uint256_lib \<Rightarrow> CallKind \<Rightarrow> Effect" where
  "createEffect U callKind s =
     bind (Stack_Pop s) (\<lambda>valueU256 s.
     bind (Stack_Pop s) (\<lambda>offsetU256 s.
     bind (Stack_Pop s) (\<lambda>sizeU256 s.
     let (memExpCost, offset, sz) = ExpansionCosts (st_Memory s) offsetU256 sizeU256 in
     if R12_Shanghai \<le> st_Revision s \<and> (\<not> IsUint64 sizeU256 \<or> 49152 < sz)
     then ret () (s\<lparr>st_Status := Failed\<rparr>)
     else
       (let (dynamicGas, overflow) =
          (if R12_Shanghai \<le> st_Revision s then sumWithOverflow [memExpCost, wordCost 2 sz]
           else (memExpCost, False)) in
        if overflow then ret () (s\<lparr>st_Status := Failed\<rparr>)
        else
          bind (if callKind = Create2 then Stack_Pop s else ret 0 s) (\<lambda>saltU256 s.
          let (dynamicGas, overflow) =
            (if callKind = Create2 then sumWithOverflow [dynamicGas, wordCost 6 sz] else (dynamicGas, False)) in
          if overflow then ret () (s\<lparr>st_Status := Failed\<rparr>)
          else spendGas dynamicGas (\<lambda>s.
            bind (Memory_Read offset sz s) (\<lambda>input s. createCall U callKind valueU256 saltU256 input s)) s)))))"

definition createRules :: "uint256_lib \<Rightarrow> Rule list" where
  "createRules U =
     (let i = \<lparr>in_op = CREATE, in_staticGas = 32000, in_pops = 3, in_pushes = 1,
               in_conditions = [Eq ReadOnly True], in_effect = FailEffect\<rparr>
      in rulesFor i @
         rulesFor (i\<lparr>in_conditions := [Eq ReadOnly False], in_effect := createEffect U Create\<rparr>) @
         rulesFor (i\<lparr>in_op := CREATE2\<rparr>) @
         rulesFor (i\<lparr>in_op := CREATE2, in_pops := 4, in_conditions := [Eq ReadOnly False],
           in_effect := createEffect U Create2\<rparr>))"

section \<open>Calls\<close>

text \<open>The costs of the delegation designator of the target, with its access.\<close>

definition delegationCost :: "Address \<Rightarrow> State \<Rightarrow> Gas \<times> State" where
  "delegationCost target s =
     (if R14_Prague \<le> st_Revision s then
        (let (delegateAddress, isDelegate) = ParseDelegationDesignator (Accounts_GetCode (st_Accounts s) target) in
         if isDelegate then
           (if Accounts_IsWarm (st_Accounts s) delegateAddress then (100, s)
            else (2600, on_accounts (Accounts_MarkWarm delegateAddress) s))
         else (0, s))
      else (0, s))"

text \<open>The part of \<open>callEffect\<close> from the gas of the nested call on.\<close>

definition callExecution ::
  "uint256_lib \<Rightarrow> OpCode \<Rightarrow> u256 \<Rightarrow> u256 \<Rightarrow> u256 \<Rightarrow> u64 \<Rightarrow> u64 \<Rightarrow> u64 \<Rightarrow> u64 \<Rightarrow> Effect" where
  "callExecution U op gasU256 target v argsOffset64 argsSize64 retOffset64 retSize64 s =
     (let limit = st_Gas s - go_quot (st_Gas s) 64;
          endowment = (if IsUint64 gasU256 \<and> Uint64 gasU256 < word_of_int limit
                       then int64 (uint (Uint64 gasU256)) else limit);
          stipend = (if v \<noteq> 0 then 2300 else 0);
          s = s\<lparr>st_Gas := st_Gas s + stipend\<rparr>
      in bind (Memory_Read argsOffset64 argsSize64 s) (\<lambda>input s.
         if v \<noteq> 0 \<and> u_Lt U (Accounts_GetBalance (st_Accounts s) (cc_AccountAddress (st_CallContext s))) v
         then ret () ((Stack_Push (NewU256 0) s)\<lparr>st_LastCallReturnData := []\<rparr>)
         else
           (let self = cc_AccountAddress (st_CallContext s);
                (kind, sender, recipient, v) =
                  (if op = DELEGATECALL
                   then (DelegateCall, cc_CallerAddress (st_CallContext s), self, cc_Value (st_CallContext s))
                   else if op = CALLCODE then (CallCode, self, self, v)
                   else (Call, self, Bytes20 target, v));
                kind = (if (st_ReadOnly s \<and> op = CALL) \<or> op = STATICCALL then StaticCall else kind);
                (r, j) = CallJournal_Call kind
                  \<lparr>cp_Sender = sender, cp_Recipient = recipient, cp_Value = v, cp_Input = input,
                   cp_Gas = endowment + stipend, cp_Salt = 0, cp_CodeAddress = Bytes20 target\<rparr> (st_CallJournal s);
                s = s\<lparr>st_CallJournal := j\<rparr>
            in bind (if 0 < retSize64 then
                       (let output = (if unat retSize64 < length (cr_Output r)
                                      then take (unat retSize64) (cr_Output r) else cr_Output r)
                        in Memory_Write output retOffset64 s)
                     else ret () s) (\<lambda>_ s.
               let s = s\<lparr>st_Gas := int64 (st_Gas s - (endowment + stipend - cr_GasLeft r)),
                         st_GasRefund := int64 (st_GasRefund s + cr_GasRefund r),
                         st_LastCallReturnData := cr_Output r\<rparr>
               in ret () (Stack_Push (if cr_Success r then NewU256 1 else NewU256 0) s)))))"

definition callEffect :: "uint256_lib \<Rightarrow> Gas \<Rightarrow> OpCode \<Rightarrow> Effect" where
  "callEffect U addrAccessCost op s =
     bind (Stack_Pop s) (\<lambda>gasU256 s.
     bind (Stack_Pop s) (\<lambda>target s.
     bind (if op = CALL \<or> op = CALLCODE then Stack_Pop s else ret 0 s) (\<lambda>v s.
     bind (Stack_Pop s) (\<lambda>argsOffset s.
     bind (Stack_Pop s) (\<lambda>argsSize s.
     bind (Stack_Pop s) (\<lambda>retOffset s.
     bind (Stack_Pop s) (\<lambda>retSize s.
     let (inputMemoryExpansionCost, argsOffset64, argsSize64) = ExpansionCosts (st_Memory s) argsOffset argsSize;
         (outputMemoryExpansionCost, retOffset64, retSize64) = ExpansionCosts (st_Memory s) retOffset retSize;
         memoryExpansionCost = max inputMemoryExpansionCost outputMemoryExpansionCost;
         positiveValueCost = (if v \<noteq> 0 then 9000 else 0);
         valueToEmptyAccountCost =
           (if v \<noteq> 0 \<and> Accounts_IsEmpty (st_Accounts s) (Bytes20 target) \<and> op \<noteq> CALLCODE then 25000 else 0);
         (delegationDesignatorAccessCost, s) = delegationCost (Bytes20 target) s
     in spendSum [memoryExpansionCost, positiveValueCost, valueToEmptyAccountCost, addrAccessCost,
                  delegationDesignatorAccessCost] (\<lambda>s.
          let s = (if R09_Berlin \<le> st_Revision s then on_accounts (Accounts_MarkWarm (Bytes20 target)) s else s)
          in bind (Memory_Grow argsOffset64 argsSize64 s) (\<lambda>_ s.
             bind (Memory_Grow retOffset64 retSize64 s) (\<lambda>_ s.
             callExecution U op gasU256 target v argsOffset64 argsSize64 retOffset64 retSize64 s))) s)))))))"

definition getRulesForCall ::
  "OpCode \<Rightarrow> Revision \<Rightarrow> bool \<Rightarrow> bool \<Rightarrow> DelegationDesignatorState option \<Rightarrow> (Gas \<Rightarrow> OpCode \<Rightarrow> Effect) \<Rightarrow> bool \<Rightarrow>
   Rule list" where
  "getRulesForCall op r warm zeroValue delegationDesignator opEffect static =
     (let (staticGas, addressAccessCost) =
            (if r = R07_Istanbul then (700, 0)
             else if R09_Berlin \<le> r then (0, if warm then 100 else 2600) else (0, 0));
          targetWarm = (if warm then IsAddressWarm (Param 1) else IsAddressCold (Param 1));
          staticCondition = (if static then Eq ReadOnly True else Eq ReadOnly False);
          callConditions = [IsRevision r, targetWarm, staticCondition] @
            (case delegationDesignator of None \<Rightarrow> [] | Some d \<Rightarrow> [ConstraintDelegationDesignator (Param 1) d]);
          (callConditions, pops) =
            (if op = CALL \<or> op = CALLCODE
             then (callConditions @ [if zeroValue then Eq (ValueParam 2) (NewU256 0) else Ne (ValueParam 2) (NewU256 0)], 7)
             else (callConditions, 6))
      in rulesFor \<lparr>in_op = op, in_staticGas = staticGas, in_pops = pops, in_pushes = 1,
           in_conditions = callConditions, in_effect = opEffect addressAccessCost op\<rparr>)"

definition callRules :: "uint256_lib \<Rightarrow> OpCode \<Rightarrow> Revision \<Rightarrow> bool \<Rightarrow> bool \<Rightarrow> bool \<Rightarrow> Rule list" where
  "callRules U op r warm static zeroValue =
     (let effect = (if op = CALL \<and> static \<and> \<not> zeroValue then (\<lambda>_ _. FailEffect) else callEffect U)
      in if r < R14_Prague then getRulesForCall op r warm zeroValue None effect static
         else concat (map (\<lambda>d. getRulesForCall op r warm zeroValue (Some d) effect static)
                [NoDelegationDesignation, WarmDelegationDesignation, ColdDelegationDesignation]))"

definition getRulesForAllCallTypes :: "uint256_lib \<Rightarrow> Rule list" where
  "getRulesForAllCallTypes U =
     [rule. op \<leftarrow> [CALL, CALLCODE, STATICCALL, DELEGATECALL], r \<leftarrow> allKnownRevisions, warm \<leftarrow> [True, False],
        static \<leftarrow> [True, False], zeroValue \<leftarrow> [True, False], rule \<leftarrow> callRules U op r warm static zeroValue]"

section \<open>All rules\<close>

definition getAllRules :: "uint256_lib \<Rightarrow> (bytes \<Rightarrow> Hash) \<Rightarrow> Rule list" where
  "getAllRules U K =
     terminalRules @ invalidRules @ errorRules @ stopRules @ arithmeticRules U @ comparisonRules U @ clzRules U @
     sha3Rules K @ balanceRules @ mloadRules @ mstoreRules @ sloadRules @ allSstoreRules @ jumpRules @ jumpiRules @
     pcRules @ tloadRules @ tstoreRules @ push0Rules @ mcopyRules @ concat (map pushOp [1..<33]) @ popRules @
     concat (map dupOp [1..<17]) @ concat (map swapOp [1..<17]) @ concat (map logOp [0..<5]) @ addressRules @
     blockhashRules @ blockRules @ extcodesizeRules @ extcodecopyRules U @ feeRules @ blobRules @ extcodehashRules @
     codeRules U @ calldataRules U @ returnRules @ getRulesForAllCallTypes U @ selfDestructRules @ createRules U"

end
