(* ===== verification/Ct_Adapter.thy ===== *)
theory Ct_Adapter
  imports Ct_Spec_Calls
begin

text \<open>
  The adapters between the conformance tests and the short-form interpreter
  (\<open>go/ct/utils/adapter.go\<close>, \<open>go/interpreter/sfvm/ct.go\<close>) and the decision of a test
  (\<open>runTest\<close> of \<open>go/ct/driver/run.go\<close>).
\<close>

section \<open>The run context over a state\<close>

definition ToVmParameters :: "(bytes \<Rightarrow> Hash) \<Rightarrow> State \<Rightarrow> Parameters" where
  "ToVmParameters K s =
     (let b = st_BlockContext s; t = st_TransactionContext s in
      \<lparr>BlockParams = \<lparr>ChainID = bc_ChainID b, BlockNumber = int64 (uint (bc_BlockNumber b)),
         Timestamp = int64 (uint (bc_TimeStamp b)), Coinbase = bc_CoinBase b,
         GasLimit = int64 (uint (bc_GasLimit b)), PrevRandao = bc_PrevRandao b, BaseFee = bc_BaseFee b,
         BlobBaseFee = bc_BlobBaseFee b, revision = st_Revision s\<rparr>,
       TransactionParams = \<lparr>Origin = tc_OriginAddress t, GasPrice = bc_GasPrice b, BlobHashes = tc_BlobHashes t\<rparr>,
       Kind = Call, Static = st_ReadOnly s, Depth = 0, Gas = st_Gas s,
       Recipient = cc_AccountAddress (st_CallContext s), Sender = cc_CallerAddress (st_CallContext s),
       Input = st_CallData s, Value = cc_Value (st_CallContext s), CodeHash = Some (K (cd_code (st_Code s))),
       Code = cd_code (st_Code s)\<rparr>)"

definition ct_SetStorage :: "Key \<Rightarrow> Word \<Rightarrow> State \<Rightarrow> StorageStatus \<times> State" where
  "ct_SetStorage k v s =
     (let original = GetOriginal (st_Storage s) k; current = GetCurrent (st_Storage s) k
      in (GetStorageStatus original current v, on_storage (SetCurrent k v) s))"

definition ct_GetBlockHash :: "State \<Rightarrow> int \<Rightarrow> Hash" where
  "ct_GetBlockHash s number =
     (let mx = int64 (uint (bc_BlockNumber (st_BlockContext s)));
          mn = (if 256 < mx then mx - 256 else 0)
      in if number < mn \<or> mx \<le> number then 0
         else (case HashArray_Get (st_RecentBlockHashes s) (word_of_int (mx - number - 1)) of
                 Ret h \<Rightarrow> h | Panic \<Rightarrow> 0))"

definition ct_Call :: "CallKind \<Rightarrow> CallParameters \<Rightarrow> State \<Rightarrow> (CallResult \<times> bool) \<times> State" where
  "ct_Call kind p s =
     (let (r, j) = CallJournal_Call kind p (st_CallJournal s) in ((r, False), s\<lparr>st_CallJournal := j\<rparr>))"

definition ct_SelfDestruct :: "Address \<Rightarrow> Address \<Rightarrow> State \<Rightarrow> bool \<times> State" where
  "ct_SelfDestruct address beneficiary s =
     (if st_Revision s < R13_Cancun \<or> st_IsNewContract s then
        (let s = s\<lparr>st_SelfDestructedJournal := st_SelfDestructedJournal s @ [(address, beneficiary)]\<rparr> in
         if st_HasSelfDestructed s then (False, s) else (True, s\<lparr>st_HasSelfDestructed := True\<rparr>))
      else (False, s))"

definition ct_AccessAccount :: "Address \<Rightarrow> State \<Rightarrow> AccessStatus \<times> State" where
  "ct_AccessAccount addr s =
     (let warm = Accounts_IsWarm (st_Accounts s) addr; s = on_accounts (Accounts_MarkWarm addr) s
      in (if warm then WarmAccess else ColdAccess, s))"

definition ct_AccessStorage :: "Key \<Rightarrow> State \<Rightarrow> AccessStatus \<times> State" where
  "ct_AccessStorage k s =
     (let isWarm = Storage_IsWarm (st_Storage s) k; s = on_storage (Storage_MarkWarm k) s
      in (if isWarm then WarmAccess else ColdAccess, s))"

text \<open>
  \<open>ctRunContext\<close>. Its methods that only panic (\<open>SetCode\<close>, \<open>CreateContract\<close>,
  \<open>HasEmptyStorage\<close>, \<open>SetNonce\<close>, snapshots, \<open>GetLogs\<close>) are not called by an interpreter
  and have arbitrary values here.
\<close>

definition ctRunContext :: "State RunContext" where
  "ctRunContext =
     \<lparr>AccountExists = (\<lambda>s a. Accounts_Exists (st_Accounts s) a), CreateContract = (\<lambda>_ s. s),
      IsNewContract = (\<lambda>s _. st_IsNewContract s),
      GetBalance = (\<lambda>s a. Accounts_GetBalance (st_Accounts s) a), SetBalance = (\<lambda>_ _ s. s),
      GetNonce = (\<lambda>_ _. 0), SetNonce = (\<lambda>_ _ s. s),
      GetCode = (\<lambda>s a. Accounts_GetCode (st_Accounts s) a),
      GetCodeHash = (\<lambda>s a. Accounts_GetCodeHash (st_Accounts s) a),
      GetCodeSize = (\<lambda>s a. int (length (Accounts_GetCode (st_Accounts s) a))), SetCode = (\<lambda>_ _ s. s),
      HasEmptyStorage = (\<lambda>_ _. True), GetStorage = (\<lambda>s _ k. GetCurrent (st_Storage s) k),
      SetStorage = (\<lambda>_. ct_SetStorage), SelfDestruct = ct_SelfDestruct,
      CreateSnapshot = (\<lambda>s. (0, s)), RestoreSnapshot = (\<lambda>_ s. s),
      GetTransientStorage = (\<lambda>s _ k. Transient_Get (st_TransientStorage s) k),
      SetTransientStorage = (\<lambda>_ k v s. s\<lparr>st_TransientStorage := Transient_Set k v (st_TransientStorage s)\<rparr>),
      AccessAccount = ct_AccessAccount, AccessStorage = (\<lambda>_. ct_AccessStorage),
      EmitLog = (\<lambda>l s. s\<lparr>st_Logs := AddLog (log_Data l) (log_Topics l) (st_Logs s)\<rparr>),
      GetLogs = (\<lambda>_. []), GetBlockHash = ct_GetBlockHash, CallOp = ct_Call\<rparr>"

definition ct_env :: "uint256_lib \<Rightarrow> (bytes \<Rightarrow> Hash) \<Rightarrow> State env" where
  "ct_env U K = \<lparr>rc = ctRunContext, u256lib = U, Keccak256 = K, sha3Cache_hash = K\<rparr>"

section \<open>Steps of the short-form interpreter on a state\<close>

definition convertSfvmStatusToCtStatus :: "status \<Rightarrow> StatusCode" where
  "convertSfvmStatusToCtStatus st =
     (case st of
        statusRunning \<Rightarrow> Running
      | statusReturned \<Rightarrow> Stopped
      | statusStopped \<Rightarrow> Stopped
      | statusReverted \<Rightarrow> Reverted
      | statusSelfDestructed \<Rightarrow> Stopped
      | statusFailed \<Rightarrow> Failed)"

text \<open>The interpreter's stack has its top at the head of the list.\<close>

definition convertCtStackToSfvmStack :: "u256 list \<Rightarrow> u256 list" where
  "convertCtStackToSfvmStack st = rev st"

definition convertSfvmStackToCtStack :: "u256 list \<Rightarrow> u256 list" where
  "convertSfvmStackToCtStack st = rev st"

definition convertCtMemoryToSfvmMemory :: "bytes \<Rightarrow> Memory" where
  "convertCtMemoryToSfvmMemory m =
     (let ws = SizeInWords (word_of_nat (length m))
      in \<lparr>store = overwrite 0 m (replicate (unat (ws * 32)) 0),
          currentMemoryCost = int64 (uint ((ws * ws) div 512 + 3 * ws))\<rparr>)"

definition convertSfvmMemoryToCtMemory :: "Memory \<Rightarrow> bytes" where
  "convertSfvmMemoryToCtMemory m = store m"

text \<open>The context that \<open>StepN\<close> sets up; the analysis is the one of the code.\<close>

definition ct_context :: "(bytes \<Rightarrow> Hash) \<Rightarrow> State \<Rightarrow> State sfvm_context" where
  "ct_context K s =
     (let p = ToVmParameters K s in
      \<lparr>params = p, world = s, pc = uint (st_Pc s), gas = Gas p, refund = st_GasRefund s,
       stack = convertCtStackToSfvmStack (st_Stack s), memory = convertCtMemoryToSfvmMemory (st_Memory s),
       returnData = st_LastCallReturnData s, withShaCache = False, code = Code p,
       analysis = findJumpDestinations (Code p)\<rparr>)"

text \<open>The update of the state after the loop; the world of the context is the state itself.\<close>

definition update_state :: "status \<Rightarrow> State sfvm_context \<Rightarrow> State" where
  "update_state st c =
     (let s = (world c)\<lparr>st_Status := convertSfvmStatusToCtStatus st\<rparr>;
          s = (if st = statusRunning then s\<lparr>st_Pc := word_of_int (pc c)\<rparr> else s);
          s = s\<lparr>st_Gas := gas c, st_GasRefund := refund c, st_Stack := convertSfvmStackToCtStack (stack c),
                st_Memory := convertSfvmMemoryToCtMemory (memory c), st_LastCallReturnData := returnData c\<rparr>
      in if st = statusReturned \<or> st = statusReverted then s\<lparr>st_ReturnData := returnData c\<rparr> else s)"

text \<open>The loop over single steps.\<close>

fun step_loop :: "State env \<Rightarrow> nat \<Rightarrow> status \<Rightarrow> State sfvm_context \<Rightarrow> (status \<times> State sfvm_context) go option" where
  "step_loop E 0 st c = Some (Ret (st, c))"
| "step_loop E (Suc n) st c =
     (if st \<noteq> statusRunning then Some (Ret (st, c))
      else (case execute E True c of
              Some (Ret (st, c)) \<Rightarrow> step_loop E n st c
            | x \<Rightarrow> x))"

text \<open>
  \<open>StepN\<close>: the Boolean says that the error \<open>ErrUnsupportedRevision\<close> is returned.
\<close>

definition StepN :: "uint256_lib \<Rightarrow> (bytes \<Rightarrow> Hash) \<Rightarrow> State \<Rightarrow> nat \<Rightarrow> (State \<times> bool) go option" where
  "StepN U K s numSteps =
     (if newestSupportedRevision < revision (BlockParams (ToVmParameters K s)) then Some (Ret (s, True))
      else if st_Status s \<noteq> Running then Some (Ret (s, False))
      else (case step_loop (ct_env U K) numSteps statusRunning (ct_context K s) of
              None \<Rightarrow> None
            | Some Panic \<Rightarrow> Some Panic
            | Some (Ret (st, c)) \<Rightarrow> Some (Ret (update_state st c, False))))"

section \<open>Passing a test\<close>

text \<open>
  What \<open>runTest\<close> decides for a rule: the effect of the rule and one step of the interpreter
  give equal states, and neither panics.
\<close>

definition passes :: "uint256_lib \<Rightarrow> (bytes \<Rightarrow> Hash) \<Rightarrow> Rule \<Rightarrow> State \<Rightarrow> bool" where
  "passes U K r s =
     (case r_Effect r s of
        (Inl _, _) \<Rightarrow> False
      | (Inr _, expected) \<Rightarrow>
          (case StepN U K s 1 of
             Some (Ret (result, err)) \<Rightarrow> \<not> err \<and> State_Eq result expected
           | _ \<Rightarrow> False))"

end
