(* ===== verification/Ct_Conform.thy ===== *)
theory Ct_Conform
  imports Ct_Adapter Sfvm_Functional Lfvm_Layout
begin

text \<open>
  The framework for conformance proofs: well-formed test states, one step of the short-form
  interpreter on such a state, and the reduction of the rules of an instruction to its
  regular effect.
\<close>

section \<open>Test states\<close>

text \<open>
  What the generators of the conformance tests guarantee (\<open>go/ct/gen\<close>): bounds of gas and
  sizes, a memory of whole words, a code made by \<open>NewCode\<close>, no return data, a block number
  that fits a signed integer.
\<close>

definition ct_wf :: "State \<Rightarrow> bool" where
  "ct_wf s \<longleftrightarrow>
     length (st_Stack s) \<le> 1024 \<and> 0 \<le> st_Gas s \<and> st_Gas s \<le> 500000000000 \<and>
     length (st_Memory s) mod 32 = 0 \<and> length (st_Memory s) \<le> maxMemoryExpansionSize \<and>
     (\<exists>cd. st_Code s = NewCode cd \<and> length cd \<le> 24576) \<and>
     length (st_CallData s) < 9223372036854775808 \<and> length (st_LastCallReturnData s) < 9223372036854775808 \<and>
     (\<forall>a. length (Accounts_GetCode (st_Accounts s) a) < 9223372036854775808) \<and>
     st_ReturnData s = [] \<and> uint (bc_BlockNumber (st_BlockContext s)) < 9223372036854775808"

text \<open>A test that the driver does not skip: the revision is supported and the program counter is on code.\<close>

definition test_state :: "State \<Rightarrow> bool" where
  "test_state s \<longleftrightarrow>
     ct_wf s \<and> MinRevision \<le> st_Revision s \<and> st_Revision s \<le> NewestSupportedRevision \<and>
     IsCode_at (st_Code s) (uint (st_Pc s))"

text \<open>The test state is at an instruction with op-code \<open>op\<close>.\<close>

definition at_op :: "OpCode \<Rightarrow> State \<Rightarrow> bool" where
  "at_op op s \<longleftrightarrow>
     test_state s \<and> st_Status s = Running \<and> unat (st_Pc s) < length (cd_code (st_Code s)) \<and>
     unat (cd_code (st_Code s) ! unat (st_Pc s)) = op"

lemma at_op_bound: "at_op op s \<Longrightarrow> op < numOpCodes"
  by (auto simp: at_op_def)

section \<open>Code\<close>

text \<open>
  The marks of \<open>NewCode\<close>: they cover the code (and the data of a push at its end) and are
  set at the positions where an instruction starts.
\<close>

lemma NewCode_loop_spec:
  assumes "length isCode = i"
  shows "length cd \<le> length (NewCode_loop cd i isCode) \<and>
    take i (NewCode_loop cd i isCode) = isCode \<and>
    (\<forall>j. i \<le> j \<and> j < length (NewCode_loop cd i isCode) \<longrightarrow>
       (NewCode_loop cd i isCode ! j \<longleftrightarrow> reached cd i j) \<and> (reached cd i j \<longrightarrow> j < length cd)) \<and>
    reached cd i (length (NewCode_loop cd i isCode))"
  using assms
proof (induction cd i isCode rule: NewCode_loop.induct)
  case (1 cd i isCode)
  show ?case
  proof (cases "i < length cd")
    case False
    then show ?thesis using "1.prems" by (auto simp: NewCode_loop.simps [of cd i] intro: reached.here)
  next
    case True
    define w where "w = Width (unat (cd ! i))"
    define R where "R = NewCode_loop cd i isCode"
    have w: "0 < w" by (simp add: w_def)
    have step: "R = NewCode_loop cd (i + w) (isCode @ True # replicate (w - 1) False)"
      using True by (simp add: NewCode_loop.simps [of cd i] Let_def w_def R_def Width_def)
    have IH: "length cd \<le> length R \<and> take (i + w) R = isCode @ True # replicate (w - 1) False \<and>
      (\<forall>j. i + w \<le> j \<and> j < length R \<longrightarrow>
         (R ! j \<longleftrightarrow> reached cd (i + w) j) \<and> (reached cd (i + w) j \<longrightarrow> j < length cd)) \<and>
      reached cd (i + w) (length R)"
    proof (cases "PUSH1 \<le> unat (cd ! i) \<and> unat (cd ! i) \<le> PUSH32")
      case p: True
      then have "w = Suc (Suc (unat (cd ! i) - PUSH1))" by (simp add: w_def Width_def)
      then show ?thesis
        using "1.IH"(1) [OF True refl refl p refl] "1.prems" unfolding step by (simp add: add.assoc)
    next
      case p: False
      then have "w = 1" by (auto simp: w_def Width_def)
      then show ?thesis using "1.IH"(2) [OF True refl refl p] "1.prems" unfolding step by simp
    qed
    have front: "reached cd i j \<longleftrightarrow> j = i \<or> reached cd (i + w) j" for j
      using reached_front [OF True] by (simp add: w_def)
    have lo: "R ! j \<longleftrightarrow> j = i" if "i \<le> j" "j < i + w" "j < length R" for j
    proof -
      have "R ! j = take (i + w) R ! j" using that by simp
      also have "\<dots> = (isCode @ True # replicate (w - 1) False) ! j" using IH by simp
      also have "\<dots> = (j = i)" using that "1.prems" by (auto simp: nth_append nth_Cons')
      finally show ?thesis .
    qed
    have nr: "\<not> reached cd (i + w) j" if "j < i + w" for j
      using reached_le [of cd "i + w" j] that by linarith
    have tk: "take i R = isCode"
    proof -
      have "take i R = take i (take (i + w) R)" by simp
      then show ?thesis using IH "1.prems" by (simp only:) simp
    qed
    have "(R ! j \<longleftrightarrow> reached cd i j) \<and> (reached cd i j \<longrightarrow> j < length cd)" if "i \<le> j" "j < length R" for j
    proof (cases "j < i + w")
      case j: True
      then show ?thesis using lo [OF that(1) j that(2)] nr [OF j] front True by auto
    next
      case j: False
      then show ?thesis using IH that w by (simp add: front)
    qed
    then show ?thesis using IH tk front unfolding R_def [symmetric] by blast
  qed
qed

lemma NewCode_simps [simp]: "cd_code (NewCode cd) = cd"
  by (simp add: NewCode_def)

lemma NewCode_marks:
  "length cd \<le> length (cd_isCode (NewCode cd))"
  "j < length (cd_isCode (NewCode cd)) \<Longrightarrow> cd_isCode (NewCode cd) ! j \<longleftrightarrow> instr_start cd j"
  "j < length (cd_isCode (NewCode cd)) \<Longrightarrow> instr_start cd j \<Longrightarrow> j < length cd"
  "instr_start cd (length (cd_isCode (NewCode cd)))"
  using NewCode_loop_spec [of "[]" 0 cd] unfolding NewCode_def instr_start_reached by simp_all

lemma isCode_iff:
  assumes "j < length (cd_isCode (NewCode cd))"
  shows "cd_isCode (NewCode cd) ! j \<longleftrightarrow> j < length cd \<and> instr_start cd j"
  using NewCode_marks(2,3) [OF assms] by blast

text \<open>The data of a push instruction, also where it exceeds the code.\<close>

lemma GetData_push:
  assumes p: "p < length cd" "instr_start cd p" and j: "0 < j" "j < Width (unat (cd ! p))"
  shows "GetData (NewCode cd) (int p + int j) = Some (if p + j < length cd then cd ! (p + j) else 0)"
proof -
  define R where "R = cd_isCode (NewCode cd)"
  have "reached cd 0 (length R)" "length cd \<le> length R"
    using NewCode_marks by (simp_all add: R_def flip: instr_start_reached)
  moreover have "reached cd 0 p" using p(2) by (simp add: instr_start_reached)
  ultimately have "reached cd p (length R)" using p(1) by (simp add: reached_between)
  then have "reached cd (p + Width (unat (cd ! p))) (length R)"
    using reached_front [OF p(1)] p(1) \<open>length cd \<le> length R\<close> by auto
  then have len: "p + j < length R" using reached_le j(2) by fastforce
  have "\<not> reached cd 0 (p + j)"
  proof
    assume "reached cd 0 (p + j)"
    with \<open>reached cd 0 p\<close> have "reached cd p (p + j)" by (simp add: reached_between)
    then have "reached cd (p + Width (unat (cd ! p))) (p + j)" using reached_front [OF p(1)] j(1) by simp
    then show False using reached_le j(2) by fastforce
  qed
  then have "\<not> R ! (p + j)" using isCode_iff [of "p + j" cd] len by (simp add: R_def instr_start_reached)
  then show ?thesis using len
    by (auto simp: GetData_def IsData_at_def IsCode_at_def R_def nat_add_distrib)
qed

lemma IsCode_at_iff:
  "0 \<le> p \<Longrightarrow> IsCode_at (NewCode cd) p \<longleftrightarrow>
     int (length (cd_isCode (NewCode cd))) \<le> p \<or> nat p < length cd \<and> instr_start cd (nat p)"
  by (auto simp: IsCode_at_def isCode_iff)

lemma GetOperation_iff:
  assumes "0 \<le> p"
  shows "GetOperation (NewCode cd) p = Some op \<longleftrightarrow>
    (if int (length (cd_isCode (NewCode cd))) \<le> p then op = STOP
     else nat p < length cd \<and> instr_start cd (nat p) \<and> op = unat (cd ! nat p))"
  using assms by (auto simp: GetOperation_def isCode_iff)

section \<open>The interpreter's context seen as a state\<close>

text \<open>
  \<open>view c\<close> is the state that the adapter would write back for a running context \<open>c\<close>:
  every operation of the interpreter on \<open>c\<close> has a counterpart of the specification on
  \<open>view c\<close>.
\<close>

definition view :: "State sfvm_context \<Rightarrow> State" where
  "view c = (world c)\<lparr>st_Gas := gas c, st_GasRefund := refund c, st_Stack := rev (stack c),
     st_Memory := store (memory c), st_LastCallReturnData := returnData c, st_Pc := word_of_int (pc c + 1)\<rparr>"

named_theorems view_simps \<open>operations of the specification on the view of a context\<close>

lemma view_fields [simp]:
  "st_Status (view c) = st_Status (world c)" "st_Revision (view c) = st_Revision (world c)"
  "st_ReadOnly (view c) = st_ReadOnly (world c)" "st_Gas (view c) = gas c"
  "st_GasRefund (view c) = refund c" "st_Code (view c) = st_Code (world c)"
  "st_Stack (view c) = rev (stack c)" "st_Memory (view c) = store (memory c)"
  "st_Storage (view c) = st_Storage (world c)"
  "st_TransientStorage (view c) = st_TransientStorage (world c)"
  "st_Accounts (view c) = st_Accounts (world c)" "st_Logs (view c) = st_Logs (world c)"
  "st_CallContext (view c) = st_CallContext (world c)" "st_CallJournal (view c) = st_CallJournal (world c)"
  "st_BlockContext (view c) = st_BlockContext (world c)" "st_CallData (view c) = st_CallData (world c)"
  "st_LastCallReturnData (view c) = returnData c" "st_IsNewContract (view c) = st_IsNewContract (world c)"
  "st_HasSelfDestructed (view c) = st_HasSelfDestructed (world c)"
  "st_RecentBlockHashes (view c) = st_RecentBlockHashes (world c)"
  "st_TransactionContext (view c) = st_TransactionContext (world c)"
  "st_Pc (view c) = word_of_int (pc c + 1)" "st_ReturnData (view c) = st_ReturnData (world c)"
  "st_SelfDestructedJournal (view c) = st_SelfDestructedJournal (world c)"
  by (simp_all add: view_def)

lemma view_updates [view_simps]:
  "(view c)\<lparr>st_Gas := g\<rparr> = view (c\<lparr>gas := g\<rparr>)"
  "(view c)\<lparr>st_GasRefund := g\<rparr> = view (c\<lparr>refund := g\<rparr>)"
  "(view c)\<lparr>st_LastCallReturnData := d\<rparr> = view (c\<lparr>returnData := d\<rparr>)"
  "(view c)\<lparr>st_Logs := l\<rparr> = view (c\<lparr>world := (world c)\<lparr>st_Logs := l\<rparr>\<rparr>)"
  "(view c)\<lparr>st_CallJournal := j\<rparr> = view (c\<lparr>world := (world c)\<lparr>st_CallJournal := j\<rparr>\<rparr>)"
  "(view c)\<lparr>st_TransientStorage := x\<rparr> = view (c\<lparr>world := (world c)\<lparr>st_TransientStorage := x\<rparr>\<rparr>)"
  "on_accounts f (view c) = view (c\<lparr>world := on_accounts f (world c)\<rparr>)"
  "on_storage h (view c) = view (c\<lparr>world := on_storage h (world c)\<rparr>)"
  "Stack_Push v (view c) = view (c\<lparr>stack := v # stack c\<rparr>)"
  by (simp_all add: view_def on_accounts_def on_storage_def Stack_Push_def)

lemma view_pop [view_simps]: "stack c = v # st \<Longrightarrow> Stack_Pop (view c) = ret v (view (c\<lparr>stack := st\<rparr>))"
  by (simp add: view_def Stack_Pop_def nth_append)

lemma spendGas_view [view_simps]:
  "spendGas cost k (view c) =
     (if gas c < cost then ret () ((view c)\<lparr>st_Status := Failed\<rparr>) else k (view (c\<lparr>gas := gas c - cost\<rparr>)))"
  by (simp add: spendGas_def view_updates)

section \<open>Conformance of one step\<close>

text \<open>
  The step \<open>r\<close> of the interpreter and the effect \<open>e\<close> agree: the effect does not panic,
  and the states after them are equal; \<open>conf_run\<close> is the case of an instruction that keeps
  running.
\<close>

definition conf :: "(State sfvm_context, status) res \<Rightarrow> (State, unit) res \<Rightarrow> bool" where
  "conf r e =
     (case e of
        (Inl _, _) \<Rightarrow> False
      | (Inr _, t) \<Rightarrow>
          (case r of
             (Inl x, _) \<Rightarrow> x \<noteq> GoPanic \<and> st_Status t = Failed
           | (Inr st, c) \<Rightarrow> State_Eq (update_state st (c\<lparr>pc := int32 (pc c + 1)\<rparr>)) t))"

definition conf_run :: "(State sfvm_context, unit) res \<Rightarrow> (State, unit) res \<Rightarrow> bool" where
  "conf_run r e =
     (case e of
        (Inl _, _) \<Rightarrow> False
      | (Inr _, t) \<Rightarrow>
          (case r of
             (Inl x, _) \<Rightarrow> x \<noteq> GoPanic \<and> st_Status t = Failed
           | (Inr _, c) \<Rightarrow> st_Status (world c) = Running \<and> t = view c))"

lemma conf_run_simps [simp]:
  "conf_run (ret u c) (ret v t) \<longleftrightarrow> st_Status (world c) = Running \<and> t = view c"
  "conf_run (fail x c) (ret v t) \<longleftrightarrow> x \<noteq> GoPanic \<and> st_Status t = Failed"
  by (simp_all add: conf_run_def ret_def fail_def)

lemma conf_simps [simp]:
  "conf (ret st c) (ret v t) \<longleftrightarrow> State_Eq (update_state st (c\<lparr>pc := int32 (pc c + 1)\<rparr>)) t"
  "conf (fail x c) (ret v t) \<longleftrightarrow> x \<noteq> GoPanic \<and> st_Status t = Failed"
  by (simp_all add: conf_def ret_def fail_def)

lemma component_Eq_refl [simp]:
  "mapEqualIgnoringZeroValues m m" "Storage_Eq st st" "Accounts_Eq a a" "HashArray_Equal h h"
proof -
  have m: "mapEqualIgnoringZeroValues m m" for m :: "'k \<rightharpoonup> u256"
    by (auto simp: mapEqualIgnoringZeroValues_def lookup0_def)
  show "mapEqualIgnoringZeroValues m m" "Storage_Eq st st" "Accounts_Eq a a" "HashArray_Equal h h"
    by (auto simp: m Storage_Eq_def Accounts_Eq_def HashArray_Equal_def split: option.splits)
qed

lemma State_Eq_refl [simp]: "State_Eq s s"
  by (simp add: State_Eq_def Let_def)

lemma word_of_int_int32: "(word_of_int (int32 x) :: u16) = word_of_int x"
proof -
  have "int32 x mod 65536 = x mod 65536"
  proof -
    have "int32 x = x + 65536 * (- 65536 * ((x + 2147483648) div 4294967296))"
      by (simp add: int32_def flip: minus_mult_div_eq_mod)
    then show ?thesis by (simp only: mod_mult_self2)
  qed
  then show ?thesis by (simp add: word_of_int_eq_iff take_bit_eq_mod)
qed

lemma conf_cont:
  assumes "conf_run (f c) e"
  shows "conf (cont f c) e"
proof -
  obtain u t where e: "e = (Inr u, t)" using assms by (cases e) (auto simp: conf_run_def split: sum.splits)
  show ?thesis
  proof (cases "f c")
    case (Pair a d)
    have "update_state statusRunning (d\<lparr>pc := int32 (pc d + 1)\<rparr>) = view d"
      if "st_Status (world d) = Running"
      using that by (simp add: update_state_def view_def Let_def convertSfvmStatusToCtStatus_def
          convertSfvmStackToCtStack_def convertSfvmMemoryToCtMemory_def word_of_int_int32)
    then show ?thesis using assms
      by (auto simp: Pair e cont_def bind_def conf_def conf_run_def ret_def split: sum.splits)
  qed
qed

section \<open>The context of a test\<close>

lemma word_pc [simp]: "(word_of_int (uint (p :: u16) + 1) :: u16) = p + 1"
  by simp

lemma ct_context_simps [simp]:
  "params (ct_context K s) = ToVmParameters K s" "world (ct_context K s) = s"
  "pc (ct_context K s) = uint (st_Pc s)" "gas (ct_context K s) = st_Gas s"
  "refund (ct_context K s) = st_GasRefund s" "stack (ct_context K s) = rev (st_Stack s)"
  "memory (ct_context K s) = convertCtMemoryToSfvmMemory (st_Memory s)"
  "returnData (ct_context K s) = st_LastCallReturnData s" "\<not> withShaCache (ct_context K s)"
  "code (ct_context K s) = cd_code (st_Code s)"
  "analysis (ct_context K s) = findJumpDestinations (cd_code (st_Code s))"
  by (simp_all add: ct_context_def ToVmParameters_def convertCtStackToSfvmStack_def Let_def)

lemma ToVmParameters_simps [simp]:
  "revision (BlockParams (ToVmParameters K s)) = st_Revision s"
  "Static (ToVmParameters K s) = st_ReadOnly s"
  "Recipient (ToVmParameters K s) = cc_AccountAddress (st_CallContext s)"
  "Sender (ToVmParameters K s) = cc_CallerAddress (st_CallContext s)"
  "Input (ToVmParameters K s) = st_CallData s" "Value (ToVmParameters K s) = cc_Value (st_CallContext s)"
  "Code (ToVmParameters K s) = cd_code (st_Code s)"
  by (simp_all add: ToVmParameters_def Let_def)

lemma convert_memory:
  assumes "length m mod 32 = 0" and "length m \<le> maxMemoryExpansionSize"
  shows "store (convertCtMemoryToSfvmMemory m) = m" "mem_wf (convertCtMemoryToSfvmMemory m)"
proof -
  define w where "w = length m div 32"
  define ws where "ws = SizeInWords (word_of_nat (length m))"
  have l: "length m = w * 32" using assms(1) div_mult_mod_eq [of "length m" 32] by (simp add: w_def)
  have "unat (word_of_nat (length m) :: u64) = length m"
    using assms(2) by (simp add: unat_of_nat)
  then have "unat ws = (length m + 31) div 32" by (simp add: ws_def unat_SizeInWords)
  also have "(length m + 31) div 32 = w" using l by simp
  finally have uw: "unat ws = w" .
  have w: "w \<le> 4294967295" "length m = w * 32" using assms(2) l by simp_all
  have ww: "w * w \<le> 4294967295 * 4294967295" using w(1) by (intro mult_le_mono)
  have len: "unat (ws * 32) = length m" using w by (simp add: unat_word_ariths uw)
  have "unat ((ws * ws) div 512 + 3 * ws) = w * w div 512 + 3 * w"
    using w ww by (simp add: unat_word_ariths unat_div uw)
  then have "uint ((ws * ws) div 512 + 3 * ws) = mem_cost w"
    by (simp add: mem_cost_def uint_nat del: of_nat_unat)
  moreover have "int64 (mem_cost w) = mem_cost w"
    using mem_cost_bound [OF w(1)] mem_cost_nonneg [of w] by (intro int64_id) linarith+
  ultimately have cost: "currentMemoryCost (convertCtMemoryToSfvmMemory m) = mem_cost w"
    by (simp add: convertCtMemoryToSfvmMemory_def Let_def ws_def [symmetric])
  show st: "store (convertCtMemoryToSfvmMemory m) = m"
    by (simp add: convertCtMemoryToSfvmMemory_def Let_def ws_def [symmetric] len overwrite_def)
  show "mem_wf (convertCtMemoryToSfvmMemory m)"
    using assms cost by (simp add: mem_wf_def st w_def)
qed

text \<open>
  \<open>ready K op s c\<close>: the interpreter is about to execute \<open>op\<close> on the test state \<open>s\<close>,
  with the static price of \<open>op\<close> paid.
\<close>

definition ready :: "(bytes \<Rightarrow> Hash) \<Rightarrow> OpCode \<Rightarrow> State \<Rightarrow> State sfvm_context \<Rightarrow> bool" where
  "ready K op s c \<longleftrightarrow>
     at_op op s \<and> static_price (st_Revision s) op \<le> st_Gas s \<and>
     c = (ct_context K s)\<lparr>gas := st_Gas s - static_price (st_Revision s) op\<rparr>"

lemma ready_simps:
  assumes "ready K op s c"
  shows "world c = s" "params c = ToVmParameters K s" "pc c = uint (st_Pc s)"
    "gas c = st_Gas s - static_price (st_Revision s) op" "refund c = st_GasRefund s"
    "stack c = rev (st_Stack s)" "store (memory c) = st_Memory s" "returnData c = st_LastCallReturnData s"
    "withShaCache c = False" "code c = cd_code (st_Code s)" "analysis c = findJumpDestinations (cd_code (st_Code s))"
    "st_Status s = Running" "mem_wf (memory c)" "0 \<le> gas c" "gas c \<le> 500000000000"
proof -
  have ok: "at_op op s" and c: "c = (ct_context K s)\<lparr>gas := st_Gas s - static_price (st_Revision s) op\<rparr>"
    and paid: "static_price (st_Revision s) op \<le> st_Gas s" using assms by (auto simp: ready_def)
  have wf: "ct_wf s" "st_Status s = Running" using ok by (auto simp: at_op_def test_state_def)
  note m = convert_memory [of "st_Memory s"]
  show "world c = s" "params c = ToVmParameters K s" "pc c = uint (st_Pc s)"
    "gas c = st_Gas s - static_price (st_Revision s) op" "refund c = st_GasRefund s"
    "stack c = rev (st_Stack s)" "returnData c = st_LastCallReturnData s"
    "withShaCache c = False" "code c = cd_code (st_Code s)" "analysis c = findJumpDestinations (cd_code (st_Code s))"
    by (simp_all add: c)
  show "st_Status s = Running" by (fact wf)
  show "store (memory c) = st_Memory s" "mem_wf (memory c)" using m wf by (auto simp: c ct_wf_def)
  have "0 \<le> static_price (st_Revision s) op"
    using getStaticGasPrices_nonneg at_op_bound [OF ok] by (simp add: static_price_def)
  then show "0 \<le> gas c" "gas c \<le> 500000000000" using paid wf by (auto simp: c ct_wf_def)
qed

lemma ready_view:
  assumes "ready K op s c"
  shows "s\<lparr>st_Gas := st_Gas s - static_price (st_Revision s) op, st_Pc := st_Pc s + 1\<rparr> = view c"
  by (simp add: view_def ready_simps [OF assms])

lemma ready_sinv:
  assumes "ready K op s c"
  shows "sinv c" "pc c < int (length (code c))" "length (code c) \<le> 24576"
proof -
  have "ct_wf s" "unat (st_Pc s) < length (cd_code (st_Code s))"
    using assms by (auto simp: ready_def at_op_def test_state_def)
  then show "sinv c" "pc c < int (length (code c))" "length (code c) \<le> 24576"
    using ready_simps [OF assms]
    by (auto simp: ct_wf_def sinv_def cinv_def maxCode_def uint_nat simp del: of_nat_unat)
qed

text \<open>The program counter is at the start of an instruction.\<close>

lemma ready_code:
  assumes "ready K op s c"
  obtains cd where "st_Code s = NewCode cd" "code c = cd" "instr_start cd (unat (st_Pc s))"
    "unat (st_Pc s) < length cd" "unat (cd ! unat (st_Pc s)) = op" "length cd \<le> 24576"
proof -
  obtain cd where cd: "st_Code s = NewCode cd" "length cd \<le> 24576"
    using assms by (auto simp: ready_def at_op_def test_state_def ct_wf_def)
  have p: "unat (st_Pc s) < length cd" "unat (cd ! unat (st_Pc s)) = op" "IsCode_at (NewCode cd) (uint (st_Pc s))"
    using assms cd by (auto simp: ready_def at_op_def test_state_def)
  then have "instr_start cd (unat (st_Pc s))"
    using NewCode_marks(1) [of cd] by (auto simp: IsCode_at_iff uint_nat simp del: of_nat_unat)
  with cd p ready_simps [OF assms] show ?thesis by (intro that [of cd]) auto
qed

section \<open>From a step to a test\<close>

lemma steps_one:
  assumes "pc c < int (length (code c))"
  shows "steps E True c =
    Some (case execInstr E c of (Inl e, c) \<Rightarrow> fail e c | (Inr st, c) \<Rightarrow> ret st (c\<lparr>pc := int32 (pc c + 1)\<rparr>))"
  unfolding steps_def steps_loop.simps [of E True statusRunning c]
  using assms by (auto simp: Let_def split: prod.splits sum.splits)

lemma passes_conf:
  assumes "at_op op s" and "conf (execInstr (ct_env U K) (ct_context K s)) (r_Effect r s)"
  shows "passes U K r s"
proof -
  have ok: "st_Status s = Running" "\<not> newestSupportedRevision < st_Revision s"
    "pc (ct_context K s) < int (length (code (ct_context K s)))"
    using assms(1) by (auto simp: at_op_def test_state_def newestSupportedRevision_def uint_nat simp del: of_nat_unat)
  obtain t u where e: "r_Effect r s = (Inr u, t)" using assms(2) by (cases "r_Effect r s") (auto simp: conf_def split: sum.splits)
  obtain x d where x: "execInstr (ct_env U K) (ct_context K s) = (x, d)" by fastforce
  note run = steps_one [OF ok(3), of "ct_env U K"]
  show ?thesis
  proof (cases x)
    case (Inl err)
    then have "err \<noteq> GoPanic" "st_Status t = Failed" using assms(2) by (simp_all add: conf_def e x)
    moreover from this have "StepN U K s 1 = Some (Ret (update_state statusFailed d, False))"
      using ok run by (cases err) (simp_all add: StepN_def execute_def x Inl fail_def)
    ultimately show ?thesis
      by (simp add: passes_def e State_Eq_def update_state_def Let_def convertSfvmStatusToCtStatus_def)
  next
    case (Inr st)
    then have "StepN U K s 1 = Some (Ret (update_state st (d\<lparr>pc := int32 (pc d + 1)\<rparr>), False))"
      using ok run by (simp add: StepN_def execute_def x ret_def)
    then show ?thesis using assms(2) by (simp add: passes_def e conf_def x Inr)
  qed
qed

text \<open>The step ends with an error.\<close>

definition fails :: "('c, 'a) res \<Rightarrow> bool" where
  "fails r \<longleftrightarrow> wp r (\<lambda>e _. e \<noteq> GoPanic) (\<lambda>_ _. False)"

lemma fails_simps [simp]: "fails (fail e c) \<longleftrightarrow> e \<noteq> GoPanic" "\<not> fails (ret a c)"
  by (simp_all add: fails_def wp_simps)

lemma fails_cont: "fails (f c) \<Longrightarrow> fails (cont f c)"
  by (simp add: fails_def cont_def wp_simps)

lemma conf_FailEffect: "fails r \<Longrightarrow> conf r (FailEffect t)"
  by (auto simp: fails_def conf_def wp_def FailEffect_def ret_def split: sum.splits prod.splits)

lemma conf_run_FailEffect: "fails r \<Longrightarrow> conf_run r (FailEffect t)"
  by (auto simp: fails_def conf_run_def wp_def FailEffect_def ret_def split: sum.splits prod.splits)

lemma execInstr_ct:
  assumes "at_op op s"
  shows "execInstr E (ct_context K s) =
    (case checkStackLimits (length (st_Stack s)) op of
       Some e \<Rightarrow> fail e (ct_context K s)
     | None \<Rightarrow>
         if st_Gas s < static_price (st_Revision s) op then fail errOutOfGas (ct_context K s)
         else dispatch E op ((ct_context K s)\<lparr>gas := st_Gas s - static_price (st_Revision s) op\<rparr>))"
proof -
  have at: "unat (st_Pc s) < length (cd_code (st_Code s))" "unat (cd_code (st_Code s) ! unat (st_Pc s)) = op"
    and g: "0 \<le> st_Gas s" using assms by (auto simp: at_op_def test_state_def ct_wf_def)
  have "0 \<le> static_price (st_Revision s) op"
    using getStaticGasPrices_nonneg at_op_bound [OF assms] by (simp add: static_price_def)
  then show ?thesis using at g
    by (auto simp: execInstr_def code_at_def useGas_def static_price_def uint_nat simp del: of_nat_unat
        split: option.splits)
qed

lemma checkStackLimits_usage:
  assumes "op < numOpCodes" and "computeStackUsage op = makeUsage (int pops) (int pushes)"
  shows "checkStackLimits n op =
    (if n < pops then Some errStackUnderflow
     else if int maxStackSize - max (int pushes - int pops) 0 < int n then Some errStackOverflow else None)"
  using assms by (auto simp: checkStackLimits_def precomputedStackLimits_def check_limits_def usage_limits_def)

lemma ucast_pc [simp]: "uint (ucast (p :: u16) :: u64) = uint p" "\<not> 9223372036854775807 < (ucast p :: u64)"
proof -
  have p: "uint p < 65536" using unat_lt_pow [of p] by (simp add: uint_nat del: of_nat_unat)
  then show "uint (ucast p :: u64) = uint p" by (simp add: unsigned_ucast_eq take_bit_int_eq_self)
  with p show "\<not> 9223372036854775807 < (ucast p :: u64)" by (simp add: word_less_def)
qed

lemma holds_Op_Pc:
  assumes "test_state s" and "holds (Eq Status Running) s" and "holds (Eq (Op Pc) op) s" and "op \<noteq> STOP"
  shows "at_op op s"
proof -
  obtain cd where cd: "st_Code s = NewCode cd" using assms(1) by (auto simp: test_state_def ct_wf_def)
  have "GetOperation (NewCode cd) (uint (st_Pc s)) = Some op"
    using assms(3) by (auto simp: Eq_def Op_def Pc_def cd NewU256_def split: if_splits option.splits)
  then have "unat (st_Pc s) < length cd" "op = unat (cd ! unat (st_Pc s))"
    using assms(4) by (auto simp: GetOperation_iff split: if_splits)
  then show ?thesis using assms(1,2) by (auto simp: at_op_def Eq_def Status_def cd)
qed

text \<open>The rules \<open>rs\<close> hold of the interpreter.\<close>

definition conforms :: "uint256_lib \<Rightarrow> (bytes \<Rightarrow> Hash) \<Rightarrow> Rule list \<Rightarrow> bool" where
  "conforms U K rs \<longleftrightarrow> (\<forall>s. test_state s \<longrightarrow> (\<forall>r \<in> set rs. holds (r_Condition r) s \<longrightarrow> passes U K r s))"

lemma conforms_Nil [simp]: "conforms U K []"
  by (simp add: conforms_def)

lemma conforms_append [simp]: "conforms U K (rs @ qs) \<longleftrightarrow> conforms U K rs \<and> conforms U K qs"
  by (auto simp: conforms_def)

lemma conforms_concat [simp]: "conforms U K (concat rss) \<longleftrightarrow> (\<forall>rs \<in> set rss. conforms U K rs)"
  by (auto simp: conforms_def)

text \<open>The stack usage of the interpreter is the one that the specification declares.\<close>

definition usage_ok :: "instruction \<Rightarrow> bool" where
  "usage_ok i \<longleftrightarrow> in_op i < numOpCodes \<and> in_op i \<noteq> STOP \<and>
     computeStackUsage (in_op i) = makeUsage (int (in_pops i)) (int (in_pushes i))"

lemma fails_limits: "checkStackLimits n op = Some e \<Longrightarrow> e \<noteq> GoPanic"
  by (auto simp: checkStackLimits_def check_limits_def split: if_splits)

lemma passes_fail:
  assumes "at_op op s" and "r_Effect r = FailEffect"
    and "checkStackLimits (length (st_Stack s)) op = None \<Longrightarrow> static_price (st_Revision s) op \<le> st_Gas s \<Longrightarrow>
      fails (dispatch (ct_env U K) op ((ct_context K s)\<lparr>gas := st_Gas s - static_price (st_Revision s) op\<rparr>))"
  shows "passes U K r s"
  using assms fails_limits [of "length (st_Stack s)" op]
  by (intro passes_conf [OF assms(1)])
    (auto simp: execInstr_ct [OF assms(1)] assms(2) not_less intro!: conf_FailEffect split: option.splits)

text \<open>
  The rules of an instruction hold if the regular rule does and the interpreter fails when the
  gas does not suffice for the price of the specification.
\<close>

lemma conforms_rulesFor:
  assumes u: "usage_ok i"
    and step: "\<And>s c. ready K (in_op i) s c \<Longrightarrow> in_pops i \<le> length (stack c) \<Longrightarrow>
        length (stack c) + in_pushes i \<le> maxStackSize + in_pops i \<Longrightarrow>
        \<forall>d \<in> set (in_conditions i). holds d s \<Longrightarrow>
        (st_Gas s < in_staticGas i \<longrightarrow> fails (dispatch (ct_env U K) (in_op i) c)) \<and>
        (in_staticGas i \<le> st_Gas s \<longrightarrow> conf (dispatch (ct_env U K) (in_op i) c)
           (in_effect i (s\<lparr>st_Gas := st_Gas s - in_staticGas i, st_Pc := st_Pc s + 1\<rparr>)))"
    and price: "\<And>s. at_op (in_op i) s \<Longrightarrow> \<forall>d \<in> set (in_conditions i). holds d s \<Longrightarrow>
        static_price (st_Revision s) (in_op i) \<le> in_staticGas i"
  shows "conforms U K (rulesFor i)"
  unfolding conforms_def
proof (intro allI impI ballI)
  fix s r assume ts: "test_state s" and r: "r \<in> set (rulesFor i)" and h: "holds (r_Condition r) s"
  have op: "in_op i < numOpCodes" "in_op i \<noteq> STOP" using u by (auto simp: usage_ok_def)
  note lim = checkStackLimits_usage [OF op(1), of "in_pops i" "in_pushes i"]
  have lim: "checkStackLimits n (in_op i) = (if n < in_pops i then Some errStackUnderflow
     else if int maxStackSize - max (int (in_pushes i) - int (in_pops i)) 0 < int n then Some errStackOverflow else None)" for n
    using u by (intro lim) (simp add: usage_ok_def)
  have at: "at_op (in_op i) s"
    using r h by (intro holds_Op_Pc [OF ts _ _ op(2)])
      (auto simp: rulesFor_def tooLittleGas_def tooFewElements_def notEnoughSpace_def regularRule_def Let_def
        split: if_splits)
  have sz: "length (st_Stack s) \<le> 1024" using ts by (simp add: test_state_def ct_wf_def)
  define c where "c = (ct_context K s)\<lparr>gas := st_Gas s - static_price (st_Revision s) (in_op i)\<rparr>"
  have rd: "ready K (in_op i) s c" if "static_price (st_Revision s) (in_op i) \<le> st_Gas s"
    using that at by (simp add: ready_def c_def)
  have stk: "length (stack c) = length (st_Stack s)" by (simp add: c_def)
  note h' = h [unfolded holds_And]
  consider "r \<in> set (tooLittleGas i)" | "r \<in> set (tooFewElements i)"
    | "r \<in> set (notEnoughSpace i)" "in_pops i < in_pushes i" | "r = regularRule i"
    using r by (auto simp: rulesFor_def split: if_splits)
  then show "passes U K r s"
  proof cases
    case 1
    then have "\<forall>d \<in> set (in_conditions i). holds d s" "st_Gas s < in_staticGas i"
      using h by (auto simp: tooLittleGas_def Lt_def GasExpr_def)
    then have "fails (dispatch (ct_env U K) (in_op i) c)"
      if "checkStackLimits (length (st_Stack s)) (in_op i) = None" "static_price (st_Revision s) (in_op i) \<le> st_Gas s"
      using step [OF rd [OF that(2)]] that(1) stk by (auto simp: lim split: if_splits)
    then show ?thesis using 1 by (intro passes_fail [OF at]) (auto simp: tooLittleGas_def c_def)
  next
    case 2
    then have "checkStackLimits (length (st_Stack s)) (in_op i) \<noteq> None"
      using h by (auto simp: tooFewElements_def Lt_def StackSize_def lim)
    then show ?thesis using 2 by (intro passes_fail [OF at]) (auto simp: tooFewElements_def)
  next
    case 3
    then have "checkStackLimits (length (st_Stack s)) (in_op i) \<noteq> None"
      using h sz by (auto simp: notEnoughSpace_def Ge_def StackSize_def lim)
    then show ?thesis using 3 by (intro passes_fail [OF at]) (auto simp: notEnoughSpace_def)
  next
    case 4
    have conds: "\<forall>d \<in> set (in_conditions i). holds d s" "in_staticGas i \<le> st_Gas s"
      "in_pops i \<le> length (st_Stack s)"
      "int (length (st_Stack s)) \<le> int maxStackSize - max (int (in_pushes i) - int (in_pops i)) 0"
      using h unfolding 4 by (auto simp: regularRule_def Let_def Ge_def Le_def GasExpr_def StackSize_def split: if_splits)
    then have ok: "checkStackLimits (length (st_Stack s)) (in_op i) = None" by (simp add: lim)
    have paid: "static_price (st_Revision s) (in_op i) \<le> st_Gas s" using price [OF at conds(1)] conds(2) by simp
    have "conf (dispatch (ct_env U K) (in_op i) c) (r_Effect r s)"
      using step [OF rd [OF paid]] conds stk by (auto simp: 4 regularRule_def Let_def)
    then show ?thesis using ok paid by (intro passes_conf [OF at]) (simp add: execInstr_ct [OF at] c_def)
  qed
qed

end
