(* ===== verification/Ct_Conform_Ops.thy ===== *)
theory Ct_Conform_Ops
  imports Ct_Conform Lfvm_Sim
begin

text \<open>
  Conformance of the instructions that only touch the operand stack, the environment and the
  program counter.
\<close>

section \<open>Instructions with a fixed price\<close>

lemma conforms_cont:
  assumes "usage_ok i" and "dispatch (ct_env U K) (in_op i) = cont f"
    and price: "\<And>s. at_op (in_op i) s \<Longrightarrow> \<forall>d \<in> set (in_conditions i). holds d s \<Longrightarrow>
        static_price (st_Revision s) (in_op i) = in_staticGas i"
    and step: "\<And>s c. ready K (in_op i) s c \<Longrightarrow> in_pops i \<le> length (stack c) \<Longrightarrow>
        length (stack c) + in_pushes i \<le> maxStackSize + in_pops i \<Longrightarrow>
        \<forall>d \<in> set (in_conditions i). holds d s \<Longrightarrow> conf_run (f c) (in_effect i (view c))"
  shows "conforms U K (rulesFor i)"
proof (rule conforms_rulesFor [OF assms(1)], unfold assms(2))
  fix s c
  assume a: "ready K (in_op i) s c" "in_pops i \<le> length (stack c)"
    "length (stack c) + in_pushes i \<le> maxStackSize + in_pops i" "\<forall>d \<in> set (in_conditions i). holds d s"
  then have eq: "static_price (st_Revision s) (in_op i) = in_staticGas i" by (intro price) (auto simp: ready_def)
  with a(1) have paid: "\<not> st_Gas s < in_staticGas i" by (auto simp: ready_def)
  show "(st_Gas s < in_staticGas i \<longrightarrow> fails (cont f c)) \<and>
      (in_staticGas i \<le> st_Gas s \<longrightarrow> conf (cont f c)
         (in_effect i (s\<lparr>st_Gas := st_Gas s - in_staticGas i, st_Pc := st_Pc s + 1\<rparr>)))"
    using paid conf_cont [of f c] step [OF a] ready_view [OF a(1)] eq by simp
qed (use price in auto)

text \<open>The facts of the tables of the interpreter for one op-code.\<close>

lemmas table_simps = usage_ok_def computeStackUsage_def static_price_eq getBerlinGasPriceInternal_def
  getStaticGasPriceInternal_def static_price_cases_def

lemmas dispatch_simps = dispatch_def sfvm_ops_def sfvm_ops_hot_def sfvm_ops_rest_def

lemma ct_env_simps [simp]:
  "u256lib (ct_env U K) = U" "Keccak256 (ct_env U K) = K" "rc (ct_env U K) = ctRunContext"
  by (simp_all add: ct_env_def)

text \<open>\<open>table op pops pushes costs\<close>: the stack usage and the price of \<open>op\<close> in all revisions.\<close>

definition table :: "OpCode \<Rightarrow> nat \<Rightarrow> nat \<Rightarrow> Gas \<Rightarrow> bool" where
  "table op pops pushes costs \<longleftrightarrow>
     op < numOpCodes \<and> op \<noteq> STOP \<and> computeStackUsage op = makeUsage (int pops) (int pushes) \<and>
     (\<forall>rv. static_price rv op = costs)"

lemma conforms_table:
  assumes "table (in_op i) (in_pops i) (in_pushes i) (in_staticGas i)"
    and "dispatch (ct_env U K) (in_op i) = cont f"
    and "\<And>s c. ready K (in_op i) s c \<Longrightarrow> in_pops i \<le> length (stack c) \<Longrightarrow>
        length (stack c) + in_pushes i \<le> maxStackSize + in_pops i \<Longrightarrow>
        \<forall>d \<in> set (in_conditions i). holds d s \<Longrightarrow> conf_run (f c) (in_effect i (view c))"
  shows "conforms U K (rulesFor i)"
  using assms by (intro conforms_cont) (auto simp: table_def usage_ok_def)

lemmas stack_simps = le_length_Cons le_length_numeral

lemma conforms_binaryOp:
  assumes "table op 2 1 costs" and "dispatch (ct_env U K) op = cont f"
    and f: "\<And>c. f c = bind (pop c) (\<lambda>a c. bind (peek c) (\<lambda>b c. setN 0 (effect a b) c))"
  shows "conforms U K (binaryOp op costs effect)"
  unfolding binaryOp_def binaryOpWithDynamicCost_def
proof (rule conforms_table [where f = f], goal_cases)
  case (3 s c)
  then show ?case
    using ready_simps(1,12,14) [of K op s c] by (auto simp: f view_simps stack_simps)
qed (use assms in simp_all)

lemma conforms_trinaryOp:
  assumes "table op 3 1 costs" and "dispatch (ct_env U K) op = cont f"
    and f: "\<And>c. f c = bind (pop c) (\<lambda>a c. bind (pop c) (\<lambda>b c. bind (peek c) (\<lambda>n c. setN 0 (effect a b n) c)))"
  shows "conforms U K (trinaryOp op costs effect)"
  unfolding trinaryOp_def
proof (rule conforms_table [where f = f], goal_cases)
  case (3 s c)
  then show ?case
    using ready_simps(1,12,14) [of K op s c] by (auto simp: f view_simps stack_simps)
qed (use assms in simp_all)

lemma conforms_unaryOp:
  assumes "table op 1 1 costs" and "dispatch (ct_env U K) op = cont f"
    and f: "\<And>c. f c = bind (peek c) (\<lambda>a c. setN 0 (effect a) c)"
  shows "conforms U K (unaryOp op costs effect)"
  unfolding unaryOp_def
proof (rule conforms_table [where f = f], goal_cases)
  case (3 s c)
  then show ?case
    using ready_simps(1,12,14) [of K op s c] by (auto simp: f view_simps stack_simps)
qed (use assms in simp_all)

lemma conforms_pushValue:
  assumes "table op 0 1 costs" and "dispatch (ct_env U K) op = cont f"
    and f: "\<And>s c. ready K op s c \<Longrightarrow> \<forall>d \<in> set conds. holds d s \<Longrightarrow> f c = push (v (view c)) c"
  shows "conforms U K (pushValue op costs conds v)"
  unfolding pushValue_def
proof (rule conforms_table [where f = f], goal_cases)
  case (3 s c)
  then show ?case
    using f [of s c] ready_simps(1,12,14) [of K op s c] by (auto simp: view_simps)
qed (use assms in simp_all)

section \<open>Bytes of a word\<close>

lemma nth_be_nat: "i < n \<Longrightarrow> be_nat n k ! i = word_of_nat (k div 256 ^ (n - 1 - i) mod 256)"
proof (induction n k arbitrary: i rule: be_nat.induct)
  case (2 n k)
  show ?case
  proof (cases "i = n")
    case False
    with 2(2) have "i < n" by simp
    moreover from this have "(256 :: nat) * 256 ^ (n - 1 - i) = 256 ^ (n - i)"
      by (metis Suc_diff_Suc diff_Suc_1 diff_commute plus_1_eq_Suc power_Suc)
    ultimately show ?thesis
      using 2(1) [of i] by (simp add: nth_append div_mult2_eq [symmetric])
  qed (simp add: nth_append)
qed simp

lemma unat_be_byte:
  "i < 32 \<Longrightarrow> unat (be_bytes 32 (x :: u256) ! i) = unat x div 256 ^ (31 - i) mod 256"
  by (simp add: be_bytes_def nth_be_nat unat_of_nat)

lemma SetUint64_eqI: "unat x = unat y \<Longrightarrow> SetUint64 x = y"
  by (simp add: word_unat_eq_iff)

context uint256_arith
begin

lemma Byte_eq: "u_Byte U x i = byteAt U i x"
proof (cases "unat i < 32")
  case True
  then have i: "\<not> u_Gt U i (NewU256 31)" "unat (Uint64 i) = unat i"
    by (auto simp: Gt NewU256_def word_less_nat_alt IsUint64_def intro: unat_Uint64)
  have "(2 :: nat) ^ (8 * k) = 256 ^ k" for k by (simp add: power_mult)
  then have "unat (take_bit 8 (drop_bit (8 * (31 - unat i)) x)) = unat x div 256 ^ (31 - unat i) mod 256"
    using unat_lt_pow [of x] unfolding unsigned_take_bit_eq unsigned_drop_bit_eq
    by (simp add: drop_bit_eq_div take_bit_eq_mod)
  then have "unat (ucast (be_bytes 32 x ! unat i) :: u64) = unat (take_bit 8 (drop_bit (8 * (31 - unat i)) x))"
    using True by (simp add: unat_ucast_byte unat_be_byte)
  then show ?thesis using True i by (simp add: Byte byteAt_def NewU256_def SetUint64_eqI)
next
  case False
  then have "u_Gt U i (NewU256 31)" by (simp add: Gt NewU256_def word_less_nat_alt)
  with False show ?thesis by (simp add: Byte byteAt_def NewU256_def SetUint64_def)
qed

lemma Sar_eq:
  "(if 256 < unat a then (if 0 \<le> u_Sign U b then 0 else - 1) else u_SRsh U b (unat (Uint64 a))) = U256_Srsh U b a"
  by (auto simp: U256_Srsh_def NewU256_def SetUint64_def Sign)

lemma Cmp_eq: "u_Cmp U a b = 0 \<longleftrightarrow> a = b"
  by (auto simp: Cmp)

lemma BitLen_bounds:
  assumes "2 ^ k \<le> unat x" and "unat x < 2 ^ n"
  shows "k < u_BitLen U x \<and> u_BitLen U x \<le> n"
proof
  have "unat x < 2 ^ u_BitLen U x" unfolding BitLen by (rule LeastI [of _ n]) (fact assms)
  with assms(1) have "2 ^ k < (2 :: nat) ^ u_BitLen U x" by linarith
  then show "k < u_BitLen U x" by simp
  show "u_BitLen U x \<le> n" unfolding BitLen by (rule Least_le) (fact assms)
qed

lemma expCost_eq: "expCost e = 50 * int (u_ByteLen U e)"
proof (cases "find (\<lambda>i. be_bytes 32 e ! i \<noteq> 0) [0..<32]")
  case None
  then have "\<forall>i < 32. be_bytes 32 e ! i = 0" by (auto simp: find_None_iff)
  then have "be_bytes 32 e = replicate 32 0" by (auto intro: nth_equalityI)
  then have "of_be_bytes (be_bytes 32 e) = (0 :: u256)" by (simp add: of_be_bytes_def)
  then have "e = 0" by simp
  then have "u_BitLen U e = 0" unfolding BitLen by (intro Least_equality) auto
  then show ?thesis using None by (simp add: expCost_def ByteLen)
next
  case (Some i)
  then have i: "i < 32" "be_bytes 32 e ! i \<noteq> 0" "\<And>j. j < i \<Longrightarrow> be_bytes 32 e ! j = 0"
    by (auto simp: find_Some_iff)
  have byte: "unat e div 256 ^ (31 - i) mod 256 \<noteq> 0"
    using i(1,2) unat_be_byte [OF i(1), of e] by (metis unsigned_0 word_unat_eq_iff)
  have lo: "256 ^ (31 - i) \<le> unat e"
    using byte by (metis div_less mod_0 not_less)
  have "take i (be_bytes 32 e) = replicate i 0"
    using i by (auto intro: nth_equalityI)
  then have "be_bytes 32 e = replicate i 0 @ drop i (be_bytes 32 e)"
    by (metis append_take_drop_id)
  then have "unat e = nat_of_be (replicate i 0 @ drop i (be_bytes 32 e))"
    by (metis nat_of_be_bytes32)
  also have "\<dots> < 256 ^ (32 - i)"
    using nat_of_be_bound [of "drop i (be_bytes 32 e)"] by (simp add: nat_of_be_append)
  finally have hi: "unat e < 256 ^ (32 - i)" .
  have "(256 :: nat) ^ k = 2 ^ (8 * k)" for k by (simp add: power_mult)
  then have "8 * (31 - i) < u_BitLen U e \<and> u_BitLen U e \<le> 8 * (32 - i)"
    using lo hi by (intro BitLen_bounds) simp_all
  then have "u_ByteLen U e = 32 - i" using i(1) unfolding ByteLen by linarith
  then show ?thesis using Some by (simp add: expCost_def)
qed

end

section \<open>Arithmetic and comparison\<close>

lemma dispatch_arith:
  "dispatch E ADD = cont (opAdd E)" "dispatch E MUL = cont (opMul E)" "dispatch E SUB = cont (opSub E)"
  "dispatch E DIV = cont (opDiv E)" "dispatch E SDIV = cont (opSDiv E)" "dispatch E MOD = cont (opMod E)"
  "dispatch E SMOD = cont (opSMod E)" "dispatch E ADDMOD = cont (opAddMod E)"
  "dispatch E MULMOD = cont (opMulMod E)" "dispatch E EXP = cont (opExp E)"
  "dispatch E SIGNEXTEND = cont (opSignExtend E)"
  by (simp_all add: dispatch_simps)

lemma table_arith:
  "table ADD 2 1 3" "table MUL 2 1 5" "table SUB 2 1 3" "table DIV 2 1 5" "table SDIV 2 1 5"
  "table MOD 2 1 5" "table SMOD 2 1 5" "table ADDMOD 3 1 8" "table MULMOD 3 1 8" "table EXP 2 1 10"
  "table SIGNEXTEND 2 1 5"
  by (simp_all add: table_def table_simps)

lemma dispatch_compare:
  "dispatch E LT = cont (opLt E)" "dispatch E GT = cont (opGt E)" "dispatch E SLT = cont (opSlt E)"
  "dispatch E SGT = cont (opSgt E)" "dispatch E EQ = cont (opEq E)" "dispatch E ISZERO = cont opIszero"
  "dispatch E AND = cont (opAnd E)" "dispatch E OR = cont (opOr E)" "dispatch E XOR = cont (opXor E)"
  "dispatch E NOT = cont (opNot E)" "dispatch E BYTE = cont (opByte E)" "dispatch E SHL = cont (opShl E)"
  "dispatch E SHR = cont (opShr E)" "dispatch E SAR = cont (opSar E)" "dispatch E CLZ = cont (opClz E)"
  by (simp_all add: dispatch_simps)

lemma table_compare:
  "table LT 2 1 3" "table GT 2 1 3" "table SLT 2 1 3" "table SGT 2 1 3" "table EQ 2 1 3" "table ISZERO 1 1 3"
  "table AND 2 1 3" "table OR 2 1 3" "table XOR 2 1 3" "table NOT 1 1 3" "table BYTE 2 1 3" "table SHL 2 1 3"
  "table SHR 2 1 3" "table SAR 2 1 3" "table CLZ 1 1 5"
  by (simp_all add: table_def table_simps)

lemma boolToU256_eq: "boolToU256 b = (if b then 1 else 0)"
  by (simp add: boolToU256_def NewU256_def SetUint64_def)

context uint256_arith
begin

lemma conforms_EXP:
  "conforms U K (binaryOpWithDynamicCost EXP 10 (\<lambda>a e. u_Exp U a e) (\<lambda>a e. expCost e))"
  unfolding binaryOpWithDynamicCost_def
proof (rule conforms_table [where f = "opExp (ct_env U K)"], goal_cases)
  case (3 s c)
  have "u_ByteLen U e \<le> 32" for e
    using BitLen_bounds [of 0 e 256] unat_lt_pow [of e] unfolding ByteLen
    by (cases "unat e = 0") (auto simp: BitLen Least_eq_0)
  then have "int64 (50 * int (u_ByteLen U e)) = 50 * int (u_ByteLen U e)" for e
    by (intro int64_id) (auto simp: le_less_trans [of _ "50 * int 32"])
  then show ?case
    using 3 ready_simps(1,12,14) [of K EXP s c]
    by (auto simp: opExp_def view_simps stack_simps useGas_def expCost_eq)
qed (use dispatch_arith table_arith in simp_all)

lemma conforms_arithmetic: "conforms U K (arithmeticRules U)"
  unfolding arithmeticRules_def conforms_append
  by (intro conjI conforms_binaryOp conforms_trinaryOp conforms_EXP)
    (rule table_arith dispatch_arith |
     simp add: opAdd_def opMul_def opSub_def opDiv_def opSDiv_def opMod_def opSMod_def opAddMod_def opMulMod_def
      opSignExtend_def)+

lemma conforms_comparison: "conforms U K (comparisonRules U)"
  unfolding comparisonRules_def conforms_append
  by (intro conjI conforms_binaryOp conforms_unaryOp)
    (rule table_compare dispatch_compare |
     simp add: opLt_def opGt_def opSlt_def opSgt_def opEq_def opIszero_def opAnd_def opOr_def opXor_def opNot_def
      opByte_def opShl_def opShr_def opSar_def boolToU256_eq Byte_eq Sar_eq Cmp_eq U256_Shl_def U256_Shr_def cong del: if_weak_cong)+

end

end
