(* ===== verification/Ct_Conform_Stack.thy ===== *)
theory Ct_Conform_Stack
  imports Ct_Conform_Ops
begin

text \<open>
  Conformance of terminal states, of invalid instructions and of the instructions that
  move operands: pops, pushes, duplications and swaps.
\<close>

section \<open>Rules that end with a failure\<close>

lemma conforms_failI:
  assumes "r_Effect r = FailEffect"
    and "\<And>s. test_state s \<Longrightarrow> holds (r_Condition r) s \<Longrightarrow> at_op op s"
    and "\<And>s c. ready K op s c \<Longrightarrow> holds (r_Condition r) s \<Longrightarrow>
      checkStackLimits (length (stack c)) op = None \<Longrightarrow> fails (dispatch (ct_env U K) op c)"
  shows "conforms U K [r]"
  unfolding conforms_def using assms(2,3)
  by (auto intro!: passes_fail [of op] assms(1) simp: ready_def)

lemma ready_isAtLeast: "ready K op s c \<Longrightarrow> isAtLeast c rv \<longleftrightarrow> rv \<le> st_Revision s"
  by (simp add: isAtLeast_def ready_simps)

lemma conforms_invalidRevision:
  assumes "dispatch (ct_env U K) op = cont f" and "op \<noteq> STOP"
    and "\<And>s c. ready K op s c \<Longrightarrow> st_Revision s \<le> rv \<Longrightarrow> fails (f c)"
  shows "conforms U K [invalidRevisionRule op rv]"
proof (rule conforms_failI [where op = op])
  fix s assume "test_state s" "holds (r_Condition (invalidRevisionRule op rv)) s"
  then show "at_op op s" using assms(2) by (intro holds_Op_Pc) (auto simp: invalidRevisionRule_def)
next
  fix s c assume "ready K op s c" "holds (r_Condition (invalidRevisionRule op rv)) s"
  then show "fails (dispatch (ct_env U K) op c)"
    using assms(3) [of s c] by (auto simp: assms(1) invalidRevisionRule_def intro: fails_cont)
qed (simp add: invalidRevisionRule_def)

section \<open>Terminal states, invalid instructions and STOP\<close>

lemma conforms_terminal: "conforms U K terminalRules"
proof -
  have "passes U K \<lparr>r_Condition = c, r_Effect = NoEffect\<rparr> s"
    if "test_state s" "st_Status s \<noteq> Running" for c s
    using that by (simp add: passes_def StepN_def NoEffect_def ret_def test_state_def newestSupportedRevision_def not_less)
  moreover have "\<not> holds (IsData Pc) s" if "test_state s" for s
    using that by (auto simp: IsData_def Pc_def NewU256_def test_state_def IsData_at_def split: if_splits)
  ultimately show ?thesis
    by (auto simp: conforms_def terminalRules_def Eq_def Status_def)
qed

lemma conforms_invalid: "conforms U K invalidRules"
proof -
  have "conforms U K [\<lparr>r_Condition = And [Eq Status Running, Eq (Op Pc) op, IsCode Pc, AnyKnownRevision],
      r_Effect = FailEffect\<rparr>]" if "\<not> IsValid op" for op
  proof (rule conforms_failI [where op = op])
    have "op \<noteq> STOP" using that by (auto simp: IsValid_def initValidOpCodes_def)
    then show "test_state s \<Longrightarrow> holds (r_Condition \<lparr>r_Condition = And [Eq Status Running, Eq (Op Pc) op, IsCode Pc,
        AnyKnownRevision], r_Effect = FailEffect\<rparr>) s \<Longrightarrow> at_op op s" for s
      by (intro holds_Op_Pc) auto
    show "fails (dispatch (ct_env U K) op c)" for c
      using that sfvm_dispatch_valid [of "ct_env U K" op] by (simp add: dispatch_def)
  qed simp
  then show ?thesis by (auto simp: invalidRules_def conforms_def)
qed

lemma conforms_error: "conforms U K errorRules"
  by (auto simp: errorRules_def conforms_def test_state_def)

lemma execute_beyond:
  assumes "int (length (code c)) \<le> pc c"
  shows "execute E True c = Some (Ret (statusStopped, c))"
  using assms by (simp add: execute_def steps_def steps_loop.simps ret_def)

lemma stopped_Eq:
  assumes "ct_wf s" and "world c = s" and "gas c = st_Gas s" and "refund c = st_GasRefund s"
  shows "State_Eq (update_state statusStopped c) (s\<lparr>st_Status := Stopped, st_ReturnData := [], st_Pc := p\<rparr>)"
  using assms by (simp add: State_Eq_def update_state_def Let_def convertSfvmStatusToCtStatus_def ct_wf_def)

lemma conforms_stop: "conforms U K stopRules"
proof -
  have "passes U K r s" if ts: "test_state s" and r: "r \<in> set stopRules" and h: "holds (r_Condition r) s" for s r
  proof -
    have run: "st_Status s = Running" and rv: "\<not> newestSupportedRevision < st_Revision s" and wf: "ct_wf s"
      using ts r h by (auto simp: stopRules_def Eq_def Status_def newestSupportedRevision_def test_state_def not_less)
    have eff: "r_Effect r s = ret () (s\<lparr>st_Status := Stopped, st_ReturnData := [], st_Pc := st_Pc s + 1\<rparr>)"
      using r by (simp add: stopRules_def)
    obtain cd where cd: "st_Code s = NewCode cd" using wf by (auto simp: ct_wf_def)
    have "GetOperation (NewCode cd) (uint (st_Pc s)) = Some STOP"
      using r h by (auto simp: stopRules_def Eq_def Op_def Pc_def cd NewU256_def split: if_splits option.splits)
    then consider "int (length cd) \<le> uint (st_Pc s)" | "unat (st_Pc s) < length cd" "unat (cd ! unat (st_Pc s)) = STOP"
      using NewCode_marks(1) [of cd] by (auto simp: GetOperation_iff split: if_splits)
    then show ?thesis
    proof cases
      case 1
      then have "StepN U K s 1 = Some (Ret (update_state statusStopped (ct_context K s), False))"
        using run rv by (simp add: StepN_def execute_beyond cd)
      then show ?thesis using stopped_Eq [OF wf, of "ct_context K s"] by (simp add: passes_def eff ret_def)
    next
      case 2
      then have at: "at_op STOP s" using ts run by (simp add: at_op_def cd)
      have "checkStackLimits (length (st_Stack s)) STOP = None" "static_price (st_Revision s) STOP = 0"
        "dispatch (ct_env U K) STOP = ret statusStopped"
        using wf by (simp_all add: checkStackLimits_usage [of _ 0 0] ct_wf_def table_simps dispatch_simps opStop_def)
      then show ?thesis using wf
        by (intro passes_conf [OF at]) (auto simp: execInstr_ct [OF at] eff ct_wf_def intro!: stopped_Eq wf)
    qed
  qed
  then show ?thesis by (simp add: conforms_def)
qed

section \<open>Stack manipulation\<close>

lemma table_stack:
  "table POP 1 0 2" "table PUSH0 0 1 2"
  "\<And>n. 0 < n \<Longrightarrow> n \<le> 32 \<Longrightarrow> table (PUSH1 + n - 1) 0 1 3"
  "\<And>n. 0 < n \<Longrightarrow> n \<le> 16 \<Longrightarrow> table (DUP1 + n - 1) n (n + 1) 3"
  "\<And>n. 0 < n \<Longrightarrow> n \<le> 16 \<Longrightarrow> table (SWAP1 + n - 1) (n + 1) (n + 1) 3"
  by (auto simp: table_def table_simps)

lemma sixteen_cases: "0 < n \<Longrightarrow> n \<le> 16 \<Longrightarrow> n \<in> set [1, 2, 3, 4, 5, 6, 7, 8, 9, 10, 11, 12, 13, 14, 15, 16 :: nat]"
  by (simp, presburger)

lemma dispatch_families:
  "list_all (\<lambda>n. dispatch E (127 + n) = cont (opDup n)) [1, 2, 3, 4, 5, 6, 7, 8, 9, 10, 11, 12, 13, 14, 15, 16]"
  "list_all (\<lambda>n. dispatch E (143 + n) = cont (opSwap n)) [1, 2, 3, 4, 5, 6, 7, 8, 9, 10, 11, 12, 13, 14, 15, 16]"
  by (simp_all add: dispatch_simps)

lemma dispatch_stack:
  "dispatch E POP = cont opPop" "dispatch E PUSH0 = cont opPush0"
  "0 < n \<Longrightarrow> n \<le> 16 \<Longrightarrow> dispatch E (DUP1 + n - 1) = cont (opDup n)"
  "0 < n \<Longrightarrow> n \<le> 16 \<Longrightarrow> dispatch E (SWAP1 + n - 1) = cont (opSwap n)"
proof -
  show "dispatch E POP = cont opPop" "dispatch E PUSH0 = cont opPush0" by (simp_all add: dispatch_simps)
  assume n: "0 < n" "n \<le> 16"
  then have "DUP1 + n - 1 = 127 + n" "SWAP1 + n - 1 = 143 + n" by simp_all
  then show "dispatch E (DUP1 + n - 1) = cont (opDup n)" "dispatch E (SWAP1 + n - 1) = cont (opSwap n)"
    using dispatch_families [of E] sixteen_cases [OF n] by (simp_all only: list_all_iff)
qed

lemma conforms_pop: "conforms U K popRules"
  unfolding popRules_def
proof (rule conforms_table [where f = opPop], goal_cases)
  case (3 s c)
  then show ?case using ready_simps(1,12) [of K POP s c] by (auto simp: opPop_def view_simps stack_simps)
qed (use table_stack dispatch_stack in simp_all)

lemma view_get: "n < length (stack c) \<Longrightarrow> Stack_Get n (view c) = ret (stack c ! n) (view c)"
  by (simp add: Stack_Get_def rev_nth)

lemma view_set: "n < length (stack c) \<Longrightarrow> Stack_Set n v (view c) = ret () (view (c\<lparr>stack := (stack c)[n := v]\<rparr>))"
  by (simp add: Stack_Set_def view_def rev_update)

lemma conforms_dup:
  assumes "0 < n" and "n \<le> 16"
  shows "conforms U K (dupOp n)"
  unfolding dupOp_def
proof (rule conforms_table [where f = "opDup n"], goal_cases)
  case (3 s c)
  then show ?case using ready_simps(1,12) [of K "DUP1 + n - 1" s c] assms
    by (auto simp: opDup_def view_get view_simps)
qed (use table_stack dispatch_stack assms in simp_all)

lemma conforms_swap:
  assumes "0 < n" and "n \<le> 16"
  shows "conforms U K (swapOp n)"
  unfolding swapOp_def
proof (rule conforms_table [where f = "opSwap n"], goal_cases)
  case (3 s c)
  then have "stack c \<noteq> []" by auto
  with 3 show ?case using ready_simps(1,12) [of K "SWAP1 + n - 1" s c] assms
    by (auto simp: opSwap_def view_get view_set list_update_swap)
qed (use table_stack dispatch_stack assms in simp_all)

text \<open>Push instructions.\<close>

lemma nth_push_data: "i < n \<Longrightarrow> push_data cd p n ! i = (if p + i < length cd then cd ! (p + i) else 0)"
  by (auto simp: push_data_def nth_append)

lemma push_data_Suc: "push_data cd p (Suc n) = push_data cd p n @ [if p + n < length cd then cd ! (p + n) else 0]"
  by (rule nth_equalityI) (auto simp: nth_push_data nth_append less_Suc_eq)

lemma pushData_eq:
  assumes "p < length cd" and "instr_start cd p" and "n < Width (unat (cd ! p))"
  shows "pushData (NewCode cd) (int p + 1) n = Ret (push_data cd (p + 1) n)"
  using assms(3)
proof (induction n)
  case (Suc n)
  show ?case
    using push_data_Suc [of cd "p + 1" n] Suc GetData_push [OF assms(1,2), of "Suc n"] by (simp add: add.assoc)
qed (simp add: push_data_def)

lemma view_pc: "(view c)\<lparr>st_Pc := word_of_int (q + 1)\<rparr> = view (c\<lparr>pc := q\<rparr>)"
  by (simp add: view_def)

context uint256_arith
begin

lemma ct_push_eq:
  assumes "ready K op s c" and "0 < n" and "n \<le> 32" and "length (stack c) < maxStackSize"
  shows "sf_push (ct_env U K) n c =
    ret () (c\<lparr>stack := of_be_bytes (push_data (code c) (unat (st_Pc s) + 1) n) # stack c, pc := int32 (pc c + int n)\<rparr>)"
proof -
  note ok = ready_sinv [OF assms(1)]
  have U: "uint256_arith (u256lib (ct_env U K))" by (simp add: uint256_arith_axioms)
  have "sf_push (ct_env U K) n c = opPush (ct_env U K) n c"
    using opPush12_eq [OF U ok(1,2)] by (simp add: sf_push_def)
  moreover have "nat (pc c + 1) = unat (st_Pc s) + 1"
    by (simp add: ready_simps [OF assms(1)] nat_add_distrib)
  ultimately show ?thesis using assms by (simp add: opPush_eq [OF U ok(1,2)])
qed

lemma conforms_push:
  assumes n: "0 < n" "n \<le> 32"
  shows "conforms U K (pushOp n)"
  unfolding pushOp_def
proof (rule conforms_table [where f = "sf_push (ct_env U K) n"], goal_cases)
  case (3 s c)
  then have rd: "ready K (PUSH1 + n - 1) s c" "length (stack c) < maxStackSize" by simp_all
  note r = ready_simps [OF rd(1)]
  obtain cd where cd: "st_Code s = NewCode cd" "code c = cd" "instr_start cd (unat (st_Pc s))"
    "unat (st_Pc s) < length cd" "unat (cd ! unat (st_Pc s)) = PUSH1 + n - 1" "length cd \<le> 24576"
    by (rule ready_code [OF rd(1)])
  have "n < Width (unat (cd ! unat (st_Pc s)))" using n unfolding cd(5) by (simp add: Width_def)
  then have data: "pushData (NewCode cd) (int (unat (st_Pc s)) + 1) n = Ret (push_data cd (unat (st_Pc s) + 1) n)"
    using cd by (intro pushData_eq) simp_all
  have "uint (st_Pc s) + 1 < 65536" using cd(4,6) by (simp add: uint_nat del: of_nat_unat)
  then have "uint (word_of_int (uint (st_Pc s) + 1) :: u16) = int (unat (st_Pc s)) + 1"
    unfolding uint_word_of_int by simp
  moreover have "(word_of_int (pc c + 1) :: u16) + word_of_nat n = word_of_int (int32 (pc c + int n) + 1)"
    by (simp add: word_of_int_int32)
  ultimately show ?case
    using n data ct_push_eq [OF rd(1) n rd(2)] r(1,12) cd
    by (simp add: view_simps view_pc r(3) lift_go_def NewU256FromBytes_def)
qed (use n table_stack dispatch_push [OF n, of "ct_env U K"] in simp_all)

end

end
