(* ===== verification/Ct_Conform_Env.thy ===== *)
theory Ct_Conform_Env
  imports Ct_Conform_Stack
begin

text \<open>
  Conformance of the instructions that read the environment of a run, of the jumps and of the
  transient storage.
\<close>

section \<open>Values of the environment\<close>

lemma dispatch_env:
  "dispatch E ADDRESS = cont opAddress" "dispatch E ORIGIN = cont opOrigin" "dispatch E CALLER = cont opCaller"
  "dispatch E CALLVALUE = cont opCallvalue" "dispatch E NUMBER = cont opNumber" "dispatch E COINBASE = cont opCoinbase"
  "dispatch E GASLIMIT = cont opGasLimit" "dispatch E PREVRANDAO = cont opPrevRandao"
  "dispatch E GASPRICE = cont opGasPrice" "dispatch E TIMESTAMP = cont opTimestamp"
  "dispatch E BASEFEE = cont opBaseFee" "dispatch E BLOBBASEFEE = cont opBlobBaseFee"
  "dispatch E CHAINID = cont opChainId" "dispatch E CODESIZE = cont opCodeSize"
  "dispatch E CALLDATASIZE = cont opCallDatasize" "dispatch E SELFBALANCE = cont (opSelfbalance E)"
  "dispatch E RETURNDATASIZE = cont opReturnDataSize" "dispatch E MSIZE = cont opMsize" "dispatch E GAS = cont opGas"
  "dispatch E BLOBHASH = cont opBlobHash" "dispatch E BLOCKHASH = cont (opBlockhash E)"
  "dispatch E CALLDATALOAD = cont opCallDataload"
  by (simp_all add: dispatch_simps)

lemma table_env:
  "table ADDRESS 0 1 2" "table ORIGIN 0 1 2" "table CALLER 0 1 2" "table CALLVALUE 0 1 2" "table NUMBER 0 1 2"
  "table COINBASE 0 1 2" "table GASLIMIT 0 1 2" "table PREVRANDAO 0 1 2" "table GASPRICE 0 1 2"
  "table TIMESTAMP 0 1 2" "table BASEFEE 0 1 2" "table BLOBBASEFEE 0 1 2" "table CHAINID 0 1 2"
  "table CODESIZE 0 1 2" "table CALLDATASIZE 0 1 2" "table SELFBALANCE 0 1 5" "table RETURNDATASIZE 0 1 2"
  "table MSIZE 0 1 2" "table GAS 0 1 2" "table PC 0 1 2" "table BLOBHASH 1 1 3" "table BLOCKHASH 1 1 20"
  "table CALLDATALOAD 1 1 3"
  by (simp_all add: table_def table_simps)

lemma params_simps [simp]:
  "Origin (TransactionParams (ToVmParameters K s)) = tc_OriginAddress (st_TransactionContext s)"
  "GasPrice (TransactionParams (ToVmParameters K s)) = bc_GasPrice (st_BlockContext s)"
  "BlobHashes (TransactionParams (ToVmParameters K s)) = tc_BlobHashes (st_TransactionContext s)"
  "BlockNumber (BlockParams (ToVmParameters K s)) = int64 (uint (bc_BlockNumber (st_BlockContext s)))"
  "Coinbase (BlockParams (ToVmParameters K s)) = bc_CoinBase (st_BlockContext s)"
  "GasLimit (BlockParams (ToVmParameters K s)) = int64 (uint (bc_GasLimit (st_BlockContext s)))"
  "Timestamp (BlockParams (ToVmParameters K s)) = int64 (uint (bc_TimeStamp (st_BlockContext s)))"
  "PrevRandao (BlockParams (ToVmParameters K s)) = bc_PrevRandao (st_BlockContext s)"
  "BaseFee (BlockParams (ToVmParameters K s)) = bc_BaseFee (st_BlockContext s)"
  "BlobBaseFee (BlockParams (ToVmParameters K s)) = bc_BlobBaseFee (st_BlockContext s)"
  "ChainID (BlockParams (ToVmParameters K s)) = bc_ChainID (st_BlockContext s)"
  by (simp_all add: ToVmParameters_def Let_def)

lemma word_of_int64 [simp]: "(word_of_int (int64 x) :: u64) = word_of_int x"
proof -
  have "int64 x mod 18446744073709551616 = x mod 18446744073709551616"
    by (simp add: int64_def mod_diff_left_eq)
  then show ?thesis by (simp add: word_of_int_eq_iff take_bit_eq_mod)
qed

lemma ctRunContext_simps [simp]:
  "GetBalance ctRunContext s a = Accounts_GetBalance (st_Accounts s) a"
  "GetNonce ctRunContext s a = 0" "GetCode ctRunContext s a = Accounts_GetCode (st_Accounts s) a"
  "GetCodeHash ctRunContext s a = Accounts_GetCodeHash (st_Accounts s) a"
  "GetCodeSize ctRunContext s a = int (length (Accounts_GetCode (st_Accounts s) a))"
  "GetStorage ctRunContext s a k = GetCurrent (st_Storage s) k"
  "SetStorage ctRunContext a k v s = ct_SetStorage k v s" "SelfDestruct ctRunContext = ct_SelfDestruct"
  "GetTransientStorage ctRunContext s a k = Transient_Get (st_TransientStorage s) k"
  "SetTransientStorage ctRunContext a k v s = s\<lparr>st_TransientStorage := Transient_Set k v (st_TransientStorage s)\<rparr>"
  "AccessAccount ctRunContext = ct_AccessAccount" "AccessStorage ctRunContext a k s = ct_AccessStorage k s"
  "EmitLog ctRunContext l s = s\<lparr>st_Logs := AddLog (log_Data l) (log_Topics l) (st_Logs s)\<rparr>"
  "GetBlockHash ctRunContext = ct_GetBlockHash" "CallOp ctRunContext = ct_Call"
  by (simp_all add: ctRunContext_def)

text \<open>Comparisons of an arbitrary revision with a named one, as comparisons of integers.\<close>

lemma rev_cmp:
  "Revision n \<le> r \<longleftrightarrow> n \<le> rev_num r" "r \<le> Revision n \<longleftrightarrow> rev_num r \<le> n"
  "Revision n < r \<longleftrightarrow> n < rev_num r" "r < Revision n \<longleftrightarrow> rev_num r < n"
  by (simp_all add: less_eq_Revision_def less_Revision_def)

lemmas env_simps = isAtLeast_def AddressToU256_def NewU256_def mem_length_def Code_Length_def

lemma conforms_address: "conforms U K addressRules"
  unfolding addressRules_def conforms_append
  by (intro conjI conforms_pushValue)
    (rule table_env dispatch_env |
     simp add: ready_simps opAddress_def opOrigin_def opCaller_def opCallvalue_def opNumber_def env_simps)+

lemma conforms_block: "conforms U K blockRules"
  unfolding blockRules_def conforms_append
  by (intro conjI conforms_pushValue)
    (rule table_env dispatch_env |
     simp add: ready_simps opCoinbase_def opGasLimit_def opPrevRandao_def opGasPrice_def env_simps)+

lemma conforms_fee: "conforms U K feeRules"
  unfolding feeRules_def conforms_append
  by (intro conjI conforms_pushValue conforms_invalidRevision)
    (rule table_env dispatch_env | simp add: ready_simps opTimestamp_def opBaseFee_def env_simps rev_cmp)+

lemma conforms_push0: "conforms U K push0Rules"
  unfolding push0Rules_def conforms_append
proof (intro conjI conforms_pushValue [where f = opPush0] conforms_table [where f = opPush0], goal_cases)
  case (6 s c)
  then have "fails (opPush0 c)" by (auto simp: opPush0_def ready_isAtLeast rev_cmp)
  then show ?case by (simp add: conf_run_FailEffect)
qed (use table_stack dispatch_stack in \<open>simp_all add: ready_simps opPush0_def env_simps SetUint64_def\<close>)

lemma conforms_pc: "conforms U K pcRules"
  unfolding pcRules_def conforms_append
proof (intro conjI)
  show "conforms U K (pushValue PC 2 [] (\<lambda>s. NewU256 (ucast (st_Pc s) - 1)))"
  proof (rule conforms_pushValue [where f = opPc], goal_cases)
    case (3 s c)
    have "uint (st_Pc s) + 1 < 65536"
      using ready_sinv [OF 3(1)] by (simp add: ready_simps [OF 3(1)])
    then have "uint (word_of_int (uint (st_Pc s) + 1) :: u16) = uint (st_Pc s) + 1"
      unfolding uint_word_of_int by simp
    then have "ucast (word_of_int (uint (st_Pc s) + 1) :: u16) = (word_of_int (uint (st_Pc s) + 1) :: u64)"
      by (metis word_of_int_uint unsigned_ucast_eq ucast_pc(1))
    then show ?case by (simp add: opPc_def ready_simps [OF 3(1)] NewU256_def)
  qed (use table_env dispatch_special in simp_all)
  show "conforms U K (rulesFor \<lparr>in_op = JUMPDEST, in_staticGas = 1, in_pops = 0, in_pushes = 0, in_conditions = [],
       in_effect = NoEffect\<rparr>)"
    by (rule conforms_table [where f = "ret ()"])
      (simp_all add: table_def table_simps dispatch_simps NoEffect_def ready_simps)
qed (rule conforms_pushValue, rule table_env, rule dispatch_env,
    simp add: ready_simps opMsize_def opGas_def env_simps)+

section \<open>Code, call data and return data sizes, hashes\<close>

lemma conforms_size:
  "conforms U K (pushValue CHAINID 2 [] (\<lambda>s. bc_ChainID (st_BlockContext s)))"
  "conforms U K (pushValue CODESIZE 2 [] (\<lambda>s. NewU256 (word_of_nat (Code_Length (st_Code s)))))"
  "conforms U K (pushValue CALLDATASIZE 2 [] (\<lambda>s. NewU256 (word_of_nat (length (st_CallData s)))))"
  "conforms U K (pushValue SELFBALANCE 5 []
     (\<lambda>s. Accounts_GetBalance (st_Accounts s) (cc_AccountAddress (st_CallContext s))))"
  "conforms U K (pushValue RETURNDATASIZE 2 [] (\<lambda>s. NewU256 (word_of_nat (length (st_LastCallReturnData s)))))"
  by (rule conforms_pushValue, rule table_env, rule dispatch_env,
      simp add: ready_simps opChainId_def opCodeSize_def opCallDatasize_def opSelfbalance_def opReturnDataSize_def
        env_simps)+

lemma ready_Param: "ready K op s c \<Longrightarrow> n < length (stack c) \<Longrightarrow> Param n s = Inr (stack c ! n)"
  by (simp add: Param_def ready_simps rev_nth)

text \<open>Instructions with one operand.\<close>

lemma conforms_one:
  assumes "table op 1 pushes costs" and "dispatch (ct_env U K) op = cont f" and "pushes \<le> 1"
    and step: "\<And>s c v zs. ready K op s c \<Longrightarrow> stack c = v # zs \<Longrightarrow> Param 0 s = Inr v \<Longrightarrow> length zs < maxStackSize \<Longrightarrow>
      \<forall>d \<in> set conds. holds d s \<Longrightarrow> conf_run (f c) (effect (view c))"
  shows "conforms U K (rulesFor \<lparr>in_op = op, in_staticGas = costs, in_pops = 1, in_pushes = pushes,
    in_conditions = conds, in_effect = effect\<rparr>)"
proof (rule conforms_table [where f = f], goal_cases)
  case (3 s c)
  then have "ready K op s c" "0 < length (stack c)" "length (stack c) \<le> maxStackSize"
    using ready_sinv(1) [of K op s c] by (auto simp: sinv_def cinv_def)
  then show ?case
    using 3 ready_Param [of K op s c 0] by (cases "stack c") (auto intro!: step)
qed (use assms in simp_all)

lemma conforms_blob: "conforms U K blobRules"
  unfolding blobRules_def Let_def conforms_append instruction.update_convs
proof (intro conjI conforms_one [where f = opBlobHash] conforms_pushValue [where f = opBlobBaseFee], goal_cases)
  case (4 s c v zs)
  then show ?case
    by (auto simp: HasBlobHash_def blobHashPresent_def opBlobHash_def ready_simps ready_isAtLeast view_simps)
next
  case (8 s c v zs)
  then show ?case
    by (auto simp: HasNoBlobHash_def blobHashPresent_def opBlobHash_def ready_simps ready_isAtLeast view_simps
        NewU256_def SetUint64_def)
next
  case 9
  show ?case
    by (rule conforms_invalidRevision, rule dispatch_env) (auto simp: opBlobHash_def ready_isAtLeast rev_cmp)
next
  case 13
  show ?case
    by (rule conforms_invalidRevision, rule dispatch_env) (auto simp: opBlobBaseFee_def ready_isAtLeast rev_cmp)
qed (use table_env dispatch_env in \<open>auto simp: opBlobBaseFee_def ready_isAtLeast ready_simps\<close>)

lemma conforms_clz: "conforms U K (clzRules U)"
  unfolding clzRules_def conforms_append
proof (intro conjI conforms_one [where f = "opClz (ct_env U K)"], goal_cases)
  case (4 s c v zs)
  then show ?case by (auto simp: opClz_def ready_simps ready_isAtLeast view_simps NewU256_def)
next
  case 5
  show ?case
    by (rule conforms_invalidRevision, rule dispatch_compare) (auto simp: opClz_def ready_isAtLeast rev_cmp)
qed (use table_compare dispatch_compare in auto)

lemma opBlockhash_eq:
  assumes "ready K op s c" and "stack c = v # zs"
  shows "opBlockhash (ct_env U K) c = ret () (c\<lparr>stack :=
    (if inRange256 v s
     then (case HashArray_Get (st_RecentBlockHashes s) (bc_BlockNumber (st_BlockContext s) - Uint64 v - 1) of
             Ret h \<Rightarrow> h | Panic \<Rightarrow> 0)
     else 0) # zs\<rparr>)"
proof -
  define n where "n = bc_BlockNumber (st_BlockContext s)"
  define u where "u = Uint64 v"
  have n: "uint n < 9223372036854775808" using assms(1) by (auto simp: ready_def at_op_def test_state_def ct_wf_def n_def)
  have un: "uint n = int (unat n)" "uint u = int (unat u)" by (simp_all add: uint_nat del: of_nat_unat)
  have cur: "word_of_int (BlockNumber (BlockParams (params c))) = n" by (simp add: ready_simps [OF assms(1)] n_def)
  have sub: "unat (n - (if n < 256 then n else 256)) = unat n - 256" "unat (n - 256) = unat n - 256" if "256 < n"
    using that unat_sub [of 256 n] by (auto simp: word_less_nat_alt word_le_nat_alt)
  have range: "inRange256 v s \<longleftrightarrow> IsUint64 v \<and> u < n \<and> \<not> u < n - (if n < 256 then n else 256)"
    unfolding inRange256_def Let_def n_def [symmetric] u_def [symmetric]
    by (auto simp: not_less)
  have idx: "word_of_int (uint n - uint u - 1) = n - u - 1" by simp
  have hash: "ct_GetBlockHash s (int64 (uint u)) = (case HashArray_Get (st_RecentBlockHashes s) (n - u - 1) of
      Ret h \<Rightarrow> h | Panic \<Rightarrow> 0)" if "u < n" "\<not> u < n - (if n < 256 then n else 256)"
  proof -
    have lt: "unat u < unat n" using that(1) by (simp add: word_less_nat_alt)
    have "unat n - 256 \<le> unat u"
    proof (cases "256 < n")
      case True
      then show ?thesis using that(2) sub by (simp add: not_less word_le_nat_alt)
    qed (simp add: not_less word_le_nat_alt)
    then have r: "uint u < uint n" "uint n - 256 \<le> uint u" using lt unfolding un by linarith+
    have "int64 (uint n) = uint n" "int64 (uint u) = uint u" using n r(1) uint_ge_0 [of u] by (intro int64_id; linarith)+
    then show ?thesis using r uint_ge_0 [of u]
      unfolding ct_GetBlockHash_def Let_def n_def [symmetric] by (simp add: idx)
  qed
  have run: "opBlockhash (ct_env U K) c =
      (if \<not> IsUint64 v \<or> n \<le> u then setN 0 0 c else if u < n - (if n < 256 then n else 256) then setN 0 0 c
       else setN 0 (ct_GetBlockHash s (int64 (uint u))) c)"
    using assms(2)
    by (simp add: opBlockhash_def Let_def cur u_def ready_simps(1) [OF assms(1)] cong del: if_weak_cong)
  show ?thesis
  proof (cases "inRange256 v s")
    case True
    with range have r: "IsUint64 v" "u < n" "\<not> u < n - (if n < 256 then n else 256)" by blast+
    then have "opBlockhash (ct_env U K) c = setN 0 (ct_GetBlockHash s (int64 (uint u))) c"
      unfolding run by (auto simp: not_le)
    then show ?thesis using True hash [OF r(2,3)] assms(2) by (simp add: n_def u_def)
  next
    case False
    then have "opBlockhash (ct_env U K) c = setN 0 0 c" unfolding run using range by (auto simp: not_le)
    then show ?thesis using False assms(2) by simp
  qed
qed

lemma in_range_hash:
  assumes "inRange256 v s"
  shows "\<exists>h. HashArray_Get a (bc_BlockNumber (st_BlockContext s) - Uint64 v - 1) = Ret h"
proof -
  define n where "n = bc_BlockNumber (st_BlockContext s)"
  define u where "u = Uint64 v"
  have u: "u < n" "\<not> u < n - 256 \<or> \<not> 256 < n"
    using assms by (auto simp: inRange256_def Let_def n_def [symmetric] u_def [symmetric] not_less split: if_splits)
  have lt: "unat u < unat n" using u(1) by (simp add: word_less_nat_alt)
  have "unat n \<le> unat u + 256"
  proof (cases "256 < n")
    case True
    then have "unat (n - 256) = unat n - 256" by (simp add: unat_sub word_le_nat_alt word_less_nat_alt)
    then show ?thesis using u(2) True by (simp add: not_less word_le_nat_alt)
  qed (simp add: not_less word_le_nat_alt)
  moreover have "unat (n - u) = unat n - unat u" using u(1) by (simp add: unat_sub)
  moreover from this lt have "unat (n - u - 1) = unat n - unat u - 1"
    by (simp add: unat_sub word_le_nat_alt)
  ultimately have "n - u - 1 < 256" using lt by (simp add: word_less_nat_alt)
  then show ?thesis by (auto simp: HashArray_Get_def n_def u_def)
qed

lemma conforms_blockhash: "conforms U K blockhashRules"
  unfolding blockhashRules_def conforms_append
proof (intro conjI conforms_one [where f = "opBlockhash (ct_env U K)"], goal_cases)
  case (4 s c v zs)
  then have "inRange256 v s" by (auto simp: InRange256FromCurrentBlock_def)
  with in_range_hash [OF this, of "st_RecentBlockHashes s"] 4 opBlockhash_eq [OF 4(1,2), of U] show ?case
    by (auto simp: ready_simps view_simps lift_go_def Let_def)
next
  case (8 s c v zs)
  then have "\<not> inRange256 v s" by (auto simp: OutOfRange256FromCurrentBlock_def)
  with 8 opBlockhash_eq [OF 8(1,2), of U] show ?case
    by (auto simp: ready_simps view_simps NewU256_def SetUint64_def)
qed (use table_env dispatch_env in auto)

section \<open>Jumps\<close>

text \<open>The end of a jump: the program counter is set if the destination is valid.\<close>

lemma jump_outcome:
  assumes "analysis c = findJumpDestinations (code c)" and "length (code c) \<le> maxCode"
  shows "(if \<not> IsUint64 d \<or> 2147483647 < Uint64 d then fail errInvalidJump c
      else checkJumpDest (c\<lparr>pc := int32 (int32 (uint (Uint64 d)) - 1)\<rparr>)) =
    (if valid_dest (code c) (unat d) then ret () (c\<lparr>pc := int (unat d) - 1\<rparr>)
     else fail errInvalidJump (if \<not> IsUint64 d \<or> 2147483647 < Uint64 d then c else c\<lparr>pc := int (unat d) - 1\<rparr>))"
proof (cases "IsUint64 d \<and> \<not> 2147483647 < Uint64 d")
  case True
  then have u: "unat (Uint64 d) = unat d" "uint (Uint64 d) = int (unat d)"
    by (simp_all add: unat_Uint64 uint_nat del: of_nat_unat)
  then show ?thesis
    using checkJumpDest_eq [of "Uint64 d" c] True assms by (simp add: maxCode_def del: of_nat_unat)
next
  case False
  then have "\<not> valid_dest (code c) (unat d)"
    using assms(2) by (auto simp: valid_dest_def maxCode_def IsUint64_def word_less_nat_alt unat_Uint64)
  then show ?thesis using False by auto
qed

lemma Op_dest:
  assumes "ready K op s c" and "Param n s = Inr d"
  shows "holds (Eq (Op (Param n)) JUMPDEST) s \<longleftrightarrow> valid_dest (code c) (unat d)"
    "holds (IsData (Param n)) s \<Longrightarrow> \<not> valid_dest (code c) (unat d)"
proof -
  obtain cd where cd: "st_Code s = NewCode cd" "code c = cd" "length cd \<le> 24576"
    by (rule ready_code [OF assms(1)])
  have big: "\<not> valid_dest cd (unat d)" if "\<not> IsUint64 d \<or> 9223372036854775807 < Uint64 d"
    using that cd(3) by (auto simp: valid_dest_def IsUint64_def word_less_nat_alt unat_Uint64)
  have dest: "GetOperation (NewCode cd) (uint (Uint64 d)) = Some JUMPDEST \<longleftrightarrow> valid_dest cd (unat d)"
    "IsData_at (NewCode cd) (uint (Uint64 d)) \<Longrightarrow> \<not> valid_dest cd (unat d)" if "IsUint64 d"
  proof -
    have "uint (Uint64 d) = int (unat d)" using unat_Uint64 [OF that] by (metis uint_nat)
    then show "GetOperation (NewCode cd) (uint (Uint64 d)) = Some JUMPDEST \<longleftrightarrow> valid_dest cd (unat d)"
      "IsData_at (NewCode cd) (uint (Uint64 d)) \<Longrightarrow> \<not> valid_dest cd (unat d)"
      using NewCode_marks(1) [of cd]
      by (auto simp: GetOperation_iff IsData_at_def IsCode_at_iff valid_dest_def simp del: of_nat_unat)
  qed
  have op: "holds (Eq (Op (Param n)) JUMPDEST) s \<longleftrightarrow> IsUint64 d \<and> \<not> 9223372036854775807 < Uint64 d \<and>
      GetOperation (NewCode cd) (uint (Uint64 d)) = Some JUMPDEST"
    using assms(2) by (auto simp: Eq_def Op_def cd split: option.splits)
  show "holds (Eq (Op (Param n)) JUMPDEST) s \<longleftrightarrow> valid_dest (code c) (unat d)"
    using big dest(1) unfolding op cd(2) by blast
  show "holds (IsData (Param n)) s \<Longrightarrow> \<not> valid_dest (code c) (unat d)"
    using big dest(2) assms(2) by (auto simp: IsData_def cd split: if_splits)
qed

lemma holds_Ne: "holds (Ne e v) s \<Longrightarrow> \<not> holds (Eq e v) s"
  by (auto simp: Ne_def Eq_def)

lemma jump_view: "(view c)\<lparr>st_Pc := ucast (Uint64 d)\<rparr> = view (c\<lparr>pc := int (unat d) - 1\<rparr>)"
proof -
  have "(ucast (Uint64 d) :: u16) = ucast d"
    unfolding Uint64_def by (rule bit_word_eqI) (auto simp: bit_simps)
  then have "(ucast (Uint64 d) :: u16) = word_of_int (int (unat d) - 1 + 1)" by simp
  then show ?thesis by (simp add: view_def)
qed

lemma opJump_eq:
  assumes "ready K op s c" and "stack c = d # zs"
  shows "valid_dest (code c) (unat d) \<Longrightarrow> opJump c = ret () (c\<lparr>stack := zs, pc := int (unat d) - 1\<rparr>)"
    "\<not> valid_dest (code c) (unat d) \<Longrightarrow> fails (opJump c)"
  using jump_outcome [of "c\<lparr>stack := zs\<rparr>" d] ready_sinv(3) [OF assms(1)] assms(2)
  by (simp_all add: opJump_def ready_simps [OF assms(1)] maxCode_def)

lemma opJumpi_eq:
  assumes "ready K op s c" and "stack c = d # b # zs"
  shows "b \<noteq> 0 \<Longrightarrow> valid_dest (code c) (unat d) \<Longrightarrow>
      opJumpi c = ret () (c\<lparr>stack := zs, pc := int (unat d) - 1\<rparr>)"
    "b \<noteq> 0 \<Longrightarrow> \<not> valid_dest (code c) (unat d) \<Longrightarrow> fails (opJumpi c)"
    "b = 0 \<Longrightarrow> opJumpi c = ret () (c\<lparr>stack := zs\<rparr>)"
  using jump_outcome [of "c\<lparr>stack := zs\<rparr>" d] ready_sinv(3) [OF assms(1)] assms(2)
  by (simp_all add: opJumpi_def ready_simps [OF assms(1)] maxCode_def)

lemma table_jump: "table JUMP 1 0 8" "table JUMPI 2 0 10"
  by (simp_all add: table_def table_simps)

lemma conforms_jump: "conforms U K jumpRules"
  unfolding jumpRules_def Let_def conforms_append instruction.update_convs
proof (intro conjI conforms_one [where f = opJump], goal_cases)
  case (4 s c d zs)
  then have "valid_dest (code c) (unat d)" using Op_dest(1) [OF 4(1,3)] by simp
  with opJump_eq(1) [OF 4(1,2)] 4 show ?case by (simp add: jumpEffect_def view_simps jump_view ready_simps)
next
  case (8 s c d zs)
  then have "\<not> valid_dest (code c) (unat d)" using Op_dest(2) [OF 8(1,3)] by simp
  with opJump_eq(2) [OF 8(1,2)] show ?case by (simp add: conf_run_FailEffect)
next
  case (12 s c d zs)
  then have "\<not> valid_dest (code c) (unat d)" using Op_dest(1) [OF 12(1,3)] holds_Ne [of "Op (Param 0)" JUMPDEST s] by auto
  with opJump_eq(2) [OF 12(1,2)] show ?case by (simp add: conf_run_FailEffect)
qed (use table_jump dispatch_special in auto)

text \<open>Instructions with two operands.\<close>

lemma conforms_two:
  assumes "table op 2 pushes costs" and "dispatch (ct_env U K) op = cont f" and "pushes \<le> 1"
    and step: "\<And>s c v w zs. ready K op s c \<Longrightarrow> stack c = v # w # zs \<Longrightarrow> Param 0 s = Inr v \<Longrightarrow> Param 1 s = Inr w \<Longrightarrow>
      length zs < maxStackSize \<Longrightarrow> \<forall>d \<in> set conds. holds d s \<Longrightarrow> conf_run (f c) (effect (view c))"
  shows "conforms U K (rulesFor \<lparr>in_op = op, in_staticGas = costs, in_pops = 2, in_pushes = pushes,
    in_conditions = conds, in_effect = effect\<rparr>)"
proof (rule conforms_table [where f = f], goal_cases)
  case (3 s c)
  then have "ready K op s c" "2 \<le> length (stack c)" "length (stack c) \<le> maxStackSize"
    using ready_sinv(1) [of K op s c] by (auto simp: sinv_def cinv_def)
  then show ?case
    using 3 ready_Param [of K op s c 0] ready_Param [of K op s c 1] by (auto simp: stack_simps intro!: step)
qed (use assms in simp_all)

lemma conforms_jumpi: "conforms U K jumpiRules"
  unfolding jumpiRules_def Let_def conforms_append instruction.update_convs
proof (intro conjI conforms_two [where f = opJumpi], goal_cases)
  case (4 s c d b zs)
  then have "valid_dest (code c) (unat d)" "b \<noteq> 0"
    using Op_dest(1) [OF 4(1,3)] by (auto simp: Ne_def NewU256_def SetUint64_def)
  with opJumpi_eq(1) [OF 4(1,2)] 4 show ?case by (simp add: view_simps jump_view ready_simps)
next
  case (8 s c d b zs)
  then have "b = 0" by (auto simp: Eq_def NewU256_def SetUint64_def)
  with opJumpi_eq(3) [OF 8(1,2)] 8 show ?case by (simp add: view_simps ready_simps)
next
  case (12 s c d b zs)
  then have "\<not> valid_dest (code c) (unat d)" "b \<noteq> 0"
    using Op_dest(2) [OF 12(1,3)] by (auto simp: Ne_def NewU256_def SetUint64_def)
  with opJumpi_eq(2) [OF 12(1,2)] show ?case by (simp add: conf_run_FailEffect)
next
  case (16 s c d b zs)
  then have "\<not> valid_dest (code c) (unat d)" using Op_dest(1) [OF 16(1,3)] holds_Ne [of "Op (Param 0)" JUMPDEST s] by auto
  moreover have "b \<noteq> 0" using 16 by (auto simp: Ne_def NewU256_def SetUint64_def)
  ultimately show ?case using opJumpi_eq(2) [OF 16(1,2)] by (simp add: conf_run_FailEffect)
qed (use table_jump dispatch_special in auto)

end
