(* ===== verification/Ct_Conform_State.thy ===== *)
theory Ct_Conform_State
  imports Ct_Conform_Env
begin

text \<open>
  Conformance of the instructions on transient storage, storage and accounts, whose price
  depends on the state.
\<close>

section \<open>Transient storage\<close>

lemma table_transient: "table TLOAD 1 1 100" "table TSTORE 2 0 100"
  by (simp_all add: table_def table_simps)

lemma dispatch_transient: "dispatch E TLOAD = cont (opTload E)" "dispatch E TSTORE = cont (opTstore E)"
  by (simp_all add: dispatch_simps)

lemma holds_ReadOnly [simp]: "holds (Eq ReadOnly b) s \<longleftrightarrow> st_ReadOnly s = b"
  by (simp add: Eq_def ReadOnly_def)

lemma conforms_tload: "conforms U K tloadRules"
  unfolding tloadRules_def Let_def conforms_append instruction.update_convs
proof (intro conjI conforms_one [where f = "opTload (ct_env U K)"], goal_cases)
  case (4 s c v zs)
  then show ?case by (auto simp: opTload_def ready_simps ready_isAtLeast view_simps)
next
  case (8 s c v zs)
  then have "Transient_Get (st_TransientStorage s) v = 0"
    by (auto simp: BindTransientStorageToZero_def Transient_IsZero_def Transient_Get_def)
  with 8 show ?case
    by (auto simp: opTload_def ready_simps ready_isAtLeast view_simps NewU256_def SetUint64_def)
next
  case 9
  show ?case by (rule conforms_invalidRevision, rule dispatch_transient) (auto simp: opTload_def ready_isAtLeast rev_cmp)
qed (use table_transient dispatch_transient in auto)

lemma conforms_tstore: "conforms U K tstoreRules"
proof -
  let ?ro = "\<lparr>r_Condition = And [AnyKnownRevision, Eq Status Running, Eq (Op Pc) TSTORE, Eq ReadOnly True],
    r_Effect = FailEffect\<rparr>"
  have "conforms U K [?ro]"
  proof (rule conforms_failI [where op = TSTORE])
    show "test_state s \<Longrightarrow> holds (r_Condition ?ro) s \<Longrightarrow> at_op TSTORE s" for s
      by (rule holds_Op_Pc) auto
    show "ready K TSTORE s c \<Longrightarrow> holds (r_Condition ?ro) s \<Longrightarrow> fails (dispatch (ct_env U K) TSTORE c)" for s c
      by (auto simp: dispatch_transient opTstore_def ready_simps intro!: fails_cont)
  qed simp
  moreover have "conforms U K [invalidRevisionRule TSTORE R12_Shanghai]"
    by (rule conforms_invalidRevision, rule dispatch_transient) (auto simp: opTstore_def ready_isAtLeast rev_cmp)
  moreover have "conforms U K (rulesFor \<lparr>in_op = TSTORE, in_staticGas = 100, in_pops = 2, in_pushes = 0,
      in_conditions = [RevisionBounds R13_Cancun NewestSupportedRevision, Eq ReadOnly False, cond],
      in_effect = (\<lambda>s. bind (Stack_Pop s) (\<lambda>key s. bind (Stack_Pop s) (\<lambda>v s.
        ret () (s\<lparr>st_TransientStorage := Transient_Set key v (st_TransientStorage s)\<rparr>))))\<rparr>)" for cond
    by (rule conforms_two [where f = "opTstore (ct_env U K)"])
      (auto simp: table_transient dispatch_transient opTstore_def ready_simps ready_isAtLeast view_simps)
  ultimately show ?thesis
    unfolding tstoreRules_def Let_def conforms_append instruction.update_convs
    using conforms_append [of U K "[invalidRevisionRule TSTORE R12_Shanghai]" "[?ro]"] by simp
qed

section \<open>Prices that depend on the state\<close>

lemma conforms_dynamic:
  assumes "usage_ok i" and "dispatch (ct_env U K) (in_op i) = cont f"
    and price: "\<And>s. at_op (in_op i) s \<Longrightarrow> \<forall>d \<in> set (in_conditions i). holds d s \<Longrightarrow>
        static_price (st_Revision s) (in_op i) \<le> in_staticGas i"
    and step: "\<And>s c. ready K (in_op i) s c \<Longrightarrow> in_pops i \<le> length (stack c) \<Longrightarrow>
        length (stack c) + in_pushes i \<le> maxStackSize + in_pops i \<Longrightarrow>
        \<forall>d \<in> set (in_conditions i). holds d s \<Longrightarrow>
        if st_Gas s < in_staticGas i then fails (f c)
        else conf_run (f c) (in_effect i (view (c\<lparr>gas := st_Gas s - in_staticGas i\<rparr>)))"
  shows "conforms U K (rulesFor i)"
proof (rule conforms_rulesFor [OF assms(1)], unfold assms(2))
  fix s c
  assume a: "ready K (in_op i) s c" "in_pops i \<le> length (stack c)"
    "length (stack c) + in_pushes i \<le> maxStackSize + in_pops i" "\<forall>d \<in> set (in_conditions i). holds d s"
  have "s\<lparr>st_Gas := st_Gas s - in_staticGas i, st_Pc := st_Pc s + 1\<rparr> = view (c\<lparr>gas := st_Gas s - in_staticGas i\<rparr>)"
    by (simp add: view_def ready_simps [OF a(1)])
  then show "(st_Gas s < in_staticGas i \<longrightarrow> fails (cont f c)) \<and>
      (in_staticGas i \<le> st_Gas s \<longrightarrow> conf (cont f c)
         (in_effect i (s\<lparr>st_Gas := st_Gas s - in_staticGas i, st_Pc := st_Pc s + 1\<rparr>)))"
    using step [OF a] by (auto split: if_splits intro: fails_cont conf_cont)
qed (use price in auto)

section \<open>Accounts\<close>

lemma MarkWarm_warm [simp]: "Accounts_IsWarm (st_Accounts w) a \<Longrightarrow> on_accounts (Accounts_MarkWarm a) w = w"
  by (simp add: on_accounts_def Accounts_MarkWarm_def Accounts_IsWarm_def insert_absorb)

lemma on_accounts_fields [simp]:
  "st_Status (on_accounts f w) = st_Status w" "st_Accounts (on_accounts f w) = f (st_Accounts w)"
  "st_Storage (on_accounts f w) = st_Storage w" "st_Revision (on_accounts f w) = st_Revision w"
  "st_CallContext (on_accounts f w) = st_CallContext w" "st_ReadOnly (on_accounts f w) = st_ReadOnly w"
  "st_CallJournal (on_accounts f w) = st_CallJournal w" "st_Code (on_accounts f w) = st_Code w"
  "st_HasSelfDestructed (on_accounts f w) = st_HasSelfDestructed w"
  "st_IsNewContract (on_accounts f w) = st_IsNewContract w"
  "st_SelfDestructedJournal (on_accounts f w) = st_SelfDestructedJournal w"
  by (simp_all add: on_accounts_def)

lemma GetAccount_MarkWarm [simp]: "GetAccount (Accounts_MarkWarm a x) b = GetAccount x b"
  by (simp add: GetAccount_def Accounts_MarkWarm_def)

lemma account_MarkWarm [simp]:
  "Accounts_GetBalance (Accounts_MarkWarm a x) b = Accounts_GetBalance x b"
  "Accounts_GetCode (Accounts_MarkWarm a x) b = Accounts_GetCode x b"
  "Accounts_GetCodeHash (Accounts_MarkWarm a x) b = Accounts_GetCodeHash x b"
  "Accounts_IsEmpty (Accounts_MarkWarm a x) b = Accounts_IsEmpty x b"
  by (simp_all add: Accounts_GetBalance_def Accounts_GetCode_def Accounts_GetCodeHash_def Accounts_IsEmpty_def)

lemma isEmpty_ct: "isEmpty ctRunContext s a = Accounts_IsEmpty (st_Accounts s) a"
  by (auto simp: isEmpty_def Accounts_IsEmpty_def Accounts_GetBalance_def Accounts_GetCode_def intro: Account.equality)

text \<open>The access to an account and its price.\<close>

definition accessCost :: "State \<Rightarrow> Address \<Rightarrow> Gas" where
  "accessCost w a = (if Accounts_IsWarm (st_Accounts w) a then 100 else 2600)"

lemma useAccessGas_ct:
  "useAccessGas (ct_env U K) a c =
     useGas (accessCost (world c) a) (c\<lparr>world := on_accounts (Accounts_MarkWarm a) (world c)\<rparr>)"
  by (simp add: useAccessGas_def ct_AccessAccount_def Let_def accessCost_def getAccessCost_def)

text \<open>
  An instruction that replaces an address at the top of the stack by a value of its account:
  \<open>BALANCE\<close>, \<open>EXTCODESIZE\<close>, \<open>EXTCODEHASH\<close>.
\<close>

definition reads_account ::
  "uint256_lib \<Rightarrow> (bytes \<Rightarrow> Hash) \<Rightarrow> OpCode \<Rightarrow> State sf_cmd \<Rightarrow> (Address \<Rightarrow> State \<Rightarrow> u256) \<Rightarrow> bool" where
  "reads_account U K op f g \<longleftrightarrow>
     dispatch (ct_env U K) op = cont f \<and> op < numOpCodes \<and> op \<noteq> STOP \<and> computeStackUsage op = makeUsage 1 1 \<and>
     (\<forall>rv. static_price rv op = (if R09_Berlin \<le> rv then 0 else 700)) \<and>
     (\<forall>c. f c = bind (peek c) (\<lambda>slot c.
        bind (if isAtLeast c R09_Berlin then useAccessGas (ct_env U K) (Bytes20 slot) c else ret () c) (\<lambda>_ c.
        setN 0 (g (Bytes20 slot) (world c)) c))) \<and>
     (\<forall>a b w. g a (on_accounts (Accounts_MarkWarm b) w) = g a w)"

lemma account_run:
  assumes "reads_account U K op f g" and "ready K op s c" and "stack c = v # zs"
  shows "f c =
    (if R09_Berlin \<le> st_Revision s
     then (if gas c < accessCost s (Bytes20 v) then fail errOutOfGas (c\<lparr>world := on_accounts (Accounts_MarkWarm (Bytes20 v)) s\<rparr>)
           else ret () (c\<lparr>world := on_accounts (Accounts_MarkWarm (Bytes20 v)) s, gas := gas c - accessCost s (Bytes20 v),
                 stack := g (Bytes20 v) s # zs\<rparr>))
     else ret () (c\<lparr>stack := g (Bytes20 v) s # zs\<rparr>))"
proof -
  have "0 \<le> accessCost s (Bytes20 v)" by (simp add: accessCost_def)
  then show ?thesis
    using assms by (simp add: reads_account_def useAccessGas_ct useGas_def ready_isAtLeast [OF assms(2)]
        ready_simps [OF assms(2)])
qed

lemma conforms_account_rule:
  assumes f: "reads_account U K op f g"
    and price: "\<And>s a. \<forall>d \<in> set conds. holds d s \<Longrightarrow> Param 0 s = Inr a \<Longrightarrow>
        cost = (if R09_Berlin \<le> st_Revision s then accessCost s (Bytes20 a) else 700)"
    and eff: "\<And>s c a zs. ready K op s c \<Longrightarrow> stack c = a # zs \<Longrightarrow> \<forall>d \<in> set conds. holds d s \<Longrightarrow> Param 0 s = Inr a \<Longrightarrow>
        effect (view (c\<lparr>gas := st_Gas s - cost\<rparr>)) =
        ret () (view (c\<lparr>gas := st_Gas s - cost, stack := g (Bytes20 a) s # zs,
          world := (if R09_Berlin \<le> st_Revision s then on_accounts (Accounts_MarkWarm (Bytes20 a)) s else s)\<rparr>))"
    and bounds: "\<And>s. at_op op s \<Longrightarrow> \<forall>d \<in> set conds. holds d s \<Longrightarrow> static_price (st_Revision s) op \<le> cost"
  shows "conforms U K (rulesFor \<lparr>in_op = op, in_staticGas = cost, in_pops = 1, in_pushes = 1,
    in_conditions = conds, in_effect = effect\<rparr>)"
proof (rule conforms_dynamic [where f = f], goal_cases)
  case (4 s c)
  then obtain a zs where a: "ready K op s c" "stack c = a # zs" "\<forall>d \<in> set conds. holds d s"
    by (cases "stack c") auto
  have p: "Param 0 s = Inr a" using ready_Param [OF a(1), of 0] a(2) by simp
  have g: "gas c = (if R09_Berlin \<le> st_Revision s then st_Gas s else st_Gas s - 700)"
    using f ready_simps(4,14) [OF a(1)] by (auto simp: reads_account_def)
  show ?case
    using account_run [OF f a(1,2)] price [OF a(3) p] eff [OF a p] g ready_simps(1,12,14) [OF a(1)]
    by (auto split: if_splits)
qed (use f bounds in \<open>auto simp: reads_account_def usage_ok_def\<close>)

lemma holds_Warm:
  assumes "Param n s = Inr a"
  shows "holds (IsAddressWarm (Param n)) s \<longleftrightarrow> Accounts_IsWarm (st_Accounts s) (Bytes20 a)"
    "holds (IsAddressCold (Param n)) s \<longleftrightarrow> \<not> Accounts_IsWarm (st_Accounts s) (Bytes20 a)"
    "holds (IsStorageWarm (Param n)) s \<longleftrightarrow> Storage_IsWarm (st_Storage s) a"
    "holds (IsStorageCold (Param n)) s \<longleftrightarrow> \<not> Storage_IsWarm (st_Storage s) a"
  by (simp_all add: assms IsAddressWarm_def IsAddressCold_def IsStorageWarm_def IsStorageCold_def NewAddress_def)

lemma conforms_account:
  assumes f: "reads_account U K op f g" and v: "\<And>a c. v a (view c) = g a (world c)"
  shows "conforms U K (accountRules op v)"
proof -
  have sp: "static_price rv op = (if R09_Berlin \<le> rv then 0 else 700)" for rv
    using f by (simp add: reads_account_def)
  show ?thesis
    unfolding accountRules_def Let_def conforms_append
  proof (intro conjI conforms_account_rule [OF f], goal_cases)
    case (1 s a) then show ?case by (simp add: holds_Warm accessCost_def)
  next
    case (2 s c a zs) then show ?case
      by (simp add: view_simps v NewAddress_def ready_simps [OF 2(1)])
  next
    case (4 s a) then show ?case by (simp add: holds_Warm accessCost_def)
  next
    case (5 s c a zs) then show ?case
      by (simp add: holds_Warm view_simps v NewAddress_def ready_simps [OF 5(1)])
  next
    case (8 s c a zs) then show ?case
      by (simp add: view_simps v NewAddress_def ready_simps [OF 8(1)])
  qed (auto simp: sp rev_cmp)
qed

lemma dispatch_account:
  "dispatch E BALANCE = cont (opBalance E)" "dispatch E EXTCODESIZE = cont (opExtcodesize E)"
  "dispatch E EXTCODEHASH = cont (opExtcodehash E)" "dispatch E EXTCODECOPY = cont (opExtCodeCopy E)"
  "dispatch E SLOAD = cont (opSload E)" "dispatch E SSTORE = cont (opSstore E)"
  by (simp_all add: dispatch_simps)

lemma reads_accounts:
  "reads_account U K BALANCE (opBalance (ct_env U K)) (\<lambda>a w. Accounts_GetBalance (st_Accounts w) a)"
  "reads_account U K EXTCODESIZE (opExtcodesize (ct_env U K))
     (\<lambda>a w. SetUint64 (word_of_nat (length (Accounts_GetCode (st_Accounts w) a))))"
  "reads_account U K EXTCODEHASH (opExtcodehash (ct_env U K))
     (\<lambda>a w. if Accounts_IsEmpty (st_Accounts w) a then 0 else Accounts_GetCodeHash (st_Accounts w) a)"
  by (auto simp: reads_account_def dispatch_account table_simps opBalance_def opExtcodesize_def opExtcodehash_def
      Let_def isEmpty_ct intro!: arg_cong2 [where f = bind] ext)

lemma conforms_balance: "conforms U K balanceRules"
  unfolding balanceRules_def by (rule conforms_account [OF reads_accounts(1)]) simp

lemma conforms_extcodesize: "conforms U K extcodesizeRules"
  unfolding extcodesizeRules_def by (rule conforms_account [OF reads_accounts(2)]) (simp add: NewU256_def)

lemma conforms_extcodehash: "conforms U K extcodehashRules"
proof -
  have "conforms U K (extcodehashRule r warm isEmp)" for r warm isEmp
    unfolding extcodehashRule_def
  proof (rule conforms_account_rule [OF reads_accounts(3)], goal_cases)
    case (1 s a)
    then show ?case by (auto simp: holds_Warm accessCost_def not_le split: if_splits)
  next
    case (2 s c a zs)
    then show ?case
      by (auto simp: holds_Warm view_simps NewAddress_def ready_simps [OF 2(1)] NewU256_def SetUint64_def not_le Let_def
          split: if_splits)
  next
    case (3 s)
    then show ?case by (auto simp: table_simps not_le)
  qed
  then show ?thesis by (simp add: extcodehashRules_def)
qed

section \<open>Storage\<close>

lemma Storage_MarkWarm_warm [simp]: "Storage_IsWarm (st_Storage w) k \<Longrightarrow> on_storage (Storage_MarkWarm k) w = w"
proof -
  assume "Storage_IsWarm (st_Storage w) k"
  then have "(sto_warm (st_Storage w))(k \<mapsto> True) = sto_warm (st_Storage w)"
    by (auto simp: Storage_IsWarm_def)
  then show ?thesis by (simp add: on_storage_def Storage_MarkWarm_def)
qed

lemma on_storage_fields [simp]:
  "st_Status (on_storage f w) = st_Status w" "st_Storage (on_storage f w) = f (st_Storage w)"
  "st_Revision (on_storage f w) = st_Revision w" "on_storage f (on_storage g w) = on_storage (f \<circ> g) w"
  by (simp_all add: on_storage_def)

lemma on_storage_warm [simp]:
  "Storage_IsWarm (st_Storage w) k \<Longrightarrow> on_storage (f \<circ> Storage_MarkWarm k) w = on_storage f w"
  using Storage_MarkWarm_warm [of w k] by (metis on_storage_fields(4))

lemma storage_MarkWarm [simp]:
  "GetCurrent (Storage_MarkWarm k x) j = GetCurrent x j" "GetOriginal (Storage_MarkWarm k x) j = GetOriginal x j"
  by (simp_all add: GetCurrent_def GetOriginal_def Storage_MarkWarm_def)

lemma storage_commute: "Storage_MarkWarm k \<circ> SetCurrent j v = SetCurrent j v \<circ> Storage_MarkWarm k"
  by (auto simp: Storage_MarkWarm_def SetCurrent_def)

lemma opSload_eq:
  assumes "ready K SLOAD s c" and "stack c = k # zs"
  shows "opSload (ct_env U K) c =
    (if R09_Berlin \<le> st_Revision s
     then (let cost = (if Storage_IsWarm (st_Storage s) k then 100 else 2100); w = on_storage (Storage_MarkWarm k) s in
           if st_Gas s < cost then fail errOutOfGas (c\<lparr>world := w\<rparr>)
           else ret () (c\<lparr>world := w, gas := st_Gas s - cost, stack := GetCurrent (st_Storage s) k # zs\<rparr>))
     else ret () (c\<lparr>stack := GetCurrent (st_Storage s) k # zs\<rparr>))"
proof -
  have "0 \<le> st_Gas s" "R09_Berlin \<le> st_Revision s \<Longrightarrow> gas c = st_Gas s"
    using ready_simps(4,14) [OF assms(1)] by (auto simp: table_simps split: if_splits)
  then show ?thesis
    using assms by (auto simp: opSload_def ct_AccessStorage_def useGas_def Let_def ready_isAtLeast [OF assms(1)]
        ready_simps(1,2) [OF assms(1)])
qed

lemma conforms_sload_rule:
  assumes "\<And>s. \<forall>d \<in> set conds. holds d s \<Longrightarrow> (if R09_Berlin \<le> st_Revision s
      then \<forall>k. Param 0 s = Inr k \<longrightarrow> Storage_IsWarm (st_Storage s) k = (\<not> cold) \<and> cost = (if cold then 2100 else 100)
      else \<not> cold \<and> cost = 800)"
    and "cost \<in> {100, 2100, 800}"
    and "\<And>s. \<forall>d \<in> set conds. holds d s \<Longrightarrow> R09_Berlin \<le> st_Revision s \<or> cost = 800"
  shows "conforms U K (rulesFor \<lparr>in_op = SLOAD, in_staticGas = cost, in_pops = 1, in_pushes = 1,
    in_conditions = conds, in_effect = sloadEffect cold\<rparr>)"
proof (rule conforms_dynamic [where f = "opSload (ct_env U K)"], goal_cases)
  case (4 s c)
  then obtain a zs where a: "ready K SLOAD s c" "stack c = a # zs" "\<forall>d \<in> set conds. holds d s"
    by (cases "stack c") auto
  have p: "Param 0 s = Inr a" using ready_Param [OF a(1), of 0] a(2) by simp
  have g: "gas c = (if R09_Berlin \<le> st_Revision s then st_Gas s else st_Gas s - 800)"
    using ready_simps(4) [OF a(1)] by (auto simp: table_simps)
  show ?case
    using opSload_eq [OF a(1,2), of U] assms(1) [OF a(3)] p a(2) g ready_simps(1,12,14) [OF a(1)]
    by (auto simp: sloadEffect_def view_simps Let_def split: if_splits)
qed (use assms(2,3) in \<open>auto simp: dispatch_account table_simps\<close>)

lemma conforms_sload: "conforms U K sloadRules"
  unfolding sloadRules_def conforms_append
  by (intro conjI conforms_sload_rule) (auto simp: holds_Warm rev_cmp)

text \<open>An instruction that the specification lets fail whenever its conditions hold.\<close>

lemma conforms_fails:
  assumes op: "in_op i < numOpCodes" "in_op i \<noteq> STOP" "computeStackUsage (in_op i) = makeUsage (int p) (int q)"
    and i: "in_pops i \<le> p" "in_pushes i \<le> in_pops i" "in_effect i = FailEffect"
    and step: "\<And>s c. ready K (in_op i) s c \<Longrightarrow> p \<le> length (stack c) \<Longrightarrow> \<forall>d \<in> set (in_conditions i). holds d s \<Longrightarrow>
        fails (dispatch (ct_env U K) (in_op i) c)"
  shows "conforms U K (rulesFor i)"
  unfolding conforms_def
proof (intro allI impI ballI)
  fix s r assume ts: "test_state s" and r: "r \<in> set (rulesFor i)" and h: "holds (r_Condition r) s"
  have at: "at_op (in_op i) s"
    using r h by (intro holds_Op_Pc [OF ts _ _ op(2)])
      (auto simp: rulesFor_def tooLittleGas_def tooFewElements_def notEnoughSpace_def regularRule_def Let_def
        split: if_splits)
  note lim = checkStackLimits_usage [OF op(1,3)]
  let ?c = "(ct_context K s)\<lparr>gas := st_Gas s - static_price (st_Revision s) (in_op i)\<rparr>"
  have f: "fails (dispatch (ct_env U K) (in_op i) ?c)"
    if "checkStackLimits (length (st_Stack s)) (in_op i) = None" "static_price (st_Revision s) (in_op i) \<le> st_Gas s"
      "\<forall>d \<in> set (in_conditions i). holds d s"
    using that at by (intro step) (auto simp: ready_def lim split: if_splits)
  have "(\<forall>d \<in> set (in_conditions i). holds d s) \<or> length (st_Stack s) < in_pops i"
    using r h i(2) by (auto simp: rulesFor_def tooLittleGas_def tooFewElements_def notEnoughSpace_def regularRule_def
        Let_def Lt_def StackSize_def split: if_splits)
  then show "passes U K r s"
  proof
    assume conds: "\<forall>d \<in> set (in_conditions i). holds d s"
    from r consider "r_Effect r = FailEffect" | "r = regularRule i"
      by (auto simp: rulesFor_def tooLittleGas_def tooFewElements_def notEnoughSpace_def split: if_splits)
    then show ?thesis
    proof cases
      case 1
      then show ?thesis using f conds by (intro passes_fail [OF at]) auto
    next
      case 2
      have "conf x (r_Effect r s)" if "fails x" for x
        using conf_FailEffect [OF that] by (simp add: 2 regularRule_def Let_def i(3))
      then show ?thesis using f conds fails_limits [of "length (st_Stack s)" "in_op i"]
        by (intro passes_conf [OF at]) (auto simp: execInstr_ct [OF at] not_less split: option.splits)
    qed
  next
    assume few: "length (st_Stack s) < in_pops i"
    then have none: "checkStackLimits (length (st_Stack s)) (in_op i) \<noteq> None" using i(1) by (simp add: lim)
    have "r_Effect r = FailEffect"
      using r h few by (auto simp: rulesFor_def tooLittleGas_def tooFewElements_def notEnoughSpace_def regularRule_def
          Let_def Ge_def StackSize_def split: if_splits)
    then show ?thesis using none by (intro passes_fail [OF at]) auto
  qed
qed

text \<open>The parameters of the rules for \<open>SSTORE\<close> agree with the prices of the interpreter.\<close>

definition sstore_ok :: "sstoreOpParams \<Rightarrow> bool" where
  "sstore_ok p \<longleftrightarrow>
     so_gasCost p = (if R09_Berlin \<le> so_revision p \<and> \<not> so_warm p then 2100 else 0)
       + getDynamicCostsForSstore (so_revision p) (so_config p) \<and>
     so_gasRefund p = getRefundForSstore (so_revision p) (so_config p)"

lemma sstoreRules_ok: "list_all sstore_ok sstoreRules"
  by (simp add: sstoreRules_def sstoreRules_early_def sstoreRules_late_def sstoreParams_def sstore_ok_def upto.simps
      getDynamicCostsForSstore_def getRefundForSstore_def)

lemma sstore_table: "static_price rv SSTORE = 0" "computeStackUsage SSTORE = makeUsage 2 0"
  by (simp_all add: table_simps)

lemma opSstore_eq:
  assumes "ready K SSTORE s c" and "stack c = k # v # zs"
  shows "opSstore (ct_env U K) c =
    (let rv = st_Revision s; berlin = (R09_Berlin \<le> rv);
         cfg = GetStorageStatus (GetOriginal (st_Storage s) k) (GetCurrent (st_Storage s) k) v;
         cost = (if berlin \<and> \<not> Storage_IsWarm (st_Storage s) k then 2100 else 0) + getDynamicCostsForSstore rv cfg;
         w = on_storage (SetCurrent k v) (if berlin then on_storage (Storage_MarkWarm k) s else s) in
     if st_ReadOnly s then fail errStaticContextViolation c
     else if st_Gas s \<le> 2300 then fail errOutOfGas c
     else if st_Gas s < cost then fail errOutOfGas (c\<lparr>stack := zs, world := w\<rparr>)
     else ret () (c\<lparr>stack := zs, world := w, gas := st_Gas s - cost,
                    refund := int64 (refund c + getRefundForSstore rv cfg)\<rparr>))"
proof -
  define cfg where "cfg = GetStorageStatus (GetOriginal (st_Storage s) k) (GetCurrent (st_Storage s) k) v"
  define d where "d = getDynamicCostsForSstore (st_Revision s) cfg"
  have "0 < d" by (simp add: d_def dynamic_sstore_pos)
  then show ?thesis
    using assms(2) unfolding Let_def cfg_def [symmetric] d_def [symmetric]
    by (simp add: opSstore_def ct_AccessStorage_def ct_SetStorage_def useGas_def Let_def isAtLeast_def
        ready_simps(1,2,4) [OF assms(1)] sstore_table cfg_def [symmetric] d_def [symmetric] not_less)
qed

lemma conforms_sstoreRegular:
  assumes "sstore_ok p"
  shows "conforms U K (sstoreOpRegular p)"
  unfolding sstoreOpRegular_def Let_def
proof (rule conforms_dynamic [where f = "opSstore (ct_env U K)"], goal_cases)
  case (4 s c)
  then obtain k v zs where a: "ready K SSTORE s c" "stack c = k # v # zs" by (auto simp: stack_simps)
  have par: "Param 0 s = Inr k" "Param 1 s = Inr v" using ready_Param [OF a(1)] a(2) by simp_all
  have cond: "st_Revision s = so_revision p" "\<not> st_ReadOnly s"
    "so_config p = GetStorageStatus (GetOriginal (st_Storage s) k) (GetCurrent (st_Storage s) k) v"
    "R09_Berlin \<le> so_revision p \<Longrightarrow> Storage_IsWarm (st_Storage s) k = so_warm p"
    using 4(4) par by (auto simp: StorageConfiguration_def CheckStorageStatusConfig_def holds_Warm split: if_splits)
  define d where "d = getDynamicCostsForSstore (so_revision p) (so_config p)"
  have cost: "so_gasCost p = (if R09_Berlin \<le> so_revision p \<and> \<not> Storage_IsWarm (st_Storage s) k then 2100 else 0) + d"
    "so_gasRefund p = getRefundForSstore (so_revision p) (so_config p)"
    using assms cond(4) by (auto simp: sstore_ok_def d_def)
  have d: "0 < d" by (simp add: d_def dynamic_sstore_pos)
  note run = opSstore_eq [OF a, of U, unfolded Let_def cond(1) cond(3) [symmetric] d_def [symmetric]]
  note r = ready_simps(1,5,12,14) [OF a(1)]
  show ?case
    unfolding run using cond(1,2) cost d a(2) r
    by (auto simp: view_simps Let_def storage_commute not_less split: if_splits)
qed (use dynamic_sstore_pos in \<open>auto simp: dispatch_account usage_ok_def sstore_table\<close>)

lemma conforms_sstoreReadOnly: "conforms U K (sstoreOpReadOnlyMode p)"
  unfolding sstoreOpReadOnlyMode_def
  by (rule conforms_fails [where p = 2 and q = 0])
    (auto simp: sstore_table dispatch_account opSstore_def ready_simps(1,2) intro!: fails_cont)

lemma conforms_sstore: "conforms U K allSstoreRules"
proof -
  have "conforms U K (tooLittleGas (sstoreInstr 2300 0))"
  proof -
    let ?r = "hd (tooLittleGas (sstoreInstr 2300 0))"
    have "conforms U K [?r]"
    proof (rule conforms_failI [where op = SSTORE])
      show "test_state s \<Longrightarrow> holds (r_Condition ?r) s \<Longrightarrow> at_op SSTORE s" for s
        by (rule holds_Op_Pc) (auto simp: tooLittleGas_def sstoreInstr_def)
      show "ready K SSTORE s c \<Longrightarrow> holds (r_Condition ?r) s \<Longrightarrow> fails (dispatch (ct_env U K) SSTORE c)" for s c
        by (auto simp: tooLittleGas_def sstoreInstr_def Lt_def GasExpr_def dispatch_account opSstore_def sstore_table
            ready_simps(4) intro!: fails_cont)
    qed (simp add: tooLittleGas_def)
    then show ?thesis by (simp add: tooLittleGas_def)
  qed
  moreover have "conforms U K (tooFewElements (sstoreInstr 2 2))"
  proof -
    let ?r = "hd (tooFewElements (sstoreInstr 2 2))"
    have "conforms U K [?r]"
    proof (rule conforms_failI [where op = SSTORE])
      show "test_state s \<Longrightarrow> holds (r_Condition ?r) s \<Longrightarrow> at_op SSTORE s" for s
        by (rule holds_Op_Pc) (auto simp: tooFewElements_def sstoreInstr_def)
      show "ready K SSTORE s c \<Longrightarrow> holds (r_Condition ?r) s \<Longrightarrow>
          checkStackLimits (length (stack c)) SSTORE = None \<Longrightarrow> fails (dispatch (ct_env U K) SSTORE c)" for s c
        by (auto simp: tooFewElements_def sstoreInstr_def Lt_def StackSize_def ready_simps(6)
            checkStackLimits_usage [of SSTORE 2 0] sstore_table)
    qed (simp add: tooFewElements_def)
    then show ?thesis by (simp add: tooFewElements_def)
  qed
  ultimately show ?thesis
    using sstoreRules_ok
    by (auto simp: allSstoreRules_def list_all_iff intro: conforms_sstoreRegular conforms_sstoreReadOnly)
qed

end
