(* ===== verification/Ct_Conform_Memory.thy ===== *)
theory Ct_Conform_Memory
  imports Ct_Conform_State
begin

text \<open>
  Conformance of the instructions on memory: the expansion costs and the growth of the
  specification's memory agree with those of the interpreter.
\<close>

section \<open>Expansion\<close>

lemma calcMemoryCost_eq:
  assumes "unat x \<le> maxMemoryExpansionSize"
  shows "calcMemoryCost x = mem_cost ((unat x + 31) div 32)"
proof -
  define w where "w = (unat x + 31) div 32"
  define ws where "ws = (if x mod 32 \<noteq> 0 then x div 32 + 1 else x div 32)"
  have w: "w \<le> 4294967295" using assms unfolding w_def by linarith
  have "unat ws = (if unat x mod 32 \<noteq> 0 then unat x div 32 + 1 else unat x div 32)"
  proof -
    have "unat (x div 32 + 1) = unat x div 32 + 1" using assms by (simp add: unat_word_ariths unat_div)
    moreover have "x mod 32 = 0 \<longleftrightarrow> unat x mod 32 = 0" by (simp add: word_unat_eq_iff unat_mod)
    ultimately show ?thesis by (simp add: ws_def unat_div)
  qed
  also have "\<dots> = w"
  proof -
    have up: "(32 * q + r + 31) div 32 = (if r \<noteq> 0 then q + 1 else q)" if "r < 32" for q r :: nat
    proof (cases "r = 0")
      case False
      with that show ?thesis by (auto intro!: div_nat_eqI)
    qed (auto intro!: div_nat_eqI)
    show ?thesis using up [of "unat x mod 32" "unat x div 32"] unfolding w_def by simp
  qed
  finally have uw: "unat ws = w" .
  have ww: "w * w \<le> 4294967295 * 4294967295" using w by (intro mult_le_mono)
  have "unat ((ws * ws) div 512 + 3 * ws) = w * w div 512 + 3 * w"
    using w ww by (simp add: unat_word_ariths unat_div uw)
  then have "uint ((ws * ws) div 512 + 3 * ws) = mem_cost w"
    by (simp add: mem_cost_def uint_nat del: of_nat_unat)
  moreover have "int64 (mem_cost w) = mem_cost w"
    using mem_cost_bound [OF w] mem_cost_nonneg [of w] by (intro int64_id) linarith+
  ultimately show ?thesis by (simp add: calcMemoryCost_def Let_def ws_def w_def)
qed

lemma getExpansion_Inr:
  assumes "mem_wf m" and "length (store m) < unat sz" and "unat sz \<le> maxMemoryExpansionSize"
  shows "getExpansionCostsAndSize m sz =
    Inr (mem_cost ((unat sz + 31) div 32) - currentMemoryCost m, SizeInWords sz * 32)"
proof -
  define w where "w = (unat sz + 31) div 32"
  have w: "w \<le> 4294967295" "unat sz \<le> w * 32" using assms(3) unfolding w_def by linarith+
  then have w3: "w * 32 \<le> maxMemoryExpansionSize" by simp
  have "unat (SizeInWords sz) = w" by (simp add: unat_SizeInWords w_def)
  then have "unat (SizeInWords sz * 32) = w * 32" using w by (simp add: unat_word_ariths)
  then have "\<not> SizeInWords sz * 32 < sz" "\<not> word_of_nat maxMemoryExpansionSize < SizeInWords sz * 32"
    using w w3 by (simp_all add: word_less_nat_alt)
  moreover have "\<not> sz \<le> mem_length m" using assms unat_mem_length [OF assms(1)] by (simp add: word_le_nat_alt)
  ultimately obtain fee where e: "getExpansionCostsAndSize m sz = Inr (fee, SizeInWords sz * 32)"
    by (simp add: getExpansionCostsAndSize_def Let_def)
  with expansion_Inr(3) [OF assms(1,2) this] show ?thesis by simp
qed

lemma getExpansion_Inl:
  assumes "mem_wf m" and "length (store m) < unat sz" and "maxMemoryExpansionSize < unat sz"
  shows "\<exists>e. getExpansionCostsAndSize m sz = Inl e \<and> e \<noteq> GoPanic"
proof (cases "getExpansionCostsAndSize m sz")
  case (Inl e)
  then show ?thesis by (auto simp: getExpansionCostsAndSize_def Let_def split: if_splits)
next
  case (Inr p)
  obtain fee n where p: "p = (fee, n)" by fastforce
  have "unat n = 32 * ((unat sz + 31) div 32)" "unat n \<le> maxMemoryExpansionSize"
    using expansion_Inr [OF assms(1,2) Inr [unfolded p]] by simp_all
  then show ?thesis using assms(3) by linarith
qed

lemma add_overflow_iff: "(- 1 - z < (x :: u64) \<or> - 1 - x < z) \<longleftrightarrow> 18446744073709551616 \<le> unat x + unat z"
proof -
  have "unat (- 1 - z) = 18446744073709551615 - unat z" for z :: u64
    using unat_sub [of z "- 1"] by (simp add: unsigned_minus_1_eq_mask mask_eq_exp_minus_1)
  then show ?thesis
    using unat_u64_bound [of x] unat_u64_bound [of z] by (auto simp: word_less_nat_alt)
qed

lemma unat_add_cases:
  "18446744073709551616 \<le> unat x + unat z \<Longrightarrow> (x :: u64) + z < x"
  "\<not> 18446744073709551616 \<le> unat x + unat z \<Longrightarrow> unat (x + z) = unat x + unat z"
  "\<not> 18446744073709551616 \<le> unat x + unat z \<Longrightarrow> \<not> x + z < x"
proof -
  show sum: "unat (x + z) = unat x + unat z" if "\<not> 18446744073709551616 \<le> unat x + unat z"
    using that by (simp add: unat_word_ariths)
  then show "\<not> x + z < x" if "\<not> 18446744073709551616 \<le> unat x + unat z"
    using that by (simp add: word_less_nat_alt)
  show "x + z < x" if "18446744073709551616 \<le> unat x + unat z"
  proof -
    have "unat (x + z) = (unat x + unat z) mod 18446744073709551616" by (simp add: unat_word_ariths)
    also have "\<dots> = unat x + unat z - 18446744073709551616"
    proof -
      have "unat x + unat z - 18446744073709551616 < 18446744073709551616"
        using unat_u64_bound [of x] unat_u64_bound [of z] by linarith
      then show ?thesis using that by (simp add: le_mod_geq)
    qed
    finally show ?thesis using that unat_u64_bound [of z] unfolding word_less_nat_alt by linarith
  qed
qed

text \<open>The memory grown to hold \<open>n\<close> bytes, and the price of it.\<close>

definition grown :: "nat \<Rightarrow> bytes \<Rightarrow> bytes" where
  "grown n m = m @ replicate (32 * ((n + 31) div 32) - length m) 0"

definition growth_cost :: "nat \<Rightarrow> bytes \<Rightarrow> Gas" where
  "growth_cost n m =
     (if n \<le> length m then 0
      else if n \<le> maxMemoryExpansionSize then mem_cost ((n + 31) div 32) - mem_cost (length m div 32)
      else MaxInt64)"

lemma words_multiple: "n mod 32 = 0 \<Longrightarrow> (n + 31) div 32 = n div (32 :: nat)"
proof -
  assume "n mod 32 = 0"
  then obtain q where "n = 32 * q" by (auto simp: mod_eq_0_iff_dvd elim: dvdE)
  then show ?thesis by (auto intro!: div_nat_eqI)
qed

lemma grown_small: "length m mod 32 = 0 \<Longrightarrow> n \<le> length m \<Longrightarrow> grown n m = m"
proof -
  assume "length m mod 32 = 0" "n \<le> length m"
  then have "(n + 31) div 32 \<le> length m div 32" using words_multiple [of "length m"] by (metis add_le_mono1 div_le_mono)
  then have "32 * ((n + 31) div 32) \<le> length m" using \<open>length m mod 32 = 0\<close> by linarith
  then show ?thesis by (simp add: grown_def)
qed

lemma length_grown: "length m mod 32 = 0 \<Longrightarrow> n \<le> length (grown n m) \<and> length m \<le> length (grown n m)"
  by (simp add: grown_def)

lemma ExpansionCosts_eq:
  assumes "length m mod 32 = 0" and "length m \<le> maxMemoryExpansionSize"
    and u: "IsUint64 offset" "IsUint64 sz" "sz \<noteq> 0"
  shows "ExpansionCosts m offset sz =
    (if 18446744073709551616 \<le> unat offset + unat sz then MaxInt64 else growth_cost (unat offset + unat sz) m,
     Uint64 offset, Uint64 sz)"
proof -
  have us: "unat (Uint64 sz) = unat sz" "unat (Uint64 offset) = unat offset" using u by (simp_all add: unat_Uint64)
  then have nz: "Uint64 sz \<noteq> 0" using u(3) by (metis unsigned_0 word_unat_eq_iff)
  have l: "unat (word_of_nat (length m) :: u64) = length m" using assms(2) by (simp add: unat_of_nat)
  have c: "calcMemoryCost (word_of_nat (length m)) = mem_cost (length m div 32)"
    using assms(1,2) by (simp add: calcMemoryCost_eq l words_multiple)
  show ?thesis
  proof (cases "18446744073709551616 \<le> unat offset + unat sz")
    case True
    then show ?thesis using u nz add_overflow_iff [of "Uint64 sz" "Uint64 offset"]
      by (simp add: ExpansionCosts_def us)
  next
    case False
    then have sum: "unat (Uint64 offset + Uint64 sz) = unat offset + unat sz"
      using unat_add_cases(2) [of "Uint64 offset" "Uint64 sz"] by (simp add: us)
    show ?thesis using False u nz add_overflow_iff [of "Uint64 sz" "Uint64 offset"]
      by (auto simp: ExpansionCosts_def Let_def us sum c growth_cost_def word_less_nat_alt calcMemoryCost_eq)
  qed
qed

lemma Mem_Grow_eq:
  assumes "length m mod 32 = 0" and "\<not> 18446744073709551616 \<le> unat off + unat z" and "z \<noteq> 0"
    and "unat off + unat z \<le> length m \<or> unat off + unat z \<le> maxMemoryExpansionSize"
  shows "Mem_Grow off z m = Ret (grown (unat off + unat z) m)"
proof (cases "unat off + unat z \<le> length m")
  case True
  then show ?thesis using assms unat_add_cases(2) [OF assms(2)] by (simp add: Mem_Grow_def grown_small)
next
  case False
  define n where "n = off + z"
  have n: "unat n = unat off + unat z" using unat_add_cases(2) [OF assms(2)] by (simp add: n_def)
  have "unat (SizeInWords n) \<le> 4294967295"
    using False assms(4) unfolding unat_SizeInWords n by linarith
  then have "unat (SizeInWords n * 32) = 32 * ((unat n + 31) div 32)"
    by (simp add: unat_word_ariths unat_SizeInWords)
  then show ?thesis using False assms(3) n
    by (simp add: Mem_Grow_def Let_def grown_def flip: n_def)
qed

lemma growth_cost_nonneg: "0 \<le> growth_cost n m"
proof (cases "n \<le> length m")
  case False
  then have "length m div 32 \<le> (n + 31) div 32" by (intro div_le_mono) simp
  then show ?thesis by (simp add: growth_cost_def mem_cost_mono)
qed (simp add: growth_cost_def)

lemma expandMemory_paid:
  assumes wf: "mem_wf (memory c)" and z: "z \<noteq> 0" and n: "\<not> 18446744073709551616 \<le> unat off + unat z"
    and paid: "0 \<le> gas c" "growth_cost (unat off + unat z) (store (memory c)) \<le> gas c" "gas c < MaxInt64"
  shows "\<exists>d. expandMemory off z c = ret () d"
proof -
  note sum = unat_add_cases(2,3) [OF n]
  note len = unat_mem_length [OF wf]
  show ?thesis
  proof (cases "unat off + unat z \<le> length (store (memory c))")
    case True
    then show ?thesis using sum z len by (simp add: expandMemory_def word_less_nat_alt)
  next
    case False
    then have small: "unat (off + z) \<le> maxMemoryExpansionSize"
      using paid sum(1) by (auto simp: growth_cost_def split: if_splits)
    have fee: "growth_cost (unat off + unat z) (store (memory c)) =
        mem_cost ((unat (off + z) + 31) div 32) - currentMemoryCost (memory c)"
      using False small wf sum(1) by (simp add: growth_cost_def mem_wf_def)
    have "getExpansionCostsAndSize (memory c) (off + z) =
        Inr (growth_cost (unat off + unat z) (store (memory c)), SizeInWords (off + z) * 32)"
      using getExpansion_Inr [OF wf _ small] False sum(1) fee by simp
    then show ?thesis
      using sum z len False paid growth_cost_nonneg [of "unat off + unat z" "store (memory c)"]
      by (simp add: expandMemory_def word_less_nat_alt useGas_def Let_def)
  qed
qed

lemma growth_determined:
  assumes "store m = store (memory c) @ replicate k 0"
    and "length (store m) = max (length (store (memory c))) (32 * ((n + 31) div 32))"
  shows "store m = grown n (store (memory c))"
proof -
  have "k = 32 * ((n + 31) div 32) - length (store (memory c))"
    using assms by (cases "length (store (memory c)) \<le> 32 * ((n + 31) div 32)") simp_all
  with assms(1) show ?thesis by (simp add: grown_def)
qed

lemma getSlice_grow:
  assumes wf: "mem_wf (memory c)" and g: "0 \<le> gas c" "gas c < MaxInt64"
    and u: "IsUint64 offset" "IsUint64 sz" "sz \<noteq> 0"
    and cost: "cost = (if 18446744073709551616 \<le> unat offset + unat sz then MaxInt64
      else growth_cost (unat offset + unat sz) (store (memory c)))"
  shows "if gas c < cost then \<exists>e. getSlice offset sz c = fail e c \<and> e \<noteq> GoPanic
    else \<exists>m. getSlice offset sz c = ret (unat offset, unat sz) (c\<lparr>gas := gas c - cost, memory := m\<rparr>) \<and>
      store m = grown (unat offset + unat sz) (store (memory c)) \<and> mem_wf m"
proof (cases rule: getSlice_cases [OF wf, of offset sz])
  case (1 e)
  have us: "unat (Uint64 sz) = unat sz" "unat (Uint64 offset) = unat offset" using u by (simp_all add: unat_Uint64)
  then have nz: "Uint64 sz \<noteq> 0" using u(3) by (metis unsigned_0 word_unat_eq_iff)
  have "gas c < cost"
  proof (rule ccontr)
    assume p: "\<not> gas c < cost"
    then have n: "\<not> 18446744073709551616 \<le> unat offset + unat sz" using cost g by auto
    with p cost obtain d where d: "expandMemory (Uint64 offset) (Uint64 sz) c = ret () d"
      using expandMemory_paid [OF wf nz, of "Uint64 offset"] g us by auto
    then show False using 1 u by (auto simp: getSlice_def Let_def split: if_splits)
  qed
  with 1 show ?thesis by auto
next
  case (2 m fee off)
  have lm: "length (store m) = max (length (store (memory c))) (32 * ((unat offset + unat sz + 31) div 32))"
    using 2(7) u(3) by simp
  then have store: "store m = grown (unat offset + unat sz) (store (memory c))"
    using 2(6) growth_determined by blast
  have big: "length (store m) \<le> maxMemoryExpansionSize" using 2(4) by (simp add: mem_wf_def)
  then have N: "unat offset + unat sz \<le> maxMemoryExpansionSize" using lm by linarith
  have "fee = cost"
  proof (cases "unat offset + unat sz \<le> length (store (memory c))")
    case True
    then have "length (store m) = length (store (memory c))"
      using store wf grown_small [of "store (memory c)"] by (simp add: mem_wf_def)
    with True N 2(5) show ?thesis by (simp add: cost growth_cost_def)
  next
    case False
    then have "length (store m) = 32 * ((unat offset + unat sz + 31) div 32)" using lm by (simp add: max_def) linarith
    with False N 2(5) show ?thesis by (simp add: cost growth_cost_def)
  qed
  moreover from this have "\<not> gas c < cost" using 2(3) g by auto
  moreover have "off = unat offset" using 2(9) u(3) by blast
  ultimately show ?thesis using 2(1,4) store by auto
qed

text \<open>
  A slice of the interpreter and the expansion of the specification: either the gas does not
  suffice and the slice fails, or both grow the memory in the same way for the same price.
\<close>

lemma memory_step:
  assumes wf: "mem_wf (memory c)" and g: "0 \<le> gas c" "gas c < MaxInt64"
    and exp: "ExpansionCosts (store (memory c)) offset sz = (cost, off, z)"
  obtains (err) e where "getSlice offset sz c = fail e c" "e \<noteq> GoPanic" "gas c < cost"
  | (ok) m o' where "getSlice offset sz c = ret (o', unat z) (c\<lparr>gas := gas c - cost, memory := m\<rparr>)"
      "0 \<le> cost" "cost \<le> gas c" "mem_wf m" "IsUint64 sz" "z = Uint64 sz" "unat z = unat sz"
      "Mem_Grow off z (store (memory c)) = Ret (store m)" "length (store (memory c)) \<le> length (store m)"
      "z \<noteq> 0 \<Longrightarrow> o' = unat off \<and> unat (off + z) = unat off + unat z \<and> unat off + unat z \<le> length (store m)"
      "z = 0 \<Longrightarrow> m = memory c \<and> cost = 0"
proof (cases "sz = 0 \<or> \<not> (IsUint64 offset \<and> IsUint64 sz)")
  case True
  then consider "sz = 0" | "sz \<noteq> 0" "\<not> (IsUint64 offset \<and> IsUint64 sz)" by blast
  then show ?thesis
  proof cases
    case 1
    then have "cost = 0" "z = 0"
      using exp by (auto simp: ExpansionCosts_def Let_def IsUint64_def Uint64_def split: if_splits)
    then show ?thesis using 1 g wf
      by (intro ok [of 0 "memory c"]) (auto simp: getSlice_def IsUint64_def Uint64_def Mem_Grow_def)
  next
    case 2
    with exp have "cost = MaxInt64" by (auto simp: ExpansionCosts_def split: if_splits)
    with 2 g show ?thesis by (intro err [of errOverflow]) (auto simp: getSlice_def)
  qed
next
  case False
  then have u: "IsUint64 offset" "IsUint64 sz" "sz \<noteq> 0" by auto
  have us: "unat (Uint64 sz) = unat sz" "unat (Uint64 offset) = unat offset" using u by (simp_all add: unat_Uint64)
  then have nz: "Uint64 sz \<noteq> 0" using u(3) by (metis unsigned_0 word_unat_eq_iff)
  have l: "length (store (memory c)) mod 32 = 0" "length (store (memory c)) \<le> maxMemoryExpansionSize"
    using wf by (auto simp: mem_wf_def)
  have eq: "cost = (if 18446744073709551616 \<le> unat offset + unat sz then MaxInt64
      else growth_cost (unat offset + unat sz) (store (memory c)))" "off = Uint64 offset" "z = Uint64 sz"
    using exp ExpansionCosts_eq [OF l u] by (auto split: if_splits)
  note grow = getSlice_grow [OF wf g u eq(1)]
  show ?thesis
  proof (cases "gas c < cost")
    case True
    then show ?thesis using grow by (auto intro: err)
  next
    case paid: False
    with grow obtain m where m: "getSlice offset sz c = ret (unat offset, unat sz) (c\<lparr>gas := gas c - cost, memory := m\<rparr>)"
      "store m = grown (unat offset + unat sz) (store (memory c))" "mem_wf m" by auto
    have n: "\<not> 18446744073709551616 \<le> unat offset + unat sz" using paid g eq(1) by auto
    then have "growth_cost (unat offset + unat sz) (store (memory c)) < MaxInt64" using paid g eq(1) by auto
    then have "unat offset + unat sz \<le> length (store (memory c)) \<or> unat offset + unat sz \<le> maxMemoryExpansionSize"
      by (auto simp: growth_cost_def split: if_splits)
    then have grow: "Mem_Grow off z (store (memory c)) = Ret (store m)"
      using Mem_Grow_eq [of "store (memory c)" off z] l n nz m(2) us by (simp add: eq(2,3))
    have "0 \<le> cost" using n growth_cost_nonneg by (simp add: eq(1))
    then show ?thesis
      using m paid u us nz grow length_grown [OF l(1), of "unat offset + unat sz"]
        unat_add_cases(2) [of "Uint64 offset" "Uint64 sz"] n eq(2,3)
      by (intro ok [of "unat offset" m]) simp_all
  qed
qed

text \<open>The operations of the specification's memory after the expansion.\<close>

lemma Memory_Read_view:
  assumes "Mem_Grow off z (store (memory c)) = Ret (store m)"
    and "z \<noteq> 0 \<Longrightarrow> unat (off + z) = unat off + unat z \<and> unat off + unat z \<le> length (store m)"
    and "z = 0 \<Longrightarrow> m = memory c"
  shows "Memory_Read off z (view c) =
    ret (slice_bytes m (unat off, unat z)) (view (c\<lparr>memory := m\<rparr>))"
proof (cases "z = 0")
  case True
  then show ?thesis using assms(3) by (simp add: Memory_Read_def Mem_Read_def slice_bytes_def view_def)
next
  case False
  with assms(2) have s: "unat (off + z) = unat off + unat z" "unat off + unat z \<le> length (store m)" by auto
  then have "\<not> off + z < off" by (simp add: word_less_nat_alt)
  then show ?thesis using False s assms(1)
    by (simp add: Memory_Read_def Mem_Read_def slice_bytes_def view_def)
qed

lemma Memory_Write_view:
  assumes "Mem_Grow off z (store (memory c)) = Ret (store m)" and "length data = unat z"
    and "z \<noteq> 0 \<Longrightarrow> unat off + unat z \<le> length (store m)" and "z = 0 \<Longrightarrow> m = memory c"
  shows "Memory_Write data off (view c) = ret () (view (c\<lparr>memory := copy_slice (unat off, unat z) data m\<rparr>))"
proof (cases "z = 0")
  case True
  then show ?thesis using assms(2,4) by (simp add: Memory_Write_def Mem_Write_def copy_slice_def view_def)
next
  case False
  then have d: "length data \<noteq> 0" "word_of_nat (length data) = z"
    using assms(2) by (auto simp: unat_eq_zero)
  then show ?thesis using assms False
    by (simp add: Memory_Write_def Mem_Write_def copy_slice_def view_def)
qed

section \<open>Charges\<close>

lemma growth_cost_le: "growth_cost n m \<le> MaxInt64"
proof (cases "n \<le> maxMemoryExpansionSize")
  case True
  then have "(n + 31) div 32 \<le> 4294967295" by linarith
  then have "mem_cost ((n + 31) div 32) \<le> 36028809887088637" by (rule mem_cost_bound)
  then have "mem_cost ((n + 31) div 32) - mem_cost (length m div 32) \<le> MaxInt64"
    using mem_cost_nonneg [of "length m div 32"] by linarith
  then show ?thesis by (simp add: growth_cost_def)
qed (simp add: growth_cost_def)

lemma ExpansionCosts_bounds:
  assumes "mem_wf m" and "ExpansionCosts (store m) offset sz = (cost, off, z)"
  shows "0 \<le> cost \<and> cost \<le> MaxInt64"
proof (cases "IsUint64 offset \<and> IsUint64 sz \<and> sz \<noteq> 0")
  case True
  then show ?thesis
    using assms ExpansionCosts_eq [of "store m" offset sz] growth_cost_nonneg growth_cost_le
    by (auto simp: mem_wf_def split: if_splits)
next
  case False
  then show ?thesis using assms(2) by (auto simp: ExpansionCosts_def Uint64_def Let_def split: if_splits)
qed

lemma sumWithOverflow_loop:
  assumes "\<forall>x \<in> set xs. 0 \<le> x \<and> x \<le> MaxInt64" and "0 \<le> acc" "acc \<le> MaxInt64"
  shows "foldl (\<lambda>r cur. case r of None \<Rightarrow> None
      | Some res \<Rightarrow> (let nxt = int64 (res + cur) in if nxt < res then None else Some nxt)) (Some acc) xs =
    (if acc + sum_list xs \<le> MaxInt64 then Some (acc + sum_list xs) else None)"
  using assms
proof (induction xs arbitrary: acc)
  case (Cons x xs)
  let ?f = "\<lambda>r cur. case r of None \<Rightarrow> None
      | Some res \<Rightarrow> (let nxt = int64 (res + cur) in if nxt < res then None else Some nxt)"
  have x: "0 \<le> x" "x \<le> MaxInt64" using Cons.prems by auto
  show ?case
  proof (cases "acc + x \<le> MaxInt64")
    case True
    then have "int64 (acc + x) = acc + x" using x Cons.prems(2) by (intro int64_id) linarith+
    then show ?thesis using Cons True x by (simp add: add.assoc)
  next
    case False
    have "int64 (acc + x) = int64 (acc + x - 18446744073709551616)"
      using mod_add_self2 [of "acc + x - 9223372036854775808" 18446744073709551616]
      by (simp add: int64_def add.commute [of 9223372036854775808])
    also have "\<dots> = acc + x - 18446744073709551616" using False x Cons.prems by (intro int64_id) linarith+
    finally have "int64 (acc + x) < acc" using x by linarith
    moreover have "foldl ?f None ys = None" for ys by (induction ys) auto
    moreover have "0 \<le> sum_list xs" using Cons.prems(1) by (intro sum_list_nonneg) auto
    ultimately show ?thesis using False by simp
  qed
qed simp

lemma spendSum_eq:
  assumes "\<forall>x \<in> set xs. 0 \<le> x \<and> x \<le> MaxInt64" and "st_Gas s \<le> MaxInt64"
  shows "spendSum xs k s = spendGas (sum_list xs) k s"
  using assms sumWithOverflow_loop [OF assms(1), of 0]
  by (auto simp: spendSum_def sumWithOverflow_def spendGas_def)

lemma conf_run_Failed: "st_Status t = Failed \<Longrightarrow> conf_run r (ret () t) \<longleftrightarrow> fails r"
  by (auto simp: conf_run_def fails_def wp_def ret_def split: sum.splits prod.splits)

lemma wordCost_nonneg: "unat k \<le> 6 \<Longrightarrow> 0 \<le> wordCost k z \<and> wordCost k z \<le> MaxInt64"
proof -
  assume k: "unat k \<le> 6"
  have "unat (SizeInWords z) \<le> 576460752303423489" unfolding unat_SizeInWords using unat_u64_bound [of z] by linarith
  with k have "unat k * unat (SizeInWords z) \<le> 6 * 576460752303423489" by (intro mult_le_mono)
  then have "unat (k * SizeInWords z) \<le> 6 * 576460752303423489" by (simp add: unat_word_ariths)
  then have le: "uint (k * SizeInWords z) \<le> 3458764513820540934" by (simp add: uint_nat del: of_nat_unat)
  have ge: "0 \<le> uint (k * SizeInWords z)" by simp
  have "int64 (uint (k * SizeInWords z)) = uint (k * SizeInWords z)" using le ge by (intro int64_id) linarith+
  then show ?thesis using le ge unfolding wordCost_def by linarith
qed

end
