(* ===== verification/Ct_Conform_Copy.thy ===== *)
theory Ct_Conform_Copy
  imports Ct_Conform_Memory
begin

text \<open>
  Conformance of the instructions that read and write memory: hashing, loads and stores,
  the copies within memory, and the lemmas for copies into memory and for two slices.
\<close>

section \<open>Hashing, loads and stores\<close>

lemma table_memory:
  "table SHA3 2 1 30" "table MLOAD 1 1 3" "table MSTORE 2 0 3" "table MSTORE8 2 0 3" "table MCOPY 3 0 3"
  "table CALLDATACOPY 3 0 3" "table CODECOPY 3 0 3" "table RETURNDATACOPY 3 0 3"
  by (simp_all add: table_def table_simps)

lemma dispatch_memory:
  "dispatch E SHA3 = cont (opSha3 E)" "dispatch E MLOAD = cont opMload" "dispatch E MSTORE = cont opMstore"
  "dispatch E MSTORE8 = cont opMstore8" "dispatch E MCOPY = cont opMcopy"
  "dispatch E CALLDATACOPY = cont (\<lambda>c. genericDataCopy (Input (params c)) c)"
  "dispatch E CODECOPY = cont (\<lambda>c. genericDataCopy (Code (params c)) c)"
  "dispatch E RETURNDATACOPY = cont opReturnDataCopy"
  by (simp_all add: dispatch_simps)

lemma ready_gas:
  assumes "ready K op s c"
  shows "mem_wf (memory c)" "0 \<le> gas c" "gas c < MaxInt64" "st_Status (world c) = Running"
  using ready_simps [OF assms] by auto

text \<open>
  \<open>grown_to w off z m i\<close>: the memory \<open>w\<close> was grown to \<open>m\<close>, which holds the \<open>z\<close> bytes
  at \<open>off\<close>; the interpreter's slice of them starts at \<open>i\<close>.
\<close>

definition grown_to :: "Memory \<Rightarrow> u64 \<Rightarrow> u64 \<Rightarrow> Memory \<Rightarrow> nat \<Rightarrow> bool" where
  "grown_to w off z m i \<longleftrightarrow>
     mem_wf m \<and> Mem_Grow off z (store w) = Ret (store m) \<and>
     (if z = 0 then m = w
      else i = unat off \<and> unat (off + z) = unat off + unat z \<and> unat off + unat z \<le> length (store m))"

lemma slice_bytes_0 [simp]: "slice_bytes m (off, 0) = []"
  by (simp add: slice_bytes_def)

lemma copy_slice_0 [simp]: "copy_slice (off, 0) data m = m"
  by (simp add: copy_slice_def)

lemma grown_slice: "grown_to w off z m i \<Longrightarrow> slice_bytes m (i, unat z) = slice_bytes m (unat off, unat z)"
  by (auto simp: grown_to_def split: if_splits)

lemma Memory_Read_grown:
  assumes "grown_to (memory c) off z m i"
  shows "Memory_Read off z (view c) = ret (slice_bytes m (i, unat z)) (view (c\<lparr>memory := m\<rparr>))"
  unfolding grown_slice [OF assms]
  by (rule Memory_Read_view) (use assms in \<open>auto simp: grown_to_def split: if_splits\<close>)

lemma Memory_Write_grown:
  assumes "grown_to (memory c) off z m i" and "length data = unat z"
  shows "Memory_Write data off (view c) = ret () (view (c\<lparr>memory := copy_slice (i, unat z) data m\<rparr>))"
proof -
  have "copy_slice (i, unat z) data m = copy_slice (unat off, unat z) data m"
    using assms(1) by (auto simp: grown_to_def split: if_splits)
  then show ?thesis
    unfolding \<open>copy_slice (i, unat z) data m = _\<close>
    by (intro Memory_Write_view) (use assms in \<open>auto simp: grown_to_def split: if_splits\<close>)
qed

lemma Memory_Hash_grown:
  assumes "grown_to (memory c) off z m i"
  shows "Memory_Hash K off z (view c) = ret (K (slice_bytes m (i, unat z))) (view (c\<lparr>memory := m\<rparr>))"
proof (cases "z = 0")
  case True
  then show ?thesis using assms
    by (simp add: grown_to_def Memory_Hash_def Mem_Hash_def view_def)
next
  case False
  with assms have s: "unat (off + z) = unat off + unat z" "unat off + unat z \<le> length (store m)" "i = unat off"
    by (auto simp: grown_to_def)
  then have "\<not> off + z < off" "0 < z" using False by (simp_all add: word_less_nat_alt word_neq_0_conv)
  then show ?thesis using False s assms
    by (simp add: grown_to_def Memory_Hash_def Mem_Hash_def slice_bytes_def view_def)
qed

lemmas grown_simps = Memory_Read_grown Memory_Write_grown Memory_Hash_grown

lemma spendGas_0: "0 \<le> gas c \<Longrightarrow> spendGas 0 k (view c) = k (view c)"
  by (simp add: spendGas_view)

text \<open>
  A charge of the interpreter on \<open>c\<close> against a part of the charge of the specification, on
  a context \<open>d\<close> that may differ in its stack.
\<close>

lemma conf_useGas:
  assumes "0 \<le> gas c" and "0 \<le> w" and "0 \<le> rest" and "gas d = gas c"
    and "w \<le> gas c \<Longrightarrow> conf_run (f () (c\<lparr>gas := gas c - w\<rparr>)) (spendGas rest k (view (d\<lparr>gas := gas c - w\<rparr>)))"
  shows "conf_run (bind (useGas w c) f) (spendGas (w + rest) k (view d))"
proof (cases "gas c < w")
  case True
  then show ?thesis using assms by (simp add: useGas_def spendGas_view)
next
  case False
  with assms(5) have "conf_run (f () (c\<lparr>gas := gas c - w\<rparr>)) (spendGas rest k (view (d\<lparr>gas := gas c - w\<rparr>)))" by simp
  moreover have "gas c < w + rest \<longleftrightarrow> gas c - w < rest" "gas c - w - rest = gas c - (w + rest)" by auto
  ultimately show ?thesis using False assms by (auto simp: useGas_def spendGas_view conf_run_Failed diff_diff_eq)
qed

lemma conf_getSlice:
  assumes wf: "mem_wf (memory c)" and g: "0 \<le> gas c" "gas c < MaxInt64" and rest: "0 \<le> rest" and d: "gas d = gas c"
    and exp: "ExpansionCosts (store (memory c)) offset sz = (cost, off, z)"
    and ok: "\<And>m i. 0 \<le> cost \<Longrightarrow> cost \<le> gas c \<Longrightarrow> IsUint64 sz \<Longrightarrow> z = Uint64 sz \<Longrightarrow> grown_to (memory c) off z m i \<Longrightarrow>
      conf_run (f (i, unat z) (c\<lparr>gas := gas c - cost, memory := m\<rparr>)) (spendGas rest k (view (d\<lparr>gas := gas c - cost\<rparr>)))"
  shows "conf_run (bind (getSlice offset sz c) f) (spendGas (cost + rest) k (view d))"
proof (cases rule: memory_step [OF wf g exp])
  case (1 e)
  then show ?thesis using rest by (simp add: spendGas_view d)
next
  case (2 m i)
  have "conf_run (f (i, unat z) (c\<lparr>gas := gas c - cost, memory := m\<rparr>)) (spendGas rest k (view (d\<lparr>gas := gas c - cost\<rparr>)))"
    by (rule ok) (use 2 in \<open>auto simp: grown_to_def\<close>)
  then show ?thesis using 2(1) d
    by (auto simp: spendGas_view conf_run_Failed diff_diff_eq less_diff_eq diff_less_eq add.commute)
qed

lemma conf_useGas0:
  assumes "0 \<le> gas c" and "0 \<le> w" and "gas d = gas c"
    and "w \<le> gas c \<Longrightarrow> conf_run (f () (c\<lparr>gas := gas c - w\<rparr>)) (k (view (d\<lparr>gas := gas c - w\<rparr>)))"
  shows "conf_run (bind (useGas w c) f) (spendGas w k (view d))"
  using conf_useGas [of c w 0 d f k] assms by (simp add: spendGas_0)

lemma conf_getSlice0:
  assumes wf: "mem_wf (memory c)" and g: "0 \<le> gas c" "gas c < MaxInt64" and d: "gas d = gas c"
    and exp: "ExpansionCosts (store (memory c)) offset sz = (cost, off, z)"
    and ok: "\<And>m i. 0 \<le> cost \<Longrightarrow> cost \<le> gas c \<Longrightarrow> IsUint64 sz \<Longrightarrow> z = Uint64 sz \<Longrightarrow> grown_to (memory c) off z m i \<Longrightarrow>
      conf_run (f (i, unat z) (c\<lparr>gas := gas c - cost, memory := m\<rparr>)) (k (view (d\<lparr>gas := gas c - cost\<rparr>)))"
  shows "conf_run (bind (getSlice offset sz c) f) (spendGas cost k (view d))"
proof -
  have "conf_run (bind (getSlice offset sz c) f) (spendGas (cost + 0) k (view d))"
  proof (rule conf_getSlice [OF wf g _ d exp], goal_cases)
    case (2 m i)
    then show ?case using ok [of m i] by (simp add: spendGas_0)
  qed simp
  then show ?thesis by simp
qed

lemma conforms_sha3: "conforms U K (sha3Rules K)"
  unfolding sha3Rules_def
proof (rule conforms_two [where f = "opSha3 (ct_env U K)"], goal_cases)
  case (4 s c offset sz zs)
  note r = ready_gas [OF 4(1)] ready_simps(9) [OF 4(1)]
  obtain cost off z where exp: "ExpansionCosts (store (memory c)) offset sz = (cost, off, z)" by (metis prod_cases3)
  show ?case
  proof (simp add: opSha3_def 4(2) exp view_pop wordCost_def, rule conf_getSlice0 [where off = off and z = z], goal_cases)
    case (6 m i)
    then show ?case
    proof (simp, intro conf_useGas0, goal_cases)
      case 4
      then show ?case using r by (simp add: grown_simps view_simps)
    qed (use wordCost_nonneg [of 6 z] in \<open>auto simp: wordCost_def\<close>)
  qed (use r exp in auto)
qed (use table_memory dispatch_memory in auto)

lemma ExpansionCosts_paid:
  assumes "ExpansionCosts m offset sz = (cost, off, z)" and "cost < MaxInt64"
  shows "IsUint64 sz \<and> z = Uint64 sz"
  using assms by (auto simp: ExpansionCosts_def Let_def IsUint64_def Uint64_def split: if_splits)

lemma grown_bound:
  assumes "grown_to w off z m i"
  shows "unat z \<le> maxMemoryExpansionSize"
  using assms by (auto simp: grown_to_def mem_wf_def split: if_splits)

lemma conforms_mload: "conforms U K mloadRules"
  unfolding mloadRules_def
proof (rule conforms_one [where f = opMload], goal_cases)
  case (4 s c offset zs)
  note r = ready_gas [OF 4(1)]
  obtain cost off z where exp: "ExpansionCosts (store (memory c)) offset 32 = (cost, off, z)" by (metis prod_cases3)
  then have exp': "ExpansionCosts (store (memory c)) offset (NewU256 32) = (cost, off, z)"
    by (simp add: NewU256_def SetUint64_def)
  show ?case
  proof (simp add: opMload_def readWord_def bind_assoc 4(2) exp' view_pop, rule conf_getSlice0 [where off = off and z = z], goal_cases)
    case (6 m i)
    then have "z = 32" by (simp add: Uint64_def)
    with 6 have "length (slice_bytes m (i, unat z)) = 32" by (auto simp: grown_to_def slice_bytes_def split: if_splits)
    then show ?case using r 6 \<open>z = 32\<close> by (simp add: grown_simps view_simps NewU256FromBytes_def lift_go_def 4(2))
  qed (use r exp in auto)
qed (use table_memory dispatch_memory in auto)

lemma conf_mem_set:
  assumes wf: "mem_wf (memory c)" and g: "0 \<le> gas c" "gas c < MaxInt64" and run: "st_Status (world c) = Running"
    and len: "length v < 18446744073709551616"
    and exp: "ExpansionCosts (store (memory c)) offset (SetUint64 (word_of_nat (length v))) = (cost, off, z)"
  shows "conf_run (mem_set offset v c) (spendGas cost (Memory_Write v off) (view c))"
proof (simp add: mem_set_def, rule conf_getSlice0 [OF wf g refl exp], goal_cases)
  case (1 m i)
  then have "length v = unat z" using len by (simp add: unat_of_nat)
  then show ?case using 1 run by (simp add: grown_simps)
qed

lemma conforms_mstore: "conforms U K mstoreRules"
  unfolding mstoreRules_def conforms_append
proof (rule conjI, goal_cases)
  case 1
  show ?case
  proof (rule conforms_two [where f = opMstore], goal_cases)
    case (4 s c offset v zs)
    note r = ready_gas [OF 4(1)]
    obtain cost off z where "ExpansionCosts (store (memory c)) offset (NewU256 32) = (cost, off, z)" by (metis prod_cases3)
    then show ?case using r conf_mem_set [of "c\<lparr>stack := zs\<rparr>" "be_bytes 32 v" offset cost off z]
      by (simp add: opMstore_def 4(2) view_pop NewU256_def)
  qed (use table_memory dispatch_memory in auto)
next
  case 2
  show ?case
  proof (rule conforms_two [where f = opMstore8], goal_cases)
    case (4 s c offset v zs)
    note r = ready_gas [OF 4(1)]
    have "(ucast (Uint64 v) :: byte) = ucast v"
      unfolding Uint64_def by (rule bit_word_eqI) (auto simp: bit_simps)
    moreover have "unat (be_bytes 32 v ! 31) = unat (ucast v :: byte)"
      by (simp add: unat_be_byte unsigned_ucast_eq take_bit_eq_mod)
    ultimately have byte: "be_bytes 32 v ! 31 = ucast (Uint64 v)" by (simp add: word_unat_eq_iff)
    obtain cost off z where "ExpansionCosts (store (memory c)) offset (NewU256 1) = (cost, off, z)" by (metis prod_cases3)
    then show ?case using r conf_mem_set [of "c\<lparr>stack := zs\<rparr>" "[ucast (Uint64 v)]" offset cost off z]
      by (simp add: opMstore8_def 4(2) view_pop NewU256_def byte)
  qed (use table_memory dispatch_memory in auto)
qed

section \<open>Copies of code and call data\<close>

text \<open>The data that the specification reads, padded to the requested size.\<close>

context uint256_arith
begin

lemma ct_getData:
  fixes off :: u256
  assumes src: "length src < 9223372036854775808" and z: "unat z < 9223372036854775808"
  defines "len \<equiv> word_of_nat (length src) :: u64"
  defines "start \<equiv> (if u_Gt U off (NewU256 len) then len else Uint64 off)"
  obtains bs where "Bytes_Get src start (min (start + z) len) = Ret bs"
    and "getData src off z = Ret (ct_RightPadSlice bs (unat z))"
proof -
  have l: "unat len = length src" using src by (simp add: len_def unat_of_nat)
  have s: "unat start = (if length src < unat off then length src else unat off)"
    "\<not> length src < unat off \<longrightarrow> IsUint64 off \<and> start = Uint64 off"
  proof -
    have "u_Gt U off (NewU256 len) \<longleftrightarrow> length src < unat off"
      by (simp add: Gt NewU256_def word_less_nat_alt l)
    moreover have "IsUint64 off" if "\<not> length src < unat off" using that src by (simp add: IsUint64_def word_less_nat_alt)
    ultimately show "unat start = (if length src < unat off then length src else unat off)"
      "\<not> length src < unat off \<longrightarrow> IsUint64 off \<and> start = Uint64 off"
      by (auto simp: start_def l unat_Uint64)
  qed
  have sum: "unat (start + z) = unat start + unat z"
    using s(1) src z by (simp add: unat_word_ariths split: if_splits)
  then have e: "unat (min (start + z) len) = min (unat start + unat z) (length src)"
    by (simp add: min_def word_le_nat_alt l)
  let ?bs = "take (min (unat start + unat z) (length src) - unat start) (drop (unat start) src)"
  have "Bytes_Get src start (min (start + z) len) = Ret ?bs"
    using s(1) by (auto simp: Bytes_Get_def e word_less_nat_alt)
  moreover have "getData src off z = Ret (ct_RightPadSlice ?bs (unat z))"
  proof (cases "z = 0 \<or> length src \<le> unat off")
    case True
    then consider "z = 0" | "z \<noteq> 0" "length src \<le> unat off" by blast
    then show ?thesis
    proof cases
      case 2
      then have "\<not> IsUint64 off \<or> length src \<le> unat (Uint64 off)" by (auto simp: unat_Uint64)
      moreover have "unat start = length src" using 2 s(1) by simp
      ultimately show ?thesis using 2 by (simp add: getData_def ct_RightPadSlice_def)
    qed (simp add: getData_def ct_RightPadSlice_def)
  next
    case False
    then have "IsUint64 off" "start = Uint64 off" using s(2) by auto
    then show ?thesis using False sum s(1)
      by (auto simp: getData_def Let_def ct_RightPadSlice_def unat_Uint64 min_def)
  qed
  ultimately show ?thesis by (rule that)
qed

end

lemma length_RightPad [simp]: "length (ct_RightPadSlice bs n) = n"
  by (simp add: ct_RightPadSlice_def)

text \<open>
  A charge for the words of a slice that is taken next, where the specification charges the
  sum; a size that is not paid for differs at most in the price of the words.
\<close>

lemma conf_words_slice:
  assumes wf: "mem_wf (memory c)" and g: "0 \<le> gas c" "gas c < MaxInt64" and d: "gas d = gas c"
    and exp: "ExpansionCosts (store (memory c)) offset sz = (cost, off, z)"
    and h: "\<And>g. h () (c\<lparr>gas := g\<rparr>) = bind (getSlice offset sz (c\<lparr>gas := g\<rparr>)) f"
    and ok: "\<And>g m i. grown_to (memory c) off z m i \<Longrightarrow> z = Uint64 sz \<Longrightarrow>
      conf_run (f (i, unat z) (c\<lparr>gas := g, memory := m\<rparr>)) (k (view (d\<lparr>gas := g\<rparr>)))"
  shows "conf_run (bind (useGas (wordCost 3 (Uint64 sz)) c) h) (spendGas (cost + wordCost 3 z) k (view d))"
proof (cases "gas c < cost")
  case True
  have fl: "fails (bind (getSlice offset sz d) f)" if "memory d = memory c" "gas d \<le> gas c" "0 \<le> gas d" for d
    by (cases rule: memory_step [of d offset sz cost off z]) (use that wf g exp True in auto)
  have "fails (bind (useGas (wordCost 3 (Uint64 sz)) c) h)"
    using wordCost_nonneg [of 3 "Uint64 sz"] g by (auto simp: useGas_def h intro!: fl)
  then show ?thesis using True wordCost_nonneg [of 3 z] by (simp add: spendGas_view conf_run_Failed d)
next
  case False
  then have u: "z = Uint64 sz" using ExpansionCosts_paid [OF exp] g by simp
  have cost: "0 \<le> cost" using ExpansionCosts_bounds [OF wf exp] by simp
  have "conf_run (bind (useGas (wordCost 3 z) c) h) (spendGas (wordCost 3 z + cost) k (view d))"
  proof (rule conf_useGas, goal_cases)
    case 5
    show ?case unfolding h
    proof (rule conf_getSlice0 [where off = off and z = z], goal_cases)
      case (6 m i)
      then show ?case using ok [of m i "gas c - wordCost 3 z - cost"] u d by simp
    qed (use wf g exp wordCost_nonneg [of 3 z] 5 d in auto)
  qed (use g cost wordCost_nonneg [of 3 z] d in auto)
  then show ?thesis by (simp add: u add.commute)
qed

lemma conf_genericDataCopy:
  assumes wf: "mem_wf (memory c)" and g: "0 \<le> gas c" "gas c < MaxInt64" and run: "st_Status (world c) = Running"
    and st: "stack c = memOffset # dataOffset # len # zs" and d: "gas d = gas c"
    and exp: "ExpansionCosts (store (memory c)) memOffset len = (cost, off, z)"
    and data: "\<And>g m i. unat z < 9223372036854775808 \<Longrightarrow> grown_to (memory c) off z m i \<Longrightarrow>
      \<exists>bs. getData source dataOffset z = Ret bs \<and>
        k (view (d\<lparr>gas := g\<rparr>)) = ret () (view (c\<lparr>stack := zs, gas := g, memory := copy_slice (i, unat z) bs m\<rparr>))"
  shows "conf_run (genericDataCopy source c) (spendGas (cost + wordCost 3 z) k (view d))"
proof (simp add: genericDataCopy_def st flip: wordCost_def, 
    rule conf_words_slice [where off = off and offset = memOffset and
      f = "\<lambda>sl c. case getData source dataOffset (Uint64 len) of Panic \<Rightarrow> fail GoPanic c
        | Ret dataCopy \<Rightarrow> ret () (c\<lparr>memory := copy_slice sl dataCopy (memory c)\<rparr>)"], goal_cases)
  case (7 g m i)
  then have "unat z < 9223372036854775808" "grown_to (memory c) off z m i" using grown_bound by fastforce+
  then show ?case using data [of m i g] 7(2) run by auto
qed (use wf g exp d in auto)

section \<open>Two slices\<close>

lemma conforms_three:
  assumes "table op 3 0 costs" and "dispatch (ct_env U K) op = cont f"
    and step: "\<And>s c v w x zs. ready K op s c \<Longrightarrow> stack c = v # w # x # zs \<Longrightarrow> \<forall>d \<in> set conds. holds d s \<Longrightarrow>
      conf_run (f c) (effect (view c))"
  shows "conforms U K (rulesFor \<lparr>in_op = op, in_staticGas = costs, in_pops = 3, in_pushes = 0,
    in_conditions = conds, in_effect = effect\<rparr>)"
proof (rule conforms_table [where f = f], goal_cases)
  case (3 s c)
  then have "ready K op s c" "3 \<le> length (stack c)" by auto
  then show ?case using 3(4) by (auto simp: stack_simps intro!: step)
qed (use assms in simp_all)

lemma length_grown_eq: "length (grown n m) = max (length m) (32 * ((n + 31) div 32))"
  by (simp add: grown_def)

lemma ceil_le: "n \<le> 32 * k \<Longrightarrow> (n + 31) div 32 \<le> (k :: nat)"
  by linarith

lemma growth_cost_twice:
  assumes "length w mod 32 = 0" and "length (grown n w) \<le> maxMemoryExpansionSize"
  shows "growth_cost k (grown n w) =
    (if growth_cost k w = MaxInt64 then MaxInt64 else max (growth_cost n w) (growth_cost k w) - growth_cost n w)"
proof (cases "n \<le> length w")
  case True
  then show ?thesis using assms growth_cost_nonneg [of k w] by (simp add: grown_small growth_cost_def [of n])
next
  case False
  let ?W = "(n + 31) div 32"
  have "length w \<le> 32 * ?W" using False by linarith
  then have len: "length (grown n w) = 32 * ?W" by (simp add: length_grown_eq)
  then have n: "growth_cost n w = mem_cost ?W - mem_cost (length w div 32)" "n \<le> 32 * ?W" "32 * ?W \<le> maxMemoryExpansionSize"
    using False assms(2) by (auto simp: growth_cost_def)
  have W: "?W \<le> 4294967295" using n(3) by simp
  have lw: "length w div 32 \<le> ?W" using False by (intro div_le_mono) simp
  show ?thesis
  proof (cases "k \<le> 32 * ?W")
    case True
    then have k: "(k + 31) div 32 \<le> ?W" by (rule ceil_le)
    have "growth_cost k w \<le> growth_cost n w" "growth_cost k w \<noteq> MaxInt64"
    proof -
      show le: "growth_cost k w \<le> growth_cost n w"
        using True n mem_cost_mono [OF k] mem_cost_mono [OF lw] by (auto simp: growth_cost_def [of k])
      have "growth_cost n w < MaxInt64"
        using mem_cost_bound [OF W] mem_cost_nonneg [of "length w div 32"] n(1) by linarith
      with le show "growth_cost k w \<noteq> MaxInt64" by simp
    qed
    then show ?thesis using True by (simp add: growth_cost_def [of k "grown n w"] len)
  next
    case big: False
    have lk: "\<not> k \<le> length w" using big False by linarith
    show ?thesis
    proof (cases "k \<le> maxMemoryExpansionSize")
      case True
      have kW: "?W \<le> (k + 31) div 32" using big by (intro div_le_mono) simp
      have "(k + 31) div 32 \<le> 4294967295" using True by simp
      from mem_cost_bound [OF this] have "mem_cost ((k + 31) div 32) - mem_cost (length w div 32) < MaxInt64"
        using mem_cost_nonneg [of "length w div 32"] by linarith
      then have "growth_cost k w \<noteq> MaxInt64" using True lk by (simp add: growth_cost_def)
      then show ?thesis using True lk big n mem_cost_mono [OF kW]
        by (simp add: growth_cost_def [of k] len)
    qed (use lk big in \<open>simp add: growth_cost_def [of k] len\<close>)
  qed
qed

lemma grown_to_store:
  assumes "mem_wf w" and "grown_to w off z m i" and "z \<noteq> 0"
  shows "store m = grown (unat off + unat z) (store w)"
proof -
  have "\<not> 18446744073709551616 \<le> unat off + unat z" "unat off + unat z \<le> maxMemoryExpansionSize"
    "Mem_Grow off z (store w) = Ret (store m)"
    using assms by (auto simp: grown_to_def mem_wf_def)
  then show ?thesis using Mem_Grow_eq [of "store w" off z] assms by (simp add: mem_wf_def)
qed

lemma ExpansionCosts_twice:
  assumes wf: "mem_wf w" and e: "ExpansionCosts (store w) o1 s1 = (c1, off1, z1)" "c1 < MaxInt64"
    and grow: "grown_to w off1 z1 m i" and e2: "ExpansionCosts (store w) o2 s2 = (c2, off2, z2)"
  shows "ExpansionCosts (store m) o2 s2 = (if c2 = MaxInt64 then MaxInt64 else max c1 c2 - c1, off2, z2)"
proof (cases "z1 = 0")
  case True
  then have "m = w" "c1 = 0"
    using grow e by (auto simp: grown_to_def ExpansionCosts_def Let_def Uint64_def IsUint64_def split: if_splits)
  then show ?thesis using e2 ExpansionCosts_bounds [OF wf e2] by auto
next
  case False
  have wfm: "mem_wf m" using grow by (simp add: grown_to_def)
  have u: "IsUint64 o1" "IsUint64 s1" "s1 \<noteq> 0"
    using False e by (auto simp: ExpansionCosts_def Let_def Uint64_def IsUint64_def split: if_splits)
  have l: "length (store w) mod 32 = 0" "length (store w) \<le> maxMemoryExpansionSize"
    "length (store m) mod 32 = 0" "length (store m) \<le> maxMemoryExpansionSize"
    using wf wfm by (auto simp: mem_wf_def)
  have c1: "c1 = growth_cost (unat o1 + unat s1) (store w)" "off1 = Uint64 o1" "z1 = Uint64 s1"
    using e ExpansionCosts_eq [OF l(1,2) u] by (auto split: if_splits)
  have m: "store m = grown (unat o1 + unat s1) (store w)"
    using grown_to_store [OF wf grow False] u by (simp add: c1 unat_Uint64)
  show ?thesis
  proof (cases "IsUint64 o2 \<and> IsUint64 s2 \<and> s2 \<noteq> 0")
    case True
    then show ?thesis
      using e2 ExpansionCosts_eq [OF l(1,2), of o2 s2] ExpansionCosts_eq [OF l(3,4), of o2 s2]
        growth_cost_twice [OF l(1), of "unat o1 + unat s1" "unat o2 + unat s2"] l(4)
      by (cases "18446744073709551616 \<le> unat o2 + unat s2") (auto simp: m c1)
  next
    case False
    have "0 \<le> c1" using ExpansionCosts_bounds [OF wf e(1)] by simp
    with False show ?thesis using e2 by (auto simp: ExpansionCosts_def Let_def Uint64_def IsUint64_def split: if_splits)
  qed
qed

lemma mem_set_sized:
  assumes "IsUint64 sz" and "length v = unat sz"
  shows "mem_set off v c = bind (getSlice off sz c) (\<lambda>sl c. ret () (c\<lparr>memory := copy_slice sl v (memory c)\<rparr>))"
proof -
  have "SetUint64 (word_of_nat (length v)) = sz"
    using assms by (simp add: SetUint64_Uint64 flip: unat_Uint64)
  then show ?thesis by (simp add: mem_set_def)
qed

text \<open>
  A copy within the memory: the second slice is taken from the memory as the first one has
  left it, and the price of both is the maximum of the two expansions.
\<close>

lemma conf_mcopy:
  assumes wf: "mem_wf (memory c)" and g: "0 \<le> gas c" "gas c < MaxInt64" and run: "st_Status (world c) = Running"
    and src: "ExpansionCosts (store (memory c)) srcAddr sz = (c1, off1, z)"
    and dest: "ExpansionCosts (store (memory c)) destAddr sz = (c2, off2, z2)"
  shows "conf_run (bind (getSlice srcAddr sz c) (\<lambda>sl c.
        bind (useGas (wordCost 3 (Uint64 sz)) c) (\<lambda>_ c'. mem_set destAddr (slice_bytes (memory c) sl) c')))
      (spendGas (max c1 c2 + wordCost 3 z) (\<lambda>s.
        bind (Memory_Read off1 z s) (\<lambda>v s. Memory_Write v off2 s)) (view c))"
proof -
  have w: "0 \<le> wordCost 3 z" using wordCost_nonneg [of 3 z] by simp
  let ?k = "\<lambda>s. bind (Memory_Read off1 z s) (\<lambda>v s. Memory_Write v off2 s)"
  have "conf_run (bind (getSlice srcAddr sz c) (\<lambda>sl c.
        bind (useGas (wordCost 3 (Uint64 sz)) c) (\<lambda>_ c'. mem_set destAddr (slice_bytes (memory c) sl) c')))
      (spendGas (c1 + (max c1 c2 - c1 + wordCost 3 z)) ?k (view c))"
  proof (rule conf_getSlice [OF wf g _ refl src], goal_cases)
    case (2 m i)
    let ?bs = "slice_bytes m (i, unat z)"
    have bs: "length ?bs = unat z" using 2(5) by (auto simp: grown_to_def slice_bytes_def split: if_splits)
    have e: "ExpansionCosts (store m) destAddr sz = (if c2 = MaxInt64 then MaxInt64 else max c1 c2 - c1, off2, z2)"
      using ExpansionCosts_twice [OF wf src _ 2(5) dest] 2(2) g by simp
    let ?c = "c\<lparr>gas := gas c - c1, memory := m\<rparr>"
    from bs have set: "mem_set destAddr ?bs d = bind (getSlice destAddr sz d) (\<lambda>sl c. ret () (c\<lparr>memory := copy_slice sl ?bs (memory c)\<rparr>))"
      for d :: "State sfvm_context" using 2(3,4) by (intro mem_set_sized) (simp_all add: unat_Uint64)
    let ?step = "bind (useGas (wordCost 3 (Uint64 sz)) ?c) (\<lambda>_ c'. mem_set destAddr ?bs c')"
    have step: "conf_run ?step (spendGas ((if c2 = MaxInt64 then MaxInt64 else max c1 c2 - c1) + wordCost 3 z2) ?k
        (view (c\<lparr>gas := gas c - c1\<rparr>)))"
    proof (rule conf_words_slice [where off = off2 and offset = destAddr and
        f = "\<lambda>sl c. ret () (c\<lparr>memory := copy_slice sl ?bs (memory c)\<rparr>)"], goal_cases)
      case (7 g n j)
      then have "length ?bs = unat z2" using bs 2(4) by simp
      then show ?case using 2(5) 7 run by (simp add: grown_simps)
    qed (use 2(1,2,5) g e set in \<open>auto simp: grown_to_def\<close>)
    show ?case
    proof (cases "c2 = MaxInt64")
      case True
      then have "fails ?step" using step wordCost_nonneg [of 3 z2] g 2(1) by (simp add: spendGas_view conf_run_Failed)
      then show ?thesis using True 2 g w by (simp add: spendGas_view conf_run_Failed max_def)
    next
      case False
      then have "z2 = z" using ExpansionCosts_paid [OF dest] ExpansionCosts_bounds [OF wf dest] 2(4) by simp
      then show ?thesis using step False by simp
    qed
  qed (use w in simp)
  then show ?thesis by simp
qed

lemma conforms_mcopy: "conforms U K mcopyRules"
  unfolding mcopyRules_def conforms_append
proof (rule conjI, goal_cases)
  case 1
  show ?case
  proof (rule conforms_three [where f = opMcopy], goal_cases)
    case (3 s c destAddr srcAddr sz zs)
    note r = ready_gas [OF 3(1)]
    have rv: "isAtLeast c R13_Cancun" using 3(3) ready_isAtLeast [OF 3(1)] by (auto simp: RevisionBounds_def)
    obtain c1 off1 z where e: "ExpansionCosts (store (memory c)) srcAddr sz = (c1, off1, z)" by (metis prod_cases3)
    obtain c2 off2 z2 where e2: "ExpansionCosts (store (memory c)) destAddr sz = (c2, off2, z2)" by (metis prod_cases3)
    have sum: "spendSum [max c1 c2, wordCost 3 z] k (view (c\<lparr>stack := zs\<rparr>)) =
        spendGas (max c1 c2 + wordCost 3 z) k (view (c\<lparr>stack := zs\<rparr>))" for k
      using spendSum_eq [of "[max c1 c2, wordCost 3 z]" "view (c\<lparr>stack := zs\<rparr>)" k] r(3)
        ExpansionCosts_bounds [OF r(1) e] ExpansionCosts_bounds [OF r(1) e2] wordCost_nonneg [of 3 z] by auto
    show ?case
      using conf_mcopy [of "c\<lparr>stack := zs\<rparr>" srcAddr sz c1 off1 z destAddr c2 off2 z2] r e e2 rv
      by (simp add: opMcopy_def 3(2) view_pop sum Let_def flip: wordCost_def)
  qed (use table_memory dispatch_memory in auto)
next
  case 2
  show ?case
    by (rule conforms_invalidRevision [where f = opMcopy]) (simp_all add: dispatch_memory opMcopy_def ready_isAtLeast rev_cmp)
qed

end
