(* ===== verification/Ct_Conform_Data.thy ===== *)
theory Ct_Conform_Data
  imports Ct_Conform_Copy
begin

text \<open>
  Conformance of the instructions that copy or load code, call data and return data.
\<close>

section \<open>Copies\<close>

lemma ready_lengths:
  assumes "ready K op s c"
  shows "length (cd_code (st_Code s)) \<le> 24576" "length (st_CallData s) < 9223372036854775808"
    "length (st_LastCallReturnData s) < 9223372036854775808"
    "length (Accounts_GetCode (st_Accounts s) a) < 9223372036854775808"
proof -
  have "ct_wf s" using assms by (auto simp: ready_def at_op_def test_state_def)
  then show "length (cd_code (st_Code s)) \<le> 24576" "length (st_CallData s) < 9223372036854775808"
    "length (st_LastCallReturnData s) < 9223372036854775808"
    "length (Accounts_GetCode (st_Accounts s) a) < 9223372036854775808"
    using NewCode_marks(1) by (auto simp: ct_wf_def)
qed

lemma spendSum2:
  assumes "mem_wf m" and "ExpansionCosts (store m) offset sz = (cost, off, z)" and "gas c < MaxInt64"
  shows "spendSum [cost, wordCost 3 z] k (view c) = spendGas (cost + wordCost 3 z) k (view c)"
  using spendSum_eq [of "[cost, wordCost 3 z]" "view c" k] ExpansionCosts_bounds [OF assms(1,2)]
    wordCost_nonneg [of 3 z] assms(3) by simp

context uint256_arith
begin

lemma write_data:
  assumes "length src < 9223372036854775808" and "unat z < 9223372036854775808" and "grown_to (memory d) off z m i"
  shows "\<exists>bs. getData src offset z = Ret bs \<and>
    bind (lift_go (Bytes_Get src (if u_Gt U offset (NewU256 (word_of_nat (length src))) then word_of_nat (length src) else Uint64 offset)
        (min ((if u_Gt U offset (NewU256 (word_of_nat (length src))) then word_of_nat (length src) else Uint64 offset) + z)
          (word_of_nat (length src)))) (view d))
      (\<lambda>bs. Memory_Write (ct_RightPadSlice bs (unat z)) off) = ret () (view (d\<lparr>memory := copy_slice (i, unat z) bs m\<rparr>))"
  by (rule ct_getData [OF assms(1,2), of offset]) (auto simp: lift_go_def Memory_Write_grown [OF assms(3)])

lemma conforms_codecopy:
  "conforms U K (rulesFor \<lparr>in_op = CODECOPY, in_staticGas = 3, in_pops = 3, in_pushes = 0, in_conditions = [],
     in_effect = codecopyEffect U\<rparr>)"
proof (rule conforms_three [where f = "\<lambda>c. genericDataCopy (Code (params c)) c"], goal_cases)
  case (3 s c memOffset dataOffset len zs)
  note r = ready_gas [OF 3(1)] ready_simps(1,2) [OF 3(1)]
  obtain cost off z where exp: "ExpansionCosts (store (memory c)) memOffset len = (cost, off, z)" by (metis prod_cases3)
  have len: "length (cd_code (st_Code s)) < 9223372036854775808" using ready_lengths [OF 3(1)] by simp
  show ?case
  proof (simp add: codecopyEffect_def 3(2) view_pop exp spendSum2 [OF r(1) exp] r, 
    rule conf_genericDataCopy [where off = off and z = z and zs = zs and dataOffset = dataOffset], goal_cases)
    case (8 g m i)
    then show ?case using write_data [OF len, of z "c\<lparr>stack := zs, gas := g\<rparr>" off m i dataOffset] r
      by (simp add: Code_Length_def Let_def)
  qed (use r exp 3(2) in auto)
qed (use table_memory dispatch_memory in auto)

lemma conforms_calldatacopy:
  "conforms U K (rulesFor \<lparr>in_op = CALLDATACOPY, in_staticGas = 3, in_pops = 3, in_pushes = 0, in_conditions = [],
     in_effect = calldatacopyEffect U\<rparr>)"
proof (rule conforms_three [where f = "\<lambda>c. genericDataCopy (Input (params c)) c"], goal_cases)
  case (3 s c memOffset dataOffset len zs)
  note r = ready_gas [OF 3(1)] ready_simps(1,2) [OF 3(1)]
  obtain cost off z where exp: "ExpansionCosts (store (memory c)) memOffset len = (cost, off, z)" by (metis prod_cases3)
  have len: "length (st_CallData s) < 9223372036854775808" using ready_lengths [OF 3(1)] by simp
  show ?case
  proof (simp add: calldatacopyEffect_def 3(2) view_pop exp spendSum2 [OF r(1) exp] r, 
    rule conf_genericDataCopy [where off = off and z = z and zs = zs and dataOffset = dataOffset], goal_cases)
    case (8 g m i)
    then show ?case using write_data [OF len, of z "c\<lparr>stack := zs, gas := g\<rparr>" off m i dataOffset] r
      by (simp add: Let_def)
  qed (use r exp 3(2) in auto)
qed (use table_memory dispatch_memory in auto)

lemma conforms_calldataload:
  "conforms U K (rulesFor \<lparr>in_op = CALLDATALOAD, in_staticGas = 3, in_pops = 1, in_pushes = 1, in_conditions = [],
     in_effect = calldataloadEffect\<rparr>)"
proof (rule conforms_one [where f = opCallDataload], goal_cases)
  case (4 s c offset zs)
  note r = ready_gas [OF 4(1)] ready_simps(1,2) [OF 4(1)]
  have len: "length (st_CallData s) < 9223372036854775808" using ready_lengths [OF 4(1)] by simp
  let ?len = "word_of_nat (length (st_CallData s)) :: u64"
  have l: "unat ?len = length (st_CallData s)" using len by (simp add: unat_of_nat)
  show ?case
  proof (cases "IsUint64 offset")
    case True
    have "(if u_Gt U offset (NewU256 ?len) then ?len else Uint64 offset) = min (Uint64 offset) ?len"
      using True by (auto simp: Gt NewU256_def word_less_nat_alt min_def word_le_nat_alt l unat_Uint64)
    then obtain bs where "Bytes_Get (st_CallData s) (min (Uint64 offset) ?len) (min (min (Uint64 offset) ?len + 32) ?len) = Ret bs"
      "getData (st_CallData s) offset 32 = Ret (ct_RightPadSlice bs 32)"
      using ct_getData [OF len, of 32 offset] by auto
    then show ?thesis using r True
      by (simp add: opCallDataload_def calldataloadEffect_def 4(2) view_simps lift_go_def NewU256FromBytes_def Let_def)
  next
    case False
    then have "getData (st_CallData s) offset 32 = Ret (replicate 32 0)" by (simp add: getData_def)
    moreover have "(of_be_bytes (replicate 32 0) :: u256) = 0" by (simp add: of_be_bytes_def)
    ultimately show ?thesis using r False
      by (simp add: opCallDataload_def calldataloadEffect_def 4(2) view_simps NewU256_def SetUint64_def Let_def)
  qed
qed (use table_env dispatch_env in auto)

lemma conf_extcodecopy:
  assumes r: "ready K EXTCODECOPY s c" and st: "stack c = a # memOffset # dataOffset # len # zs"
    and cost: "acc = (if R09_Berlin \<le> st_Revision s then accessCost s (Bytes20 a) else 700)"
    and mark: "(if mw then on_accounts (Accounts_MarkWarm (Bytes20 a)) s else s) =
      (if R09_Berlin \<le> st_Revision s then on_accounts (Accounts_MarkWarm (Bytes20 a)) s else s)"
  shows "if st_Gas s < acc then fails (opExtCodeCopy (ct_env U K) c)
    else conf_run (opExtCodeCopy (ct_env U K) c) (extCodeCopyEffect U mw (view (c\<lparr>gas := st_Gas s - acc\<rparr>)))"
proof -
  note f = ready_gas [OF r] ready_simps(1) [OF r]
  let ?w = "if mw then on_accounts (Accounts_MarkWarm (Bytes20 a)) s else s"
  let ?cd = "Accounts_GetCode (st_Accounts s) (Bytes20 a)"
  let ?c = "c\<lparr>stack := memOffset # dataOffset # len # zs, world := ?w, gas := st_Gas s - acc\<rparr>"
  have g: "gas c = (if R09_Berlin \<le> st_Revision s then st_Gas s else st_Gas s - 700)"
    using ready_simps(4,14) [OF r] by (auto simp: table_simps)
  have acc: "0 \<le> acc" by (simp add: cost accessCost_def)
  have op: "opExtCodeCopy (ct_env U K) c =
    (if st_Gas s < acc then fail errOutOfGas (c\<lparr>stack := memOffset # dataOffset # len # zs, world := ?w\<rparr>)
     else genericDataCopy ?cd ?c)"
  proof (cases "R09_Berlin \<le> st_Revision s")
    case True
    then show ?thesis using f g acc cost ready_isAtLeast [OF r, of R09_Berlin] unfolding mark
      by (auto simp: opExtCodeCopy_def st useAccessGas_ct useGas_def isAtLeast_def Let_def)
  next
    case False
    then have "st_Gas s - acc = gas c" using g cost by simp
    then show ?thesis using False f ready_isAtLeast [OF r, of R09_Berlin] unfolding mark
      by (auto simp: opExtCodeCopy_def st isAtLeast_def Let_def)
  qed
  show ?thesis
  proof (cases "st_Gas s < acc")
    case False
    obtain e off z where exp: "ExpansionCosts (store (memory c)) memOffset len = (e, off, z)" by (metis prod_cases3)
    have max: "st_Gas s - acc < MaxInt64" using f(3) acc g cost by (auto simp: accessCost_def split: if_splits)
    have "conf_run (genericDataCopy ?cd ?c) (extCodeCopyEffect U mw (view (c\<lparr>gas := st_Gas s - acc\<rparr>)))"
    proof (simp add: extCodeCopyEffect_def st view_pop exp spendSum2 [OF f(1) exp] max NewAddress_def Let_def
          split del: if_split,
        rule conf_genericDataCopy [where off = off and z = z and zs = zs and dataOffset = dataOffset], goal_cases)
      case (8 g m i)
      then have "grown_to (memory (c\<lparr>stack := zs, gas := g\<rparr>)) off z m i" by simp
      from write_data [OF ready_lengths(4) [OF r] 8(1) this, of "Bytes20 a" dataOffset] f show ?case
        by (auto simp: Let_def view_updates simp flip: bind_assoc)
    qed (use f exp False max in auto)
    then show ?thesis using False by (simp add: op)
  qed (simp add: op)
qed

lemma conforms_extcodecopy: "conforms U K (extcodecopyRules U)"
proof -
  have "conforms U K (rulesFor \<lparr>in_op = EXTCODECOPY, in_staticGas = acc, in_pops = 4, in_pushes = 0,
      in_conditions = conds, in_effect = extCodeCopyEffect U mw\<rparr>)"
    if price: "\<And>s a. \<forall>d \<in> set conds. holds d s \<Longrightarrow> Param 0 s = Inr a \<Longrightarrow>
        acc = (if R09_Berlin \<le> st_Revision s then accessCost s (Bytes20 a) else 700)"
      and mark: "\<And>s a. \<forall>d \<in> set conds. holds d s \<Longrightarrow> Param 0 s = Inr a \<Longrightarrow>
        (if mw then on_accounts (Accounts_MarkWarm (Bytes20 a)) s else s) =
        (if R09_Berlin \<le> st_Revision s then on_accounts (Accounts_MarkWarm (Bytes20 a)) s else s)"
      and bounds: "\<And>s. at_op EXTCODECOPY s \<Longrightarrow> \<forall>d \<in> set conds. holds d s \<Longrightarrow> static_price (st_Revision s) EXTCODECOPY \<le> acc"
    for acc conds mw
  proof (rule conforms_dynamic [where f = "opExtCodeCopy (ct_env U K)"], goal_cases)
    case (4 s c)
    then obtain a x y v zs where st: "stack c = a # x # y # v # zs" by (auto simp: stack_simps)
    have p: "Param 0 s = Inr a" using ready_Param [of K EXTCODECOPY s c 0] 4(1) st by simp
    show ?case using conf_extcodecopy [OF _ st price [OF _ p] mark [OF _ p]] 4 by simp
  qed (use bounds in \<open>auto simp: usage_ok_def table_simps dispatch_account\<close>)
  note rule = this
  show ?thesis
    unfolding extcodecopyRules_def Let_def conforms_append instruction.simps
    by (intro conjI; rule rule) (auto simp: holds_Warm accessCost_def table_simps rev_cmp)
qed

end

section \<open>Return data\<close>

lemma sumWithOverflow_u64_2: "sumWithOverflow_u64 [a, b] = (if a + b < a then (0, True) else (a + b, False))"
  by (simp add: sumWithOverflow_u64_def Let_def)

lemma conforms_returndatacopy:
  "conforms U K (rulesFor \<lparr>in_op = RETURNDATACOPY, in_staticGas = 3, in_pops = 3, in_pushes = 0, in_conditions = [],
     in_effect = returndatacopyEffect\<rparr>)"
proof (rule conforms_three [where f = opReturnDataCopy], goal_cases)
  case (3 s c memOffset dataOffset len zs)
  note r = ready_gas [OF 3(1)] ready_simps(1,2) [OF 3(1)]
  let ?stop = "Uint64 dataOffset + Uint64 len"
  have "0 \<le> wordCost 3 (Uint64 len)" using wordCost_nonneg [of 3 "Uint64 len"] by simp
  show ?case
  proof (cases "IsUint64 dataOffset \<and> IsUint64 len \<and> \<not> ?stop < Uint64 dataOffset \<and> unat ?stop \<le> length (returnData c)")
    case False
    then have "fails (opReturnDataCopy c)"
      by (auto simp: opReturnDataCopy_def 3(2) useGas_def Let_def)
    then show ?thesis using False
      by (auto simp: returndatacopyEffect_def 3(2) view_pop sumWithOverflow_u64_2 conf_run_Failed Let_def)
  next
    case True
    obtain cost off z where exp: "ExpansionCosts (store (memory c)) memOffset len = (cost, off, z)" by (metis prod_cases3)
    let ?data = "take (unat ?stop - unat (Uint64 dataOffset)) (drop (unat (Uint64 dataOffset)) (returnData c))"
    have sum: "unat ?stop = unat (Uint64 dataOffset) + unat (Uint64 len)"
      using True unat_add_cases(1,2) [of "Uint64 dataOffset" "Uint64 len"] by blast
    have ge: "\<not> length (returnData c) < unat ?stop" using True by simp
    from sum have l: "length ?data = unat len" using True by (auto simp: unat_Uint64)
    show ?thesis
    proof (simp add: opReturnDataCopy_def returndatacopyEffect_def 3(2) view_pop sumWithOverflow_u64_2 True ge exp
        spendSum2 [OF r(1) exp] r(2,3) Let_def flip: wordCost_def, rule conf_words_slice [where off = off and
          offset = memOffset and f = "\<lambda>sl c. ret () (c\<lparr>memory := copy_slice sl ?data (memory c)\<rparr>)"], goal_cases)
      case (6 g)
      then show ?case using True l by (simp add: mem_set_sized del: length_take)
    next
      case (7 g m i)
      then show ?case using True l r by (simp add: grown_simps lift_go_def Bytes_Get_def unat_Uint64)
    qed (use r exp in auto)
  qed
qed (use table_memory dispatch_memory in auto)

end
