(* ===== verification/Ct_Conform_End.thy ===== *)
theory Ct_Conform_End
  imports Ct_Conform_Data
begin

text \<open>
  Conformance of the logs and of the instructions that end a run: \<open>RETURN\<close>, \<open>REVERT\<close> and
  \<open>SELFDESTRUCT\<close>.
\<close>

section \<open>Logs\<close>

lemma popTopics_run:
  "stack c = ts @ zs \<Longrightarrow> popTopics (length ts) c = ret ts (c\<lparr>stack := zs\<rparr>)"
  "stack c = ts @ zs \<Longrightarrow> popTopicsCt (length ts) (view c) = ret ts (view (c\<lparr>stack := zs\<rparr>))"
  by (induction ts arbitrary: c) (simp_all add: view_pop)

lemma log_table:
  assumes "n \<le> 4"
  shows "table (LOG0 + n) (2 + n) 0 (375 + 375 * int n)" "dispatch E (LOG0 + n) = cont (opLog E n)"
proof -
  from assms have n: "n = 0 \<or> n = 1 \<or> n = 2 \<or> n = 3 \<or> n = 4" by linarith
  then show "table (LOG0 + n) (2 + n) 0 (375 + 375 * int n)"
    by (elim disjE) (simp_all add: table_def table_simps)
  from n show "dispatch E (LOG0 + n) = cont (opLog E n)"
    by (elim disjE) (simp_all add: dispatch_simps)
qed

lemma conf_log:
  assumes r: "ready K op s c" and ro: "\<not> st_ReadOnly s" and st: "stack c = offset # sz # ts @ zs"
    and exp: "ExpansionCosts (store (memory c)) offset sz = (cost, off, z)"
  shows "conf_run (opLog (ct_env U K) (length ts) c)
    (spendGas cost (spendGas (int64 (uint (8 * z))) (\<lambda>s. bind (Memory_Read off z s) (\<lambda>bs s.
       ret () (s\<lparr>st_Logs := AddLog bs ts (st_Logs s)\<rparr>)))) (view (c\<lparr>stack := zs\<rparr>)))"
proof -
  note f = ready_gas [OF r] ready_simps(1,2) [OF r]
  show ?thesis
  proof (simp add: opLog_def st popTopics_run f ro, rule conf_getSlice0 [where off = off and z = z], goal_cases)
    case (6 m i)
    then have z: "z = Uint64 sz" and "unat z \<le> maxMemoryExpansionSize" and gr: "grown_to (memory c) off z m i"
      using grown_bound by fastforce+
    then have "unat (8 * z) \<le> 8 * maxMemoryExpansionSize" by (simp add: unat_word_ariths)
    then have "uint (8 * z) \<le> 1099511627520" by (simp add: uint_nat del: of_nat_unat)
    moreover have "0 \<le> uint (8 * z)" by simp
    ultimately have "0 \<le> int64 (uint (8 * z))" by (subst int64_id) linarith+
    then show ?case unfolding z [symmetric]
    proof (intro conf_useGas0, goal_cases)
      case 4
      then show ?case using f gr by (simp add: grown_simps view_simps)
    qed (use f 6 in auto)
  qed (use f exp in auto)
qed

lemma conforms_log:
  assumes n: "n \<le> 4"
  shows "conforms U K (logOp n)"
  unfolding logOp_def Let_def conforms_append instruction.simps
proof (intro conjI conforms_table [where f = "opLog (ct_env U K) n"], goal_cases)
  case (3 s c)
  then have r: "ready K (LOG0 + n) s c" and ro: "\<not> st_ReadOnly s" and l: "2 + n \<le> length (stack c)"
    by (auto simp: Eq_def ReadOnly_def)
  from l obtain offset sz rest where st: "stack c = offset # sz # rest" "n \<le> length rest"
    by (cases "stack c" rule: remdups_adj.cases) auto
  then have st: "stack c = offset # sz # take n rest @ drop n rest" "length (take n rest) = n" by auto
  obtain cost off z where exp: "ExpansionCosts (store (memory c)) offset sz = (cost, off, z)" by (metis prod_cases3)
  from conf_log [OF r ro st(1) exp] st(2) popTopics_run(2) [of "c\<lparr>stack := take n rest @ drop n rest\<rparr>" "take n rest" "drop n rest"]
  show ?case by (simp add: view_pop st(1) exp)
next
  case (6 s c)
  then show ?case by (auto simp: Eq_def ReadOnly_def opLog_def ready_simps conf_run_FailEffect)
qed (use n log_table in auto)

section \<open>Ends with a result\<close>

lemma conforms_ends:
  assumes "table (in_op i) (in_pops i) (in_pushes i) (in_staticGas i)"
    and step: "\<And>s c. ready K (in_op i) s c \<Longrightarrow> in_pops i \<le> length (stack c) \<Longrightarrow>
        \<forall>d \<in> set (in_conditions i). holds d s \<Longrightarrow> conf (dispatch (ct_env U K) (in_op i) c) (in_effect i (view c))"
  shows "conforms U K (rulesFor i)"
proof (rule conforms_rulesFor)
  fix s c assume a: "ready K (in_op i) s c" "in_pops i \<le> length (stack c)" "\<forall>d \<in> set (in_conditions i). holds d s"
  then have "in_staticGas i \<le> st_Gas s" using assms(1) by (auto simp: ready_def table_def)
  then show "(st_Gas s < in_staticGas i \<longrightarrow> fails (dispatch (ct_env U K) (in_op i) c)) \<and>
      (in_staticGas i \<le> st_Gas s \<longrightarrow> conf (dispatch (ct_env U K) (in_op i) c)
         (in_effect i (s\<lparr>st_Gas := st_Gas s - in_staticGas i, st_Pc := st_Pc s + 1\<rparr>)))"
    using step [OF a] ready_view [OF a(1)] assms(1) by (auto simp: table_def)
qed (use assms(1) in \<open>auto simp: usage_ok_def table_def\<close>)

lemma conf_end_simps [simp]:
  "conf (ret st c) (ret u t) \<longleftrightarrow> State_Eq (update_state st (c\<lparr>pc := int32 (pc c + 1)\<rparr>)) t"
  "conf (fail x c) (ret u t) \<longleftrightarrow> x \<noteq> GoPanic \<and> st_Status t = Failed"
  by (simp_all add: conf_def ret_def fail_def)

lemma conf_end:
  assumes wf: "mem_wf (memory c)" and g: "0 \<le> gas c" "gas c < MaxInt64"
    and st: "stack c = offset # sz # zs" and status: "st = statusReturned \<or> st = statusReverted"
  shows "conf (finish st opEndWithResult c) (returnEffect (convertSfvmStatusToCtStatus st) (view c))"
proof -
  obtain cost off z where exp: "ExpansionCosts (store (memory c)) offset sz = (cost, off, z)" by (metis prod_cases3)
  have c: "mem_wf (memory (c\<lparr>stack := zs\<rparr>))" "0 \<le> gas (c\<lparr>stack := zs\<rparr>)" "gas (c\<lparr>stack := zs\<rparr>) < MaxInt64"
    "ExpansionCosts (store (memory (c\<lparr>stack := zs\<rparr>))) offset sz = (cost, off, z)"
    using wf g exp by simp_all
  show ?thesis
  proof (cases rule: memory_step [OF c])
    case (1 e)
    then show ?thesis
      by (simp add: finish_def opEndWithResult_def st returnEffect_def view_pop exp spendGas_view)
  next
    case (2 m i)
    then have "grown_to (memory c) off z m i" by (auto simp: grown_to_def)
    with 2(1,3) show ?thesis using status
      by (auto simp: finish_def opEndWithResult_def st returnEffect_def view_pop exp spendGas_view
          grown_simps State_Eq_def update_state_def Let_def convertSfvmStatusToCtStatus_def)
  qed
qed

lemma table_end: "table RETURN 2 0 0" "table REVERT 2 0 0"
  by (simp_all add: table_def table_simps)

lemma conforms_end:
  "conforms U K (rulesFor \<lparr>in_op = RETURN, in_staticGas = 0, in_pops = 2, in_pushes = 0, in_conditions = [],
     in_effect = returnEffect Stopped\<rparr>)"
  "conforms U K (rulesFor \<lparr>in_op = REVERT, in_staticGas = 0, in_pops = 2, in_pushes = 0, in_conditions = [],
     in_effect = returnEffect Reverted\<rparr>)"
proof -
  have E: "conf (finish st opEndWithResult c) (returnEffect (convertSfvmStatusToCtStatus st) (view c))"
    if "ready K op s c" "2 \<le> length (stack c)" "st = statusReturned \<or> st = statusReverted" for op s c st
    using that ready_gas [OF that(1)] by (auto simp: stack_simps intro!: conf_end)
  show "conforms U K (rulesFor \<lparr>in_op = RETURN, in_staticGas = 0, in_pops = 2, in_pushes = 0, in_conditions = [],
     in_effect = returnEffect Stopped\<rparr>)"
    using E [of RETURN _ _ statusReturned] by (intro conforms_ends) (auto simp: table_end dispatch_simps convertSfvmStatusToCtStatus_def)
  show "conforms U K (rulesFor \<lparr>in_op = REVERT, in_staticGas = 0, in_pops = 2, in_pushes = 0, in_conditions = [],
     in_effect = returnEffect Reverted\<rparr>)"
    using E [of REVERT _ _ statusReverted] by (intro conforms_ends) (auto simp: table_end dispatch_simps convertSfvmStatusToCtStatus_def)
qed

section \<open>Self-destruction\<close>

lemma table_selfdestruct: "table SELFDESTRUCT 1 0 5000" "dispatch E SELFDESTRUCT = opSelfdestruct E"
  by (simp_all add: table_def table_simps dispatch_simps)

lemma berlin_iff: "R07_Istanbul < rv \<longleftrightarrow> R09_Berlin \<le> rv"
  by (cases rv) auto

lemma ct_SelfDestruct_eq:
  "ct_SelfDestruct a b s =
    (if st_Revision s < R13_Cancun \<or> st_IsNewContract s
     then (\<not> st_HasSelfDestructed s, s\<lparr>st_HasSelfDestructed := True,
       st_SelfDestructedJournal := st_SelfDestructedJournal s @ [(a, b)]\<rparr>)
     else (False, s))"
proof -
  have "s\<lparr>st_SelfDestructedJournal := j\<rparr> = s\<lparr>st_HasSelfDestructed := True, st_SelfDestructedJournal := j\<rparr>"
    if "st_HasSelfDestructed s" for j using that by (intro State.equality) simp_all
  then show ?thesis by (simp add: ct_SelfDestruct_def Let_def)
qed

definition accessed :: "Address \<Rightarrow> State \<Rightarrow> State" where
  "accessed a s = (if R09_Berlin \<le> st_Revision s then on_accounts (Accounts_MarkWarm a) s else s)"

lemma accessed_fields [simp]:
  "st_Status (accessed a s) = st_Status s" "st_Revision (accessed a s) = st_Revision s"
  "st_IsNewContract (accessed a s) = st_IsNewContract s" "st_HasSelfDestructed (accessed a s) = st_HasSelfDestructed s"
  "st_SelfDestructedJournal (accessed a s) = st_SelfDestructedJournal s"
  "st_CallContext (accessed a s) = st_CallContext s" "st_ReadOnly (accessed a s) = st_ReadOnly s"
  by (simp_all add: accessed_def on_accounts_def)

lemma conf_selfdestruct:
  assumes r: "ready K SELFDESTRUCT s c" and ro: "\<not> st_ReadOnly s" and st: "stack c = b # zs"
  shows "conf (opSelfdestruct (ct_env U K) c) (selfDestructEffect (view c))"
proof -
  note f = ready_gas [OF r] ready_simps(1,2) [OF r] ready_isAtLeast [OF r, of R09_Berlin]
  let ?b = "Bytes20 b"
  let ?self = "cc_AccountAddress (st_CallContext s)"
  define cold where "cold = (if R09_Berlin \<le> st_Revision s \<and> \<not> Accounts_IsWarm (st_Accounts s) ?b then 2600 else 0 :: Gas)"
  define cost where "cost = cold +
    (if Accounts_GetBalance (st_Accounts s) ?self \<noteq> 0 \<and> Accounts_IsEmpty (st_Accounts s) ?b then 25000 else 0)"
  have pos: "0 \<le> cost" by (simp add: cost_def cold_def)
  have int: "opSelfdestruct (ct_env U K) c =
      (if gas c < cost then fail errOutOfGas (c\<lparr>stack := zs, world := accessed ?b s\<rparr>)
       else (let (d, w) = ct_SelfDestruct ?self ?b (accessed ?b s) in
         ret statusSelfDestructed (c\<lparr>stack := zs, gas := gas c - cost, world := w,
           refund := int64 (refund c + selfDestructRefund d (st_Revision s))\<rparr>)))"
    using f st ro pos
    by (cases "R09_Berlin \<le> st_Revision s"; cases "Accounts_IsWarm (st_Accounts s) ?b")
      (simp_all add: opSelfdestruct_def isAtLeast_def ct_AccessAccount_def isEmpty_ct getAccessCost_def
        selfDestructNewAccountCost_def useGas_def Let_def cost_def cold_def accessed_def)
  have spec: "selfDestructEffect (view c) =
      (if gas c < cost then ret () ((view (c\<lparr>stack := zs, world := accessed ?b s\<rparr>))\<lparr>st_Status := Failed\<rparr>)
       else (let (d, w) = ct_SelfDestruct ?self ?b (accessed ?b s) in
         ret () ((view (c\<lparr>stack := zs, gas := gas c - cost, world := w,
           refund := int64 (refund c + selfDestructRefund d (st_Revision s))\<rparr>))\<lparr>st_Status := Stopped\<rparr>)))"
  proof -
    have london: "st_Revision s < R10_London \<Longrightarrow> st_Revision s < R13_Cancun" by (cases "st_Revision s") auto
    have id: "c\<lparr>stack := zs, world := s\<rparr> = c\<lparr>stack := zs\<rparr>" by (simp flip: f(5))
    have charge: "(let (dynamicCost, t) = (if R07_Istanbul < st_Revision s \<and> \<not> Accounts_IsWarm (st_Accounts s) ?b
          then (2600, on_accounts (Accounts_MarkWarm ?b) (view (c\<lparr>stack := zs\<rparr>))) else (0, view (c\<lparr>stack := zs\<rparr>)));
        dynamicCost = (if Accounts_GetBalance (st_Accounts s) ?self \<noteq> 0 \<and> Accounts_IsEmpty (st_Accounts t) ?b
          then dynamicCost + 25000 else dynamicCost) in spendGas dynamicCost k t) =
        spendGas cost k (view (c\<lparr>stack := zs, world := accessed ?b s\<rparr>))" for k
      using f by (cases "R09_Berlin \<le> st_Revision s"; cases "Accounts_IsWarm (st_Accounts s) ?b")
        (simp_all add: berlin_iff view_updates cost_def cold_def accessed_def id)
    show ?thesis
      using f st charge london
      by (simp add: selfDestructEffect_def view_pop Let_def [of "Bytes20 b"] spendGas_view ct_SelfDestruct_eq)
        (simp add: view_def Let_def selfDestructRefund_def)
  qed
  show ?thesis
    by (simp add: int spec State_Eq_def update_state_def Let_def convertSfvmStatusToCtStatus_def split: prod.splits)
qed

lemma conforms_selfdestruct: "conforms U K selfDestructRules"
proof -
  have "conforms U K (makeSelfDestructRules r a b d e n)" for r a b d e n
    unfolding makeSelfDestructRules_def
  proof (rule conforms_ends, goal_cases)
    case (2 s c)
    then have "ready K SELFDESTRUCT s c" "\<not> st_ReadOnly s" "1 \<le> length (stack c)" by (auto simp: Eq_def ReadOnly_def)
    then show ?case by (auto simp: stack_simps table_selfdestruct intro!: conf_selfdestruct)
  qed (use table_selfdestruct in simp)
  moreover have "conforms U K (rulesFor \<lparr>in_op = SELFDESTRUCT, in_staticGas = 5000, in_pops = 1, in_pushes = 0,
       in_conditions = [Eq ReadOnly True, AnyKnownRevision], in_effect = FailEffect\<rparr>)"
    by (rule conforms_ends) (use table_selfdestruct(1) in \<open>auto simp: table_selfdestruct(2) Eq_def ReadOnly_def opSelfdestruct_def ready_simps intro!: conf_FailEffect\<close>)
  ultimately show ?thesis by (simp add: selfDestructRules_def conforms_concat)
qed

end
