(* ===== verification/Ct_Conform_Create.thy ===== *)
theory Ct_Conform_Create
  imports Ct_Conform_End
begin

text \<open>
  Conformance of the creation of contracts.
\<close>

section \<open>Creation\<close>

lemma table_create:
  "table CREATE 3 1 32000" "table CREATE2 4 1 32000"
  "dispatch E CREATE = cont (genericCreate E Create)" "dispatch E CREATE2 = cont (genericCreate E Create2)"
  by (simp_all add: table_def table_simps dispatch_simps)

lemma sumWithOverflow2:
  assumes "0 \<le> x" "x \<le> MaxInt64" "0 \<le> y" "y \<le> MaxInt64"
  shows "sumWithOverflow [x, y] = (if x + y \<le> MaxInt64 then (x + y, False) else (0, True))"
  using assms sumWithOverflow_loop [of "[x, y]" 0] by (simp add: sumWithOverflow_def)

context uint256_arith
begin

lemma conf_createCall:
  assumes "st_Status (world c) = Running" and "Recipient (params c) = cc_AccountAddress (st_CallContext (world c))"
    and "input = slice_bytes (memory c) sl" and "length (stack c) < maxStackSize"
  shows "conf_run (forwardCreate (ct_env U K) kind v salt sl c) (createCall U kind v salt input (view c))"
proof -
  obtain r j where j: "CallJournal_Call kind
      \<lparr>cp_Sender = cc_AccountAddress (st_CallContext (world c)), cp_Recipient = 0, cp_Value = v, cp_Input = input,
       cp_Gas = gas c - go_quot (gas c) 64, cp_Salt = salt, cp_CodeAddress = 0\<rparr> (st_CallJournal (world c)) = (r, j)" by fastforce
  show ?thesis
    using assms j by (cases "v \<noteq> 0 \<and> Accounts_GetBalance (st_Accounts (world c)) (cc_AccountAddress (st_CallContext (world c))) < v")
      (auto simp: forwardCreate_def createCall_def Gt Lt view_updates ct_Call_def Let_def view_def
        AddressToU256_def SetBytes20_def Stack_Push_def)
qed

text \<open>The charges: the slice, the words of the initialisation code and those of the hash.\<close>

lemma conf_create:
  assumes r: "ready K op s c" and kind: "kind = Create \<or> kind = Create2" and ro: "\<not> st_ReadOnly s"
    and st: "stack c = v # offset # sz # (if kind = Create2 then salt # zs else zs)" "kind = Create \<Longrightarrow> salt = 0"
    and len: "length zs < maxStackSize"
  shows "conf_run (genericCreate (ct_env U K) kind c) (createEffect U kind (view c))"
proof -
  note f = ready_gas [OF r] ready_simps(1,2) [OF r] ready_isAtLeast [OF r, of R12_Shanghai]
  obtain cost off z where exp: "ExpansionCosts (store (memory c)) offset sz = (cost, off, z)" by (metis prod_cases3)
  define a where "a = (if R12_Shanghai \<le> st_Revision s then wordCost 2 z else 0)"
  define b where "b = (if kind = Create2 then wordCost 6 z else 0)"
  let ?big = "R12_Shanghai \<le> st_Revision s \<and> (\<not> IsUint64 sz \<or> 49152 < z)"
  have bounds: "0 \<le> cost" "cost \<le> MaxInt64" "0 \<le> a" "a \<le> MaxInt64" "0 \<le> b" "b \<le> MaxInt64"
    using ExpansionCosts_bounds [OF f(1) exp] wordCost_nonneg [of 2 z] wordCost_nonneg [of 6 z]
    by (auto simp: a_def b_def)
  have c: "mem_wf (memory (c\<lparr>stack := zs\<rparr>))" "0 \<le> gas (c\<lparr>stack := zs\<rparr>)" "gas (c\<lparr>stack := zs\<rparr>) < MaxInt64"
    "ExpansionCosts (store (memory (c\<lparr>stack := zs\<rparr>))) offset sz = (cost, off, z)"
    using f exp by simp_all
  have at: "R12_Shanghai \<le> revision (BlockParams (params c)) \<longleftrightarrow> R12_Shanghai \<le> st_Revision s"
    using f(7) by (simp add: isAtLeast_def)
  have int: "genericCreate (ct_env U K) kind c = bind (getSlice offset sz (c\<lparr>stack := zs\<rparr>)) (\<lambda>sl c.
        bind (if isAtLeast c R12_Shanghai then
                (case computeCodeSizeCost (Uint64 sz) of Inl e \<Rightarrow> fail e c | Inr initCodeCost \<Rightarrow> useGas initCodeCost c)
              else ret () c) (\<lambda>_ c.
        bind (if kind = Create2 then useGas (wordCost 6 (Uint64 sz)) c else ret () c) (\<lambda>_ c.
        forwardCreate (ct_env U K) kind v salt sl c)))"
    using f kind ro st by (auto simp: genericCreate_def wordCost_def)
  have spec: "createEffect U kind (view c) =
      (if ?big then ret () ((view (c\<lparr>stack := if kind = Create2 then salt # zs else zs\<rparr>))\<lparr>st_Status := Failed\<rparr>)
       else if MaxInt64 < cost + a
       then ret () ((view (c\<lparr>stack := if kind = Create2 then salt # zs else zs\<rparr>))\<lparr>st_Status := Failed\<rparr>)
       else if gas c < cost + a + b then ret () ((view (c\<lparr>stack := zs\<rparr>))\<lparr>st_Status := Failed\<rparr>)
       else bind (Memory_Read off z (view (c\<lparr>stack := zs, gas := gas c - (cost + a + b)\<rparr>))) (\<lambda>input s.
         createCall U kind v salt input s))"
    using f(3) bounds kind st wordCost_nonneg [of 2 z] wordCost_nonneg [of 6 z]
    by (auto simp: createEffect_def view_pop exp f(5) a_def b_def sumWithOverflow2 spendGas_view)
  show ?thesis
  proof (cases "?big \<or> gas c < cost + a + b")
    case True
    have "fails (genericCreate (ct_env U K) kind c)"
    proof (cases rule: memory_step [OF c])
      case (1 e)
      then show ?thesis by (simp add: int)
    next
      case (2 m i)
      then show ?thesis using True bounds at
        by (auto simp: int isAtLeast_def computeCodeSizeCost_def useGas_def a_def b_def wordCost_def)
    qed
    moreover have "\<exists>t. createEffect U kind (view c) = ret () t \<and> st_Status t = Failed"
      using True f(3) bounds unfolding spec by auto
    ultimately show ?thesis by (auto simp: conf_run_Failed)
  next
    case False
    have "cost \<le> gas c" using False bounds by linarith
    then show ?thesis
    proof (cases rule: memory_step [OF c])
      case (2 m i)
      then have gr: "grown_to (memory c) off z m i" by (auto simp: grown_to_def)
      have "genericCreate (ct_env U K) kind c = forwardCreate (ct_env U K) kind v salt (i, unat z)
          (c\<lparr>stack := zs, gas := gas c - (cost + a + b), memory := m\<rparr>)"
      proof -
        have nb: "R12_Shanghai \<le> st_Revision s \<Longrightarrow> computeCodeSizeCost z = Inr a" "kind = Create2 \<Longrightarrow> wordCost 6 z = b"
          using False by (auto simp: computeCodeSizeCost_def a_def b_def wordCost_def)
        have g: "a \<le> gas c - cost" "b \<le> gas c - cost - a" using False bounds by linarith+
        have sw: "d\<lparr>memory := m, gas := g\<rparr> = d\<lparr>gas := g, memory := m\<rparr>" for g and d :: "State sfvm_context" by simp
        show ?thesis using g 2(1,6) bounds at nb unfolding int
          by (cases "R12_Shanghai \<le> st_Revision s"; cases "kind = Create2")
            (simp_all add: isAtLeast_def useGas_def a_def b_def diff_diff_eq sw)
      qed
      moreover have "createEffect U kind (view c) = createCall U kind v salt (slice_bytes m (i, unat z))
          (view (c\<lparr>stack := zs, gas := gas c - (cost + a + b), memory := m\<rparr>))"
        using False bounds f(3) gr unfolding spec by (auto simp: grown_simps)
      ultimately show ?thesis using f len by (simp add: conf_createCall)
    qed simp
  qed
qed

lemma conforms_create: "conforms U K (createRules U)"
  unfolding createRules_def Let_def conforms_append instruction.simps
proof (intro conjI, goal_cases)
  case 1
  show ?case
    by (rule conforms_fails [where p = 3 and q = 1])
      (use table_create(1,2) in \<open>auto simp: table_create(3,4) table_def Eq_def ReadOnly_def genericCreate_def ready_simps intro!: fails_cont\<close>)
next
  case 2
  show ?case
  proof (rule conforms_table [where f = "genericCreate (ct_env U K) Create"], goal_cases)
    case (3 s c)
    then have "ready K CREATE s c" "\<not> st_ReadOnly s" "3 \<le> length (stack c)" "length (stack c) \<le> maxStackSize + 2"
      by (auto simp: Eq_def ReadOnly_def)
    then show ?case by (auto simp: stack_simps intro!: conf_create)
  qed (use table_create in auto)
next
  case 3
  show ?case
    by (rule conforms_fails [where p = 4 and q = 1])
      (use table_create(1,2) in \<open>auto simp: table_create(3,4) table_def Eq_def ReadOnly_def genericCreate_def ready_simps intro!: fails_cont\<close>)
next
  case 4
  show ?case
  proof (rule conforms_table [where f = "genericCreate (ct_env U K) Create2"], goal_cases)
    case (3 s c)
    then have "ready K CREATE2 s c" "\<not> st_ReadOnly s" "4 \<le> length (stack c)" "length (stack c) \<le> maxStackSize + 3"
      by (auto simp: Eq_def ReadOnly_def)
    then show ?case by (auto simp: stack_simps intro!: conf_create)
  qed (use table_create in auto)
qed

end

end
