(* ===== verification/Ct_Conform_Calls.thy ===== *)
theory Ct_Conform_Calls
  imports Ct_Conform_Create
begin

text \<open>
  Conformance of the calls. The specification looks up the access state of a delegation
  target before it marks the called account as accessed, the interpreter after that; the
  two differ for a cold account that delegates to itself, which is excluded here.
\<close>

section \<open>Charges\<close>

lemma fails_bind: "fails r \<Longrightarrow> fails (bind r f)"
  by (cases r) (auto simp: fails_def wp_def bind_def split: sum.splits)

lemma useGas_0: "0 \<le> gas c \<Longrightarrow> useGas 0 c = ret () c"
  by (simp add: useGas_def)

lemma parse_delegation: "parseDelegationDesignation = ParseDelegationDesignator"
  by (rule ext) (auto simp: parseDelegationDesignation_def ParseDelegationDesignator_def)

definition delegate :: "Address \<Rightarrow> State \<Rightarrow> Address option" where
  "delegate a s =
     (if R14_Prague \<le> st_Revision s then
        (case ParseDelegationDesignator (Accounts_GetCode (st_Accounts s) a) of
           (d, True) \<Rightarrow> Some d | (_, False) \<Rightarrow> None)
      else None)"

definition delegateCost :: "Address \<Rightarrow> State \<Rightarrow> Gas" where
  "delegateCost a s = (case delegate a s of None \<Rightarrow> 0 | Some d \<Rightarrow> accessCost s d)"

definition delegated :: "Address \<Rightarrow> State \<Rightarrow> State" where
  "delegated a s = (case delegate a s of None \<Rightarrow> s | Some d \<Rightarrow> on_accounts (Accounts_MarkWarm d) s)"

definition coldSelfDelegation :: "Address \<Rightarrow> State \<Rightarrow> bool" where
  "coldSelfDelegation a s \<longleftrightarrow> delegate a s = Some a \<and> \<not> Accounts_IsWarm (st_Accounts s) a"

lemma delegationCost_eq: "delegationCost a s = (delegateCost a s, delegated a s)"
  by (auto simp: delegationCost_def delegateCost_def delegated_def delegate_def accessCost_def Let_def
      split: prod.splits bool.splits)

lemma delegate_view [simp]:
  "delegate a (view c) = delegate a (world c)" "delegateCost a (view c) = delegateCost a (world c)"
  "delegated a (view c) = view (c\<lparr>world := delegated a (world c)\<rparr>)"
  by (simp_all add: delegate_def delegateCost_def delegated_def accessCost_def view_updates split: option.splits)

lemma delegated_fields [simp]:
  "st_Status (delegated a s) = st_Status s" "st_Revision (delegated a s) = st_Revision s"
  "st_CallContext (delegated a s) = st_CallContext s" "st_ReadOnly (delegated a s) = st_ReadOnly s"
  by (simp_all add: delegated_def split: option.splits)

lemma delegate_MarkWarm [simp]: "delegate a (on_accounts (Accounts_MarkWarm b) s) = delegate a s"
  by (simp add: delegate_def)

lemma delegate_accessed [simp]: "delegate a (accessed b s) = delegate a s"
  by (simp add: accessed_def)

lemma MarkWarm_commute:
  "on_accounts (Accounts_MarkWarm a) (on_accounts (Accounts_MarkWarm b) s) =
   on_accounts (Accounts_MarkWarm b) (on_accounts (Accounts_MarkWarm a) s)"
  by (simp add: on_accounts_def Accounts_MarkWarm_def insert_commute)

lemma IsWarm_MarkWarm [simp]: "Accounts_IsWarm (Accounts_MarkWarm b x) a \<longleftrightarrow> a = b \<or> Accounts_IsWarm x a"
  by (auto simp: Accounts_IsWarm_def Accounts_MarkWarm_def)

lemma delegate_prague: "delegate a s = Some d \<Longrightarrow> R09_Berlin \<le> st_Revision s"
  by (cases "st_Revision s") (auto simp: delegate_def split: if_splits)

lemma delegateCost_accessed:
  "\<not> coldSelfDelegation a s \<Longrightarrow> delegateCost a (accessed a s) = delegateCost a s"
  by (auto simp: delegateCost_def accessCost_def accessed_def coldSelfDelegation_def split: option.splits)

lemma delegated_accessed: "delegated a (accessed a s) = accessed a (delegated a s)"
  by (auto simp: delegated_def accessed_def intro: MarkWarm_commute split: option.splits)

lemma chargeDelegation_ct:
  assumes "\<And>rv. isAtLeast c rv \<longleftrightarrow> rv \<le> st_Revision (world c)" and "0 \<le> gas c"
  shows "chargeDelegation (ct_env U K) a c = useGas (delegateCost a (world c)) (c\<lparr>world := delegated a (world c)\<rparr>)"
  using assms
  by (auto simp: chargeDelegation_def delegateCost_def delegated_def delegate_def parse_delegation useAccessGas_ct useGas_0
      split: prod.splits bool.splits)

lemma chargeCallCosts_ct:
  fixes c :: "State sfvm_context"
  assumes rv: "\<And>rv. isAtLeast c rv \<longleftrightarrow> rv \<le> st_Revision (world c)" and g: "0 \<le> gas c"
    and self: "\<not> coldSelfDelegation a (world c)"
    and acc: "acc = (if R09_Berlin \<le> st_Revision (world c) then accessCost (world c) a else 0)"
    and tot: "tot = acc + delegateCost a (world c) + (if v \<noteq> 0 then 9000 else 0) +
      (if v \<noteq> 0 \<and> Accounts_IsEmpty (st_Accounts (world c)) a \<and> kind = Call then 25000 else 0)"
  shows "if gas c < tot then fails (chargeCallCosts (ct_env U K) kind v a c)
    else chargeCallCosts (ct_env U K) kind v a c =
      ret () (c\<lparr>world := accessed a (delegated a (world c)), gas := gas c - tot\<rparr>)"
proof -
  let ?w = "accessed a (delegated a (world c))"
  define D where "D = delegateCost a (world c)"
  define V where "V = (if v \<noteq> 0 then 9000 else 0 :: Gas)"
  define N where "N = (if v \<noteq> 0 \<and> Accounts_IsEmpty (st_Accounts (world c)) a \<and> kind = Call then 25000 else 0 :: Gas)"
  have pos: "0 \<le> acc" "0 \<le> D" "0 \<le> V" "0 \<le> N"
    by (auto simp: acc D_def V_def N_def delegateCost_def accessCost_def split: option.splits)
  have first: "(if isAtLeast c R09_Berlin then useAccessGas (ct_env U K) a c else ret () c) =
      useGas acc (c\<lparr>world := accessed a (world c)\<rparr>)"
    using g by (simp add: rv acc useAccessGas_ct accessed_def useGas_0)
  have sw: "c\<lparr>gas := x, world := w\<rparr> = c\<lparr>world := w, gas := x\<rparr>" for x w by simp
  have second: "chargeDelegation (ct_env U K) a (c\<lparr>world := accessed a (world c), gas := x\<rparr>) =
      useGas D (c\<lparr>world := ?w, gas := x\<rparr>)" if "0 \<le> x" for x
    using that rv delegateCost_accessed [OF self]
    by (subst chargeDelegation_ct) (simp_all add: isAtLeast_def D_def delegated_accessed sw)
  define T where "T d = bind (if v \<noteq> 0 then useGas 9000 d else ret () d) (\<lambda>_ d.
      if kind = Call \<and> v \<noteq> 0 \<and> isEmpty ctRunContext (world d) a then useGas 25000 d else ret () d)" for d :: "State sfvm_context"
  have third: "T d = bind (useGas V d) (\<lambda>_ d. useGas N d)" if "0 \<le> gas d" "world d = ?w" for d :: "State sfvm_context"
    using that by (auto simp: T_def V_def N_def isEmpty_ct useGas_def accessed_def delegated_def split: option.splits)
  have run: "chargeCallCosts (ct_env U K) kind v a c =
      bind (useGas acc (c\<lparr>world := accessed a (world c)\<rparr>)) (\<lambda>_ c. bind (chargeDelegation (ct_env U K) a c) (\<lambda>_ c. T c))"
    by (simp add: chargeCallCosts_def first T_def)
  show ?thesis
    using pos g unfolding run tot D_def [symmetric] V_def [symmetric] N_def [symmetric]
    by (auto simp: useGas_def second third diff_diff_eq)
qed

section \<open>The slices of input and output\<close>

lemma Memory_Grow_grown:
  "grown_to (memory c) off z m i \<Longrightarrow> Memory_Grow off z (view c) = ret () (view (c\<lparr>memory := m\<rparr>))"
  by (simp add: Memory_Grow_def grown_to_def view_def)

lemma grown_to_length: "mem_wf w \<Longrightarrow> grown_to w off z m i \<Longrightarrow> length (store w) \<le> length (store m)"
  by (cases "z = 0") (simp add: grown_to_def, simp add: grown_to_store length_grown_eq)

lemma grown_held:
  assumes "grown_to w off z m i" and "mem_wf m'" and "length (store m) \<le> length (store m')"
  shows "grown_to m' off z m' i"
proof (cases "z = 0")
  case True
  then show ?thesis using assms(2) by (simp add: grown_to_def Mem_Grow_def)
next
  case False
  then have "unat off + unat z \<le> length (store m')" using assms by (auto simp: grown_to_def)
  moreover from this have "\<not> 18446744073709551616 \<le> unat off + unat z" using assms(2) by (auto simp: mem_wf_def)
  ultimately show ?thesis
    using False assms Mem_Grow_eq [of "store m'" off z] grown_small [of "store m'"] by (auto simp: grown_to_def mem_wf_def)
qed

lemma two_slices:
  fixes d :: "State sfvm_context"
  assumes wf: "mem_wf (memory d)" and g: "0 \<le> gas d" "gas d < MaxInt64"
    and e1: "ExpansionCosts (store (memory d)) o1 s1 = (c1, off1, z1)"
    and e2: "ExpansionCosts (store (memory d)) o2 s2 = (c2, off2, z2)"
  obtains (err) "gas d < max c1 c2"
      "\<And>f :: mslice \<Rightarrow> mslice \<Rightarrow> State sf_cmd. fails (bind (getSlice o1 s1 d) (\<lambda>a c. bind (getSlice o2 s2 c) (f a)))"
  | (ok) m1 m2 i1 i2 where "max c1 c2 \<le> gas d"
      "\<And>f :: mslice \<Rightarrow> mslice \<Rightarrow> State sf_cmd. bind (getSlice o1 s1 d) (\<lambda>a c. bind (getSlice o2 s2 c) (f a)) =
         f (i1, unat z1) (i2, unat z2) (d\<lparr>gas := gas d - max c1 c2, memory := m2\<rparr>)"
      "grown_to (memory d) off1 z1 m1 i1" "grown_to m1 off2 z2 m2 i2" "mem_wf m2"
      "grown_to m2 off1 z1 m2 i1" "grown_to m2 off2 z2 m2 i2"
proof (cases rule: memory_step [OF wf g e1])
  case (1 e)
  then show ?thesis by (intro err) auto
next
  case (2 m1 i1)
  then have g1: "grown_to (memory d) off1 z1 m1 i1" by (auto simp: grown_to_def)
  have e: "ExpansionCosts (store m1) o2 s2 = (if c2 = MaxInt64 then MaxInt64 else max c1 c2 - c1, off2, z2)"
    by (rule ExpansionCosts_twice [OF wf e1 _ g1 e2]) (use 2(3) g in simp)
  let ?d = "d\<lparr>gas := gas d - c1, memory := m1\<rparr>"
  have d: "mem_wf (memory ?d)" "0 \<le> gas ?d" "gas ?d < MaxInt64" "ExpansionCosts (store (memory ?d)) o2 s2 =
      (if c2 = MaxInt64 then MaxInt64 else max c1 c2 - c1, off2, z2)"
    using 2 g e by auto
  show ?thesis
  proof (cases rule: memory_step [OF d])
    case b: (1 x)
    then have "gas d < max c1 c2" using g by (auto split: if_splits)
    with b 2(1) show ?thesis by (intro err) auto
  next
    case b: (2 m2 i2)
    then have g2: "grown_to m1 off2 z2 m2 i2" by (auto simp: grown_to_def)
    have c2: "c2 \<noteq> MaxInt64" using b(3) g 2(2) by (auto split: if_splits)
    have wf2: "mem_wf m2" using g2 by (simp add: grown_to_def)
    show ?thesis
    proof (rule ok [OF _ _ g1 g2 wf2 grown_held [OF g1 wf2 grown_to_length [OF 2(4) g2]] grown_held [OF g2 wf2 order_refl]])
      show "max c1 c2 \<le> gas d" using b(3) c2 by simp
      show "bind (getSlice o1 s1 d) (\<lambda>a c. bind (getSlice o2 s2 c) (f a)) =
         f (i1, unat z1) (i2, unat z2) (d\<lparr>gas := gas d - max c1 c2, memory := m2\<rparr>)"
        for f :: "mslice \<Rightarrow> mslice \<Rightarrow> State sf_cmd"
        using 2(1) b(1) c2 by simp
    qed
  qed
qed

section \<open>The nested call\<close>

lemma Memory_Write_held:
  assumes wf: "mem_wf (memory c)" and held: "grown_to (memory c) off z (memory c) i" and "z \<noteq> 0" and len: "length data \<le> unat z"
  shows "Memory_Write data off (view c) = ret () (view (c\<lparr>memory := copy_slice (i, unat z) data (memory c)\<rparr>))"
proof (cases "data = []")
  case True
  then show ?thesis by (simp add: Memory_Write_def Mem_Write_def copy_slice_def view_def)
next
  case False
  let ?y = "word_of_nat (length data) :: u64"
  have h: "i = unat off" "unat off + unat z \<le> length (store (memory c))" using held assms(3) by (auto simp: grown_to_def)
  have "length data < 18446744073709551616" using len unat_u64_bound [of z] by linarith
  then have y: "unat ?y = length data" by (simp add: unat_of_nat)
  then have "?y \<noteq> 0" using False by (metis length_0_conv unsigned_0)
  moreover have "\<not> 18446744073709551616 \<le> unat off + unat ?y" "unat off + unat ?y \<le> length (store (memory c))"
    using h len wf y by (auto simp: mem_wf_def)
  ultimately have "Mem_Grow off ?y (store (memory c)) = Ret (store (memory c))"
    using Mem_Grow_eq [of "store (memory c)" off ?y] grown_small [of "store (memory c)"] wf by (simp add: mem_wf_def)
  then show ?thesis using False h len
    by (simp add: Memory_Write_def Mem_Write_def copy_slice_def view_def)
qed

lemma nestedGas_ct:
  assumes "0 \<le> g" and "g \<le> 500000000000"
  shows "nestedGas g x = (let limit = g - go_quot g 64 in
    if IsUint64 x \<and> Uint64 x < word_of_int limit then int64 (uint (Uint64 x)) else limit)"
    "0 \<le> nestedGas g x \<and> nestedGas g x \<le> g"
proof -
  define limit where "limit = g - go_quot g 64"
  have l: "0 \<le> limit" "limit \<le> g" using assms by (auto simp: limit_def go_quot_nonneg)
  have u: "uint (word_of_int limit :: u64) = limit" using l assms(2) by (simp add: word_of_int_inverse)
  have x: "int64 (uint (Uint64 x)) = uint (Uint64 x)" if "uint (Uint64 x) \<le> 9223372036854775807"
  proof -
    have "0 \<le> uint (Uint64 x)" by simp
    with that show ?thesis by (intro int64_id) linarith+
  qed
  show "nestedGas g x = (let limit = g - go_quot g 64 in
    if IsUint64 x \<and> Uint64 x < word_of_int limit then int64 (uint (Uint64 x)) else limit)"
    using l assms(2) x unfolding nestedGas_def limit_def [symmetric] Let_def word_less_def u by auto
  then show "0 \<le> nestedGas g x \<and> nestedGas g x \<le> g"
    using l assms(2) x unfolding limit_def [symmetric] Let_def word_less_def u by (auto split: if_splits)
qed

definition call_kind :: "OpCode \<Rightarrow> CallKind" where
  "call_kind op =
     (if op = CALL then Call else if op = CALLCODE then CallCode else if op = STATICCALL then StaticCall else DelegateCall)"

definition callOp :: "'w env \<Rightarrow> OpCode \<Rightarrow> ('w, 'z) cmd" where
  "callOp E op c = (if op = CALL then opCall E c else genericCall E (call_kind op) c)"

lemma dispatch_call: "op \<in> {CALL, CALLCODE, STATICCALL, DELEGATECALL} \<Longrightarrow> dispatch E op = cont (callOp E op)"
  by (auto simp: dispatch_simps callOp_def call_kind_def opCallCode_def opStaticCall_def opDelegateCall_def fun_eq_iff cont_def)

text \<open>The parameters of a context agree with the state of the test.\<close>

definition ct_params :: "State sfvm_context \<Rightarrow> bool" where
  "ct_params c \<longleftrightarrow>
     Recipient (params c) = cc_AccountAddress (st_CallContext (world c)) \<and>
     Sender (params c) = cc_CallerAddress (st_CallContext (world c)) \<and>
     Value (params c) = cc_Value (st_CallContext (world c)) \<and> Static (params c) = st_ReadOnly (world c)"

context uint256_arith
begin

lemma conf_callExecution:
  assumes run: "st_Status (world c) = Running" and p: "ct_params c" and wf: "mem_wf (memory c)"
    and g: "0 \<le> gas c" "gas c \<le> 500000000000" and len: "length (stack c) < maxStackSize"
    and op: "op \<in> {CALL, CALLCODE, STATICCALL, DELEGATECALL}" and v: "op \<in> {STATICCALL, DELEGATECALL} \<Longrightarrow> v = 0"
    and args: "grown_to (memory c) aoff az (memory c) ai" and out: "grown_to (memory c) roff rz (memory c) ri"
  shows "conf_run (forwardCall (ct_env U K) (call_kind op) v (Bytes20 target) x (ai, unat az) (ri, unat rz) c)
    (callExecution U op x target v aoff az roff rz (view c))"
proof -
  define e where "e = nestedGas (gas c) x"
  define stip where "stip = (if v \<noteq> 0 then 2300 else 0 :: Gas)"
  have e: "0 \<le> e" "e \<le> gas c" using nestedGas_ct(2) [OF g] by (auto simp: e_def)
  have st: "(if v \<noteq> 0 then int64 (e + 2300) else e) = e + stip"
    using e g by (auto simp: stip_def intro!: int64_id)
  have endow: "(if IsUint64 x \<and> Uint64 x < word_of_int (gas c - go_quot (gas c) 64)
      then int64 (uint (Uint64 x)) else gas c - go_quot (gas c) 64) = e"
    using nestedGas_ct(1) [OF g, of x] by (simp add: e_def Let_def)
  let ?self = "cc_AccountAddress (st_CallContext (world c))"
  let ?poor = "v \<noteq> 0 \<and> Accounts_GetBalance (st_Accounts (world c)) ?self < v"
  let ?input = "slice_bytes (memory c) (ai, unat az)"
  define kd where "kd = (if st_ReadOnly (world c) \<and> op = CALL then StaticCall else call_kind op)"
  define cp where "cp = (if op = DELEGATECALL
      then \<lparr>cp_Sender = cc_CallerAddress (st_CallContext (world c)), cp_Recipient = ?self,
        cp_Value = cc_Value (st_CallContext (world c)), cp_Input = ?input, cp_Gas = e + stip, cp_Salt = 0, cp_CodeAddress = Bytes20 target\<rparr>
      else \<lparr>cp_Sender = ?self, cp_Recipient = if op = CALLCODE then ?self else Bytes20 target, cp_Value = v, cp_Input = ?input,
        cp_Gas = e + stip, cp_Salt = 0, cp_CodeAddress = Bytes20 target\<rparr>)"
  have int: "forwardCall (ct_env U K) (call_kind op) v (Bytes20 target) x (ai, unat az) (ri, unat rz) c =
      (if ?poor then ret () (c\<lparr>gas := int64 (gas c + stip), stack := 0 # stack c, returnData := []\<rparr>)
       else performCall (ct_env U K) kd cp (ri, unat rz) (c\<lparr>gas := gas c - e\<rparr>))"
  proof -
    have "int64 (e + 2300) = e + 2300" using e g by (intro int64_id) linarith+
    then show ?thesis using op v p len
      by (cases "v = 0") (auto simp: forwardCall_def call_kind_def kd_def cp_def makeCallParams_def Let_def ct_params_def Lt
        stip_def simp flip: e_def)
  qed
  have spec: "callExecution U op x target v aoff az roff rz (view c) =
      (if ?poor then ret () (view (c\<lparr>gas := gas c + stip, stack := 0 # stack c, returnData := []\<rparr>))
       else (let (r, j) = CallJournal_Call kd cp (st_CallJournal (world c)) in
         ret () (view (c\<lparr>world := (world c)\<lparr>st_CallJournal := j\<rparr>, memory := copy_slice (ri, unat rz) (cr_Output r) (memory c),
           gas := int64 (gas c - e + cr_GasLeft r), refund := int64 (refund c + cr_GasRefund r), returnData := cr_Output r,
           stack := (if cr_Success r then 1 else 0) # stack c\<rparr>))))"
  proof -
    have rd: "Memory_Read aoff az (view (c\<lparr>gas := y\<rparr>)) = ret ?input (view (c\<lparr>gas := y\<rparr>))" for y
      using Memory_Read_grown [of "c\<lparr>gas := y\<rparr>" aoff az "memory c" ai] args by simp
    have wr: "(if 0 < rz then Memory_Write (if unat rz < length d then take (unat rz) d else d) roff (view (c\<lparr>gas := y, world := w\<rparr>))
        else ret () (view (c\<lparr>gas := y, world := w\<rparr>))) =
        ret () (view (c\<lparr>gas := y, world := w, memory := copy_slice (ri, unat rz) d (memory c)\<rparr>))" for y w d
    proof (cases "rz = 0")
      case False
      have "copy_slice (ri, unat rz) (if unat rz < length d then take (unat rz) d else d) = copy_slice (ri, unat rz) d"
        by (auto simp: copy_slice_def)
      then show ?thesis using False wf out
        Memory_Write_held [of "c\<lparr>gas := y, world := w\<rparr>" roff rz ri "if unat rz < length d then take (unat rz) d else d"]
        by (auto simp: word_neq_0_conv)
    qed simp
    obtain r j where j: "CallJournal_Call kd cp (st_CallJournal (world c)) = (r, j)" by fastforce
    have nw: "NewU256 0 = 0" "NewU256 1 = 1" by (simp_all add: NewU256_def SetUint64_def)
    from op consider "op = CALL" | "op = CALLCODE" | "op = STATICCALL" | "op = DELEGATECALL" by blast
    then show ?thesis
      unfolding callExecution_def Let_def view_fields endow stip_def [symmetric] view_updates rd bind_ret
      by (cases; use j v in \<open>auto simp: view_updates wr Lt kd_def cp_def call_kind_def nw algebra_simps\<close>)
  qed
  show ?thesis
    using run len e g unfolding int spec
    by (auto simp: performCall_def ct_Call_def Let_def stip_def int64_id view_def split: prod.splits)
qed

section \<open>The call instructions\<close>

lemma conf_call:
  assumes r: "ready K op s c" and op: "op \<in> {CALL, CALLCODE, STATICCALL, DELEGATECALL}"
    and st: "stack c = x # target # (if op = CALL \<or> op = CALLCODE then [v] else []) @ ao # as # ro # rs # zs"
    and v: "op \<in> {STATICCALL, DELEGATECALL} \<Longrightarrow> v = 0" and len: "length zs < maxStackSize"
    and acc: "acc = (if R09_Berlin \<le> st_Revision s then accessCost s (Bytes20 target) else 0)"
    and self: "\<not> coldSelfDelegation (Bytes20 target) s"
  shows "conf_run (genericCall (ct_env U K) (call_kind op) c) (callEffect U acc op (view c))"
proof -
  note f = ready_gas [OF r] ready_simps(1,2,15) [OF r] ready_isAtLeast [OF r]
  let ?a = "Bytes20 target"
  let ?d = "c\<lparr>stack := zs\<rparr>"
  obtain c1 off1 z1 where e1: "ExpansionCosts (store (memory c)) ao as = (c1, off1, z1)" by (metis prod_cases3)
  obtain c2 off2 z2 where e2: "ExpansionCosts (store (memory c)) ro rs = (c2, off2, z2)" by (metis prod_cases3)
  define V where "V = (if v \<noteq> 0 then 9000 else 0 :: Gas)"
  define N where "N = (if v \<noteq> 0 \<and> Accounts_IsEmpty (st_Accounts s) ?a \<and> op \<noteq> CALLCODE then 25000 else 0 :: Gas)"
  define D where "D = delegateCost ?a s"
  have N: "N = (if v \<noteq> 0 \<and> Accounts_IsEmpty (st_Accounts s) ?a \<and> call_kind op = Call then 25000 else 0)"
    using op v by (auto simp: N_def call_kind_def)
  have pos: "0 \<le> V" "0 \<le> N" "0 \<le> D" "0 \<le> acc" "V \<le> 9000" "N \<le> 25000" "D \<le> 2600" "acc \<le> 2600"
    by (auto simp: V_def N_def D_def acc delegateCost_def accessCost_def split: option.splits)
  have m: "0 \<le> max c1 c2" "max c1 c2 \<le> MaxInt64"
    using ExpansionCosts_bounds [OF f(1) e1] ExpansionCosts_bounds [OF f(1) e2] by auto
  define tot where "tot = max c1 c2 + (acc + D + V + N)"
  have int: "genericCall (ct_env U K) (call_kind op) c = bind (getSlice ao as ?d) (\<lambda>args c. bind (getSlice ro rs c) (\<lambda>output c.
      bind (chargeCallCosts (ct_env U K) (call_kind op) v ?a c) (\<lambda>_ c.
      forwardCall (ct_env U K) (call_kind op) v ?a x args output c)))"
    using op st v by (auto simp: genericCall_def call_kind_def Let_def)
  have spec: "callEffect U acc op (view c) = spendGas tot (\<lambda>s.
      let s = (if R09_Berlin \<le> st_Revision s then on_accounts (Accounts_MarkWarm ?a) s else s)
      in bind (Memory_Grow off1 z1 s) (\<lambda>_ s. bind (Memory_Grow off2 z2 s) (\<lambda>_ s.
         callExecution U op x target v off1 z1 off2 z2 s))) (view (c\<lparr>stack := zs, world := delegated ?a s\<rparr>))"
  proof -
    have "spendSum [max c1 c2, V, N, acc, D] k (view (c\<lparr>stack := zs, world := delegated ?a s\<rparr>)) =
        spendGas tot k (view (c\<lparr>stack := zs, world := delegated ?a s\<rparr>))" for k
      using spendSum_eq [of "[max c1 c2, V, N, acc, D]" "view (c\<lparr>stack := zs, world := delegated ?a s\<rparr>)" k] pos m f(3)
      by (simp add: tot_def algebra_simps)
    then show ?thesis using op st v f(5)
      by (auto simp: callEffect_def view_pop e1 e2 delegationCost_eq V_def N_def D_def)
  qed
  have d: "mem_wf (memory ?d)" "0 \<le> gas ?d" "gas ?d < MaxInt64"
    "ExpansionCosts (store (memory ?d)) ao as = (c1, off1, z1)" "ExpansionCosts (store (memory ?d)) ro rs = (c2, off2, z2)"
    using f e1 e2 by simp_all
  show ?thesis
  proof (cases rule: two_slices [OF d])
    case 1
    then have "gas c < tot" using pos by (simp add: tot_def)
    moreover have "fails (genericCall (ct_env U K) (call_kind op) c)" unfolding int by (rule 1(2))
    ultimately show ?thesis by (simp add: spec spendGas_view conf_run_Failed)
  next
    case (2 m1 m2 i1 i2)
    let ?c = "c\<lparr>stack := zs, gas := gas c - max c1 c2, memory := m2\<rparr>"
    have charge: "if gas ?c < acc + D + V + N then fails (chargeCallCosts (ct_env U K) (call_kind op) v ?a ?c)
        else chargeCallCosts (ct_env U K) (call_kind op) v ?a ?c =
          ret () (?c\<lparr>world := accessed ?a (delegated ?a (world ?c)), gas := gas ?c - (acc + D + V + N)\<rparr>)"
      by (rule chargeCallCosts_ct) (use f 2(1) self acc N in \<open>auto simp: isAtLeast_def D_def V_def\<close>)
    show ?thesis
    proof (cases "gas c < tot")
      case True
      then have "gas ?c < acc + D + V + N" by (simp add: tot_def)
      then have "fails (genericCall (ct_env U K) (call_kind op) c)" using charge unfolding int 2(2)
        by (simp add: fails_bind)
      with True show ?thesis by (simp add: spec spendGas_view conf_run_Failed)
    next
      case False
      let ?e = "c\<lparr>stack := zs, memory := m2, world := accessed ?a (delegated ?a s), gas := gas c - tot\<rparr>"
      have "\<not> gas ?c < acc + D + V + N" using False by (simp add: tot_def)
      with charge have "genericCall (ct_env U K) (call_kind op) c =
          forwardCall (ct_env U K) (call_kind op) v ?a x (i1, unat z1) (i2, unat z2) ?e"
        unfolding int 2(2) by (simp add: f(5) tot_def diff_diff_eq)
      moreover have "callEffect U acc op (view c) = callExecution U op x target v off1 z1 off2 z2 (view ?e)"
      proof -
        have "(if R09_Berlin \<le> st_Revision s then on_accounts (Accounts_MarkWarm ?a) (view e) else view e) =
            view (e\<lparr>world := accessed ?a (world e)\<rparr>)" if "st_Revision (world e) = st_Revision s" for e
          using that by (simp add: accessed_def view_updates)
        then show ?thesis using False 2(3,4)
          by (simp add: spec spendGas_view Let_def f(5) Memory_Grow_grown) (simp add: view_def)
      qed
      moreover have "conf_run (forwardCall (ct_env U K) (call_kind op) v ?a x (i1, unat z1) (i2, unat z2) ?e)
          (callExecution U op x target v off1 z1 off2 z2 (view ?e))"
        by (rule conf_callExecution) (use f False pos m 2 op v len in \<open>auto simp: tot_def ct_params_def\<close>)
      ultimately show ?thesis by simp
    qed
  qed
qed

lemma conf_callOp:
  assumes r: "ready K op s c" and op: "op \<in> {CALL, CALLCODE, STATICCALL, DELEGATECALL}"
    and len: "(if op = CALL \<or> op = CALLCODE then 7 else 6) \<le> length (stack c)" "length (stack c) \<le> maxStackSize"
    and acc: "\<And>a. Param 1 s = Inr a \<Longrightarrow> acc = (if R09_Berlin \<le> st_Revision s then accessCost s (Bytes20 a) else 0)"
    and val: "\<And>v. op = CALL \<Longrightarrow> Param 2 s = Inr v \<Longrightarrow> st_ReadOnly s \<Longrightarrow> v = 0"
    and self: "\<And>a. \<not> coldSelfDelegation a s"
  shows "conf_run (callOp (ct_env U K) op c) (callEffect U acc op (view c))"
proof (cases "op = CALL \<or> op = CALLCODE")
  case True
  then obtain x target v ao as ro rs zs where st: "stack c = x # target # v # ao # as # ro # rs # zs"
    using len by (auto simp: stack_simps)
  have p: "Param 1 s = Inr target" "Param 2 s = Inr v" using ready_Param [OF r, of 1] ready_Param [OF r, of 2] st by simp_all
  have "callOp (ct_env U K) op c = genericCall (ct_env U K) (call_kind op) c"
    using True val [OF _ p(2)] st ready_simps(2) [OF r] by (auto simp: callOp_def call_kind_def opCall_def)
  then show ?thesis
    using conf_call [OF r op, of x target v ao as ro rs zs] True st len acc [OF p(1)] self by auto
next
  case False
  then obtain x target ao as ro rs zs where st: "stack c = x # target # ao # as # ro # rs # zs"
    using len by (auto simp: stack_simps)
  have p: "Param 1 s = Inr target" using ready_Param [OF r, of 1] st by simp
  show ?thesis
    using conf_call [OF r op, of x target 0 ao as ro rs zs] False st len acc [OF p] self by (auto simp: callOp_def)
qed

end

end
