(* ===== verification/Ct_Conformance.thy ===== *)
theory Ct_Conformance
  imports Ct_Conform_Calls
begin

text \<open>
  The short-form interpreter conforms to the specification: the rules of the calls, the list
  of all rules, and the theorem about them.
\<close>

section \<open>The rules of the calls\<close>

text \<open>States in which no cold account delegates to itself.\<close>

definition no_cold_self_delegation :: "State \<Rightarrow> bool" where
  "no_cold_self_delegation s \<longleftrightarrow> (\<forall>a. \<not> coldSelfDelegation a s)"

definition conforms_if :: "(State \<Rightarrow> bool) \<Rightarrow> uint256_lib \<Rightarrow> (bytes \<Rightarrow> Hash) \<Rightarrow> Rule list \<Rightarrow> bool" where
  "conforms_if P U K rs \<longleftrightarrow>
     (\<forall>s. test_state s \<longrightarrow> P s \<longrightarrow> (\<forall>r \<in> set rs. holds (r_Condition r) s \<longrightarrow> passes U K r s))"

lemma conforms_if_simps [simp]:
  "conforms_if P U K []" "conforms_if P U K (rs @ qs) \<longleftrightarrow> conforms_if P U K rs \<and> conforms_if P U K qs"
  "conforms_if P U K (concat rss) \<longleftrightarrow> (\<forall>rs \<in> set rss. conforms_if P U K rs)"
  by (auto simp: conforms_if_def)

lemma conforms_conforms_if: "conforms U K rs \<Longrightarrow> conforms_if P U K rs"
  by (simp add: conforms_def conforms_if_def)

text \<open>A premise on the states as a further condition of an instruction.\<close>

lemma conforms_if_condition:
  assumes "conforms U K (rulesFor (i\<lparr>in_conditions := basic (\<lambda>s. Inr (P s)) # in_conditions i\<rparr>))"
  shows "conforms_if P U K (rulesFor i)"
  unfolding conforms_if_def
proof (intro allI impI ballI)
  fix s r assume s: "test_state s" "P s" and r: "r \<in> set (rulesFor i)" "holds (r_Condition r) s"
  let ?i = "i\<lparr>in_conditions := basic (\<lambda>s. Inr (P s)) # in_conditions i\<rparr>"
  have "\<exists>q \<in> set (rulesFor ?i). holds (r_Condition q) s \<and> r_Effect q = r_Effect r"
    using r s(2)
    by (auto simp: rulesFor_def tooLittleGas_def tooFewElements_def notEnoughSpace_def regularRule_def Let_def
        IsRevisionCondition_def holds_def [of "basic _"] split: if_splits)
  then obtain q where q: "q \<in> set (rulesFor ?i)" "holds (r_Condition q) s" "r_Effect q = r_Effect r" by blast
  then have "passes U K q s" using assms s(1) by (simp add: conforms_def)
  then show "passes U K r s" using q(3) by (simp add: passes_def)
qed

lemma holds_revision: "holds (IsRevision r) s \<longleftrightarrow> st_Revision s = r"
  by (auto simp: IsRevision_def RevisionBounds_def)

text \<open>The instruction of \<open>getRulesForCall\<close>.\<close>

definition callConds :: "OpCode \<Rightarrow> Revision \<Rightarrow> bool \<Rightarrow> bool \<Rightarrow> DelegationDesignatorState option \<Rightarrow> bool \<Rightarrow> Condition list" where
  "callConds op r warm zeroValue dd static =
     ([IsRevision r, if warm then IsAddressWarm (Param 1) else IsAddressCold (Param 1),
       if static then Eq ReadOnly True else Eq ReadOnly False] @
      (case dd of None \<Rightarrow> [] | Some d \<Rightarrow> [ConstraintDelegationDesignator (Param 1) d])) @
     (if op = CALL \<or> op = CALLCODE
      then [if zeroValue then Eq (ValueParam 2) (NewU256 0) else Ne (ValueParam 2) (NewU256 0)] else [])"

lemma getRulesForCall_eq:
  "getRulesForCall op r warm zeroValue dd e static =
     rulesFor \<lparr>in_op = op, in_staticGas = (if r = R07_Istanbul then 700 else 0),
       in_pops = if op = CALL \<or> op = CALLCODE then 7 else 6, in_pushes = 1,
       in_conditions = callConds op r warm zeroValue dd static,
       in_effect = e (if r = R07_Istanbul then 0 else if R09_Berlin \<le> r then (if warm then 100 else 2600) else 0) op\<rparr>"
  by (simp add: getRulesForCall_def callConds_def Let_def)

lemma conforms_staticCall:
  "conforms U K (getRulesForCall CALL r warm False dd (\<lambda>_ _. FailEffect) True)"
  unfolding getRulesForCall_eq
proof (rule conforms_fails [where p = 7 and q = 1], goal_cases)
  case (7 s c)
  then have r: "ready K CALL s c" and l: "7 \<le> length (stack c)" by simp_all
  from 7(3) have "holds (Eq ReadOnly True) s" "holds (Ne (ValueParam 2) (NewU256 0)) s" by (auto simp: callConds_def)
  moreover have "Param 2 s = Inr (stack c ! 2)" using ready_Param [OF r, of 2] l by simp
  ultimately have "Static (params c)" "stack c ! 2 \<noteq> 0"
    using ready_simps(2) [OF r] by (auto simp: Ne_def ValueParam_def NewU256_def SetUint64_def)
  then show ?case using l
    by (auto simp: dispatch_call callOp_def opCall_def stack_simps intro!: fails_cont)
qed (auto simp: table_simps)

context uint256_arith
begin

lemma conforms_call:
  assumes op: "op \<in> {CALL, CALLCODE, STATICCALL, DELEGATECALL}"
    and price: "\<And>s. at_op op s \<Longrightarrow> \<forall>d \<in> set conds. holds d s \<Longrightarrow> static_price (st_Revision s) op = costs"
    and acc: "\<And>s a. \<forall>d \<in> set conds. holds d s \<Longrightarrow> Param 1 s = Inr a \<Longrightarrow>
      acc = (if R09_Berlin \<le> st_Revision s then accessCost s (Bytes20 a) else 0)"
    and val: "\<And>s v. \<forall>d \<in> set conds. holds d s \<Longrightarrow> op = CALL \<Longrightarrow> Param 2 s = Inr v \<Longrightarrow> st_ReadOnly s \<Longrightarrow> v = 0"
  shows "conforms_if no_cold_self_delegation U K
    (rulesFor \<lparr>in_op = op, in_staticGas = costs, in_pops = if op = CALL \<or> op = CALLCODE then 7 else 6, in_pushes = 1,
      in_conditions = conds, in_effect = callEffect U acc op\<rparr>)"
proof (rule conforms_if_condition, rule conforms_cont [where f = "callOp (ct_env U K) op"], goal_cases)
  case (4 s c)
  then have "ready K op s c" "\<forall>d \<in> set conds. holds d s" "\<And>a. \<not> coldSelfDelegation a s"
    by (auto simp: no_cold_self_delegation_def holds_def [of "basic _"])
  moreover have "length (stack c) \<le> maxStackSize"
    using ready_sinv(1) [of K op s c] 4(1) by (auto simp: sinv_def cinv_def)
  ultimately show ?case using 4(2) op acc val
    by (simp only: instruction.simps) (intro conf_callOp; auto)
qed (use op price dispatch_call [OF op] in \<open>auto simp: usage_ok_def table_simps\<close>)

lemma conforms_regularCall:
  assumes op: "op \<in> {CALL, CALLCODE, STATICCALL, DELEGATECALL}" and ok: "\<not> (op = CALL \<and> static \<and> \<not> zeroValue)"
  shows "conforms_if no_cold_self_delegation U K (getRulesForCall op r warm zeroValue dd (callEffect U) static)"
  unfolding getRulesForCall_eq
proof (rule conforms_call [OF op], goal_cases)
  case (1 s)
  then have "st_Revision s = r" "MinRevision \<le> r" by (auto simp: callConds_def holds_revision at_op_def test_state_def)
  then show ?case using op by (cases r) (auto simp: table_simps)
next
  case (2 s a)
  then have "st_Revision s = r" "Accounts_IsWarm (st_Accounts s) (Bytes20 a) \<longleftrightarrow> warm"
    by (auto simp: callConds_def holds_revision holds_Warm split: if_splits)
  then show ?case by (cases r) (auto simp: accessCost_def)
next
  case (3 s v)
  then show ?case using ok
    by (auto simp: callConds_def Eq_def ReadOnly_def ValueParam_def NewU256_def SetUint64_def split: if_splits)
qed

lemma conforms_callRules:
  assumes op: "op \<in> {CALL, CALLCODE, STATICCALL, DELEGATECALL}"
  shows "conforms_if no_cold_self_delegation U K (callRules U op r warm static zeroValue)"
proof (cases "op = CALL \<and> static \<and> \<not> zeroValue")
  case True
  then show ?thesis using conforms_staticCall by (simp add: callRules_def Let_def conforms_conforms_if)
next
  case False
  then have "(if op = CALL \<and> static \<and> \<not> zeroValue then \<lambda>_ _. FailEffect else callEffect U) = callEffect U" by auto
  then show ?thesis using conforms_regularCall [OF op False] by (simp add: callRules_def Let_def)
qed

lemma conforms_calls: "conforms_if no_cold_self_delegation U K (getRulesForAllCallTypes U)"
  using conforms_callRules by (simp add: getRulesForAllCallTypes_def)

text \<open>The list of all rules.\<close>

lemma conforms_all: "conforms_if no_cold_self_delegation U K (getAllRules U K)"
proof -
  have "conforms U K (concat (map pushOp [1..<33]))" using conforms_push by simp
  moreover have "conforms U K (concat (map dupOp [1..<17]))" using conforms_dup by simp
  moreover have "conforms U K (concat (map swapOp [1..<17]))" using conforms_swap by simp
  moreover have "conforms U K (concat (map logOp [0..<5]))" using conforms_log by simp
  moreover have "conforms U K (codeRules U)" "conforms U K (calldataRules U)" "conforms U K returnRules"
    by (simp_all add: codeRules_def calldataRules_def returnRules_def conforms_size conforms_codecopy conforms_calldatacopy
        conforms_calldataload conforms_returndatacopy conforms_end del: One_nat_def)
  ultimately have "conforms U K (terminalRules @ invalidRules @ errorRules @ stopRules @ arithmeticRules U @ comparisonRules U @
      clzRules U @ sha3Rules K @ balanceRules @ mloadRules @ mstoreRules @ sloadRules @ allSstoreRules @ jumpRules @ jumpiRules @
      pcRules @ tloadRules @ tstoreRules @ push0Rules @ mcopyRules @ concat (map pushOp [1..<33]) @ popRules @
      concat (map dupOp [1..<17]) @ concat (map swapOp [1..<17]) @ concat (map logOp [0..<5]) @ addressRules @
      blockhashRules @ blockRules @ extcodesizeRules @ extcodecopyRules U @ feeRules @ blobRules @ extcodehashRules @
      codeRules U @ calldataRules U @ returnRules)" "conforms U K (selfDestructRules @ createRules U)"
    unfolding conforms_append
    by (auto simp: conforms_terminal conforms_invalid conforms_error conforms_stop conforms_arithmetic
        conforms_comparison conforms_clz conforms_sha3 conforms_balance conforms_mload conforms_mstore conforms_sload conforms_sstore
        conforms_jump conforms_jumpi conforms_pc conforms_tload conforms_tstore conforms_push0 conforms_mcopy
        conforms_pop conforms_address conforms_blockhash conforms_block conforms_extcodesize conforms_extcodecopy conforms_fee
        conforms_blob conforms_extcodehash conforms_selfdestruct conforms_create)
  from this [THEN conforms_conforms_if [where P = no_cold_self_delegation]] show ?thesis
    using conforms_calls by (simp add: getAllRules_def)
qed

end

section \<open>The conformance theorem\<close>

text \<open>A test state for the witnesses.\<close>

definition demo_state :: "bytes \<Rightarrow> u256 list \<Rightarrow> State" where
  "demo_state cd st =
     \<lparr>st_Status = Running, st_Revision = R13_Cancun, st_ReadOnly = False, st_Pc = 0, st_Gas = 10, st_GasRefund = 0,
      st_Code = NewCode cd, st_Stack = st, st_Memory = [],
      st_Storage = \<lparr>sto_current = Map.empty, sto_original = Map.empty, sto_warm = Map.empty\<rparr>,
      st_TransientStorage = Map.empty, st_Accounts = \<lparr>acs_accounts = Map.empty, acs_warm = {}\<rparr>, st_Logs = [],
      st_CallContext = \<lparr>cc_AccountAddress = 1, cc_CallerAddress = 2, cc_Value = 0\<rparr>,
      st_CallJournal = \<lparr>Past = [], Future = []\<rparr>,
      st_BlockContext = \<lparr>bc_BaseFee = 0, bc_BlobBaseFee = 0, bc_BlockNumber = 0, bc_ChainID = 1, bc_CoinBase = 0, bc_GasLimit = 0,
        bc_GasPrice = 0, bc_PrevRandao = 0, bc_TimeStamp = 0\<rparr>,
      st_CallData = [], st_LastCallReturnData = [], st_ReturnData = [], st_IsNewContract = False,
      st_HasSelfDestructed = False, st_SelfDestructedJournal = [], st_RecentBlockHashes = None,
      st_TransactionContext = \<lparr>tc_OriginAddress = 3, tc_BlobHashes = []\<rparr>\<rparr>"

lemma NewCode_single:
  "\<not> (PUSH1 \<le> unat b \<and> unat b \<le> PUSH32) \<Longrightarrow> NewCode [b] = \<lparr>cd_code = [b], cd_isCode = [True]\<rparr>"
  by (simp add: NewCode_def NewCode_loop.simps Let_def)

lemma demo_state_ok:
  assumes "\<not> (PUSH1 \<le> unat b \<and> unat b \<le> PUSH32)" and "length st \<le> 1024"
  shows "test_state (demo_state [b] st)" "no_cold_self_delegation (demo_state [b] st)"
proof -
  show "test_state (demo_state [b] st)" using assms
    by (auto simp: test_state_def ct_wf_def demo_state_def IsCode_at_def NewCode_single Accounts_GetCode_def GetAccount_def
        intro!: exI [of _ "[b]"])
  show "no_cold_self_delegation (demo_state [b] st)"
    by (simp add: demo_state_def no_cold_self_delegation_def coldSelfDelegation_def delegate_def
        Accounts_GetCode_def GetAccount_def ParseDelegationDesignator_def)
qed

text \<open>
  C1: The short-form interpreter passes every test of the specification. For every rule of
  \<open>getAllRules\<close> and every test state on which the condition of the rule holds, one step of the
  interpreter through the adapter \<open>StepN\<close> ends without a panic in a state that is equal, in
  the sense of \<open>State.Eq\<close>, to the state that the effect of the rule gives. The premise on
  delegations excludes a state in which a cold account delegates to itself.
\<close>

theorem sfvm_conforms:
  assumes "uint256_arith U" and "test_state s" and "no_cold_self_delegation s"
    and "r \<in> set (getAllRules U K)" and "holds (r_Condition r) s"
  shows "passes U K r s"
  using uint256_arith.conforms_all [OF assms(1), of K] assms(2-5) by (simp add: conforms_if_def)

text \<open>The regular rule of \<open>ADD\<close> on a state with two operands.\<close>

theorem sfvm_conforms_witness:
  "\<exists>r \<in> set (getAllRules word_uint256 (\<lambda>_. 0)). holds (r_Condition r) (demo_state [0x01] [3, 4]) \<and>
     r_Effect r (demo_state [0x01] [3, 4]) = ret () ((demo_state [0x01] [7])\<lparr>st_Gas := 7, st_Pc := 1\<rparr>) \<and>
     passes word_uint256 (\<lambda>_. 0) r (demo_state [0x01] [3, 4])"
proof -
  let ?s = "demo_state [0x01] [3, 4]"
  let ?r = "last (binaryOp ADD 3 (u_Add word_uint256))"
  have "test_state ?s" "no_cold_self_delegation ?s" by (rule demo_state_ok; simp)+
  moreover have "?r \<in> set (getAllRules word_uint256 (\<lambda>_. 0))"
    by (simp add: getAllRules_def arithmeticRules_def binaryOp_def binaryOpWithDynamicCost_def rulesFor_def)
  moreover have h: "holds (r_Condition ?r) ?s"
    by (simp add: binaryOp_def binaryOpWithDynamicCost_def rulesFor_def regularRule_def demo_state_def Eq_def Ge_def Le_def
        Status_def Op_def Pc_def GasExpr_def StackSize_def AnyKnownRevision_def RevisionBounds_def GetOperation_def IsCode_at_def
        NewCode_single NewU256_def SetUint64_def Uint64_def IsUint64_def)
  ultimately have "passes word_uint256 (\<lambda>_. 0) ?r ?s"
    using sfvm_conforms [OF word_uint256.uint256_arith_axioms, of ?s ?r "\<lambda>_. 0"] by blast
  moreover have "r_Effect ?r ?s = ret () ((demo_state [0x01] [7])\<lparr>st_Gas := 7, st_Pc := 1\<rparr>)"
    by (simp add: binaryOp_def binaryOpWithDynamicCost_def rulesFor_def regularRule_def demo_state_def Stack_Pop_def Stack_Push_def
        word_uint256_def spendGas_def)
  ultimately show ?thesis using \<open>?r \<in> _\<close> h by blast
qed

section \<open>Consistency of the rules\<close>

text \<open>The equality of states is an equivalence relation.\<close>

lemma mapEqual_iff: "mapEqualIgnoringZeroValues a b \<longleftrightarrow> (\<forall>key. lookup0 a key = lookup0 b key)"
proof -
  have "lookup0 a key = lookup0 b key \<longleftrightarrow>
      (\<forall>valueA. a key = Some valueA \<longrightarrow> \<not> (b key = None \<and> valueA \<noteq> 0) \<and> valueA = lookup0 b key) \<and>
      (\<forall>valueB. b key = Some valueB \<longrightarrow> \<not> (a key = None \<and> valueB \<noteq> 0))" for key
    by (cases "a key"; cases "b key") (auto simp: lookup0_def)
  then show ?thesis unfolding mapEqualIgnoringZeroValues_def by blast
qed

lemma mapEqual_trans:
  "mapEqualIgnoringZeroValues a b \<Longrightarrow> mapEqualIgnoringZeroValues a c \<Longrightarrow> mapEqualIgnoringZeroValues b c"
  by (simp add: mapEqual_iff)

lemma Storage_Eq_trans: "Storage_Eq a b \<Longrightarrow> Storage_Eq a c \<Longrightarrow> Storage_Eq b c"
  by (auto simp: Storage_Eq_def intro: mapEqual_trans)

lemma Accounts_Eq_trans: "Accounts_Eq a b \<Longrightarrow> Accounts_Eq a c \<Longrightarrow> Accounts_Eq b c"
  by (auto simp: Accounts_Eq_def)

lemma HashArray_Equal_trans: "HashArray_Equal a b \<Longrightarrow> HashArray_Equal a c \<Longrightarrow> HashArray_Equal b c"
  by (auto simp: HashArray_Equal_def split: option.splits)

lemma State_Eq_trans: "State_Eq a b \<Longrightarrow> State_Eq a c \<Longrightarrow> State_Eq b c"
  by (auto simp: State_Eq_def Let_def Code_Length_def intro: mapEqual_trans Storage_Eq_trans Accounts_Eq_trans HashArray_Equal_trans
    split: if_splits)

lemma passes_E:
  assumes "passes U K r s"
  obtains t res where "r_Effect r s = ret () t" "StepN U K s 1 = Some (Ret (res, False))" "State_Eq res t"
  using assms by (auto simp: passes_def ret_def split: prod.splits sum.splits option.splits go.splits)

text \<open>
  C2: The specification is consistent: if the conditions of two rules hold on a test state,
  neither effect panics and the two expected states are equal in the sense of \<open>State.Eq\<close>.
  It does therefore not matter that the driver of the tests takes the first of the matching
  rules.
\<close>

theorem rules_consistent:
  assumes "uint256_arith U" and "test_state s" and "no_cold_self_delegation s"
    and "r \<in> set (getAllRules U K)" and "holds (r_Condition r) s"
    and "q \<in> set (getAllRules U K)" and "holds (r_Condition q) s"
  shows "\<exists>t u. r_Effect r s = ret () t \<and> r_Effect q s = ret () u \<and> State_Eq t u"
proof -
  have "passes U K r s" "passes U K q s"
    using uint256_arith.conforms_all [OF assms(1), of K] assms(2-7) by (simp_all add: conforms_if_def)
  then show ?thesis by (elim passes_E) (auto intro: State_Eq_trans)
qed

text \<open>A \<open>SHA3\<close> without operands and without enough gas: two rules of failures hold.\<close>

theorem rules_consistent_witness:
  "\<exists>t u. r_Effect (sha3Rules (\<lambda>_. 0) ! 0) (demo_state [0x20] []) = ret () t \<and>
     r_Effect (sha3Rules (\<lambda>_. 0) ! 1) (demo_state [0x20] []) = ret () u \<and> State_Eq t u"
proof (rule rules_consistent [OF word_uint256.uint256_arith_axioms, where K = "\<lambda>_. 0"])
  show "test_state (demo_state [0x20] [])" "no_cold_self_delegation (demo_state [0x20] [])"
    by (rule demo_state_ok; simp)+
  show "sha3Rules (\<lambda>_. 0) ! 0 \<in> set (getAllRules word_uint256 (\<lambda>_. 0))" "sha3Rules (\<lambda>_. 0) ! 1 \<in> set (getAllRules word_uint256 (\<lambda>_. 0))"
    by (simp_all add: getAllRules_def sha3Rules_def rulesFor_def tooLittleGas_def tooFewElements_def)
  show "holds (r_Condition (sha3Rules (\<lambda>_. 0) ! 0)) (demo_state [0x20] [])" "holds (r_Condition (sha3Rules (\<lambda>_. 0) ! 1)) (demo_state [0x20] [])"
    by (simp_all add: sha3Rules_def rulesFor_def tooLittleGas_def tooFewElements_def demo_state_def NewCode_single Eq_def Lt_def
        Status_def Op_def Pc_def GasExpr_def StackSize_def AnyKnownRevision_def RevisionBounds_def GetOperation_def IsCode_at_def
        IsCode_def NewU256_def SetUint64_def Uint64_def IsUint64_def)
qed

section \<open>Self-delegation\<close>

text \<open>
  A cold account that delegates to itself: the specification charges two cold accesses, the
  interpreter a cold and a warm one.
\<close>

lemma cold_self_delegation_differs:
  assumes "coldSelfDelegation a (world c)" and "\<And>rv. isAtLeast c rv \<longleftrightarrow> rv \<le> st_Revision (world c)" and "0 \<le> gas c"
  shows "fst (delegationCost a (world c)) = 2600"
    "chargeDelegation (ct_env U K) a (c\<lparr>world := accessed a (world c)\<rparr>) =
     useGas 100 (c\<lparr>world := accessed a (world c)\<rparr>)"
proof -
  show "fst (delegationCost a (world c)) = 2600"
    using assms(1) by (auto simp: delegationCost_eq delegateCost_def coldSelfDelegation_def accessCost_def)
  have "R09_Berlin \<le> st_Revision (world c)" "delegate a (world c) = Some a"
    using assms(1) delegate_prague by (auto simp: coldSelfDelegation_def)
  then have "delegateCost a (accessed a (world c)) = 100" "delegated a (accessed a (world c)) = accessed a (world c)"
    by (auto simp: delegateCost_def delegated_def accessCost_def accessed_def)
  then show "chargeDelegation (ct_env U K) a (c\<lparr>world := accessed a (world c)\<rparr>) =
     useGas 100 (c\<lparr>world := accessed a (world c)\<rparr>)"
    using assms(2,3) by (subst chargeDelegation_ct) (simp_all add: isAtLeast_def)
qed

end
