(* ===== verification/Ct_Solvers.thy ===== *)
theory Ct_Solvers
  imports Prelude
begin

text \<open>
  The solvers behind the generation of test states (\<open>go/ct/gen/interval_solver.go\<close>,
  \<open>go/ct/gen/range_solver.go\<close>): conjunctions of bounds on a variable. The interval solver is
  used with \<open>uint64\<close> only, its values are words; the range solver is used with signed and
  unsigned types, its values are integers that a conversion keeps in the range of the type.
\<close>

section \<open>The interval solver\<close>

record interval =
  iv_low :: u64
  iv_high :: u64

definition iv_contains :: "interval \<Rightarrow> u64 \<Rightarrow> bool" where
  "iv_contains i x \<longleftrightarrow> iv_low i \<le> x \<and> x \<le> iv_high i"

definition iv_isEmpty :: "interval \<Rightarrow> bool" where
  "iv_isEmpty i \<longleftrightarrow> iv_high i < iv_low i"

datatype relation = isEqual | isBefore | isAfter | isSubset | isSuperset | intersectsWithStart | intersectsWithEnd

definition getRelationTo :: "interval \<Rightarrow> interval \<Rightarrow> relation" where
  "getRelationTo i oth =
     (if i = oth then isEqual
      else if iv_high i < iv_low oth then isBefore
      else if iv_high oth < iv_low i then isAfter
      else if iv_low i < iv_low oth \<and> iv_high oth < iv_high i then isSubset
      else if iv_low oth \<le> iv_low i \<and> iv_high i \<le> iv_high oth then isSuperset
      else if iv_low oth \<le> iv_high i \<and> iv_high i \<le> iv_high oth then intersectsWithEnd
      else intersectsWithStart)"

record IntervalSolver =
  is_intervals :: "interval list"

definition NewIntervalSolver :: "u64 \<Rightarrow> u64 \<Rightarrow> IntervalSolver" where
  "NewIntervalSolver mn mx =
     (let initialInterval = \<lparr>iv_low = mn, iv_high = mx\<rparr> in
      if iv_isEmpty initialInterval then \<lparr>is_intervals = []\<rparr> else \<lparr>is_intervals = [initialInterval]\<rparr>)"

text \<open>The body of the loop of \<open>Exclude\<close>: what is left of an interval.\<close>

definition exclude_one :: "u64 \<Rightarrow> u64 \<Rightarrow> interval \<Rightarrow> interval list" where
  "exclude_one mn mx current =
     (let newLeft = \<lparr>iv_low = iv_low current, iv_high = mn - 1\<rparr>;
          newRight = \<lparr>iv_low = mx + 1, iv_high = iv_high current\<rparr> in
      case getRelationTo current \<lparr>iv_low = mn, iv_high = mx\<rparr> of
        isEqual \<Rightarrow> []
      | isSubset \<Rightarrow> [newLeft, newRight]
      | isSuperset \<Rightarrow> []
      | intersectsWithStart \<Rightarrow> [newRight]
      | intersectsWithEnd \<Rightarrow> [newLeft]
      | _ \<Rightarrow> [current])"

definition Exclude :: "u64 \<Rightarrow> u64 \<Rightarrow> IntervalSolver \<Rightarrow> IntervalSolver" where
  "Exclude mn mx s =
     (if mx < mn then s else s\<lparr>is_intervals := concat (map (exclude_one mn mx) (is_intervals s))\<rparr>)"

definition Contains :: "IntervalSolver \<Rightarrow> u64 \<Rightarrow> bool" where
  "Contains s value \<longleftrightarrow> list_ex (\<lambda>i. iv_contains i value) (is_intervals s)"

definition is_AddLowerBoundary :: "u64 \<Rightarrow> IntervalSolver \<Rightarrow> IntervalSolver" where
  "is_AddLowerBoundary value s =
     (if is_intervals s = [] then s
      else let mn = iv_low (hd (is_intervals s)) in
        if value \<le> mn then s else Exclude mn (value - 1) s)"

definition is_AddUpperBoundary :: "u64 \<Rightarrow> IntervalSolver \<Rightarrow> IntervalSolver" where
  "is_AddUpperBoundary value s =
     (if is_intervals s = [] then s
      else let mx = iv_high (last (is_intervals s)) in
        if mx \<le> value then s else Exclude (value + 1) mx s)"

definition is_AddEqualityConstraint :: "u64 \<Rightarrow> IntervalSolver \<Rightarrow> IntervalSolver" where
  "is_AddEqualityConstraint value s = is_AddLowerBoundary value (is_AddUpperBoundary value s)"

definition is_IsSatisfiable :: "IntervalSolver \<Rightarrow> bool" where
  "is_IsSatisfiable s \<longleftrightarrow> is_intervals s \<noteq> []"

text \<open>The random numbers that the generator gets: one of all, one below a bound.\<close>

record rand =
  rnd_Uint64 :: u64
  rnd_Uint64n :: "u64 \<Rightarrow> u64"

datatype gen_error = ErrUnsatisfiable | InternalError

definition iv_size :: "interval \<Rightarrow> u64" where
  "iv_size i = iv_high i - iv_low i + 1"

fun sample_interval :: "interval list \<Rightarrow> u64 \<Rightarrow> gen_error + u64" where
  "sample_interval [] sample = Inl InternalError"
| "sample_interval (i # is) sample =
     (if sample < iv_size i then Inr (iv_low i + sample) else sample_interval is (sample - iv_size i))"

definition is_Generate :: "rand \<Rightarrow> IntervalSolver \<Rightarrow> gen_error + u64" where
  "is_Generate rnd s =
     (if is_intervals s = [] then Inl ErrUnsatisfiable
      else
        let domainSize = sum_list (map iv_size (is_intervals s)) in
        if domainSize = 0 then Inr (rnd_Uint64 rnd)
        else sample_interval (is_intervals s) (rnd_Uint64n rnd domainSize))"

subsection \<open>Intervals and the sets they stand for\<close>

lemma word_pred_le: "m < n \<Longrightarrow> x \<le> n - 1 \<longleftrightarrow> x < n" for m :: u64
  by unat_arith

lemma word_succ_le: "m < n \<Longrightarrow> m + 1 \<le> x \<longleftrightarrow> m < x" for m :: u64
  by unat_arith

definition iv_sorted :: "interval list \<Rightarrow> bool" where
  "iv_sorted is \<longleftrightarrow> sorted_wrt (\<lambda>i j. iv_high i < iv_low j) is \<and> (\<forall>i \<in> set is. iv_low i \<le> iv_high i)"

definition solutions :: "IntervalSolver \<Rightarrow> u64 set" where
  "solutions s = {x. Contains s x}"

lemma solutions_eq: "solutions s = (\<Union>i \<in> set (is_intervals s). {iv_low i .. iv_high i})"
  by (auto simp: solutions_def Contains_def list_ex_iff iv_contains_def)

lemma solutions_Nil: "is_intervals s = [] \<Longrightarrow> solutions s = {}"
  by (simp add: solutions_eq)

lemma exclude_one_spec:
  assumes "mn \<le> mx" and "iv_low i \<le> iv_high i"
  shows "(\<Union>j \<in> set (exclude_one mn mx i). {iv_low j .. iv_high j}) = {iv_low i .. iv_high i} - {mn .. mx}"
    and "iv_sorted (exclude_one mn mx i)"
    and "\<forall>j \<in> set (exclude_one mn mx i). iv_low i \<le> iv_low j \<and> iv_high j \<le> iv_high i"
proof -
  let ?r = "getRelationTo i \<lparr>iv_low = mn, iv_high = mx\<rparr>"
  have "(\<Union>j \<in> set (exclude_one mn mx i). {iv_low j .. iv_high j}) = {iv_low i .. iv_high i} - {mn .. mx} \<and>
     iv_sorted (exclude_one mn mx i) \<and> (\<forall>j \<in> set (exclude_one mn mx i). iv_low i \<le> iv_low j \<and> iv_high j \<le> iv_high i)"
  proof (cases ?r)
    case isSubset
    then have l: "iv_low i < mn" "mx < iv_high i" by (auto simp: getRelationTo_def split: if_splits)
    have "mn - 1 < mn" "mx < mx + 1" using l by unat_arith+
    then have "mn - 1 < mx + 1" "mn - 1 \<le> iv_high i" "iv_low i \<le> mx + 1" using assms l by order+
    then show ?thesis using assms l isSubset
      by (auto simp: exclude_one_def iv_sorted_def word_pred_le [OF l(1)] word_succ_le [OF l(2)] not_le not_less)
  next
    case intersectsWithStart
    then have l: "mx < iv_high i" "mn \<le> iv_low i" "iv_low i \<le> mx" by (auto simp: getRelationTo_def not_le not_less split: if_splits)
    then have "iv_low i \<le> mx + 1" by unat_arith
    then show ?thesis using assms l intersectsWithStart
      by (auto simp: exclude_one_def iv_sorted_def word_succ_le [OF l(1)] not_le not_less)
  next
    case intersectsWithEnd
    then have l: "iv_low i < mn" "mn \<le> iv_high i" "iv_high i \<le> mx" by (auto simp: getRelationTo_def not_le not_less split: if_splits)
    then have "mn - 1 \<le> iv_high i" by unat_arith
    then show ?thesis using assms l intersectsWithEnd
      by (auto simp: exclude_one_def iv_sorted_def word_pred_le [OF l(1)] not_le not_less)
  qed (use assms in \<open>auto simp: exclude_one_def iv_sorted_def getRelationTo_def split: if_splits\<close>)
  then show "(\<Union>j \<in> set (exclude_one mn mx i). {iv_low j .. iv_high j}) = {iv_low i .. iv_high i} - {mn .. mx}"
    "iv_sorted (exclude_one mn mx i)"
    "\<forall>j \<in> set (exclude_one mn mx i). iv_low i \<le> iv_low j \<and> iv_high j \<le> iv_high i" by blast+
qed

lemma exclude_all:
  assumes "mn \<le> mx" and "iv_sorted is"
  shows "(\<Union>j \<in> set (concat (map (exclude_one mn mx) is)). {iv_low j .. iv_high j}) = (\<Union>i \<in> set is. {iv_low i .. iv_high i}) - {mn .. mx} \<and>
    iv_sorted (concat (map (exclude_one mn mx) is))"
  using assms(2)
proof (induction "is")
  case (Cons i "is")
  have i: "iv_low i \<le> iv_high i" "iv_sorted is" "\<forall>j \<in> set is. iv_high i < iv_low j" using Cons.prems by (auto simp: iv_sorted_def)
  note one = exclude_one_spec [OF assms(1) i(1)]
  have "iv_high a < iv_low b" if "a \<in> set (exclude_one mn mx i)" "j \<in> set is" "b \<in> set (exclude_one mn mx j)" for a b j
  proof -
    have "iv_low j \<le> iv_high j" using i(2) that(2) by (auto simp: iv_sorted_def)
    then have "iv_low j \<le> iv_low b" using exclude_one_spec(3) [OF assms(1)] that(3) by blast
    moreover have "iv_high a \<le> iv_high i" using one(3) that(1) by blast
    ultimately show ?thesis using i(3) that(2) by (meson le_less_trans less_le_trans)
  qed
  then show ?case using Cons.IH [OF i(2)] one(1,2) by (auto simp: iv_sorted_def sorted_wrt_append)
qed (simp add: iv_sorted_def)

lemma Exclude_spec:
  assumes "iv_sorted (is_intervals s)"
  shows "solutions (Exclude mn mx s) = solutions s - {mn .. mx}" "iv_sorted (is_intervals (Exclude mn mx s))"
  using exclude_all [of mn mx "is_intervals s"] assms by (auto simp: Exclude_def solutions_eq not_less)

lemma solutions_bounds:
  assumes "iv_sorted (is_intervals s)" and "x \<in> solutions s"
  shows "iv_low (hd (is_intervals s)) \<le> x" "x \<le> iv_high (last (is_intervals s))"
proof -
  obtain i where i: "i \<in> set (is_intervals s)" "iv_low i \<le> x" "x \<le> iv_high i" using assms(2) by (auto simp: solutions_eq)
  have "iv_low (hd is) \<le> iv_low i \<and> iv_high i \<le> iv_high (last is)" if "iv_sorted is" "i \<in> set is" for "is"
    using that
  proof (induction "is")
    case (Cons j "is")
    have r: "iv_sorted is" "iv_low j \<le> iv_high j" "\<forall>k \<in> set is. iv_high j < iv_low k \<and> iv_low k \<le> iv_high k"
      using Cons.prems(1) by (auto simp: iv_sorted_def)
    show ?case
    proof (cases "is = []")
      case False
      have "iv_high j \<le> iv_high (last is)" using r(3) last_in_set [OF False] by (meson less_imp_le order_trans)
      moreover have "i \<in> set is \<Longrightarrow> iv_low j \<le> iv_low i" using r(2,3) by (meson less_imp_le order_trans)
      ultimately show ?thesis using Cons False r(1) by auto
    qed (use Cons.prems in simp)
  qed simp
  from this [OF assms(1) i(1)] i(2,3) show "iv_low (hd (is_intervals s)) \<le> x" "x \<le> iv_high (last (is_intervals s))" by auto
qed

lemma is_AddLowerBoundary_spec:
  assumes "iv_sorted (is_intervals s)"
  shows "solutions (is_AddLowerBoundary v s) = {x \<in> solutions s. v \<le> x}" "iv_sorted (is_intervals (is_AddLowerBoundary v s))"
proof -
  show "solutions (is_AddLowerBoundary v s) = {x \<in> solutions s. v \<le> x}"
    using assms solutions_bounds(1) [OF assms]
    by (auto simp: is_AddLowerBoundary_def Let_def Exclude_spec word_pred_le not_le not_less solutions_Nil
      dest: order_trans split: if_splits)
  show "iv_sorted (is_intervals (is_AddLowerBoundary v s))"
    using assms by (auto simp: is_AddLowerBoundary_def Let_def Exclude_spec)
qed

lemma is_AddUpperBoundary_spec:
  assumes "iv_sorted (is_intervals s)"
  shows "solutions (is_AddUpperBoundary v s) = {x \<in> solutions s. x \<le> v}" "iv_sorted (is_intervals (is_AddUpperBoundary v s))"
proof -
  show "solutions (is_AddUpperBoundary v s) = {x \<in> solutions s. x \<le> v}"
    using assms solutions_bounds(2) [OF assms]
    by (auto simp: is_AddUpperBoundary_def Let_def Exclude_spec word_succ_le not_le not_less solutions_Nil
      dest: order_trans split: if_splits)
  show "iv_sorted (is_intervals (is_AddUpperBoundary v s))"
    using assms by (auto simp: is_AddUpperBoundary_def Let_def Exclude_spec)
qed

subsection \<open>Samples\<close>

lemma unat_iv_size:
  assumes "iv_low i \<le> iv_high i"
  shows "unat (iv_size i) = (unat (iv_high i) - unat (iv_low i) + 1) mod 2 ^ 64"
proof -
  have "unat (iv_high i - iv_low i) = unat (iv_high i) - unat (iv_low i)" using assms by (rule unat_sub)
  then show ?thesis by (simp add: iv_size_def unat_word_ariths)
qed

text \<open>The number of solutions at or above \<open>b\<close>, and that it is maximal only for all of them.\<close>

definition iv_count :: "interval list \<Rightarrow> nat" where
  "iv_count is = sum_list (map (\<lambda>i. unat (iv_high i) - unat (iv_low i) + 1) is)"

lemma iv_count_bound:
  assumes "iv_sorted is" and "\<forall>i \<in> set is. b \<le> unat (iv_low i)" and "b \<le> 2 ^ 64"
  shows "iv_count is + b \<le> 2 ^ 64"
    and "iv_count is + b = 2 ^ 64 \<Longrightarrow> b \<le> unat x \<Longrightarrow> \<exists>i \<in> set is. iv_contains i x"
proof -
  have "iv_count is + b \<le> 2 ^ 64 \<and> (iv_count is + b = 2 ^ 64 \<longrightarrow> b \<le> unat x \<longrightarrow> (\<exists>i \<in> set is. iv_contains i x))"
    using assms
  proof (induction "is" arbitrary: b)
    case Nil
    have "\<not> 18446744073709551616 \<le> unat x" by (simp only: not_le unat_u64_bound)
    then show ?case using Nil by (auto simp: iv_count_def)
  next
    case (Cons i "is")
    let ?h = "unat (iv_high i)" and ?l = "unat (iv_low i)"
    have i: "?l \<le> ?h" "iv_sorted is" "\<forall>j \<in> set is. ?h + 1 \<le> unat (iv_low j)" "b \<le> ?l" "?h + 1 \<le> 2 ^ 64"
      using Cons.prems unat_u64_bound [of "iv_high i"] by (auto simp: iv_sorted_def word_less_nat_alt word_le_nat_alt Suc_le_eq)
    note ih = Cons.IH [OF i(2,3,5)]
    have t: "iv_count (i # is) + b = (iv_count is + (?h + 1)) - (?l - b)" using i(1,4) by (simp add: iv_count_def)
    have "iv_count (i # is) + b \<le> 2 ^ 64" using t ih by linarith
    moreover have "\<exists>j \<in> set (i # is). iv_contains j x" if "iv_count (i # is) + b = 2 ^ 64" "b \<le> unat x"
    proof (cases "unat x \<le> ?h")
      case True
      have "?l = b" using t ih that(1) i(4) by linarith
      then show ?thesis using True that(2) by (auto simp: iv_contains_def word_le_nat_alt)
    next
      case False
      have "iv_count is + (?h + 1) = 2 ^ 64" using t ih that(1) by linarith
      then show ?thesis using ih False by auto
    qed
    ultimately show ?case by blast
  qed
  then show "iv_count is + b \<le> 2 ^ 64" "iv_count is + b = 2 ^ 64 \<Longrightarrow> b \<le> unat x \<Longrightarrow> \<exists>i \<in> set is. iv_contains i x" by blast+
qed

lemma unat_sum_sizes:
  assumes "\<forall>i \<in> set is. iv_low i \<le> iv_high i"
  shows "unat (sum_list (map iv_size is)) = iv_count is mod 2 ^ 64"
  using assms by (induction "is") (auto simp: iv_count_def unat_word_ariths unat_iv_size mod_simps)

text \<open>
  Below the total number of solutions the loop of \<open>Generate\<close> finds a solution, and every
  solution is found.
\<close>

lemma unat_iv_size_small:
  assumes "iv_low i \<le> iv_high i" and "iv_count (i # is) < 2 ^ 64"
  shows "unat (iv_size i) = unat (iv_high i) - unat (iv_low i) + 1" "iv_count (i # is) = unat (iv_size i) + iv_count is"
  using assms by (simp_all add: unat_iv_size iv_count_def)

lemma sample_interval_sound:
  assumes "\<forall>i \<in> set is. iv_low i \<le> iv_high i" and "iv_count is < 2 ^ 64" and "unat n < iv_count is"
  shows "\<exists>x. sample_interval is n = Inr x \<and> (\<exists>i \<in> set is. iv_contains i x)"
  using assms
proof (induction "is" arbitrary: n)
  case (Cons i "is")
  have l: "iv_low i \<le> iv_high i" using Cons.prems by simp
  note z = unat_iv_size_small [OF l Cons.prems(2)]
  show ?case
  proof (cases "n < iv_size i")
    case True
    then have "unat (iv_low i) + unat n \<le> unat (iv_high i)" using z(1) l by (simp add: word_less_nat_alt word_le_nat_alt)
    moreover from this have "unat (iv_low i) + unat n < 2 ^ 64"
      using le_less_trans [OF _ unat_u64_bound [of "iv_high i"]] by simp
    ultimately have "iv_contains i (iv_low i + n)"
      by (simp add: iv_contains_def word_le_nat_alt unat_word_ariths)
    then show ?thesis using True by auto
  next
    case False
    then have "unat (n - iv_size i) = unat n - unat (iv_size i)" by (intro unat_sub) simp
    then have "unat (n - iv_size i) < iv_count is" using False Cons.prems(3) z(2) by (simp add: word_less_nat_alt)
    moreover have "iv_count is < 2 ^ 64" "\<forall>i \<in> set is. iv_low i \<le> iv_high i" using Cons.prems(1,2) z(2) by simp_all
    ultimately show ?thesis using False Cons.IH [of "n - iv_size i"] by auto
  qed
qed (simp add: iv_count_def)

lemma sample_interval_complete:
  assumes "\<forall>i \<in> set is. iv_low i \<le> iv_high i" and "iv_count is < 2 ^ 64" and "\<exists>i \<in> set is. iv_contains i x"
  shows "\<exists>n. unat n < iv_count is \<and> sample_interval is n = Inr x"
  using assms
proof (induction "is")
  case (Cons i "is")
  have l: "iv_low i \<le> iv_high i" using Cons.prems by simp
  note z = unat_iv_size_small [OF l Cons.prems(2)]
  show ?case
  proof (cases "iv_contains i x")
    case True
    then have "unat (x - iv_low i) < unat (iv_size i)"
      using z(1) unat_sub [of "iv_low i" x] by (auto simp: iv_contains_def word_le_nat_alt)
    then show ?thesis using z(2) by (auto simp: word_less_nat_alt intro!: exI [of _ "x - iv_low i"])
  next
    case False
    then obtain n where n: "unat n < iv_count is" "sample_interval is n = Inr x" using Cons z(2) by auto
    have "unat (iv_size i + n) = unat (iv_size i) + unat n" using n(1) z(2) Cons.prems(2) by (simp add: unat_word_ariths)
    then show ?thesis using n z(2) by (auto simp: word_less_nat_alt intro!: exI [of _ "iv_size i + n"])
  qed
qed simp

text \<open>What \<open>Generate\<close> may return, over all random numbers.\<close>

definition rand_ok :: "rand \<Rightarrow> bool" where
  "rand_ok r \<longleftrightarrow> (\<forall>n. 0 < n \<longrightarrow> rnd_Uint64n r n < n)"

lemma is_Generate_set:
  assumes s: "iv_sorted (is_intervals s)" and ne: "is_intervals s \<noteq> []"
  shows "{is_Generate r s |r. rand_ok r} = Inr ` solutions s"
proof -
  let ?is = "is_intervals s" and ?n = "sum_list (map iv_size (is_intervals s))"
  have le: "\<forall>i \<in> set ?is. iv_low i \<le> iv_high i" using s by (simp add: iv_sorted_def)
  have sol: "x \<in> solutions s \<longleftrightarrow> (\<exists>i \<in> set ?is. iv_contains i x)" for x by (simp add: solutions_def Contains_def list_ex_iff)
  have b: "iv_count ?is \<le> 2 ^ 64" "iv_count ?is = 2 ^ 64 \<Longrightarrow> solutions s = UNIV" using iv_count_bound [OF s, of 0] sol by auto
  have pos: "0 < iv_count ?is" using ne by (cases ?is) (auto simp: iv_count_def)
  have z: "unat ?n = iv_count ?is mod 2 ^ 64" by (rule unat_sum_sizes [OF le])
  have r: "rand_ok \<lparr>rnd_Uint64 = x, rnd_Uint64n = (\<lambda>m. if n < m then n else 0)\<rparr>" for x n by (simp add: rand_ok_def)
  show ?thesis
  proof (cases "iv_count ?is = 2 ^ 64")
    case True
    then have "?n = 0" using z by (simp add: unat_eq_0)
    then have "is_Generate r s = Inr (rnd_Uint64 r)" for r using ne by (simp add: is_Generate_def)
    then show ?thesis using b(2) [OF True] r by (auto intro!: exI)
  next
    case False
    then have n: "unat ?n = iv_count ?is" "iv_count ?is < 2 ^ 64" "0 < ?n" using z b(1) pos by (auto simp: word_gt_0_no word_less_nat_alt)
    then have g: "is_Generate r s = sample_interval ?is (rnd_Uint64n r ?n)" for r using ne by (auto simp: is_Generate_def Let_def)
    have sound: "\<exists>x \<in> solutions s. is_Generate r s = Inr x" if "rand_ok r" for r
    proof -
      have "unat (rnd_Uint64n r ?n) < iv_count ?is" using that n(1,3) unfolding rand_ok_def word_less_nat_alt by metis
      from sample_interval_sound [OF le n(2) this] show ?thesis using g sol by auto
    qed
    have complete: "\<exists>r. rand_ok r \<and> is_Generate r s = Inr x" if x: "x \<in> solutions s" for x
    proof -
      obtain m where m: "unat m < iv_count ?is" "sample_interval ?is m = Inr x"
        using sample_interval_complete [OF le n(2), of x] x sol [of x] by auto
      then show ?thesis
        using r [of 0 m] g n(1) by (intro exI [of _ "\<lparr>rnd_Uint64 = 0, rnd_Uint64n = (\<lambda>k. if m < k then m else 0)\<rparr>"]) (simp add: word_less_nat_alt)
    qed
    show ?thesis
    proof (intro set_eqI iffI)
      fix y assume "y \<in> {is_Generate r s |r. rand_ok r}"
      then obtain r where "rand_ok r" "y = is_Generate r s" by auto
      then show "y \<in> Inr ` solutions s" using sound [of r] by auto
    next
      fix y :: "gen_error + u64" assume "y \<in> Inr ` solutions s"
      then obtain x where "x \<in> solutions s" "y = Inr x" by auto
      then show "y \<in> {is_Generate r s |r. rand_ok r}" using complete [of x] by (auto intro: sym)
    qed
  qed
qed

subsection \<open>Sequences of constraints\<close>

datatype constraint = NotIn u64 u64 | AtLeast u64 | AtMost u64 | Equals u64

fun add_constraint :: "constraint \<Rightarrow> IntervalSolver \<Rightarrow> IntervalSolver" where
  "add_constraint (NotIn mn mx) = Exclude mn mx"
| "add_constraint (AtLeast v) = is_AddLowerBoundary v"
| "add_constraint (AtMost v) = is_AddUpperBoundary v"
| "add_constraint (Equals v) = is_AddEqualityConstraint v"

fun satisfies :: "u64 \<Rightarrow> constraint \<Rightarrow> bool" where
  "satisfies x (NotIn mn mx) \<longleftrightarrow> \<not> (mn \<le> x \<and> x \<le> mx)"
| "satisfies x (AtLeast v) \<longleftrightarrow> v \<le> x"
| "satisfies x (AtMost v) \<longleftrightarrow> x \<le> v"
| "satisfies x (Equals v) \<longleftrightarrow> x = v"

lemma add_constraint_spec:
  assumes "iv_sorted (is_intervals s)"
  shows "solutions (add_constraint c s) = {x \<in> solutions s. satisfies x c}" "iv_sorted (is_intervals (add_constraint c s))"
  using assms
  by (cases c; auto simp: Exclude_spec is_AddLowerBoundary_spec is_AddUpperBoundary_spec is_AddEqualityConstraint_def)+

lemma fold_constraints:
  "iv_sorted (is_intervals s) \<Longrightarrow>
   solutions (fold add_constraint cs s) = {x \<in> solutions s. \<forall>c \<in> set cs. satisfies x c} \<and>
   iv_sorted (is_intervals (fold add_constraint cs s))"
  by (induction cs arbitrary: s) (auto simp: add_constraint_spec)

lemma NewIntervalSolver_spec:
  "solutions (NewIntervalSolver mn mx) = {mn .. mx}" "iv_sorted (is_intervals (NewIntervalSolver mn mx))"
  by (auto simp: NewIntervalSolver_def iv_isEmpty_def solutions_eq iv_sorted_def not_less)

lemma satisfiable_iff:
  assumes "iv_sorted (is_intervals s)"
  shows "is_intervals s = [] \<longleftrightarrow> solutions s = {}"
  using assms by (cases "is_intervals s") (auto simp: solutions_eq iv_sorted_def)

text \<open>
  C31: the interval solver decides sequences of constraints and generates exactly their
  solutions. After any sequence of exclusions, bounds and equalities the solver is
  unsatisfiable exactly if no number satisfies all constraints; then \<open>Generate\<close> returns an
  error. Otherwise the numbers it may return, over all random numbers, are the numbers that
  satisfy all constraints, and the internal error at its end is never reached, although sizes
  of intervals and their sum are computed modulo \<open>2^64\<close>.
\<close>

theorem interval_solver_exact:
  "let s = fold add_constraint cs (NewIntervalSolver mn mx);
       sols = {x. mn \<le> x \<and> x \<le> mx \<and> list_all (satisfies x) cs} in
   (is_IsSatisfiable s \<longleftrightarrow> sols \<noteq> {}) \<and>
   {is_Generate r s |r. rand_ok r} = (if sols = {} then {Inl ErrUnsatisfiable} else Inr ` sols)"
proof -
  let ?s = "fold add_constraint cs (NewIntervalSolver mn mx)"
  have s: "solutions ?s = {x. mn \<le> x \<and> x \<le> mx \<and> list_all (satisfies x) cs}" "iv_sorted (is_intervals ?s)"
    using fold_constraints [OF NewIntervalSolver_spec(2)] by (auto simp: NewIntervalSolver_spec list_all_iff)
  have "\<exists>r. rand_ok r" by (rule exI [of _ "\<lparr>rnd_Uint64 = 0, rnd_Uint64n = (\<lambda>_. 0)\<rparr>"]) (simp add: rand_ok_def)
  then have "{is_Generate r ?s |r. rand_ok r} = (if solutions ?s = {} then {Inl ErrUnsatisfiable} else Inr ` solutions ?s)"
    using is_Generate_set [OF s(2)] satisfiable_iff [OF s(2)] by (auto simp: is_Generate_def)
  then show ?thesis unfolding s(1) Let_def is_IsSatisfiable_def using satisfiable_iff [OF s(2)] s(1) by simp
qed

section \<open>The range solver\<close>

text \<open>\<open>conv\<close> is the conversion of an integer to the type parameter of the solver.\<close>

record RangeSolver =
  rs_min :: int
  rs_max :: int

definition rs_AddLowerBoundary :: "int \<Rightarrow> RangeSolver \<Rightarrow> RangeSolver" where
  "rs_AddLowerBoundary mn s = (if rs_min s < mn then s\<lparr>rs_min := mn\<rparr> else s)"

definition rs_AddUpperBoundary :: "int \<Rightarrow> RangeSolver \<Rightarrow> RangeSolver" where
  "rs_AddUpperBoundary mx s = (if mx < rs_max s then s\<lparr>rs_max := mx\<rparr> else s)"

definition rs_AddEqualityConstraint :: "int \<Rightarrow> RangeSolver \<Rightarrow> RangeSolver" where
  "rs_AddEqualityConstraint value s = rs_AddUpperBoundary value (rs_AddLowerBoundary value s)"

definition rs_IsSatisfiable :: "RangeSolver \<Rightarrow> bool" where
  "rs_IsSatisfiable s \<longleftrightarrow> rs_min s \<le> rs_max s"

definition rs_Generate :: "(int \<Rightarrow> int) \<Rightarrow> rand \<Rightarrow> RangeSolver \<Rightarrow> gen_error + int" where
  "rs_Generate conv rnd s =
     (if rs_max s < rs_min s then Inl ErrUnsatisfiable
      else
        let diff = conv (rs_max s - rs_min s) in
        if word_of_int diff = (- 1 :: u64) then Inr (conv (uint (rnd_Uint64 rnd)))
        else Inr (conv (conv (uint (rnd_Uint64n rnd (word_of_int diff + 1))) + rs_min s)))"

text \<open>The 64-bit integer types: the conversion reduces modulo \<open>2^64\<close> to the range from \<open>lo\<close>.\<close>

locale int_type =
  fixes conv :: "int \<Rightarrow> int" and lo :: int
  assumes conv_eq: "conv x = (x - lo) mod 2 ^ 64 + lo"
begin

lemma conv_range: "lo \<le> conv x" "conv x < lo + 2 ^ 64"
  by (simp_all add: conv_eq)

lemma conv_id: "lo \<le> x \<Longrightarrow> x < lo + 2 ^ 64 \<Longrightarrow> conv x = x"
  by (simp add: conv_eq)

lemma conv_mod: "conv x mod 2 ^ 64 = x mod 2 ^ 64"
  by (simp add: conv_eq mod_add_left_eq)

lemma conv_add: "conv (conv x + y) = conv (x + y)"
proof -
  have "(conv x + y - lo) mod 2 ^ 64 = (x + y - lo) mod 2 ^ 64"
    using conv_mod [of x] by (metis add_diff_eq mod_add_left_eq)
  then show ?thesis by (simp add: conv_eq)
qed

lemma word_conv: "(word_of_int (conv x) :: u64) = word_of_int x"
  using conv_mod [of x] by (simp add: word_of_int_eq_iff take_bit_eq_mod)

lemma rs_Generate_range:
  assumes s: "lo \<le> rs_min s" "rs_min s \<le> rs_max s" "rs_max s < lo + 2 ^ 64" and r: "rand_ok r"
  shows "\<exists>x. rs_Generate conv r s = Inr x \<and> rs_min s \<le> x \<and> x \<le> rs_max s"
proof -
  define d where "d = rs_max s - rs_min s"
  let ?w = "word_of_int d :: u64"
  have w: "uint ?w = d" using s by (simp add: d_def uint_word_of_int del: of_int_diff)
  show ?thesis
  proof (cases "?w = - 1")
    case True
    then have "d = 2 ^ 64 - 1" using w by (simp add: unsigned_minus_1_eq_mask mask_eq_exp_minus_1)
    then have "rs_min s = lo" "rs_max s = lo + 2 ^ 64 - 1" using s by (simp_all add: d_def)
    then show ?thesis
      using True s conv_range [of "uint (rnd_Uint64 r)"] by (simp add: rs_Generate_def word_conv Let_def flip: d_def)
  next
    case False
    have nz: "?w + 1 \<noteq> 0" using False by (metis add.commute add_eq_0_iff)
    then have "uint (?w + 1) = d + 1" using w by (simp add: uint_nat unatSuc add.commute [of _ 1] del: of_nat_unat)
    moreover have "rnd_Uint64n r (?w + 1) < ?w + 1" using r nz by (simp add: rand_ok_def word_neq_0_conv)
    ultimately have "uint (rnd_Uint64n r (?w + 1)) \<le> d" by (simp add: word_less_def)
    then have y: "uint (rnd_Uint64n r (?w + 1)) + rs_min s \<le> rs_max s" "rs_min s \<le> uint (rnd_Uint64n r (?w + 1)) + rs_min s"
      by (simp_all add: d_def del: of_int_diff)
    then have "conv (uint (rnd_Uint64n r (?w + 1)) + rs_min s) = uint (rnd_Uint64n r (?w + 1)) + rs_min s"
      using s by (intro conv_id) linarith+
    moreover have "rs_Generate conv r s = Inr (conv (uint (rnd_Uint64n r (?w + 1)) + rs_min s))"
      using s(2) False unfolding rs_Generate_def d_def [symmetric] word_conv Let_def conv_add by simp
    ultimately show ?thesis using y by auto
  qed
qed

end

definition uint64 :: "int \<Rightarrow> int" where
  "uint64 x = x mod 2 ^ 64"

interpretation signed64: int_type int64 "- (2 ^ 63)"
  by unfold_locales (simp add: int64_def)

interpretation unsigned64: int_type uint64 0
  by unfold_locales (simp add: uint64_def)

text \<open>Bounds of gas and of its refund, as the generator of states uses the solver.\<close>

lemma gas_in_bounds:
  assumes "rand_ok r" and "\<bar>m\<bar> \<le> 500000000000"
  shows "\<exists>g. rs_Generate int64 r (rs_AddLowerBoundary m \<lparr>rs_min = - 500000000000, rs_max = 500000000000\<rparr>) = Inr g \<and>
    m \<le> g \<and> g \<le> 500000000000"
  using signed64.rs_Generate_range [of "rs_AddLowerBoundary m \<lparr>rs_min = - 500000000000, rs_max = 500000000000\<rparr>" r] assms
  by (auto simp: rs_AddLowerBoundary_def split: if_splits)

end
