(* ===== verification/Ct_Domains.thy ===== *)
theory Ct_Domains
  imports Ct_Rules Ct_Solvers
begin

text \<open>
  The domains of the values that conditions compare (\<open>go/ct/rlz/domains.go\<close>), the samples of
  operation parameters (\<open>go/ct/rlz/parameters.go\<close>), and the restrictions that conditions on
  gas and stack size put on the generator of test states (\<open>go/ct/rlz/conditions.go\<close>,
  \<open>go/ct/rlz/expressions.go\<close>).
\<close>

section \<open>Domains\<close>

text \<open>The interface \<open>Domain\<close>; methods that are \<open>not useful\<close> or \<open>not implemented\<close> panic.\<close>

record 'a Domain =
  dm_Equal :: "'a \<Rightarrow> 'a \<Rightarrow> bool"
  dm_Less :: "'a \<Rightarrow> 'a \<Rightarrow> bool go"
  dm_Predecessor :: "'a \<Rightarrow> 'a go"
  dm_Successor :: "'a \<Rightarrow> 'a go"
  dm_SomethingNotEqual :: "'a \<Rightarrow> 'a"
  dm_Samples :: "'a \<Rightarrow> 'a list go"
  dm_SamplesForAll :: "'a list \<Rightarrow> 'a list go"

fun dedup_loop :: "'a set \<Rightarrow> 'a list \<Rightarrow> 'a list" where
  "dedup_loop seen [] = []"
| "dedup_loop seen (x # xs) = (if x \<in> seen then dedup_loop seen xs else x # dedup_loop (insert x seen) xs)"

definition removeDuplicatesGeneric :: "'a list \<Rightarrow> 'a list" where
  "removeDuplicatesGeneric xs = dedup_loop {} xs"

definition off_by_one :: "('a \<Rightarrow> 'a) \<Rightarrow> ('a \<Rightarrow> 'a) \<Rightarrow> 'a list \<Rightarrow> 'a list" where
  "off_by_one pre suc as = concat (map (\<lambda>a. [pre a, a, suc a]) as)"

definition boolDomain :: "bool Domain" where
  "boolDomain =
     \<lparr>dm_Equal = (=), dm_Less = (\<lambda>a b. Ret (\<not> a \<and> b)), dm_Predecessor = (\<lambda>_. Panic), dm_Successor = (\<lambda>_. Panic),
      dm_SomethingNotEqual = Not, dm_Samples = (\<lambda>_. Ret [False, True]), dm_SamplesForAll = (\<lambda>_. Ret [False, True])\<rparr>"

definition readOnlyDomain :: "bool Domain" where
  "readOnlyDomain = boolDomain\<lparr>dm_Samples := (\<lambda>v. Ret [v]), dm_SamplesForAll := Ret\<rparr>"

definition uint16_SamplesForAll :: "16 word list \<Rightarrow> 16 word list" where
  "uint16_SamplesForAll as =
     removeDuplicatesGeneric ([0, - 1] @ off_by_one (\<lambda>a. a - 1) (\<lambda>a. a + 1) as @ map (\<lambda>i. push_bit i 1) [0..<16])"

definition uint16Domain :: "16 word Domain" where
  "uint16Domain =
     \<lparr>dm_Equal = (=), dm_Less = (\<lambda>a b. Ret (a < b)), dm_Predecessor = (\<lambda>a. Ret (a - 1)), dm_Successor = (\<lambda>a. Ret (a + 1)),
      dm_SomethingNotEqual = (\<lambda>a. a + 1), dm_Samples = (\<lambda>a. Ret (uint16_SamplesForAll [a])),
      dm_SamplesForAll = (\<lambda>as. Ret (uint16_SamplesForAll as))\<rparr>"

definition numericParameterSamples :: "u256 list" where
  "numericParameterSamples =
     [0, 1, 30, 31, 32, 255, 2 ^ 8, 2 ^ 32, 2 ^ 64, 2 ^ 128, 2 ^ 192, drop_bit 1 (- 1), 2 ^ 255, - 1, 2 ^ 64 + 1]"

definition u256_SamplesForAll :: "u256 list \<Rightarrow> u256 list" where
  "u256_SamplesForAll as = removeDuplicatesGeneric (off_by_one (\<lambda>a. a - 1) (\<lambda>a. a + 1) as @ numericParameterSamples)"

definition u256Domain :: "u256 Domain" where
  "u256Domain =
     \<lparr>dm_Equal = (=), dm_Less = (\<lambda>a b. Ret (a < b)), dm_Predecessor = (\<lambda>a. Ret (a - 1)), dm_Successor = (\<lambda>a. Ret (a + 1)),
      dm_SomethingNotEqual = (\<lambda>a. a + 1), dm_Samples = (\<lambda>a. Ret (u256_SamplesForAll [a])),
      dm_SamplesForAll = (\<lambda>as. Ret (u256_SamplesForAll as))\<rparr>"

text \<open>The first byte of an address is its most significant one.\<close>

definition addressDomain :: "Address Domain" where
  "addressDomain =
     \<lparr>dm_Equal = (=), dm_Less = (\<lambda>_ _. Panic), dm_Predecessor = (\<lambda>_. Panic), dm_Successor = (\<lambda>_. Panic),
      dm_SomethingNotEqual = (\<lambda>a. a + 2 ^ 152), dm_Samples = (\<lambda>_. Panic), dm_SamplesForAll = (\<lambda>_. Panic)\<rparr>"

definition valueDomain :: "u256 Domain" where
  "valueDomain = u256Domain\<lparr>
     dm_Samples := (\<lambda>a. Ret (off_by_one (\<lambda>a. a - 1) (\<lambda>a. a + 1) [a])),
     dm_SamplesForAll := (\<lambda>as. Ret (off_by_one (\<lambda>a. a - 1) (\<lambda>a. a + 1) as))\<rparr>"

definition revision_Predecessor :: "Revision \<Rightarrow> Revision" where
  "revision_Predecessor a =
     (if a = R07_Istanbul then R99_UnknownNextRevision
      else if a = R99_UnknownNextRevision then NewestSupportedRevision else Revision (rev_num a - 1))"

definition revision_Successor :: "Revision \<Rightarrow> Revision" where
  "revision_Successor a =
     (if a = R99_UnknownNextRevision then R07_Istanbul
      else if a = NewestSupportedRevision then R99_UnknownNextRevision else Revision (rev_num a + 1))"

definition revision_Samples :: "Revision list" where
  "revision_Samples = R99_UnknownNextRevision # map Revision [rev_num R07_Istanbul..rev_num NewestSupportedRevision]"

definition revisionDomain :: "Revision Domain" where
  "revisionDomain =
     \<lparr>dm_Equal = (=), dm_Less = (\<lambda>a b. Ret (a < b)), dm_Predecessor = (\<lambda>a. Ret (revision_Predecessor a)),
      dm_Successor = (\<lambda>a. Ret (revision_Successor a)), dm_SomethingNotEqual = revision_Successor,
      dm_Samples = (\<lambda>_. Ret revision_Samples), dm_SamplesForAll = (\<lambda>_. Ret revision_Samples)\<rparr>"

fun status_num :: "StatusCode \<Rightarrow> nat" where
  "status_num Running = 0" | "status_num Stopped = 1" | "status_num Reverted = 2" | "status_num Failed = 3"

definition statusCodeDomain :: "StatusCode Domain" where
  "statusCodeDomain =
     \<lparr>dm_Equal = (=), dm_Less = (\<lambda>a b. Ret (status_num a < status_num b)), dm_Predecessor = (\<lambda>_. Panic),
      dm_Successor = (\<lambda>_. Panic), dm_SomethingNotEqual = (\<lambda>a. if a = Running then Stopped else Running),
      dm_Samples = (\<lambda>a. Ret [a]), dm_SamplesForAll = Ret\<rparr>"

definition pc_SamplesForAll :: "u256 list \<Rightarrow> u256 list" where
  "pc_SamplesForAll as =
     (let pcs = map (\<lambda>a. ucast (Uint64 a)) (filter (\<lambda>a. IsUint64 a \<and> Uint64 a \<le> 65535) as)
      in map (\<lambda>cur. NewU256 (ucast cur)) (uint16_SamplesForAll pcs))"

definition pcDomain :: "u256 Domain" where
  "pcDomain = u256Domain\<lparr>
     dm_Samples := (\<lambda>a. Ret (pc_SamplesForAll [a])), dm_SamplesForAll := (\<lambda>as. Ret (pc_SamplesForAll as))\<rparr>"

text \<open>Op-codes are bytes: their successor wraps around.\<close>

definition opCodeDomain :: "OpCode Domain" where
  "opCodeDomain =
     \<lparr>dm_Equal = (=), dm_Less = (\<lambda>a b. Ret (a < b)), dm_Predecessor = (\<lambda>_. Panic), dm_Successor = (\<lambda>_. Panic),
      dm_SomethingNotEqual = (\<lambda>a. (a + 1) mod 256), dm_Samples = (\<lambda>a. Ret [a, (a + 1) mod 256]),
      dm_SamplesForAll = (\<lambda>_. Ret [0..<256])\<rparr>"

definition stackSize_SamplesForAll :: "int list \<Rightarrow> int list" where
  "stackSize_SamplesForAll as =
     removeDuplicatesGeneric ([0, 1024] @ concat (map (\<lambda>a.
       if 0 \<le> a \<and> a \<le> 1024
       then (if a \<noteq> 0 then [a - 1] else []) @ [a] @ (if a \<noteq> 1024 then [a + 1] else []) else []) as))"

definition go_rem :: "int \<Rightarrow> int \<Rightarrow> int" where
  "go_rem a b = a - go_quot a b * b"

definition stackSizeDomain :: "int Domain" where
  "stackSizeDomain =
     \<lparr>dm_Equal = (=), dm_Less = (\<lambda>a b. Ret (a < b)), dm_Predecessor = (\<lambda>a. Ret (int64 (a - 1))),
      dm_Successor = (\<lambda>a. Ret (int64 (a + 1))), dm_SomethingNotEqual = (\<lambda>a. go_rem (int64 (a + 1)) 1024),
      dm_Samples = (\<lambda>a. Ret (stackSize_SamplesForAll [a])), dm_SamplesForAll = (\<lambda>as. Ret (stackSize_SamplesForAll as))\<rparr>"

abbreviation MaxGasUsedByCt :: Gas where "MaxGasUsedByCt \<equiv> 500000000000"

definition gas_SamplesForAll :: "Gas list \<Rightarrow> Gas list" where
  "gas_SamplesForAll as =
     removeDuplicatesGeneric (map (\<lambda>a. if MaxGasUsedByCt < a then MaxGasUsedByCt else a)
       ([0, 200, MaxGasUsedByCt] @ off_by_one (\<lambda>a. int64 (a - 1)) (\<lambda>a. int64 (a + 1)) as))"

definition gasDomain :: "Gas Domain" where
  "gasDomain =
     \<lparr>dm_Equal = (=), dm_Less = (\<lambda>a b. Ret (a < b)), dm_Predecessor = (\<lambda>a. Ret (int64 (a - 1))),
      dm_Successor = (\<lambda>a. Ret (int64 (a + 1))), dm_SomethingNotEqual = (\<lambda>a. int64 (a + 1)),
      dm_Samples = (\<lambda>a. Ret (gas_SamplesForAll [a])), dm_SamplesForAll = (\<lambda>as. Ret (gas_SamplesForAll as))\<rparr>"

definition blockNumberOffset_SamplesForAll :: "int list \<Rightarrow> int list" where
  "blockNumberOffset_SamplesForAll as =
     removeDuplicatesGeneric ([- (2 ^ 63), - 1, 0, 1, 255, 256, 257, 2 ^ 63 - 1] @
       off_by_one (\<lambda>a. int64 (a - 1)) (\<lambda>a. int64 (a + 1)) as)"

definition BlockNumberOffsetDomain :: "int Domain" where
  "BlockNumberOffsetDomain =
     \<lparr>dm_Equal = (=), dm_Less = (\<lambda>a b. Ret (a < b)), dm_Predecessor = (\<lambda>a. Ret (int64 (a - 1))),
      dm_Successor = (\<lambda>a. Ret (int64 (a + 1))), dm_SomethingNotEqual = (\<lambda>a. int64 (a + 2)),
      dm_Samples = (\<lambda>a. Ret (blockNumberOffset_SamplesForAll [a])),
      dm_SamplesForAll = (\<lambda>as. Ret (blockNumberOffset_SamplesForAll as))\<rparr>"

fun designator_num :: "DelegationDesignatorState \<Rightarrow> nat" where
  "designator_num NoDelegationDesignation = 0" | "designator_num WarmDelegationDesignation = 1"
| "designator_num ColdDelegationDesignation = 2"

fun designator_next :: "DelegationDesignatorState \<Rightarrow> DelegationDesignatorState" where
  "designator_next NoDelegationDesignation = WarmDelegationDesignation"
| "designator_next WarmDelegationDesignation = ColdDelegationDesignation"
| "designator_next ColdDelegationDesignation = NoDelegationDesignation"

definition DelegationDesignatorDomain :: "DelegationDesignatorState Domain" where
  "DelegationDesignatorDomain =
     (let all = [NoDelegationDesignation, WarmDelegationDesignation, ColdDelegationDesignation] in
      \<lparr>dm_Equal = (=), dm_Less = (\<lambda>a b. Ret (designator_num a < designator_num b)), dm_Predecessor = (\<lambda>_. Panic),
       dm_Successor = (\<lambda>_. Panic), dm_SomethingNotEqual = designator_next, dm_Samples = (\<lambda>_. Ret all),
       dm_SamplesForAll = (\<lambda>_. Ret all)\<rparr>)"

section \<open>Restrictions of the generator\<close>

datatype RestrictionKind = RestrictLess | RestrictLessEqual | RestrictEqual | RestrictGreaterEqual | RestrictGreater

text \<open>
  The restrictions of the expressions \<open>Gas\<close> and \<open>StackSize\<close> act on a range solver of the
  generator, for gas from 0 to \<open>MaxGasUsedByCt\<close> and for stacks from 0 to 1024.
\<close>

definition gas_Restrict :: "RestrictionKind \<Rightarrow> Gas \<Rightarrow> RangeSolver \<Rightarrow> RangeSolver" where
  "gas_Restrict kind amount g =
     (case kind of
        RestrictLess \<Rightarrow> rs_AddUpperBoundary (int64 (amount - 1)) g
      | RestrictLessEqual \<Rightarrow> rs_AddUpperBoundary amount g
      | RestrictEqual \<Rightarrow> rs_AddEqualityConstraint amount g
      | RestrictGreaterEqual \<Rightarrow> rs_AddLowerBoundary amount g
      | RestrictGreater \<Rightarrow> rs_AddLowerBoundary (int64 (amount + 1)) g)"

definition stackSize_Restrict :: "RestrictionKind \<Rightarrow> int \<Rightarrow> RangeSolver \<Rightarrow> RangeSolver" where
  "stackSize_Restrict kind n g =
     (case kind of
        RestrictLess \<Rightarrow> rs_AddUpperBoundary (int64 (n - 1)) g
      | RestrictLessEqual \<Rightarrow> rs_AddUpperBoundary n g
      | RestrictEqual \<Rightarrow> rs_AddEqualityConstraint n g
      | RestrictGreaterEqual \<Rightarrow> rs_AddLowerBoundary n g
      | RestrictGreater \<Rightarrow> rs_AddLowerBoundary (int64 (n + 1)) g)"

definition gasConstraints :: RangeSolver where
  "gasConstraints = \<lparr>rs_min = 0, rs_max = MaxGasUsedByCt\<rparr>"

definition stackSizeConstraints :: RangeSolver where
  "stackSizeConstraints = \<lparr>rs_min = 0, rs_max = 1024\<rparr>"

text \<open>The \<open>Restrict\<close> methods of the conditions, for an expression with domain \<open>D\<close> and restriction \<open>R\<close>.\<close>

definition eq_Restrict :: "'a Domain \<Rightarrow> (RestrictionKind \<Rightarrow> 'a \<Rightarrow> 'g \<Rightarrow> 'g) \<Rightarrow> 'a \<Rightarrow> 'g \<Rightarrow> 'g go" where
  "eq_Restrict D R rhs g = Ret (R RestrictEqual rhs g)"

definition ne_Restrict :: "'a Domain \<Rightarrow> (RestrictionKind \<Rightarrow> 'a \<Rightarrow> 'g \<Rightarrow> 'g) \<Rightarrow> 'a \<Rightarrow> 'g \<Rightarrow> 'g go" where
  "ne_Restrict D R rhs g = Ret (R RestrictEqual (dm_SomethingNotEqual D rhs) g)"

definition lt_Restrict :: "'a Domain \<Rightarrow> (RestrictionKind \<Rightarrow> 'a \<Rightarrow> 'g \<Rightarrow> 'g) \<Rightarrow> 'a \<Rightarrow> 'g \<Rightarrow> 'g go" where
  "lt_Restrict D R rhs g = go_bind (dm_Predecessor D rhs) (\<lambda>p. Ret (R RestrictLess p g))"

definition le_Restrict :: "'a Domain \<Rightarrow> (RestrictionKind \<Rightarrow> 'a \<Rightarrow> 'g \<Rightarrow> 'g) \<Rightarrow> 'a \<Rightarrow> 'g \<Rightarrow> 'g go" where
  "le_Restrict D R rhs g = Ret (R RestrictLessEqual rhs g)"

definition gt_Restrict :: "'a Domain \<Rightarrow> (RestrictionKind \<Rightarrow> 'a \<Rightarrow> 'g \<Rightarrow> 'g) \<Rightarrow> 'a \<Rightarrow> 'g \<Rightarrow> 'g go" where
  "gt_Restrict D R rhs g = go_bind (dm_Successor D rhs) (\<lambda>p. Ret (R RestrictGreater p g))"

definition ge_Restrict :: "'a Domain \<Rightarrow> (RestrictionKind \<Rightarrow> 'a \<Rightarrow> 'g \<Rightarrow> 'g) \<Rightarrow> 'a \<Rightarrow> 'g \<Rightarrow> 'g go" where
  "ge_Restrict D R rhs g = Ret (R RestrictGreaterEqual rhs g)"

text \<open>The values a solver can still produce.\<close>

fun allowed :: "RangeSolver go \<Rightarrow> int set" where
  "allowed Panic = {}"
| "allowed (Ret s) = {rs_min s .. rs_max s}"

lemma allowed_bounds:
  "allowed (Ret (rs_AddUpperBoundary v s)) = allowed (Ret s) \<inter> {..v}"
  "allowed (Ret (rs_AddLowerBoundary v s)) = allowed (Ret s) \<inter> {v..}"
  by (auto simp: rs_AddUpperBoundary_def rs_AddLowerBoundary_def)

lemma allowed_equal: "allowed (Ret (rs_AddEqualityConstraint v s)) = allowed (Ret s) \<inter> {v}"
  by (auto simp: rs_AddEqualityConstraint_def rs_AddUpperBoundary_def rs_AddLowerBoundary_def)

lemmas restrict_defs = eq_Restrict_def ne_Restrict_def lt_Restrict_def le_Restrict_def gt_Restrict_def ge_Restrict_def
  gas_Restrict_def stackSize_Restrict_def gasDomain_def stackSizeDomain_def

definition gas_allowed ::
  "(Gas Domain \<Rightarrow> (RestrictionKind \<Rightarrow> Gas \<Rightarrow> RangeSolver \<Rightarrow> RangeSolver) \<Rightarrow> Gas \<Rightarrow> RangeSolver \<Rightarrow> RangeSolver go) \<Rightarrow> Gas \<Rightarrow> Gas set" where
  "gas_allowed restrict v = allowed (restrict gasDomain gas_Restrict v gasConstraints)"

lemma allowed_gas: "allowed (Ret gasConstraints) = {0..MaxGasUsedByCt}"
  by (simp add: gasConstraints_def)

lemma gas_allowed_eq:
  assumes "\<bar>v\<bar> < 2 ^ 62"
  shows "gas_allowed eq_Restrict v = {0..MaxGasUsedByCt} \<inter> {v}" "gas_allowed le_Restrict v = {0..MaxGasUsedByCt} \<inter> {..v}"
    "gas_allowed ge_Restrict v = {0..MaxGasUsedByCt} \<inter> {v..}" "gas_allowed ne_Restrict v = {0..MaxGasUsedByCt} \<inter> {v + 1}"
    "gas_allowed lt_Restrict v = {0..MaxGasUsedByCt} \<inter> {..v - 2}" "gas_allowed gt_Restrict v = {0..MaxGasUsedByCt} \<inter> {v + 2..}"
  using assms
  by (simp_all add: gas_allowed_def restrict_defs allowed_bounds allowed_equal allowed_gas add.commute del: allowed.simps(2))

text \<open>
  C33: what conditions on gas make the generator produce. Equality and the bounds \<open>Le\<close> and
  \<open>Ge\<close> admit exactly the amounts that satisfy them and \<open>Ne\<close> admits one such amount. \<open>Lt\<close> and
  \<open>Gt\<close> are too strict by one: they pass the predecessor or successor of their operand to a
  restriction that is strict itself.
\<close>

theorem gas_restrictions:
  assumes "\<bar>v\<bar> < 2 ^ 62"
  shows "gas_allowed eq_Restrict v = {g. 0 \<le> g \<and> g \<le> MaxGasUsedByCt \<and> g = v} \<and>
    gas_allowed le_Restrict v = {g. 0 \<le> g \<and> g \<le> MaxGasUsedByCt \<and> g \<le> v} \<and>
    gas_allowed ge_Restrict v = {g. 0 \<le> g \<and> g \<le> MaxGasUsedByCt \<and> v \<le> g} \<and>
    gas_allowed ne_Restrict v = {g. 0 \<le> g \<and> g \<le> MaxGasUsedByCt \<and> g = v + 1} \<and>
    gas_allowed lt_Restrict v = {g. 0 \<le> g \<and> g \<le> MaxGasUsedByCt \<and> g < v - 1} \<and>
    gas_allowed gt_Restrict v = {g. 0 \<le> g \<and> g \<le> MaxGasUsedByCt \<and> v + 1 < g}"
  using gas_allowed_eq [OF assms] by auto

text \<open>
  \<open>Lt Gas 1\<close>, which the rule for too little gas of \<open>JUMPDEST\<close> has, cannot be generated,
  although states without gas satisfy it.
\<close>

theorem gas_restrictions_witness: "gas_allowed lt_Restrict 1 = {} \<and> 0 \<in> gas_allowed le_Restrict 0"
proof
  have "gas_allowed lt_Restrict 1 = {g. 0 \<le> g \<and> g \<le> MaxGasUsedByCt \<and> g < 1 - 1}" using gas_restrictions [of 1] by simp
  then show "gas_allowed lt_Restrict 1 = {}" by simp
  have "gas_allowed le_Restrict 0 = {g. 0 \<le> g \<and> g \<le> MaxGasUsedByCt \<and> g \<le> 0}" using gas_restrictions [of 0] by simp
  then show "0 \<in> gas_allowed le_Restrict 0" by simp
qed

text \<open>The same for the size of the stack: the rule for too few operands of a unary instruction.\<close>

lemma stackSize_lt_one: "allowed (lt_Restrict stackSizeDomain stackSize_Restrict 1 stackSizeConstraints) = {}"
  by (simp add: restrict_defs rs_AddUpperBoundary_def stackSizeConstraints_def)

section \<open>The contract of domains\<close>

text \<open>
  On the \<open>valid\<close> values the samples of a value contain it, and \<open>SomethingNotEqual\<close> is what
  its name says.
\<close>

locale test_domain =
  fixes D :: "'a Domain" and valid :: "'a \<Rightarrow> bool"
  assumes something_not_equal: "valid a \<Longrightarrow> \<not> dm_Equal D (dm_SomethingNotEqual D a) a"
    and equal: "dm_Equal D a b \<longleftrightarrow> a = b"
    and samples: "valid a \<Longrightarrow> \<exists>xs. dm_Samples D a = Ret xs \<and> a \<in> set xs"
    and samples_all: "\<exists>xs. dm_SamplesForAll D as = Ret xs"
begin

text \<open>The values tested for \<open>Eq\<close> contain one that satisfies it, and \<open>Ne\<close> asks for one that satisfies it.\<close>

lemma eq_has_test:
  assumes "valid a" and "dm_Samples D a = Ret xs"
  shows "\<exists>x \<in> set xs. dm_Equal D x a"
  using samples [OF assms(1)] assms(2) by (auto simp: equal)

lemma ne_Restrict_ok:
  assumes "valid a"
  shows "\<exists>v. ne_Restrict D R a g = Ret (R RestrictEqual v g) \<and> \<not> dm_Equal D v a"
  using something_not_equal [OF assms] by (auto simp: ne_Restrict_def)

end

lemma set_dedup_loop: "set (dedup_loop seen xs) = set xs - seen"
  by (induction xs arbitrary: seen) auto

lemma set_removeDuplicates [simp]: "set (removeDuplicatesGeneric xs) = set xs"
  by (simp add: removeDuplicatesGeneric_def set_dedup_loop)

lemma distinct_removeDuplicates: "distinct (removeDuplicatesGeneric xs)"
proof -
  have "distinct (dedup_loop seen xs)" for seen by (induction xs arbitrary: seen) (auto simp: set_dedup_loop)
  then show ?thesis by (simp add: removeDuplicatesGeneric_def)
qed

lemma set_off_by_one [simp]: "set (off_by_one p s as) = (\<Union>a \<in> set as. {p a, a, s a})"
  by (auto simp: off_by_one_def)

interpretation bools: test_domain boolDomain "\<lambda>_. True"
  by unfold_locales (auto simp: boolDomain_def)

interpretation read_only: test_domain readOnlyDomain "\<lambda>_. True"
  by unfold_locales (auto simp: readOnlyDomain_def boolDomain_def)

interpretation uint16s: test_domain uint16Domain "\<lambda>_. True"
  by unfold_locales (auto simp: uint16Domain_def uint16_SamplesForAll_def)

interpretation u256s: test_domain u256Domain "\<lambda>_. True"
  by unfold_locales (auto simp: u256Domain_def u256_SamplesForAll_def)

interpretation values_d: test_domain valueDomain "\<lambda>_. True"
  by unfold_locales (auto simp: valueDomain_def u256Domain_def)

interpretation revs: test_domain revisionDomain "\<lambda>r. r = R99_UnknownNextRevision \<or> MinRevision \<le> r \<and> r \<le> NewestSupportedRevision"
proof (unfold_locales, goal_cases)
  case (1 a)
  then show ?case by (cases a) (auto simp: revisionDomain_def revision_Successor_def)
next
  case (3 a)
  then show ?case by (cases a) (auto simp: revisionDomain_def revision_Samples_def)
qed (auto simp: revisionDomain_def)

interpretation statuses: test_domain statusCodeDomain "\<lambda>_. True"
  by unfold_locales (auto simp: statusCodeDomain_def)

lemma uint16_round_trip:
  assumes "unat a \<le> 65535"
  shows "NewU256 (ucast (ucast (Uint64 a) :: 16 word)) = a" "IsUint64 a" "Uint64 a \<le> 65535"
proof -
  show i: "IsUint64 a" using assms by (simp add: IsUint64_def)
  then have u: "unat (Uint64 a) = unat a" by (rule unat_Uint64)
  then show "Uint64 a \<le> 65535" using assms by (simp add: word_le_nat_alt)
  have "unat (ucast (ucast (Uint64 a) :: 16 word) :: u64) = unat a"
    using u assms by (simp add: unsigned_ucast_eq take_bit_eq_mod unat_mod_distrib)
  then show "NewU256 (ucast (ucast (Uint64 a) :: 16 word)) = a"
    by (simp add: NewU256_def word_unat_eq_iff unat_SetUint64)
qed

interpretation pcs: test_domain pcDomain "\<lambda>a. unat a \<le> 65535"
proof (unfold_locales, goal_cases)
  case (3 a)
  have "ucast (Uint64 a) \<in> set (uint16_SamplesForAll [ucast (Uint64 a)])" by (simp add: uint16_SamplesForAll_def)
  then have "NewU256 (ucast (ucast (Uint64 a) :: 16 word)) \<in> set (pc_SamplesForAll [a])"
    using uint16_round_trip(2,3) [OF 3] by (auto simp: pc_SamplesForAll_def)
  then show ?case using uint16_round_trip(1) [OF 3] by (simp add: pcDomain_def)
qed (auto simp: pcDomain_def u256Domain_def)

interpretation opcodes: test_domain opCodeDomain "\<lambda>op. op < 256"
  by unfold_locales (auto simp: opCodeDomain_def mod_Suc)

interpretation stack_sizes: test_domain stackSizeDomain "\<lambda>n. 0 \<le> n \<and> n \<le> 1024"
proof (unfold_locales, goal_cases)
  case (1 a)
  have "go_rem (a + 1) 1024 = (a + 1) mod 1024" using 1 by (simp add: go_rem_def minus_div_mult_eq_mod)
  moreover have "(a + 1) mod 1024 \<noteq> a" using 1 by (cases "a = 1024"; cases "a = 1023") auto
  ultimately show ?case using 1 by (simp add: stackSizeDomain_def)
qed (auto simp: stackSizeDomain_def stackSize_SamplesForAll_def)

lemma int64_succ: "- (2 ^ 63) \<le> a \<Longrightarrow> a < 2 ^ 63 \<Longrightarrow> 0 < k \<Longrightarrow> k < 2 ^ 63 \<Longrightarrow> int64 (a + k) \<noteq> a"
proof (cases "a + k < 2 ^ 63")
  case False
  assume "- (2 ^ 63) \<le> a" "a < 2 ^ 63" "0 < k" "k < 2 ^ 63"
  then have "(a + k + 2 ^ 63) mod 2 ^ 64 = a + k + 2 ^ 63 - 2 ^ 64"
    using False by (intro int_mod_pos_eq [where q = 1]) simp_all
  then show ?thesis using \<open>k < 2 ^ 63\<close> by (simp add: int64_def)
qed (simp add: int64_id)

interpretation gases: test_domain gasDomain "\<lambda>g. - (2 ^ 63) \<le> g \<and> g \<le> MaxGasUsedByCt"
  using int64_succ [of _ 1] by unfold_locales (auto simp: gasDomain_def gas_SamplesForAll_def image_iff)

interpretation offsets: test_domain BlockNumberOffsetDomain "\<lambda>g. - (2 ^ 63) \<le> g \<and> g < 2 ^ 63"
  using int64_succ [of _ 2] by unfold_locales (auto simp: BlockNumberOffsetDomain_def blockNumberOffset_SamplesForAll_def)

interpretation designators: test_domain DelegationDesignatorDomain "\<lambda>_. True"
proof (unfold_locales, goal_cases)
  case (1 a)
  then show ?case by (cases a) (auto simp: DelegationDesignatorDomain_def Let_def)
next
  case (3 a)
  then show ?case by (cases a) (auto simp: DelegationDesignatorDomain_def Let_def)
qed (auto simp: DelegationDesignatorDomain_def Let_def)

end
