(* ===== verification/Spec2Isabelle.thy ===== *)
theory Spec2Isabelle
  imports Registry Evm_Properties Hash_Cache Sfvm_Functional Lfvm_Properties Floria_Run Ct_Conformance Ct_Domains
begin

text \<open>
  \<^bold>\<open>A verification library for Tosca.\<close>

  \<^bold>\<open>The program.\<close> Tosca (\<open>src/go\<close>) executes Ethereum transactions. A \<^emph>\<open>processor\<close> checks a
  transaction, sells it gas, and runs calls and creations of contracts; the code of a contract
  is run by an \<^emph>\<open>interpreter\<close>, which calls back into the processor for nested calls. The world
  state (accounts, storage, logs, snapshots) is provided by the client through an interface.
  Processors and interpreters are found by name in registries. Two interpreters are written in
  Go: the short-form one (\<open>interpreter/sfvm\<close>) executes byte code directly, the long-form one
  (\<open>interpreter/lfvm\<close>) first converts it into instructions of 32 bits. The conformance tests
  (\<open>ct\<close>) hold an executable specification of the EVM as a list of rules, generate states on which
  a rule applies, run one step of an interpreter on them and compare the result with the effect
  of the rule.

  \<^bold>\<open>Modelling conventions\<close> (theory \<open>Prelude\<close>). Unsigned Go integers and byte arrays of fixed
  size are words (\<open>u64\<close>, \<open>u256\<close>, \<open>Address\<close>, \<open>Hash\<close>), signed ones are integers with the
  wrap-around written out (\<open>int32\<close>, \<open>int64\<close>). Structs are records. An operation that may fail
  returns \<open>(error + value) \<times> state\<close> (\<open>ret\<close>, \<open>fail\<close>, \<open>bind\<close>); a Go panic is the error \<open>GoPanic\<close>, or
  the value \<open>Panic\<close> of the type \<open>go\<close> where an operation has no errors. Loops that depend on gas
  are \<open>partial_function (option)\<close>, and theorems show that they return. Code that is not in the
  repository is an argument: the 256-bit integer package (\<open>uint256_lib\<close>, with the locale
  \<open>uint256_arith\<close> for its documented behaviour and words as an instance), Keccak, the LRU package
  (\<open>lru\<close>, \<open>lru_laws\<close>), the precompiled contracts of go-ethereum, and the client's transaction
  context (\<open>TransactionContext\<close>, \<open>RunContext\<close>).

  \<^bold>\<open>Theories and sources\<close>

  \<^item> \<open>Tosca_Types\<close>, \<open>Opcodes\<close>, \<open>Registry\<close>: \<open>tosca/*.go\<close>, \<open>tosca/vm/opcodes.go\<close>. Revisions, storage
    statuses, arithmetic on values, text encodings; op-codes; the registries.
  \<^item> \<open>Evm_Stack\<close>, \<open>Evm_Context\<close>, \<open>Evm_Memory\<close>, \<open>Evm_Gas\<close>, \<open>Instructions\<close>: what the two interpreters
    share (\<open>stack.go\<close>, \<open>memory.go\<close>, \<open>gas.go\<close>, \<open>stack_usage.go\<close>, \<open>instructions.go\<close>), one definition per
    Go function, on a context record that each interpreter extends.
  \<^item> \<open>Hash_Cache\<close>: \<open>hash_cache.go\<close>, with the interleaving of the critical sections and reads of
    concurrent calls.
  \<^item> \<open>Jump_Analysis\<close>, \<open>Sfvm\<close>: \<open>sfvm/analysis.go\<close>, \<open>sfvm/interpreter.go\<close>, \<open>sfvm/sfvm.go\<close>.
  \<^item> \<open>Lfvm_Code\<close>, \<open>Lfvm\<close>: \<open>lfvm/opcode.go\<close>, \<open>converter.go\<close>, \<open>gas.go\<close>, \<open>stack_usage.go\<close>,
    \<open>interpreter.go\<close>, \<open>super_instructions.go\<close>, \<open>lfvm.go\<close>.
  \<^item> \<open>Floria\<close>, \<open>Floria_Process\<close>, \<open>Floria_Processor\<close>: \<open>processor/floria\<close>. Calls, creations, state
    contract, precompiled contracts; the run context; transactions.
  \<^item> \<open>Ct_State\<close>, \<open>Ct_Rules\<close>, \<open>Ct_Spec\<close>, \<open>Ct_Spec_Calls\<close>, \<open>Ct_Adapter\<close>: \<open>ct/common\<close>, \<open>ct/st\<close>, \<open>ct/rlz\<close>,
    \<open>ct/spc\<close>, \<open>ct/utils\<close>, \<open>sfvm/ct.go\<close>. Test states, conditions and effects, all rules of
    \<open>getAllRules\<close>, and the adapter that steps the interpreter on a test state.
  \<^item> \<open>Ct_Solvers\<close>, \<open>Ct_Domains\<close>: \<open>ct/gen/interval_solver.go\<close>, \<open>ct/gen/range_solver.go\<close>,
    \<open>ct/rlz/domains.go\<close>. The solvers behind the generation of test states.

  \<^bold>\<open>What is shown\<close>

  \<^item> \<^emph>\<open>Data structures\<close> (\<open>Evm_Stack\<close>, \<open>Evm_Properties\<close>, \<open>Hash_Cache\<close>, \<open>Registry\<close>). The array stack
    refines a list (locale \<open>evm_stack\<close>, interpreted on both); memory grows and is charged as
    specified; storage metering does not depend on the path of writes; the hash cache refines a
    list of the keys used last under all interleavings, and its answers are right unless the
    key is evicted between the release of the lock and the read of the entry; registered names
    stay (locale \<open>named_registry\<close>).
  \<^item> \<^emph>\<open>Safety of the short form\<close> (\<open>Exec_Logic\<close>, \<open>Sfvm_Safety\<close>, \<open>Sfvm_Functional\<close>). Every instruction is
    \<open>sound\<close> for its entry in the stack-usage table; a step never panics, keeps the invariant and
    uses gas; so every run ends and returns between zero and the given gas. Jumps reach exactly
    the valid destinations.
  \<^item> \<^emph>\<open>Equivalence of the interpreters\<close> (\<open>Uniformity\<close>, \<open>Lfvm_Layout\<close>, \<open>Lfvm_Push\<close>, \<open>Lfvm_Sim\<close>,
    \<open>Lfvm_Equiv\<close>, \<open>Lfvm_Super\<close>, \<open>Lfvm_Properties\<close>). The conversion keeps jump destinations; the long form
    simulates the short form step by step, hence the entry points agree; super instructions have
    the effect of their parts, except one that truncates its jump target.
  \<^item> \<^emph>\<open>The processor\<close> (\<open>Interpreter_Contract\<close>, \<open>Sfvm_Uniform\<close>, \<open>Floria_Calls\<close> to \<open>Floria_Run\<close>). The locale
    \<open>interpreter\<close> states what a processor relies on; the long-form interpreter is an instance. The
    locale \<open>floria_ctx\<close> extends it to nested calls: they return their gas, restore depth and
    static flag, and end within the depth limit. The locale \<open>journal\<close> states snapshots: failed
    calls restore the world state. Rejected transactions have no effect, failed ones pay only
    their gas, balances are conserved, every transaction gets a receipt or an error. The
    purchase of gas is exact unless the maximal blob fee wraps around; refunds have an upper
    cap and no lower one.
  \<^item> \<^emph>\<open>Conformance\<close> (\<open>Ct_Conform\<close>, \<open>Ct_Conform_Ops\<close>, \<open>Ct_Conform_Stack\<close>, \<open>Ct_Conform_Env\<close>,
    \<open>Ct_Conform_State\<close>, \<open>Ct_Conform_Memory\<close>, \<open>Ct_Conform_Copy\<close>, \<open>Ct_Conform_Data\<close>, \<open>Ct_Conform_End\<close>,
    \<open>Ct_Conform_Create\<close>, \<open>Ct_Conform_Calls\<close>, \<open>Ct_Conformance\<close>). For every rule of the specification
    and every well-formed test state on which it applies, one step of the short-form
    interpreter gives the state that the rule expects. The proof reduces the rules of an
    instruction to its regular effect (\<open>conforms_dynamic\<close> and its special cases) and compares
    that with the instruction (\<open>conf_run\<close>). It follows that rules that apply together agree.
    Excluded is one case in which the two differ: a cold account that delegates to itself.
  \<^item> \<^emph>\<open>Generation of test states\<close> (\<open>Ct_Solvers\<close>, \<open>Ct_Domains\<close>). The interval solver decides its
    constraints and generates exactly their solutions; all domains fulfil their contract
    (locale \<open>test_domain\<close>); the restrictions of \<open>Lt\<close> and \<open>Gt\<close> are too strict by one.

  \<^bold>\<open>Bounds.\<close> Gas is an \<open>int64\<close>: runs start with \<open>0 \<le> gas < 2^63\<close>. Code is shorter than \<open>maxCode\<close>, so
  that the program counter, an \<open>int32\<close>, does not wrap; the converter rejects codes over 65535
  bytes itself. Input and return data have the lengths of Go slices. The recursion counter of
  nested calls in the model (\<open>max_nesting\<close>, 1026) is two more than the depth limit of the code, and
  it is proved that it is never exhausted. Test states have at most \<open>MaxGasUsedByCt\<close> = 5 * 10^11 gas,
  codes of at most 24576 bytes and memories below the maximal expansion size, which are the bounds
  of the generators.

  \<^bold>\<open>Not modelled.\<close> Keccak (C code), the interpreters behind \<open>evmc\<close> (C++ and Rust) and the geth
  interpreter; the opera and geth processors and the geth adapter, which are glue around
  go-ethereum and go-opera; logging and statistics runners, which only produce output; the string
  and JSON output of all types; the random generators of the parts of test states, the enumeration
  of test cases and the command line tools; mocks and integration tests.
\<close>

end
